(* ===== verification/Prelude.thy ===== *)
theory Prelude
  imports Main "HOL-Library.AList" "HOL-Library.Char_ord" "HOL-Library.List_Lexorder"
begin

text \<open>
  The parts of the Go language and of its standard library that the components share:
  strings as byte lists with the functions of package \<open>strings\<close>, decimal and hexadecimal
  formatting, Go maps as association lists, and the invariant argument for objects whose
  operations run one at a time under a mutex.

  A Go string is a sequence of bytes and an Isabelle \<open>string\<close> is a list of 8-bit \<open>char\<close>s, so
  \<open>length\<close> is \<open>len\<close> and the lexicographic order of \<open>List_Lexorder\<close> over \<open>Char_ord\<close> is the
  order of \<open>sort.Strings\<close>. Case mapping and white space are those of the ASCII range: the
  names the program handles (object names, variable names, image references) are ASCII by
  API validation.
\<close>

named_theorems map_simps \<open>lookups in the association lists that stand for Go maps\<close>
named_theorems str_simps \<open>the functions of package strings\<close>

section \<open>Go maps\<close>

type_synonym 'v gomap = "(string \<times> 'v) list"

text \<open>
  A map value is an association list; \<open>map_of\<close> is the read \<open>m[k]\<close>, \<open>AList.update\<close> the
  write \<open>m[k] = v\<close>, \<open>AList.delete\<close> the built-in \<open>delete\<close>. The order of the list is one
  iteration order of the map; results must not depend on it.
\<close>

definition lookup_str :: "string gomap \<Rightarrow> string \<Rightarrow> string" where
  \<comment> \<open>\<open>m[k]\<close> on a \<open>map[string]string\<close>: the zero value for a missing key\<close>
  "lookup_str m k = (case map_of m k of None \<Rightarrow> [] | Some v \<Rightarrow> v)"

abbreviation entries :: "'v gomap \<Rightarrow> (string \<times> 'v) list" where
  \<comment> \<open>the pairs \<open>for k, v := range m\<close> visits: each key once\<close>
  "entries m \<equiv> AList.clearjunk m"

fun position :: "('a \<Rightarrow> bool) \<Rightarrow> 'a list \<Rightarrow> nat option" where
  \<comment> \<open>the index of the first element of a slice that satisfies a test\<close>
  "position P [] = None"
| "position P (x # xs) = (if P x then Some 0 else map_option Suc (position P xs))"

lemma position_Some: "position P xs = Some i \<Longrightarrow> i < length xs \<and> P (xs ! i) \<and> (\<forall>j < i. \<not> P (xs ! j))"
  by (induction xs arbitrary: i) (auto simp: less_Suc_eq_0_disj split: if_splits)

lemma position_None: "position P xs = None \<longleftrightarrow> (\<forall>x \<in> set xs. \<not> P x)"
  by (induction xs) auto

definition put_all :: "(string \<times> 'v) list \<Rightarrow> 'v gomap \<Rightarrow> 'v gomap" where
  \<comment> \<open>\<open>for k, v := range src { dst[k] = v }\<close>\<close>
  "put_all src dst = fold (\<lambda>(k, v). AList.update k v) src dst"

lemma lookup_str_update [map_simps]:
  "lookup_str (AList.update k v m) j = (if j = k then v else lookup_str m j)"
  by (simp add: lookup_str_def update_conv')

lemma map_of_put_all [map_simps]: "map_of (put_all src dst) = map_of dst ++ map_of (rev src)"
proof (induction src arbitrary: dst)
  case Nil
  then show ?case by (simp add: put_all_def)
next
  case (Cons kv src)
  obtain k v where kv: "kv = (k, v)" by (cases kv)
  have "map_of (put_all (kv # src) dst) = map_of (put_all src (AList.update k v dst))"
    by (simp add: put_all_def kv)
  also have "\<dots> = map_of dst ++ map_of (rev (kv # src))"
    by (rule ext) (simp add: Cons update_conv' kv map_add_def split: option.split)
  finally show ?case .
qed

lemma map_of_distinct_rev: "distinct (map fst src) \<Longrightarrow> map_of (rev src) = map_of src"
proof (induction src)
  case (Cons kv src)
  then have "map_of src (fst kv) = None" by (simp add: map_of_eq_None_iff)
  with Cons show ?case by (cases kv) (auto simp: map_add_def fun_eq_iff split: option.split)
qed simp

lemma map_of_put_all_distinct [map_simps]:
  "distinct (map fst src) \<Longrightarrow> map_of (put_all src dst) = map_of dst ++ map_of src"
proof -
  assume d: "distinct (map fst src)"
  then have "map_of (rev src) = map_of src"
    by (rule map_of_distinct_rev)
  then show ?thesis by (simp add: map_simps)
qed

lemma distinct_put_all: "distinct (map fst dst) \<Longrightarrow> distinct (map fst (put_all src dst))"
  unfolding put_all_def by (induction src arbitrary: dst) (auto simp: distinct_update)


lemma update_new_key: "k \<notin> fst ` set m \<Longrightarrow> AList.update k v m = m @ [(k, v)]"
  by (induction m) auto

lemma put_all_distinct_id:
  "distinct (map fst (dst @ src)) \<Longrightarrow> put_all src dst = dst @ src"
proof (induction src arbitrary: dst)
  case Nil
  then show ?case by (simp add: put_all_def)
next
  case (Cons kv src)
  obtain k v where kv: "kv = (k, v)" by (cases kv)
  from Cons.prems have "k \<notin> fst ` set dst" by (auto simp: kv)
  then have upd: "AList.update k v dst = dst @ [(k, v)]" by (rule update_new_key)
  have "put_all (kv # src) dst = put_all src (AList.update k v dst)" by (simp add: put_all_def kv)
  also have "\<dots> = dst @ kv # src" using Cons.prems by (simp add: upd Cons.IH kv)
  finally show ?case .
qed

declare map_of_clearjunk [map_simps]

text \<open>Sorting by a key that identifies the element forgets the order it started from.\<close>

lemma sort_key_set_cong:
  assumes "distinct (map f xs)" "distinct (map f ys)" "set xs = set ys"
  shows "sort_key f xs = sort_key f ys"
proof (rule map_sorted_distinct_set_unique)
  show "inj_on f (set (sort_key f xs) \<union> set (sort_key f ys))"
    using assms by (simp add: distinct_map)
  show "distinct (map f (sort_key f xs))" "distinct (map f (sort_key f ys))"
    using assms by (simp_all add: distinct_map)
qed (use assms in auto)

lemma map_of_set_cong:
  "distinct (map fst xs) \<Longrightarrow> distinct (map fst ys) \<Longrightarrow> set xs = set ys \<Longrightarrow> map_of xs = map_of ys"
  by (simp add: map_of_inject_set)

lemma set_entries: "set (entries m) = {(k, v). map_of m k = Some v}"
proof -
  have "(k, v) \<in> set (entries m) \<longleftrightarrow> map_of m k = Some v" for k v
    by (metis distinct_clearjunk map_of_clearjunk map_of_eq_Some_iff)
  then show ?thesis by auto
qed

lemma map_of_filter_distinct [map_simps]:
  "distinct (map fst m) \<Longrightarrow> map_of (filter (\<lambda>(k, v). P k v) m) k =
     (case map_of m k of None \<Rightarrow> None | Some v \<Rightarrow> if P k v then Some v else None)"
  by (induction m) (auto simp: map_of_eq_None_iff split: option.split)

section \<open>Package strings\<close>

definition quoted :: "string \<Rightarrow> string" where
  \<comment> \<open>the verb \<open>%q\<close> on a string without characters to escape\<close>
  "quoted s = [CHR 0x22] @ s @ [CHR 0x22]"

definition has_prefix :: "string \<Rightarrow> string \<Rightarrow> bool" where
  "has_prefix s p \<longleftrightarrow> take (length p) s = p"

definition has_suffix :: "string \<Rightarrow> string \<Rightarrow> bool" where
  "has_suffix s p \<longleftrightarrow> length p \<le> length s \<and> drop (length s - length p) s = p"

definition trim_prefix :: "string \<Rightarrow> string \<Rightarrow> string" where
  "trim_prefix s p = (if has_prefix s p then drop (length p) s else s)"

definition trim_suffix :: "string \<Rightarrow> string \<Rightarrow> string" where
  "trim_suffix s p = (if has_suffix s p then take (length s - length p) s else s)"

definition trim_left :: "string \<Rightarrow> string \<Rightarrow> string" where
  "trim_left s cutset = dropWhile (\<lambda>c. c \<in> set cutset) s"

definition trim :: "string \<Rightarrow> string \<Rightarrow> string" where
  "trim s cutset = rev (trim_left (rev (trim_left s cutset)) cutset)"

definition white_space :: string where
  \<comment> \<open>tab, newline, vertical tab, form feed, carriage return, space\<close>
  "white_space = [CHR 0x09, CHR 0x0A, CHR 0x0B, CHR 0x0C, CHR 0x0D, CHR 0x20]"

definition trim_space :: "string \<Rightarrow> string" where
  "trim_space s = trim s white_space"

definition upper_char :: "char \<Rightarrow> char" where
  "upper_char c = (let n = (of_char c :: nat) in if 97 \<le> n \<and> n \<le> 122 then char_of (n - 32) else c)"

definition lower_char :: "char \<Rightarrow> char" where
  "lower_char c = (let n = (of_char c :: nat) in if 65 \<le> n \<and> n \<le> 90 then char_of (n + 32) else c)"

abbreviation to_upper :: "string \<Rightarrow> string" where "to_upper \<equiv> map upper_char"

abbreviation to_lower :: "string \<Rightarrow> string" where "to_lower \<equiv> map lower_char"

fun split_on :: "char \<Rightarrow> string \<Rightarrow> string list" where
  \<comment> \<open>\<open>strings.Split\<close> with a one-byte separator\<close>
  "split_on c [] = [[]]"
| "split_on c (x # xs) =
     (if x = c then [] # split_on c xs
      else (case split_on c xs of [] \<Rightarrow> [[x]] | y # ys \<Rightarrow> (x # y) # ys))"

fun join :: "string list \<Rightarrow> string \<Rightarrow> string" where
  "join [] sep = []"
| "join [x] sep = x"
| "join (x # y # zs) sep = x @ sep @ join (y # zs) sep"

fun index_of :: "string \<Rightarrow> string \<Rightarrow> nat option" where
  \<comment> \<open>\<open>strings.Index\<close>, with \<open>None\<close> for \<open>-1\<close>\<close>
  "index_of [] p = (if p = [] then Some 0 else None)"
| "index_of (c # s) p = (if has_prefix (c # s) p then Some 0 else map_option Suc (index_of s p))"

definition contains :: "string \<Rightarrow> string \<Rightarrow> bool" where
  "contains s p \<longleftrightarrow> index_of s p \<noteq> None"

definition after_last :: "char \<Rightarrow> string \<Rightarrow> string" where
  \<comment> \<open>\<open>if i := strings.LastIndex(s, c); i >= 0 { s = s[i+1:] }\<close>\<close>
  "after_last c s = rev (takeWhile (\<lambda>x. x \<noteq> c) (rev s))"

definition before_first :: "char \<Rightarrow> string \<Rightarrow> string" where
  \<comment> \<open>\<open>if i := strings.Index(s, c); i >= 0 { s = s[:i] }\<close>\<close>
  "before_first c s = takeWhile (\<lambda>x. x \<noteq> c) s"

lemma split_on_not_Nil [simp]: "split_on c s \<noteq> []"
  by (induction s) (auto split: list.splits)

lemma split_on_parts: "x \<in> set (split_on c s) \<Longrightarrow> c \<notin> set x"
  by (induction s arbitrary: x) (auto split: if_splits list.splits)

lemma split_on_single: "length (split_on c s) < 2 \<Longrightarrow> c \<notin> set s"
  by (induction s) (auto split: if_splits list.splits simp: neq_Nil_conv)

lemma split_on_no_sep: "c \<notin> set s \<Longrightarrow> split_on c s = [s]"
  by (induction s) auto

lemma split_on_append_sep: "c \<notin> set s \<Longrightarrow> split_on c (s @ c # t) = s # split_on c t"
  by (induction s) auto

lemma split_on_join [str_simps]:
  "xs \<noteq> [] \<Longrightarrow> \<forall>x \<in> set xs. c \<notin> set x \<Longrightarrow> split_on c (join xs [c]) = xs"
proof (induction xs "[c]" rule: join.induct)
  case (3 x y zs)
  then show ?case by (simp add: split_on_append_sep)
qed (auto simp: split_on_no_sep)

lemma join_eq_Nil_iff: "xs \<noteq> [] \<Longrightarrow> [] \<notin> set xs \<Longrightarrow> join xs sep \<noteq> []"
  by (cases "(xs, sep)" rule: join.cases) auto

lemma set_join_subset: "set (join xs sep) \<subseteq> \<Union> (set ` set xs) \<union> set sep"
  by (induction xs sep rule: join.induct) auto

lemma lower_char_slash [simp]: "lower_char c = CHR ''/'' \<longleftrightarrow> c = CHR ''/''"
proof
  assume l: "lower_char c = CHR ''/''"
  show "c = CHR ''/''"
  proof (cases "65 \<le> (of_char c :: nat) \<and> (of_char c :: nat) \<le> 90")
    case True
    then have "(of_char (char_of ((of_char c :: nat) + 32)) :: nat) = of_char c + 32"
      by (simp add: of_char_of take_bit_eq_mod)
    with l True show ?thesis by (auto simp: lower_char_def Let_def)
  next
    case False
    with l show ?thesis by (auto simp: lower_char_def Let_def)
  qed
qed (simp add: lower_char_def)

lemma slash_to_lower [simp]: "CHR ''/'' \<in> set (to_lower s) \<longleftrightarrow> CHR ''/'' \<in> set s"
  by (induction s) (auto simp: eq_commute [of "CHR ''/''"])

lemma trim_left_id: "s = [] \<or> hd s \<notin> set cs \<Longrightarrow> trim_left s cs = s"
  by (cases s) (auto simp: trim_left_def)

lemma trim_id: "\<forall>c \<in> set s. c \<notin> set cs \<Longrightarrow> trim s cs = s"
  unfolding trim_def trim_left_def
  by (metis dropWhile_eq_self_iff hd_in_set rev_is_Nil_conv rev_rev_ident set_rev)

lemma set_trim_subset: "set (trim s cs) \<subseteq> set s"
  unfolding trim_def trim_left_def by (auto dest!: set_dropWhileD)

lemma length_trim_le: "length (trim s cs) \<le> length s"
  unfolding trim_def trim_left_def
  by (metis length_dropWhile_le length_rev order_trans)

lemma has_prefix_append [simp]: "has_prefix (p @ s) p"
  by (simp add: has_prefix_def)

lemma trim_prefix_append [simp]: "trim_prefix (p @ s) p = s"
  by (simp add: trim_prefix_def)

lemma has_prefix_conv: "has_prefix s p \<longleftrightarrow> (\<exists>t. s = p @ t)"
  by (auto simp: has_prefix_def) (metis append_take_drop_id)


section \<open>Formatting numbers and bytes\<close>

definition digit_char :: "nat \<Rightarrow> char" where
  "digit_char d = char_of (48 + d)"

fun show_nat :: "nat \<Rightarrow> string" where
  \<comment> \<open>\<open>%d\<close> on a non-negative integer\<close>
  "show_nat n = (if n < 10 then [digit_char n] else show_nat (n div 10) @ [digit_char (n mod 10)])"

declare show_nat.simps [simp del]

definition show_int :: "int \<Rightarrow> string" where
  \<comment> \<open>\<open>%d\<close>\<close>
  "show_int i = (if i < 0 then CHR ''-'' # show_nat (nat (- i)) else show_nat (nat i))"

definition hex_digit :: "nat \<Rightarrow> char" where
  "hex_digit d = (if d < 10 then char_of (48 + d) else char_of (87 + d))"

fun hex_encode :: "string \<Rightarrow> string" where
  \<comment> \<open>\<open>hex.EncodeToString\<close>\<close>
  "hex_encode [] = []"
| "hex_encode (c # s) =
     hex_digit ((of_char c :: nat) div 16) # hex_digit ((of_char c :: nat) mod 16) # hex_encode s"

lemma length_hex_encode [simp]: "length (hex_encode s) = 2 * length s"
  by (induction s) auto

lemma hex_digit_inj: "d < 16 \<Longrightarrow> e < 16 \<Longrightarrow> hex_digit d = hex_digit e \<Longrightarrow> d = e"
  by (auto simp: hex_digit_def char_of_eq_iff of_char_of take_bit_eq_mod split: if_splits
      dest!: arg_cong [of _ _ "of_char :: char \<Rightarrow> nat"])

lemma of_char_less_256: "(of_char c :: nat) < 256"
  by (metis (no_types) UNIV_I imageI lessThan_iff atLeastLessThan_iff range_nat_of_char)

lemma hex_encode_inj: "hex_encode s = hex_encode t \<Longrightarrow> s = t"
proof (induction s arbitrary: t)
  case Nil
  then show ?case by (cases t) auto
next
  case (Cons c s)
  from Cons.prems obtain d t' where t: "t = d # t'" by (cases t) auto
  let ?c = "of_char c :: nat" and ?d = "of_char d :: nat"
  have lt: "?c div 16 < 16" "?d div 16 < 16"
    using of_char_less_256 [of c] of_char_less_256 [of d] by (simp_all add: less_mult_imp_div_less)
  from Cons.prems t have "hex_digit (?c div 16) = hex_digit (?d div 16)"
    and "hex_digit (?c mod 16) = hex_digit (?d mod 16)" and rest: "hex_encode s = hex_encode t'"
    by auto
  then have "?c div 16 = ?d div 16" "?c mod 16 = ?d mod 16"
    using lt by (auto intro: hex_digit_inj)
  then have "?c = ?d" by (metis div_mult_mod_eq)
  then have "c = d" by simp
  with Cons.IH [OF rest] t show ?case by simp
qed

lemma length_show_nat_le: "n < 10 ^ k \<Longrightarrow> 0 < k \<Longrightarrow> length (show_nat n) \<le> k"
proof (induction k arbitrary: n)
  case (Suc k)
  show ?case
  proof (cases "n < 10")
    case True
    then show ?thesis by (simp add: show_nat.simps)
  next
    case False
    with Suc.prems have "0 < k" by (cases k) auto
    moreover from Suc.prems have "n div 10 < 10 ^ k" by (simp add: less_mult_imp_div_less mult.commute)
    ultimately have "length (show_nat (n div 10)) \<le> k" using Suc.IH by blast
    with False show ?thesis by (simp add: show_nat.simps [of n])
  qed
qed simp

lemma show_nat_not_Nil [simp]: "show_nat n \<noteq> []"
  by (subst show_nat.simps) simp

fun read_nat :: "nat \<Rightarrow> string \<Rightarrow> nat" where
  \<comment> \<open>the value of a digit string, continuing from an accumulator\<close>
  "read_nat acc [] = acc"
| "read_nat acc (c # s) = read_nat (10 * acc + (of_char c - 48)) s"

lemma read_nat_append: "read_nat a (s @ t) = read_nat (read_nat a s) t"
  by (induction s arbitrary: a) auto

lemma of_digit_char: "d < 10 \<Longrightarrow> (of_char (digit_char d) :: nat) = 48 + d"
  by (simp add: digit_char_def of_char_of take_bit_eq_mod)

lemma read_show_nat [simp]: "read_nat 0 (show_nat n) = n"
proof (induction n rule: show_nat.induct)
  case (1 n)
  show ?case
  proof (cases "n < 10")
    case True
    then show ?thesis by (simp add: show_nat.simps of_digit_char)
  next
    case False
    with 1 show ?thesis by (simp add: show_nat.simps [of n] read_nat_append of_digit_char)
  qed
qed

lemma show_nat_inj: "show_nat m = show_nat n \<Longrightarrow> m = n"
  by (metis read_show_nat)

lemma set_show_nat: "set (show_nat n) \<subseteq> digit_char ` {..<10}"
proof (induction n rule: show_nat.induct)
  case (1 n)
  then show ?case by (cases "n < 10") (auto simp: show_nat.simps [of n])
qed

definition is_digit :: "char \<Rightarrow> bool" where
  "is_digit c \<longleftrightarrow> CHR ''0'' \<le> c \<and> c \<le> CHR ''9''"

definition Atoi :: "string \<Rightarrow> int option" where
  \<comment> \<open>\<open>strconv.Atoi\<close>: an optional sign, decimal digits, the range of a 64-bit integer\<close>
  "Atoi s =
     (let neg = (s \<noteq> [] \<and> hd s = CHR ''-'');
          ds = (if s \<noteq> [] \<and> (hd s = CHR ''-'' \<or> hd s = CHR ''+'') then tl s else s);
          n = (if neg then - int (read_nat 0 ds) else int (read_nat 0 ds))
      in if ds = [] \<or> \<not> list_all is_digit ds \<or> n < - (2 ^ 63) \<or> n \<ge> 2 ^ 63 then None else Some n)"

lemma is_digit_digit_char: "d < 10 \<Longrightarrow> is_digit (digit_char d)"
  by (simp add: is_digit_def less_eq_char_def of_digit_char)

lemma digits_show_nat: "list_all is_digit (show_nat n)"
  using set_show_nat [of n] is_digit_digit_char by (fastforce simp: list_all_iff)

lemma Atoi_show_nat: "int n < 2 ^ 63 \<Longrightarrow> Atoi (show_nat n) = Some (int n)"
proof -
  assume n: "int n < 2 ^ 63"
  have "is_digit (hd (show_nat n))" using digits_show_nat [of n] by (simp add: list_all_iff)
  then have "hd (show_nat n) \<noteq> CHR ''-''" "hd (show_nat n) \<noteq> CHR ''+''"
    by (auto simp: is_digit_def less_eq_char_def)
  with n digits_show_nat [of n] show ?thesis by (simp add: Atoi_def Let_def)
qed

section \<open>Objects driven by atomic operations\<close>

text \<open>
  The in-memory tables of the program (login limiter, stream tokens, build logs) take a
  mutex for the whole of each method, so a concurrent execution is a sequence of whole
  operations. Whatever every operation keeps holds after every such sequence.
\<close>

locale machine =
  fixes step :: "'o \<Rightarrow> 's \<Rightarrow> 's"
    and inv :: "'s \<Rightarrow> bool"
  assumes step_inv: "inv s \<Longrightarrow> inv (step x s)"
begin

lemma run_inv: "inv s \<Longrightarrow> inv (fold step xs s)"
  by (induction xs arbitrary: s) (auto simp: step_inv)

end

end
