(* ===== verification/Kube.thy ===== *)
theory Kube
  imports Prelude
begin

text \<open>
  The Kubernetes API as the program sees it. The API server and the client library are not
  part of the repository: they are the parameter \<open>client\<close> (and the library's conflict-retry
  helper, \<open>retry\<close>) of every definition that calls them. The state type \<open>'s\<close> is everything
  outside the program, so a call may also let other writers act.

  \<open>api_server\<close> and \<open>retries\<close> name the documented behaviour that proofs rely on: optimistic
  locking by resource version, create-if-absent, and retrying a closure while it reports a
  conflict. \<open>mem_client\<close> and \<open>mem_retry\<close> are one server that satisfies them, used to
  evaluate concrete runs.
\<close>

named_theorems kube_simps \<open>evaluation of calls on the in-memory server\<close>

section \<open>Objects and errors\<close>

type_synonym nn = "string \<times> string"

text \<open>A Secret or a ConfigMap: metadata and a string-keyed data map.\<close>

record secret =
  Sec_Namespace :: string
  Sec_Name :: string
  Sec_Labels :: "string gomap"
  Sec_Annotations :: "string gomap"
  Sec_Data :: "string gomap"
  Sec_RV :: string

definition sec_key :: "secret \<Rightarrow> nn" where
  "sec_key o1 = (Sec_Namespace o1, Sec_Name o1)"

datatype kerr = NotFound | AlreadyExists | Conflict | Forbidden | Invalid | OtherErr string

text \<open>
  Go errors: an API error under the text \<open>fmt.Errorf\<close> put before it (the kind stays
  visible through \<open>%w\<close>), a plain message, or the sentinel a mutate callback returns to
  abandon a write.
\<close>

datatype gerr = Api string kerr | Msg string | ErrSkip

fun is_conflict :: "gerr \<Rightarrow> bool" where
  "is_conflict (Api _ Conflict) = True"
| "is_conflict _ = False"

record 's client =
  kGet :: "'s \<Rightarrow> nn \<Rightarrow> (kerr + secret) \<times> 's"
  kCreate :: "'s \<Rightarrow> secret \<Rightarrow> kerr option \<times> 's"
  kUpdate :: "'s \<Rightarrow> secret \<Rightarrow> kerr option \<times> 's"

type_synonym 's call = "'s \<Rightarrow> gerr option \<times> 's"

section \<open>Documented behaviour\<close>

definition api_server ::
  "'s client \<Rightarrow> ('s \<Rightarrow> bool) \<Rightarrow> ('s \<Rightarrow> nn \<rightharpoonup> secret) \<Rightarrow> ('s \<Rightarrow> (nn \<times> string) \<rightharpoonup> secret) \<Rightarrow> bool" where
  \<comment> \<open>\<open>view\<close> is the stored object of a key, \<open>hist\<close> every version the server ever stored: a
     resource version names one version of one object for good. A read may be stale (it
     returns some version); an update is applied to the version it names or not at all.\<close>
  "api_server C ok view hist \<longleftrightarrow>
     (\<forall>s k r s'. ok s \<longrightarrow> kGet C s k = (r, s') \<longrightarrow> ok s' \<and> hist s \<subseteq>\<^sub>m hist s' \<and>
        (\<forall>ob. r = Inr ob \<longrightarrow> sec_key ob = k \<and> hist s' (k, Sec_RV ob) = Some ob)) \<and>
     (\<forall>s k ob. ok s \<longrightarrow> view s k = Some ob \<longrightarrow> hist s (k, Sec_RV ob) = Some ob) \<and>
     (\<forall>s ob r s'. ok s \<longrightarrow> kCreate C s ob = (r, s') \<longrightarrow> ok s' \<and> hist s \<subseteq>\<^sub>m hist s' \<and>
        (r = None \<longrightarrow> view s (sec_key ob) = None \<and>
           (\<exists>v. view s' = (view s)(sec_key ob \<mapsto> ob\<lparr>Sec_RV := v\<rparr>)))) \<and>
     (\<forall>s ob r s'. ok s \<longrightarrow> kUpdate C s ob = (r, s') \<longrightarrow> ok s' \<and> hist s \<subseteq>\<^sub>m hist s' \<and>
        (r = None \<longrightarrow> (\<exists>cur. view s (sec_key ob) = Some cur \<and> Sec_RV cur = Sec_RV ob \<and>
           (\<exists>v. view s' = (view s)(sec_key ob \<mapsto> ob\<lparr>Sec_RV := v\<rparr>)))))"

lemma api_get:
  assumes "api_server C ok view hist" "ok s" "kGet C s k = (Inr ob, s')"
  shows "ok s'" "hist s \<subseteq>\<^sub>m hist s'" "sec_key ob = k" "hist s' (k, Sec_RV ob) = Some ob"
  using assms unfolding api_server_def by metis+

lemma api_get_ok:
  assumes "api_server C ok view hist" "ok s" "kGet C s k = (r, s')"
  shows "ok s'"
  using assms unfolding api_server_def by metis

lemma api_view_hist:
  assumes "api_server C ok view hist" "ok s" "view s k = Some ob"
  shows "hist s (k, Sec_RV ob) = Some ob"
  using assms unfolding api_server_def by metis

lemma api_create_ok:
  assumes "api_server C ok view hist" "ok s" "kCreate C s ob = (r, s')"
  shows "ok s'"
  using assms unfolding api_server_def by metis

lemma api_create:
  assumes "api_server C ok view hist" "ok s" "kCreate C s ob = (None, s')"
  shows "view s (sec_key ob) = None" "\<exists>v. view s' = (view s)(sec_key ob \<mapsto> ob\<lparr>Sec_RV := v\<rparr>)"
  using assms unfolding api_server_def by metis+

lemma api_update_ok:
  assumes "api_server C ok view hist" "ok s" "kUpdate C s ob = (r, s')"
  shows "ok s'"
  using assms unfolding api_server_def by metis

lemma api_update:
  assumes "api_server C ok view hist" "ok s" "kUpdate C s ob = (None, s')"
  obtains cur v where "view s (sec_key ob) = Some cur" "Sec_RV cur = Sec_RV ob"
    "view s' = (view s)(sec_key ob \<mapsto> ob\<lparr>Sec_RV := v\<rparr>)"
  using assms unfolding api_server_def by metis

text \<open>
  A successful update replaces exactly the version that was read: if the object submitted
  carries the resource version of one read before, the server still stored that one.
\<close>

lemma api_update_replaces_read:
  assumes srv: "api_server C ok view hist" and ok: "ok s" and get: "kGet C s k = (Inr old, s1)"
    and upd: "kUpdate C s1 new = (None, s')"
    and same: "sec_key new = k" "Sec_RV new = Sec_RV old"
  shows "view s1 k = Some old" "\<exists>v. view s' = (view s1)(k \<mapsto> new\<lparr>Sec_RV := v\<rparr>)"
proof -
  note rd = api_get [OF srv ok get]
  obtain cur v where cur: "view s1 k = Some cur" "Sec_RV cur = Sec_RV old"
    and v: "view s' = (view s1)(k \<mapsto> new\<lparr>Sec_RV := v\<rparr>)"
    using api_update [OF srv rd(1) upd] same by metis
  have "hist s1 (k, Sec_RV old) = Some cur"
    using api_view_hist [OF srv rd(1) cur(1)] cur(2) by simp
  with rd(4) have "cur = old" by simp
  with cur(1) show "view s1 k = Some old" by simp
  from v show "\<exists>v. view s' = (view s1)(k \<mapsto> new\<lparr>Sec_RV := v\<rparr>)" by blast
qed

text \<open>
  \<open>retry.RetryOnConflict\<close> calls the closure again as long as it reports a conflict and it
  has attempts left; what it returns is the outcome of the last call.
\<close>

inductive retry_run :: "'s call \<Rightarrow> 's \<Rightarrow> gerr option \<Rightarrow> 's \<Rightarrow> bool" for f :: "'s call" where
  last_call: "f s = (r, s') \<Longrightarrow> retry_run f s r s'"
| again: "f s = (Some e, s1) \<Longrightarrow> is_conflict e \<Longrightarrow> retry_run f s1 r s' \<Longrightarrow> retry_run f s r s'"

definition retries :: "('s call \<Rightarrow> 's call) \<Rightarrow> bool" where
  "retries retry \<longleftrightarrow> (\<forall>f s r s'. retry f s = (r, s') \<longrightarrow> retry_run f s r s')"

text \<open>
  Whatever every attempt keeps of the state holds when the last attempt starts, and the
  result is that of the last attempt.
\<close>

lemma retry_run_last:
  assumes "retry_run f s r s'" and "P s" and "\<And>s e s1. P s \<Longrightarrow> f s = (Some e, s1) \<Longrightarrow> P s1"
  shows "\<exists>s0. P s0 \<and> f s0 = (r, s')"
  using assms(1,2)
proof (induction rule: retry_run.induct)
  case (last_call s r s')
  then show ?case by blast
next
  case (again s e s1 r s')
  then show ?case using assms(3) by blast
qed

lemma retry_keeps:
  assumes "retries retry" and "P s" and "\<And>s r s1. P s \<Longrightarrow> f s = (r, s1) \<Longrightarrow> P s1"
  shows "P (snd (retry f s))"
proof -
  obtain r s' where rs: "retry f s = (r, s')" by force
  with assms(1) have "retry_run f s r s'" by (auto simp: retries_def)
  then have "P s'" using assms(2)
  proof (induction rule: retry_run.induct)
    case (last_call s r s')
    with assms(3) show ?case by blast
  next
    case (again s e s1 r s')
    with assms(3) show ?case by blast
  qed
  with rs show ?thesis by simp
qed

section \<open>One server that behaves so\<close>

record mem =
  mem_objs :: "(nn \<times> secret) list"
  mem_hist :: "((nn \<times> string) \<times> secret) list"
  mem_next :: nat

definition mem_store :: "mem \<Rightarrow> secret \<Rightarrow> mem" where
  "mem_store s ob =
     (let stored = ob\<lparr>Sec_RV := replicate (mem_next s) (CHR ''v'')\<rparr>
      in \<lparr>mem_objs = AList.update (sec_key ob) stored (mem_objs s),
          mem_hist = ((sec_key ob, Sec_RV stored), stored) # mem_hist s,
          mem_next = Suc (mem_next s)\<rparr>)"

definition mem_client :: "mem client" where
  "mem_client = \<lparr>
     kGet = (\<lambda>s k. (case map_of (mem_objs s) k of None \<Rightarrow> Inl NotFound | Some ob \<Rightarrow> Inr ob, s)),
     kCreate = (\<lambda>s ob. case map_of (mem_objs s) (sec_key ob) of
         Some _ \<Rightarrow> (Some AlreadyExists, s) | None \<Rightarrow> (None, mem_store s ob)),
     kUpdate = (\<lambda>s ob. case map_of (mem_objs s) (sec_key ob) of
         None \<Rightarrow> (Some NotFound, s)
       | Some cur \<Rightarrow> if Sec_RV cur = Sec_RV ob then (None, mem_store s ob) else (Some Conflict, s))\<rparr>"

fun mem_attempts :: "nat \<Rightarrow> 's call \<Rightarrow> 's call" where
  "mem_attempts 0 f s = f s"
| "mem_attempts (Suc n) f s =
     (case f s of (Some e, s1) \<Rightarrow> if is_conflict e then mem_attempts n f s1 else (Some e, s1)
                | (None, s1) \<Rightarrow> (None, s1))"

definition mem_retry :: "'s call \<Rightarrow> 's call" where
  "mem_retry = mem_attempts 4"

definition mem_empty :: mem where
  "mem_empty = \<lparr>mem_objs = [], mem_hist = [], mem_next = 0\<rparr>"

definition mem_ok :: "mem \<Rightarrow> bool" where
  "mem_ok s \<longleftrightarrow>
     (\<forall>k ob. map_of (mem_objs s) k = Some ob \<longrightarrow>
        sec_key ob = k \<and> map_of (mem_hist s) (k, Sec_RV ob) = Some ob) \<and>
     (\<forall>k v. (k, v) \<in> dom (map_of (mem_hist s)) \<longrightarrow> length v < mem_next s)"

lemma sec_key_RV [simp]: "sec_key (ob\<lparr>Sec_RV := v\<rparr>) = sec_key ob"
  by (simp add: sec_key_def)

lemma mem_empty_ok [simp]: "mem_ok mem_empty"
  by (simp add: mem_ok_def mem_empty_def)

lemma mem_ok_fresh:
  "mem_ok s \<Longrightarrow> map_of (mem_hist s) (k, replicate (mem_next s) c) = None"
  unfolding mem_ok_def by (metis domIff length_replicate less_irrefl)

lemma mem_store_ok:
  assumes "mem_ok s"
  shows "mem_ok (mem_store s ob)"
    and "map_of (mem_hist s) \<subseteq>\<^sub>m map_of (mem_hist (mem_store s ob))"
    and "\<exists>v. map_of (mem_objs (mem_store s ob)) = (map_of (mem_objs s))(sec_key ob \<mapsto> ob\<lparr>Sec_RV := v\<rparr>)"
  using assms mem_ok_fresh [OF assms, of "sec_key ob" "CHR ''v''"]
  by (auto simp: mem_ok_def mem_store_def Let_def update_conv' map_le_def less_Suc_eq dom_def
      split: if_splits)

lemma mem_ok_objs:
  "mem_ok s \<Longrightarrow> map_of (mem_objs s) k = Some ob \<Longrightarrow> sec_key ob = k \<and> map_of (mem_hist s) (k, Sec_RV ob) = Some ob"
  unfolding mem_ok_def by blast

lemma mem_api_server: "api_server mem_client mem_ok (\<lambda>s. map_of (mem_objs s)) (\<lambda>s. map_of (mem_hist s))"
  unfolding api_server_def
  by (intro conjI allI impI)
     (auto simp: mem_client_def mem_store_ok dest: mem_ok_objs split: option.splits if_splits)

lemma mem_attempts_run: "mem_attempts n f s = (r, s') \<Longrightarrow> retry_run f s r s'"
  by (induction n arbitrary: s)
     (auto intro: retry_run.intros split: prod.splits option.splits if_splits)

lemma mem_retries: "retries mem_retry"
  by (simp add: retries_def mem_retry_def mem_attempts_run)

end
