(* ===== verification/EnvStore.thy ===== *)
theory EnvStore
  imports Kube
begin

text \<open>
  Package \<open>internal/envstore\<close>: environment variables stored in Secrets. One Secret per app
  and environment (\<open>{app}-env\<close>) and one per environment (\<open>shared-env\<close>); the variables are
  the data of the Secret and four annotations list the variables by where they came from.

  The first part is the encoding (\<open>buildSecret\<close>, \<open>secretToEnvs\<close>, \<open>applyDesiredSecret\<close>) and
  the hash the controller stamps on pods; the second the store operations, which read, recompute
  and write one Secret inside the conflict-retry loop.
\<close>

section \<open>Names and annotations\<close>

definition AppEnvSuffix :: string where "AppEnvSuffix = ''-env''"
definition SharedEnvName :: string where "SharedEnvName = ''shared-env''"
definition SharedVarsSourceName :: string where "SharedVarsSourceName = ''shared-vars''"
definition ManagedByLabel :: string where "ManagedByLabel = ''app.kubernetes.io/managed-by''"
definition ManagedByValue :: string where "ManagedByValue = ''mortise''"
definition AnnotationBindingKeys :: string where
  "AnnotationBindingKeys = ''mortise.dev/binding-keys''"
definition AnnotationGeneratedKeys :: string where
  "AnnotationGeneratedKeys = ''mortise.dev/generated-keys''"
definition AnnotationSharedKeys :: string where
  "AnnotationSharedKeys = ''mortise.dev/shared-keys''"
definition AnnotationRetainedKeys :: string where
  "AnnotationRetainedKeys = ''mortise.dev/retained-keys''"
definition AnnotationLastSpecEnv :: string where
  "AnnotationLastSpecEnv = ''mortise.dev/last-spec-env''"
definition AnnotationLastSpecEnvDigest :: string where
  "AnnotationLastSpecEnvDigest = ''mortise.dev/last-spec-env-digest''"

lemmas annotation_defs = AnnotationBindingKeys_def AnnotationGeneratedKeys_def
  AnnotationSharedKeys_def AnnotationRetainedKeys_def

definition source_annotations :: "string list" where
  "source_annotations =
     [AnnotationBindingKeys, AnnotationGeneratedKeys, AnnotationSharedKeys, AnnotationRetainedKeys]"

definition AppEnvSecretName :: "string \<Rightarrow> string" where
  "AppEnvSecretName appName = appName @ AppEnvSuffix"

definition envSourceNames :: "string \<Rightarrow> string list" where
  "envSourceNames appName = [SharedEnvName, AppEnvSecretName appName]"

definition EnvFromSources :: "string \<Rightarrow> string list" where
  \<comment> \<open>the \<open>secretRef\<close> names of the container's \<open>envFrom\<close>, in order; all required\<close>
  "EnvFromSources appName = map (\<lambda>name. name) (envSourceNames appName)"

section \<open>Variables\<close>

record Env =
  Env_Name :: string
  Env_Value :: string
  Env_Source :: string

definition name_start :: "char \<Rightarrow> bool" where
  "name_start c \<longleftrightarrow>
     CHR ''A'' \<le> c \<and> c \<le> CHR ''Z'' \<or> CHR ''a'' \<le> c \<and> c \<le> CHR ''z'' \<or> c = CHR ''_''"

definition name_char :: "char \<Rightarrow> bool" where
  "name_char c \<longleftrightarrow> name_start c \<or> CHR ''0'' \<le> c \<and> c \<le> CHR ''9''"

fun validEnvVarName :: "string \<Rightarrow> bool" where
  \<comment> \<open>the regular expression \<open>^[A-Za-z_][A-Za-z0-9_]*$\<close>\<close>
  "validEnvVarName [] = False"
| "validEnvVarName (c # cs) = (name_start c \<and> list_all name_char cs)"

definition ValidateEnvVarName :: "string \<Rightarrow> gerr option" where
  "ValidateEnvVarName name =
     (if validEnvVarName name then None
      else Some (Msg (''invalid env var name '' @ name @ '': must match [A-Za-z_][A-Za-z0-9_]*'')))"

fun validateEnvVars :: "Env list \<Rightarrow> gerr option" where
  "validateEnvVars [] = None"
| "validateEnvVars (v # vs) =
     (case ValidateEnvVarName (Env_Name v) of Some e \<Rightarrow> Some e | None \<Rightarrow> validateEnvVars vs)"

section \<open>Encoding\<close>

definition keys_with :: "string \<Rightarrow> Env list \<Rightarrow> string list" where
  "keys_with source vars = map Env_Name (filter (\<lambda>e. Env_Source e = source) vars)"

definition key_annotation :: "string \<Rightarrow> string list \<Rightarrow> string gomap" where
  "key_annotation ann keys = (if keys = [] then [] else [(ann, join (sort keys) '','')])"

definition buildSecret :: "string \<Rightarrow> string \<Rightarrow> Env list \<Rightarrow> string gomap \<Rightarrow> secret" where
  "buildSecret namespace name vars extraLabels =
     \<lparr>Sec_Namespace = namespace, Sec_Name = name,
      Sec_Labels = put_all (entries extraLabels) [(ManagedByLabel, ManagedByValue)],
      Sec_Annotations =
        key_annotation AnnotationBindingKeys (keys_with ''binding'' vars) @
        key_annotation AnnotationGeneratedKeys (keys_with ''generated'' vars) @
        key_annotation AnnotationSharedKeys (keys_with ''shared'' vars) @
        key_annotation AnnotationRetainedKeys (keys_with ''retained'' vars),
      Sec_Data = put_all (map (\<lambda>e. (Env_Name e, Env_Value e)) vars) [],
      Sec_RV = []\<rparr>"

definition parseKeySet :: "string \<Rightarrow> string set" where
  "parseKeySet csv =
     (if csv = [] then {} else set (filter (\<lambda>k. k \<noteq> []) (map trim_space (split_on CHR '','' csv))))"

definition source_of :: "secret \<Rightarrow> string \<Rightarrow> string" where
  "source_of sec k =
     (if k \<in> parseKeySet (lookup_str (Sec_Annotations sec) AnnotationBindingKeys) then ''binding''
      else if k \<in> parseKeySet (lookup_str (Sec_Annotations sec) AnnotationGeneratedKeys) then ''generated''
      else if k \<in> parseKeySet (lookup_str (Sec_Annotations sec) AnnotationSharedKeys) then ''shared''
      else if k \<in> parseKeySet (lookup_str (Sec_Annotations sec) AnnotationRetainedKeys) then ''retained''
      else ''user'')"

definition secretToEnvs :: "secret \<Rightarrow> Env list" where
  "secretToEnvs sec =
     sort_key Env_Name
       (map (\<lambda>(k, v). \<lparr>Env_Name = k, Env_Value = v, Env_Source = source_of sec k\<rparr>) (entries (Sec_Data sec)))"

definition SecretToEnvs :: "secret \<Rightarrow> Env list" where
  "SecretToEnvs sec = secretToEnvs sec"

definition drop_key :: "string \<Rightarrow> string \<Rightarrow> string gomap \<Rightarrow> string gomap" where
  \<comment> \<open>the body of the loop of \<open>removeKeyFromAnnotations\<close>, for one annotation\<close>
  "drop_key key ann annots =
     (case map_of annots ann of
        None \<Rightarrow> annots
      | Some csv \<Rightarrow>
          (let filtered = filter (\<lambda>k. trim_space k \<noteq> key) (split_on CHR '','' csv)
           in if filtered = [] then AList.delete ann annots
              else AList.update ann (join filtered '','') annots))"

definition removeKeyFromAnnotations :: "secret \<Rightarrow> string \<Rightarrow> secret" where
  "removeKeyFromAnnotations sec key =
     sec\<lparr>Sec_Annotations := fold (drop_key key) source_annotations (Sec_Annotations sec)\<rparr>"

definition secretDataEqual :: "string gomap \<Rightarrow> string gomap \<Rightarrow> bool" where
  "secretDataEqual existing desired =
     (if entries existing = [] \<and> entries desired = [] then True
      else if length (entries existing) \<noteq> length (entries desired) then False
      else list_all (\<lambda>(key, dv). map_of existing key = Some dv) (entries desired))"

fun overlay :: "(string \<times> string) list \<Rightarrow> string gomap \<Rightarrow> bool \<Rightarrow> string gomap \<times> bool" where
  \<comment> \<open>\<open>for k, v := range src { if dst[k] != v { dst[k] = v; changed = true } }\<close>\<close>
  "overlay [] dst changed = (dst, changed)"
| "overlay ((k, v) # src) dst changed =
     (if lookup_str dst k \<noteq> v then overlay src (AList.update k v dst) True
      else overlay src dst changed)"

fun drop_annotations :: "string list \<Rightarrow> string gomap \<Rightarrow> bool \<Rightarrow> string gomap \<times> bool" where
  "drop_annotations [] m changed = (m, changed)"
| "drop_annotations (key # ks) m changed =
     (if map_of m key \<noteq> None then drop_annotations ks (AList.delete key m) True
      else drop_annotations ks m changed)"

definition applyDesiredSecret :: "secret \<Rightarrow> secret \<Rightarrow> bool \<times> secret" where
  "applyDesiredSecret existing desired =
     (let same = secretDataEqual (Sec_Data existing) (Sec_Data desired);
          data = (if same then Sec_Data existing else Sec_Data desired);
          (cleared, ch1) = drop_annotations source_annotations (Sec_Annotations existing) (\<not> same);
          (annots, ch2) = overlay (entries (Sec_Annotations desired)) cleared ch1;
          (labels, ch3) = overlay (entries (Sec_Labels desired)) (Sec_Labels existing) ch2
      in (ch3, existing\<lparr>Sec_Data := data, Sec_Annotations := annots, Sec_Labels := labels\<rparr>))"

definition mergeEnvs :: "Env list \<Rightarrow> Env list \<Rightarrow> Env list" where
  \<comment> \<open>in one iteration order of the merged map\<close>
  "mergeEnvs current vars = map snd (put_all (map (\<lambda>e. (Env_Name e, e)) (current @ vars)) [])"


section \<open>What the encoding keeps\<close>

subsection \<open>Names\<close>

lemma validateEnvVars_None_iff:
  "validateEnvVars vs = None \<longleftrightarrow> (\<forall>v \<in> set vs. validEnvVarName (Env_Name v))"
  by (induction vs) (auto simp: ValidateEnvVarName_def)

lemma name_char_cases: "name_char c \<Longrightarrow> c \<noteq> CHR '','' \<and> c \<notin> set white_space \<and> c \<noteq> CHR ''=''"
  by (auto simp: name_char_def name_start_def white_space_def)

lemma validEnvVarName_chars: "validEnvVarName n \<Longrightarrow> c \<in> set n \<Longrightarrow> name_char c"
  by (cases n) (auto simp: name_char_def list_all_iff)

lemma validEnvVarName_not_Nil: "validEnvVarName n \<Longrightarrow> n \<noteq> []"
  by (cases n) auto

lemma validEnvVarName_trim [simp]: "validEnvVarName n \<Longrightarrow> trim_space n = n"
  unfolding trim_space_def by (rule trim_id) (auto dest: validEnvVarName_chars name_char_cases)

lemma validEnvVarName_no_comma: "validEnvVarName n \<Longrightarrow> CHR '','' \<notin> set n"
  by (auto dest: validEnvVarName_chars name_char_cases)

text \<open>
  The reason names are validated before they are stored: a list of valid names survives
  the comma-separated annotation.
\<close>

lemma parseKeySet_join:
  assumes "\<forall>k \<in> set keys. validEnvVarName k"
  shows "parseKeySet (join keys '','') = set keys"
proof (cases "keys = []")
  case False
  from assms have ne: "[] \<notin> set keys" using validEnvVarName_not_Nil by blast
  have "split_on CHR '','' (join keys '','') = keys"
    using False assms validEnvVarName_no_comma by (intro split_on_join) auto
  moreover have "join keys '','' \<noteq> []" using False ne by (rule join_eq_Nil_iff)
  ultimately show ?thesis
    using assms ne by (auto simp: parseKeySet_def image_iff)
qed (simp add: parseKeySet_def)

subsection \<open>Round trip\<close>

definition norm_source :: "string \<Rightarrow> string" where
  \<comment> \<open>a source without an annotation reads back as a user variable\<close>
  "norm_source src = (if src \<in> {''binding'', ''generated'', ''shared'', ''retained''} then src else ''user'')"

definition norm_env :: "Env \<Rightarrow> Env" where
  "norm_env e = e\<lparr>Env_Source := norm_source (Env_Source e)\<rparr>"

definition wf_envs :: "Env list \<Rightarrow> bool" where
  "wf_envs vs \<longleftrightarrow> distinct (map Env_Name vs) \<and> validateEnvVars vs = None"

definition env_of :: "Env list \<Rightarrow> string \<rightharpoonup> string \<times> string" where
  \<comment> \<open>the abstract contents of a variable list: name to value and source\<close>
  "env_of vs = map_of (map (\<lambda>e. (Env_Name e, Env_Value e, Env_Source e)) vs)"

lemma keys_with_mem:
  "distinct (map Env_Name vs) \<Longrightarrow> e \<in> set vs \<Longrightarrow> Env_Name e \<in> set (keys_with src vs) \<longleftrightarrow> Env_Source e = src"
  by (auto simp: keys_with_def distinct_map dest: inj_onD)

lemma annotation_lookup:
  assumes "wf_envs vs"
  shows "parseKeySet (lookup_str (Sec_Annotations (buildSecret ns n vs ls)) AnnotationBindingKeys) = set (keys_with ''binding'' vs)"
    and "parseKeySet (lookup_str (Sec_Annotations (buildSecret ns n vs ls)) AnnotationGeneratedKeys) = set (keys_with ''generated'' vs)"
    and "parseKeySet (lookup_str (Sec_Annotations (buildSecret ns n vs ls)) AnnotationSharedKeys) = set (keys_with ''shared'' vs)"
    and "parseKeySet (lookup_str (Sec_Annotations (buildSecret ns n vs ls)) AnnotationRetainedKeys) = set (keys_with ''retained'' vs)"
proof -
  have "parseKeySet (join (sort (keys_with src vs)) '','') = set (keys_with src vs)" for src
    using parseKeySet_join [of "sort (keys_with src vs)"] assms
    by (auto simp: wf_envs_def validateEnvVars_None_iff keys_with_def)
  moreover have "parseKeySet [] = {}" by (simp add: parseKeySet_def)
  ultimately show
    "parseKeySet (lookup_str (Sec_Annotations (buildSecret ns n vs ls)) AnnotationBindingKeys) = set (keys_with ''binding'' vs)"
    "parseKeySet (lookup_str (Sec_Annotations (buildSecret ns n vs ls)) AnnotationGeneratedKeys) = set (keys_with ''generated'' vs)"
    "parseKeySet (lookup_str (Sec_Annotations (buildSecret ns n vs ls)) AnnotationSharedKeys) = set (keys_with ''shared'' vs)"
    "parseKeySet (lookup_str (Sec_Annotations (buildSecret ns n vs ls)) AnnotationRetainedKeys) = set (keys_with ''retained'' vs)"
    by (simp_all add: buildSecret_def lookup_str_def key_annotation_def annotation_defs)
qed

lemma source_of_buildSecret:
  "wf_envs vs \<Longrightarrow> e \<in> set vs \<Longrightarrow> source_of (buildSecret ns n vs ls) (Env_Name e) = norm_source (Env_Source e)"
  by (simp add: source_of_def annotation_lookup keys_with_mem norm_source_def wf_envs_def)

lemma data_buildSecret:
  "distinct (map Env_Name vs) \<Longrightarrow> Sec_Data (buildSecret ns n vs ls) = map (\<lambda>e. (Env_Name e, Env_Value e)) vs"
  by (simp add: buildSecret_def put_all_distinct_id o_def)

lemma norm_env_eq:
  "norm_env e = \<lparr>Env_Name = Env_Name e, Env_Value = Env_Value e, Env_Source = norm_source (Env_Source e)\<rparr>"
  by (cases e) (simp add: norm_env_def)

lemma decode_with:
  assumes d: "distinct (map Env_Name vs)"
    and data: "map_of (Sec_Data sec) = map_of (map (\<lambda>e. (Env_Name e, Env_Value e)) vs)"
    and src: "\<And>e. e \<in> set vs \<Longrightarrow> source_of sec (Env_Name e) = norm_source (Env_Source e)"
  shows "secretToEnvs sec = sort_key Env_Name (map norm_env vs)"
  unfolding secretToEnvs_def
proof (rule sort_key_set_cong)
  let ?dec = "\<lambda>(k, v). \<lparr>Env_Name = k, Env_Value = v, Env_Source = source_of sec k\<rparr>"
  have names: "map Env_Name (map ?dec (entries (Sec_Data sec))) = map fst (entries (Sec_Data sec))"
    by (simp add: case_prod_beta o_def)
  show "distinct (map Env_Name (map ?dec (entries (Sec_Data sec))))"
    by (simp only: names distinct_clearjunk)
  show "distinct (map Env_Name (map norm_env vs))"
    using d by (simp add: norm_env_def o_def)
  have "set (entries (Sec_Data sec)) = (\<lambda>e. (Env_Name e, Env_Value e)) ` set vs"
    using d by (auto simp: set_entries data o_def)
  then show "set (map ?dec (entries (Sec_Data sec))) = set (map norm_env vs)"
    using src by (simp add: image_image norm_env_eq)
qed

lemma secretToEnvs_buildSecret:
  assumes "wf_envs vs"
  shows "secretToEnvs (buildSecret ns n vs ls) = sort_key Env_Name (map norm_env vs)"
  using assms by (intro decode_with) (auto simp: wf_envs_def data_buildSecret source_of_buildSecret)

subsection \<open>Writing over an existing Secret\<close>

lemma map_of_drop_annotations:
  "map_of (fst (drop_annotations ks m c)) = (\<lambda>k. if k \<in> set ks then None else map_of m k)"
  by (induction ks m c rule: drop_annotations.induct) (auto simp: delete_conv' fun_eq_iff)

lemma drop_annotations_changed:
  "snd (drop_annotations ks m c) \<longleftrightarrow> c \<or> (\<exists>k \<in> set ks. map_of m k \<noteq> None)"
  by (induction ks m c rule: drop_annotations.induct) (auto simp: delete_conv')

lemma lookup_overlay:
  "distinct (map fst src) \<Longrightarrow>
   lookup_str (fst (overlay src dst c)) k = (case map_of src k of Some v \<Rightarrow> v | None \<Rightarrow> lookup_str dst k)"
proof (induction src dst c rule: overlay.induct)
  case (2 k' v src dst c)
  have none: "map_of src k' = None" using "2.prems" by (simp add: map_of_eq_None_iff)
  show ?case
  proof (cases "lookup_str dst k' = v")
    case True
    with 2 none show ?thesis by (cases "k = k'") simp_all
  next
    case False
    with 2 none show ?thesis by (auto simp: lookup_str_update split: option.split)
  qed
qed simp

lemma map_of_overlay_other: "k \<notin> fst ` set src \<Longrightarrow> map_of (fst (overlay src dst c)) k = map_of dst k"
  by (induction src dst c rule: overlay.induct) (auto simp: update_conv')

lemma overlay_keeps_flag: "c \<Longrightarrow> snd (overlay src dst c)"
  by (induction src dst c rule: overlay.induct) auto

lemma drop_annotations_unchanged: "\<not> snd (drop_annotations ks m c) \<Longrightarrow> fst (drop_annotations ks m c) = m"
proof (induction ks m c rule: drop_annotations.induct)
  case (2 key ks m c)
  then show ?case by (auto simp: drop_annotations_changed split: if_splits)
qed simp

lemma overlay_unchanged: "\<not> snd (overlay src dst c) \<Longrightarrow> overlay src dst c = (dst, False)"
proof (induction src dst c rule: overlay.induct)
  case (2 k v src dst c)
  then show ?case by (auto simp: overlay_keeps_flag split: if_splits)
qed auto

lemma secretDataEqual_iff: "secretDataEqual a b \<longleftrightarrow> map_of a = map_of b"
proof
  assume eq: "secretDataEqual a b"
  show "map_of a = map_of b"
  proof (cases "entries a = [] \<and> entries b = []")
    case True
    then show ?thesis by (metis map_of_clearjunk)
  next
    case False
    with eq have len: "length (entries a) = length (entries b)"
      and all: "\<forall>(k, v) \<in> set (entries b). map_of a k = Some v"
      by (auto simp: secretDataEqual_def list_all_iff split: if_splits)
    have sub: "set (entries b) \<subseteq> set (entries a)" using all by (auto simp: set_entries)
    have "card (set (entries b)) = card (set (entries a))"
      using len by (metis distinct_card distinct_clearjunk distinct_map)
    with sub have "set (entries a) = set (entries b)"
      by (metis List.finite_set card_subset_eq)
    then have "map_of (entries a) = map_of (entries b)" by (simp add: map_of_set_cong)
    then show ?thesis by (simp add: map_of_clearjunk)
  qed
next
  assume eq: "map_of a = map_of b"
  then have set_eq: "set (entries a) = set (entries b)" by (simp add: set_entries)
  then have "length (entries a) = length (entries b)"
    by (metis distinct_card distinct_clearjunk distinct_map)
  with eq set_eq show "secretDataEqual a b"
    by (auto simp: secretDataEqual_def list_all_iff set_entries)
qed

lemma applyDesiredSecret_fields:
  assumes "applyDesiredSecret old new = (ch, res)"
  shows "map_of (Sec_Data res) = map_of (Sec_Data new)"
    and "Sec_Namespace res = Sec_Namespace old" "Sec_Name res = Sec_Name old" "Sec_RV res = Sec_RV old"
    and "ann \<in> set source_annotations \<Longrightarrow> lookup_str (Sec_Annotations res) ann = lookup_str (Sec_Annotations new) ann"
    and "k \<notin> set source_annotations \<Longrightarrow> k \<notin> fst ` set (Sec_Annotations new) \<Longrightarrow>
      map_of (Sec_Annotations res) k = map_of (Sec_Annotations old) k"
    and "k \<notin> fst ` set (Sec_Labels new) \<Longrightarrow> map_of (Sec_Labels res) k = map_of (Sec_Labels old) k"
    and "map_of (Sec_Labels new) k = Some v \<Longrightarrow> lookup_str (Sec_Labels res) k = v"
proof -
  let ?same = "secretDataEqual (Sec_Data old) (Sec_Data new)"
  let ?cl = "drop_annotations source_annotations (Sec_Annotations old) (\<not> ?same)"
  let ?an = "overlay (entries (Sec_Annotations new)) (fst ?cl) (snd ?cl)"
  let ?lb = "overlay (entries (Sec_Labels new)) (Sec_Labels old) (snd ?an)"
  have res: "res = old\<lparr>Sec_Data := (if ?same then Sec_Data old else Sec_Data new),
      Sec_Annotations := fst ?an, Sec_Labels := fst ?lb\<rparr>"
    using assms by (simp add: applyDesiredSecret_def Let_def case_prod_beta)
  show "map_of (Sec_Data res) = map_of (Sec_Data new)"
    by (simp add: res secretDataEqual_iff)
  show "Sec_Namespace res = Sec_Namespace old" "Sec_Name res = Sec_Name old" "Sec_RV res = Sec_RV old"
    by (simp_all add: res)
  show "lookup_str (Sec_Annotations res) ann = lookup_str (Sec_Annotations new) ann"
    if "ann \<in> set source_annotations"
    using that by (simp add: res lookup_overlay map_of_clearjunk)
      (simp add: lookup_str_def map_of_drop_annotations split: option.split)
  show "map_of (Sec_Annotations res) k = map_of (Sec_Annotations old) k"
    if "k \<notin> set source_annotations" "k \<notin> fst ` set (Sec_Annotations new)"
    using that by (simp add: res map_of_overlay_other dom_clearjunk map_of_drop_annotations)
  show "map_of (Sec_Labels res) k = map_of (Sec_Labels old) k" if "k \<notin> fst ` set (Sec_Labels new)"
    using that by (simp add: res map_of_overlay_other dom_clearjunk)
  show "lookup_str (Sec_Labels res) k = v" if "map_of (Sec_Labels new) k = Some v"
    using that by (simp add: res lookup_overlay map_of_clearjunk)
qed

lemma applyDesiredSecret_source_of:
  assumes "applyDesiredSecret old new = (ch, res)"
  shows "source_of res k = source_of new k"
  by (simp add: source_of_def applyDesiredSecret_fields(5) [OF assms] source_annotations_def)

lemma applyDesiredSecret_key: "applyDesiredSecret old new = (ch, res) \<Longrightarrow> sec_key res = sec_key old"
  by (simp add: sec_key_def applyDesiredSecret_fields)

lemma secretToEnvs_applyDesired:
  assumes "wf_envs vs" and "applyDesiredSecret old (buildSecret ns n vs ls) = (ch, res)"
  shows "secretToEnvs res = sort_key Env_Name (map norm_env vs)"
  using assms
  by (intro decode_with)
     (auto simp: wf_envs_def data_buildSecret source_of_buildSecret applyDesiredSecret_source_of
        applyDesiredSecret_fields(1))

lemma applyDesiredSecret_unchanged:
  assumes "applyDesiredSecret old new = (False, res)"
  shows "res = old"
proof -
  let ?same = "secretDataEqual (Sec_Data old) (Sec_Data new)"
  let ?cl = "drop_annotations source_annotations (Sec_Annotations old) (\<not> ?same)"
  let ?an = "overlay (entries (Sec_Annotations new)) (fst ?cl) (snd ?cl)"
  let ?lb = "overlay (entries (Sec_Labels new)) (Sec_Labels old) (snd ?an)"
  have lb: "\<not> snd ?lb" and res: "res = old\<lparr>Sec_Data := (if ?same then Sec_Data old else Sec_Data new),
      Sec_Annotations := fst ?an, Sec_Labels := fst ?lb\<rparr>"
    using assms by (simp_all add: applyDesiredSecret_def Let_def case_prod_beta)
  have lab: "?lb = (Sec_Labels old, False)" using overlay_unchanged [OF lb] .
  have "\<not> snd ?an" using overlay_keeps_flag lb by blast
  then have an: "?an = (fst ?cl, False)" by (rule overlay_unchanged)
  have "\<not> snd ?cl" using overlay_keeps_flag \<open>\<not> snd ?an\<close> by blast
  then have same: ?same by (simp add: drop_annotations_changed)
  from \<open>\<not> snd ?cl\<close> have cl: "fst ?cl = Sec_Annotations old" by (rule drop_annotations_unchanged)
  show ?thesis using res lab an same cl by simp
qed

subsection \<open>Merging\<close>

lemma env_of_set_cong:
  "distinct (map Env_Name xs) \<Longrightarrow> distinct (map Env_Name ys) \<Longrightarrow> set xs = set ys \<Longrightarrow> env_of xs = env_of ys"
  unfolding env_of_def by (rule map_of_set_cong) (simp_all add: o_def)

lemma env_of_sort [simp]: "distinct (map Env_Name vs) \<Longrightarrow> env_of (sort_key Env_Name vs) = env_of vs"
  by (rule env_of_set_cong) (simp_all add: distinct_map)

lemma env_of_append: "env_of (xs @ ys) = env_of ys ++ env_of xs"
  by (simp add: env_of_def)

lemma env_of_rev: "distinct (map Env_Name vs) \<Longrightarrow> env_of (rev vs) = env_of vs"
  by (rule env_of_set_cong) (simp_all flip: rev_map)

lemma map_option_map_of_self:
  "map_option f (map_of (map (\<lambda>x. (g x, x)) xs) k) = map_of (map (\<lambda>x. (g x, f x)) xs) k"
  by (induction xs) auto

lemma merged_named:
  "\<forall>(k, e) \<in> set m. k = Env_Name e \<Longrightarrow>
   \<forall>(k, e) \<in> set (put_all (map (\<lambda>e. (Env_Name e, e)) vs) m). k = Env_Name e \<and> e \<in> set vs \<union> snd ` set m"
proof (induction vs arbitrary: m)
  case Nil
  then show ?case by (force simp: put_all_def)
next
  case (Cons v vs)
  have upd: "set (AList.update (Env_Name v) v m) \<subseteq> insert (Env_Name v, v) (set m)"
    by (induction m) (auto split: if_splits)
  with Cons.prems have "\<forall>(k, e) \<in> set (AList.update (Env_Name v) v m). k = Env_Name e" by auto
  from Cons.IH [OF this] upd show ?case by (fastforce simp: put_all_def)
qed

lemma mergeEnvs_names:
  shows "distinct (map Env_Name (mergeEnvs cur vs))" and "set (mergeEnvs cur vs) \<subseteq> set cur \<union> set vs"
proof -
  let ?m = "put_all (map (\<lambda>e. (Env_Name e, e)) (cur @ vs)) []"
  have named: "\<forall>(k, e) \<in> set ?m. k = Env_Name e \<and> e \<in> set (cur @ vs)"
    using merged_named [of "[]" "cur @ vs"] by simp
  then have "map Env_Name (map snd ?m) = map fst ?m" by auto
  then show "distinct (map Env_Name (mergeEnvs cur vs))"
    unfolding mergeEnvs_def by (simp only:) (simp add: distinct_put_all)
  show "set (mergeEnvs cur vs) \<subseteq> set cur \<union> set vs" using named by (auto simp: mergeEnvs_def)
qed

lemma env_of_mergeEnvs: "env_of (mergeEnvs cur vs) = env_of (rev cur) ++ env_of (rev vs)"
proof
  fix k
  let ?m = "put_all (map (\<lambda>e. (Env_Name e, e)) (cur @ vs)) []"
  let ?val = "\<lambda>e. (Env_Value e, Env_Source e)"
  have named: "\<forall>(k, e) \<in> set ?m. k = Env_Name e"
    using merged_named [of "[]" "cur @ vs"] by auto
  have key: "map (\<lambda>e. (Env_Name e, ?val e)) (map snd ?m) = map (\<lambda>(k, e). (k, ?val e)) ?m"
    using named by auto
  have rev_m: "map_of ?m = map_of (rev (map (\<lambda>e. (Env_Name e, e)) (cur @ vs)))"
    by (simp only: map_of_put_all) simp
  have "env_of (mergeEnvs cur vs) k = map_option ?val (map_of ?m k)"
    unfolding env_of_def mergeEnvs_def key map_of_map by simp
  also have "\<dots> = env_of (rev (cur @ vs)) k"
    unfolding rev_m env_of_def rev_map by (rule map_option_map_of_self)
  finally show "env_of (mergeEnvs cur vs) k = (env_of (rev cur) ++ env_of (rev vs)) k"
    by (simp add: env_of_append)
qed

lemma wf_mergeEnvs: "validateEnvVars cur = None \<Longrightarrow> validateEnvVars vs = None \<Longrightarrow> wf_envs (mergeEnvs cur vs)"
  using mergeEnvs_names(2) [of cur vs] by (auto simp: wf_envs_def mergeEnvs_names(1) validateEnvVars_None_iff)

subsection \<open>The encoding as an interface\<close>

text \<open>
  What the store operations rely on: writing a variable list and reading the Secret back
  gives the same variables, sorted, with their sources. Both ways of writing satisfy it, a
  fresh Secret and an update of an existing one.
\<close>

definition norm_view :: "(string \<rightharpoonup> string \<times> string) \<Rightarrow> (string \<rightharpoonup> string \<times> string)" where
  "norm_view m = (\<lambda>k. map_option (\<lambda>(v, src). (v, norm_source src)) (m k))"

lemma norm_env_Name [simp]: "Env_Name (norm_env e) = Env_Name e" "Env_Value (norm_env e) = Env_Value e"
    "Env_Source (norm_env e) = norm_source (Env_Source e)"
  by (simp_all add: norm_env_def)

lemma norm_source_idem [simp]: "norm_source (norm_source src) = norm_source src"
  by (simp add: norm_source_def)

lemma norm_env_idem [simp]: "norm_env (norm_env e) = norm_env e"
  by (simp add: norm_env_def)

lemma env_of_norm: "env_of (map norm_env vs) = norm_view (env_of vs)"
  by (induction vs) (auto simp: env_of_def norm_view_def fun_eq_iff)

lemma norm_view_add: "norm_view (m ++ n) = norm_view m ++ norm_view n"
  by (auto simp: norm_view_def map_add_def fun_eq_iff split: option.split)

lemma names_norm [simp]: "map (Env_Name \<circ> norm_env) vs = map Env_Name vs"
  by simp

lemma wf_envs_norm [simp]: "wf_envs (map norm_env vs) \<longleftrightarrow> wf_envs vs"
  by (auto simp: wf_envs_def validateEnvVars_None_iff)

lemma wf_envs_sort [simp]: "wf_envs (sort_key Env_Name vs) \<longleftrightarrow> wf_envs vs"
  by (auto simp: wf_envs_def validateEnvVars_None_iff distinct_map)

locale var_codec =
  fixes encode :: "Env list \<Rightarrow> 'sec" and decode :: "'sec \<Rightarrow> Env list"
  assumes decode_encode: "wf_envs vs \<Longrightarrow> decode (encode vs) = sort_key Env_Name (map norm_env vs)"
begin

lemma decode_view: "wf_envs vs \<Longrightarrow> env_of (decode (encode vs)) = norm_view (env_of vs)"
  by (simp add: decode_encode env_of_norm wf_envs_def)

lemma decode_order_irrelevant:
  assumes "wf_envs vs" "wf_envs ws" "set vs = set ws"
  shows "decode (encode vs) = decode (encode ws)"
proof -
  have "sort_key Env_Name (map norm_env vs) = sort_key Env_Name (map norm_env ws)"
    using assms by (intro sort_key_set_cong) (auto simp: wf_envs_def)
  with assms show ?thesis by (simp add: decode_encode)
qed

lemma rewrite_stable:
  assumes wf: "wf_envs vs"
  shows "decode (encode (decode (encode vs))) = decode (encode vs)"
proof -
  let ?ws = "sort_key Env_Name (map norm_env vs)"
  have ws: "wf_envs ?ws" using wf by simp
  then have "distinct (map Env_Name ?ws)" by (simp only: wf_envs_def)
  then have "distinct (map Env_Name (map norm_env ?ws))" by simp
  moreover have "distinct (map Env_Name (map norm_env vs))" using wf by (simp add: wf_envs_def)
  moreover have "set (map norm_env ?ws) = set (map norm_env vs)" by (simp add: image_image)
  ultimately have "sort_key Env_Name (map norm_env ?ws) = sort_key Env_Name (map norm_env vs)"
    by (rule sort_key_set_cong)
  then show ?thesis using wf ws by (simp add: decode_encode)
qed

lemma merge_view:
  assumes "wf_envs cur" "wf_envs vs"
  shows "env_of (decode (encode (mergeEnvs cur vs))) = norm_view (env_of cur) ++ norm_view (env_of vs)"
proof -
  have "wf_envs (mergeEnvs cur vs)" using assms wf_mergeEnvs by (simp add: wf_envs_def)
  moreover have "env_of (mergeEnvs cur vs) = env_of cur ++ env_of vs"
    using assms by (simp add: env_of_mergeEnvs env_of_rev wf_envs_def)
  ultimately show ?thesis by (simp add: decode_view norm_view_add)
qed

end

interpretation fresh_secret: var_codec "\<lambda>vs. buildSecret ns n vs ls" secretToEnvs for ns n ls
  by unfold_locales (rule secretToEnvs_buildSecret)

interpretation updated_secret: var_codec "\<lambda>vs. snd (applyDesiredSecret old (buildSecret ns n vs ls))" secretToEnvs for old ns n ls
  by unfold_locales (metis secretToEnvs_applyDesired surjective_pairing)

end
