(* ===== verification/EnvOps.thy ===== *)
theory EnvOps
  imports EnvStore
begin

text \<open>
  The operations of \<open>envstore.Store\<close> and the environment hash. Every write goes through
  \<open>applySecret\<close> or \<open>UpdateWithConflictRetry\<close>: read the Secret, recompute, write it back with
  the version that was read, and start over on a conflict. The main result is that a write
  that succeeds replaced exactly the Secret its new contents were computed from.
\<close>

section \<open>Operations\<close>

definition getSecret :: "'s client \<Rightarrow> string \<Rightarrow> string \<Rightarrow> 's \<Rightarrow> (kerr + secret) \<times> 's" where
  "getSecret C ns name s = kGet C s (ns, name)"

definition write_desired ::
  "'s client \<Rightarrow> string \<Rightarrow> string \<Rightarrow> string gomap \<Rightarrow> secret option \<Rightarrow> Env list \<Rightarrow> 's \<Rightarrow> gerr option \<times> 's" where
  \<comment> \<open>the second half of an attempt: create the Secret, or update the one that was read\<close>
  "write_desired C ns name labels existing vars s =
     (let desired = buildSecret ns name vars labels
      in case existing of
           None \<Rightarrow>
             (case kCreate C s desired of
                (None, s2) \<Rightarrow> (None, s2)
              | (Some e, s2) \<Rightarrow>
                  (if e = AlreadyExists then (Some (Api name Conflict), s2)
                   else (Some (Api (''create env secret '' @ ns @ ''/'' @ name) e), s2)))
         | Some old \<Rightarrow>
             (case applyDesiredSecret old desired of (changed, new) \<Rightarrow>
                if \<not> changed then (None, s)
                else (case kUpdate C s new of (e, s2) \<Rightarrow> (map_option (Api []) e, s2))))"

definition apply_attempt ::
  "'s client \<Rightarrow> string \<Rightarrow> string \<Rightarrow> string gomap \<Rightarrow> (Env list \<Rightarrow> gerr + Env list) \<Rightarrow> 's call" where
  "apply_attempt C ns name labels mutate s =
     (case kGet C s (ns, name) of (got, s1) \<Rightarrow>
        (case (case got of Inl e \<Rightarrow> if e = NotFound then Inr None else Inl e | Inr ob \<Rightarrow> Inr (Some ob)) of
           Inl e \<Rightarrow> (Some (Api (''get env secret '' @ ns @ ''/'' @ name) e), s1)
         | Inr existing \<Rightarrow>
             (case mutate (case existing of None \<Rightarrow> [] | Some ob \<Rightarrow> secretToEnvs ob) of
                Inl e \<Rightarrow> (if e = ErrSkip then (None, s1) else (Some e, s1))
              | Inr vars \<Rightarrow>
                  (case validateEnvVars vars of
                     Some e \<Rightarrow> (Some e, s1)
                   | None \<Rightarrow> write_desired C ns name labels existing vars s1))))"

definition applySecret ::
  "'s client \<Rightarrow> ('s call \<Rightarrow> 's call) \<Rightarrow> string \<Rightarrow> string \<Rightarrow> string gomap \<Rightarrow>
   (Env list \<Rightarrow> gerr + Env list) \<Rightarrow> 's call" where
  "applySecret C retry ns name labels mutate = retry (apply_attempt C ns name labels mutate)"

definition upsertSecret ::
  "'s client \<Rightarrow> ('s call \<Rightarrow> 's call) \<Rightarrow> string \<Rightarrow> string \<Rightarrow> Env list \<Rightarrow> string gomap \<Rightarrow> 's call" where
  "upsertSecret C retry ns name vars labels = applySecret C retry ns name labels (\<lambda>_. Inr vars)"

definition validated :: "Env list \<Rightarrow> 's call \<Rightarrow> 's call" where
  \<comment> \<open>\<open>if err := validateEnvVars(vars); err != nil { return err }\<close>\<close>
  "validated vars op s = (case validateEnvVars vars of Some e \<Rightarrow> (Some e, s) | None \<Rightarrow> op s)"

definition store_Get :: "'s client \<Rightarrow> string \<Rightarrow> string \<Rightarrow> 's \<Rightarrow> (kerr + Env list) \<times> 's" where
  "store_Get C ns appName s =
     (case getSecret C ns (AppEnvSecretName appName) s of
        (Inl e, s1) \<Rightarrow> (if e = NotFound then Inr [] else Inl e, s1)
      | (Inr sec, s1) \<Rightarrow> (Inr (secretToEnvs sec), s1))"

definition store_GetShared :: "'s client \<Rightarrow> string \<Rightarrow> 's \<Rightarrow> (kerr + Env list) \<times> 's" where
  "store_GetShared C ns s =
     (case getSecret C ns SharedEnvName s of
        (Inl e, s1) \<Rightarrow> (if e = NotFound then Inr [] else Inl e, s1)
      | (Inr sec, s1) \<Rightarrow> (Inr (secretToEnvs sec), s1))"

definition store_GetSharedSource :: "'s client \<Rightarrow> string \<Rightarrow> 's \<Rightarrow> (kerr + Env list) \<times> 's" where
  "store_GetSharedSource C controlNs s =
     (case getSecret C controlNs SharedVarsSourceName s of
        (Inl e, s1) \<Rightarrow> (if e = NotFound then Inr [] else Inl e, s1)
      | (Inr sec, s1) \<Rightarrow> (Inr (secretToEnvs sec), s1))"

definition store_Set ::
  "'s client \<Rightarrow> ('s call \<Rightarrow> 's call) \<Rightarrow> string \<Rightarrow> string \<Rightarrow> Env list \<Rightarrow> string gomap \<Rightarrow> 's call" where
  "store_Set C retry ns appName vars labels =
     validated vars (upsertSecret C retry ns (AppEnvSecretName appName) vars labels)"

definition store_SetShared ::
  "'s client \<Rightarrow> ('s call \<Rightarrow> 's call) \<Rightarrow> string \<Rightarrow> Env list \<Rightarrow> string gomap \<Rightarrow> 's call" where
  "store_SetShared C retry ns vars labels = validated vars (upsertSecret C retry ns SharedEnvName vars labels)"

definition store_SetSharedSource ::
  "'s client \<Rightarrow> ('s call \<Rightarrow> 's call) \<Rightarrow> string \<Rightarrow> Env list \<Rightarrow> string gomap \<Rightarrow> 's call" where
  "store_SetSharedSource C retry controlNs vars labels =
     validated vars (upsertSecret C retry controlNs SharedVarsSourceName vars labels)"

definition store_Apply ::
  "'s client \<Rightarrow> ('s call \<Rightarrow> 's call) \<Rightarrow> string \<Rightarrow> string \<Rightarrow> string gomap \<Rightarrow>
   (Env list \<Rightarrow> gerr + Env list) \<Rightarrow> 's call" where
  "store_Apply C retry ns appName labels mutate =
     applySecret C retry ns (AppEnvSecretName appName) labels mutate"

definition store_Merge ::
  "'s client \<Rightarrow> ('s call \<Rightarrow> 's call) \<Rightarrow> string \<Rightarrow> string \<Rightarrow> Env list \<Rightarrow> string gomap \<Rightarrow> 's call" where
  "store_Merge C retry ns appName vars labels =
     validated vars (store_Apply C retry ns appName labels (\<lambda>current. Inr (mergeEnvs current vars)))"

definition store_MergeShared ::
  "'s client \<Rightarrow> ('s call \<Rightarrow> 's call) \<Rightarrow> string \<Rightarrow> Env list \<Rightarrow> string gomap \<Rightarrow> 's call" where
  "store_MergeShared C retry ns vars labels =
     validated vars (applySecret C retry ns SharedEnvName labels (\<lambda>current. Inr (mergeEnvs current vars)))"

definition store_MergeSharedSource ::
  "'s client \<Rightarrow> ('s call \<Rightarrow> 's call) \<Rightarrow> string \<Rightarrow> Env list \<Rightarrow> string gomap \<Rightarrow> 's call" where
  "store_MergeSharedSource C retry controlNs vars labels =
     validated vars
       (applySecret C retry controlNs SharedVarsSourceName labels (\<lambda>current. Inr (mergeEnvs current vars)))"

definition replace_source :: "string \<Rightarrow> Env list \<Rightarrow> Env list \<Rightarrow> Env list" where
  \<comment> \<open>the callback of \<open>ReplaceSource\<close>\<close>
  "replace_source source vars current = filter (\<lambda>e. Env_Source e \<noteq> source) current @ vars"

definition store_ReplaceSource ::
  "'s client \<Rightarrow> ('s call \<Rightarrow> 's call) \<Rightarrow> string \<Rightarrow> string \<Rightarrow> string \<Rightarrow> Env list \<Rightarrow> string gomap \<Rightarrow> 's call" where
  "store_ReplaceSource C retry ns appName source vars labels =
     validated vars (store_Apply C retry ns appName labels (\<lambda>current. Inr (replace_source source vars current)))"

definition update_attempt :: "'s client \<Rightarrow> nn \<Rightarrow> (secret \<Rightarrow> (gerr + bool) \<times> secret) \<Rightarrow> 's call" where
  "update_attempt C key mutate s =
     (case kGet C s key of
        (Inl e, s1) \<Rightarrow> (Some (Api [] e), s1)
      | (Inr ob, s1) \<Rightarrow>
          (case mutate ob of
             (Inl e, _) \<Rightarrow> (Some e, s1)
           | (Inr changed, ob') \<Rightarrow>
               (if \<not> changed then (None, s1)
                else (case kUpdate C s1 ob' of (e, s2) \<Rightarrow> (map_option (Api []) e, s2)))))"

definition UpdateWithConflictRetry ::
  "'s client \<Rightarrow> ('s call \<Rightarrow> 's call) \<Rightarrow> nn \<Rightarrow> (secret \<Rightarrow> (gerr + bool) \<times> secret) \<Rightarrow> 's call" where
  "UpdateWithConflictRetry C retry key mutate = retry (update_attempt C key mutate)"

definition delete_key :: "string \<Rightarrow> secret \<Rightarrow> (gerr + bool) \<times> secret" where
  "delete_key key sec =
     (if map_of (Sec_Data sec) key = None then (Inr False, sec)
      else (Inr True, removeKeyFromAnnotations (sec\<lparr>Sec_Data := AList.delete key (Sec_Data sec)\<rparr>) key))"

definition store_Delete ::
  "'s client \<Rightarrow> ('s call \<Rightarrow> 's call) \<Rightarrow> string \<Rightarrow> string \<Rightarrow> string \<Rightarrow> 's call" where
  "store_Delete C retry ns appName key s =
     (case getSecret C ns (AppEnvSecretName appName) s of
        (Inl e, s1) \<Rightarrow> (if e = NotFound then None else Some (Api [] e), s1)
      | (Inr sec, s1) \<Rightarrow>
          (if map_of (Sec_Data sec) key = None then (None, s1)
           else UpdateWithConflictRetry C retry (ns, AppEnvSecretName appName) (delete_key key) s1))"

definition SecretExists :: "'s client \<Rightarrow> string \<Rightarrow> string \<Rightarrow> 's \<Rightarrow> (kerr + bool) \<times> 's" where
  "SecretExists C ns appName s =
     (case kGet C s (ns, AppEnvSecretName appName) of
        (Inr _, s1) \<Rightarrow> (Inr True, s1)
      | (Inl e, s1) \<Rightarrow> (if e = NotFound then Inr False else Inl e, s1))"

definition ensure_named :: "'s client \<Rightarrow> string \<Rightarrow> string \<Rightarrow> string gomap \<Rightarrow> 's \<Rightarrow> kerr option \<times> 's" where
  \<comment> \<open>the common body of \<open>EnsureExists\<close> and \<open>EnsureSharedExists\<close>\<close>
  "ensure_named C ns name labels s =
     (case kGet C s (ns, name) of
        (Inr _, s1) \<Rightarrow> (None, s1)
      | (Inl e, s1) \<Rightarrow>
          (if e \<noteq> NotFound then (Some e, s1)
           else (case kCreate C s1 (buildSecret ns name [] labels) of
                   (None, s2) \<Rightarrow> (None, s2)
                 | (Some e, s2) \<Rightarrow> (if e = AlreadyExists then None else Some e, s2))))"

definition EnsureExists :: "'s client \<Rightarrow> string \<Rightarrow> string \<Rightarrow> string gomap \<Rightarrow> 's \<Rightarrow> kerr option \<times> 's" where
  "EnsureExists C ns appName labels s = ensure_named C ns (AppEnvSecretName appName) labels s"

definition EnsureSharedExists :: "'s client \<Rightarrow> string \<Rightarrow> string gomap \<Rightarrow> 's \<Rightarrow> kerr option \<times> 's" where
  "EnsureSharedExists C ns labels s = ensure_named C ns SharedEnvName labels s"

section \<open>Environment hash\<close>

definition hash_preimage :: "string gomap \<Rightarrow> string" where
  \<comment> \<open>the bytes written to the hash: \<open>key=value\<close> and a zero byte, in key order\<close>
  "hash_preimage data =
     concat (map (\<lambda>k. k @ ''='' @ lookup_str data k @ [CHR 0x00]) (sort (map fst (entries data))))"

definition HashData :: "(string \<Rightarrow> string) \<Rightarrow> string gomap \<Rightarrow> string" where
  \<comment> \<open>\<open>sha256\<close> is the standard library's digest\<close>
  "HashData sha256 data = (if entries data = [] then [] else hex_encode (sha256 (hash_preimage data)))"

fun combine_sources :: "'s client \<Rightarrow> string \<Rightarrow> string list \<Rightarrow> string gomap \<Rightarrow> 's \<Rightarrow> string gomap \<times> 's" where
  "combine_sources C envNs [] combined s = (combined, s)"
| "combine_sources C envNs (name # names) combined s =
     (case kGet C s (envNs, name) of
        (Inl _, s1) \<Rightarrow> combine_sources C envNs names combined s1
      | (Inr sec, s1) \<Rightarrow> combine_sources C envNs names (put_all (entries (Sec_Data sec)) combined) s1)"

definition EnvHash :: "'s client \<Rightarrow> (string \<Rightarrow> string) \<Rightarrow> string \<Rightarrow> string \<Rightarrow> 's \<Rightarrow> string \<times> 's" where
  "EnvHash C sha256 appName envNs s =
     (case combine_sources C envNs (envSourceNames appName) [] s of (combined, s1) \<Rightarrow> (HashData sha256 combined, s1))"

definition RetainedKeys :: "'s client \<Rightarrow> string \<Rightarrow> string \<Rightarrow> 's \<Rightarrow> string list \<times> 's" where
  "RetainedKeys C appName envNs s =
     (case kGet C s (envNs, AppEnvSecretName appName) of
        (Inl _, s1) \<Rightarrow> ([], s1)
      | (Inr sec, s1) \<Rightarrow>
          (sorted_list_of_set (parseKeySet (lookup_str (Sec_Annotations sec) AnnotationRetainedKeys)), s1))"

section \<open>Writes are atomic\<close>

definition vars_of :: "secret option \<Rightarrow> Env list" where
  "vars_of ob = (case ob of None \<Rightarrow> [] | Some sec \<Rightarrow> secretToEnvs sec)"

definition holds_values :: "Env list \<Rightarrow> secret \<Rightarrow> bool" where
  \<comment> \<open>the data of the Secret are the values of the list, the last entry of a name winning\<close>
  "holds_values vars sec \<longleftrightarrow> map_of (Sec_Data sec) = map_of (rev (map (\<lambda>e. (Env_Name e, Env_Value e)) vars))"

lemma holds_values_RV [simp]: "holds_values vars (sec\<lparr>Sec_RV := v\<rparr>) = holds_values vars sec"
  by (simp add: holds_values_def)

lemma holds_values_buildSecret: "holds_values vars (buildSecret ns name vars labels)"
  by (simp add: holds_values_def buildSecret_def map_simps)

lemma holds_values_updated:
  assumes "applyDesiredSecret old (buildSecret ns name vars labels) = (ch, res)"
  shows "holds_values vars res"
  using applyDesiredSecret_fields(1) [OF assms] by (simp add: holds_values_def buildSecret_def map_simps)

definition applied_at ::
  "('s \<Rightarrow> nn \<rightharpoonup> secret) \<Rightarrow> nn \<Rightarrow> (Env list \<Rightarrow> gerr + Env list) \<Rightarrow> 's \<Rightarrow> 's \<Rightarrow> bool" where
  \<comment> \<open>between the states \<open>s1\<close> and \<open>s'\<close> the Secret at \<open>key\<close>, and nothing else, changed from what
     is stored in \<open>s1\<close> to the contents the callback computes from it\<close>
  "applied_at view key mutate s1 s' \<longleftrightarrow>
     (\<exists>vars new. mutate (vars_of (view s1 key)) = Inr vars \<and> validateEnvVars vars = None \<and>
        view s' = (view s1)(key \<mapsto> new) \<and> holds_values vars new \<and>
        (wf_envs vars \<longrightarrow> secretToEnvs new = sort_key Env_Name (map norm_env vars)))"

definition left_alone ::
  "'s client \<Rightarrow> nn \<Rightarrow> (Env list \<Rightarrow> gerr + Env list) \<Rightarrow> 's \<Rightarrow> bool" where
  \<comment> \<open>the last read found a Secret the callback does not change, or the callback gave up\<close>
  "left_alone C key mutate s' \<longleftrightarrow>
     (\<exists>s0 got. kGet C s0 key = (got, s') \<and>
        (case got of
           Inl e \<Rightarrow> e = NotFound \<and> mutate [] = Inl ErrSkip
         | Inr sec \<Rightarrow>
             mutate (secretToEnvs sec) = Inl ErrSkip \<or>
             (\<exists>vars. mutate (secretToEnvs sec) = Inr vars \<and> holds_values vars sec \<and>
                (wf_envs vars \<longrightarrow> secretToEnvs sec = sort_key Env_Name (map norm_env vars)))))"

lemma left_aloneI:
  assumes "kGet C s0 key = (got, s')"
    and "case got of Inl e \<Rightarrow> e = NotFound \<and> mutate [] = Inl ErrSkip
       | Inr sec \<Rightarrow> mutate (secretToEnvs sec) = Inl ErrSkip \<or>
           (\<exists>vars. mutate (secretToEnvs sec) = Inr vars \<and> holds_values vars sec \<and>
              (wf_envs vars \<longrightarrow> secretToEnvs sec = sort_key Env_Name (map norm_env vars)))"
  shows "left_alone C key mutate s'"
  unfolding left_alone_def using assms by blast

lemma left_alone_total:
  assumes "left_alone C key (\<lambda>cur. Inr (f cur)) s'"
  obtains s0 sec where "kGet C s0 key = (Inr sec, s')" "holds_values (f (secretToEnvs sec)) sec"
    "wf_envs (f (secretToEnvs sec)) \<longrightarrow> secretToEnvs sec = sort_key Env_Name (map norm_env (f (secretToEnvs sec)))"
proof -
  from assms obtain s0 got where get: "kGet C s0 key = (got, s')"
    and c: "case got of Inl e \<Rightarrow> False
      | Inr sec \<Rightarrow> holds_values (f (secretToEnvs sec)) sec \<and>
          (wf_envs (f (secretToEnvs sec)) \<longrightarrow> secretToEnvs sec = sort_key Env_Name (map norm_env (f (secretToEnvs sec))))"
    by (auto simp: left_alone_def cong: sum.case_cong)
  then show thesis by (cases got) (auto intro: that)
qed

lemma applied_atI:
  assumes "view s' = (view s1)(key \<mapsto> new)" and "mutate (vars_of (view s1 key)) = Inr vars"
    and "validateEnvVars vars = None" and "holds_values vars new" and "wf_envs vars \<Longrightarrow> secretToEnvs new = sort_key Env_Name (map norm_env vars)"
  shows "applied_at view key mutate s1 s'"
  unfolding applied_at_def using assms by blast

lemma buildSecret_key [simp]: "sec_key (buildSecret ns n vs ls) = (ns, n)"
  by (simp add: sec_key_def buildSecret_def)

lemma secretToEnvs_RV [simp]: "secretToEnvs (sec\<lparr>Sec_RV := v\<rparr>) = secretToEnvs sec"
proof -
  have "source_of (sec\<lparr>Sec_RV := v\<rparr>) k = source_of sec k" for k
    by (simp add: source_of_def cong: if_cong)
  then show ?thesis by (simp add: secretToEnvs_def)
qed

lemma write_desired_created:
  assumes srv: "api_server C ok view hist" and ok: "ok s1"
    and w: "write_desired C ns name labels None vars s1 = (None, s')"
  shows "view s1 (ns, name) = None"
    and "\<exists>v. view s' = (view s1)((ns, name) \<mapsto> (buildSecret ns name vars labels)\<lparr>Sec_RV := v\<rparr>)"
proof -
  have c: "kCreate C s1 (buildSecret ns name vars labels) = (None, s')"
    using w by (auto simp: write_desired_def Let_def split: prod.splits option.splits if_splits)
  show "view s1 (ns, name) = None"
    and "\<exists>v. view s' = (view s1)((ns, name) \<mapsto> (buildSecret ns name vars labels)\<lparr>Sec_RV := v\<rparr>)"
    using api_create [OF srv ok c] by simp_all
qed

lemma write_desired_updated:
  assumes srv: "api_server C ok view hist" and ok: "ok s" and get: "kGet C s (ns, name) = (Inr old, s1)"
    and w: "write_desired C ns name labels (Some old) vars s1 = (None, s')"
  obtains (unchanged) "s' = s1" "applyDesiredSecret old (buildSecret ns name vars labels) = (False, old)"
  | (updated) v where "view s1 (ns, name) = Some old"
      "view s' = (view s1)((ns, name) \<mapsto> (snd (applyDesiredSecret old (buildSecret ns name vars labels)))\<lparr>Sec_RV := v\<rparr>)"
proof -
  obtain ch new where app: "applyDesiredSecret old (buildSecret ns name vars labels) = (ch, new)"
    by (cases "applyDesiredSecret old (buildSecret ns name vars labels)")
  show thesis
  proof (cases ch)
    case False
    with app have "new = old" by (simp add: applyDesiredSecret_unchanged)
    with False app w show thesis by (intro unchanged) (auto simp: write_desired_def Let_def)
  next
    case True
    with app w have upd: "kUpdate C s1 new = (None, s')"
      by (auto simp: write_desired_def Let_def split: prod.splits)
    have key: "sec_key new = (ns, name)" "Sec_RV new = Sec_RV old"
      using applyDesiredSecret_key [OF app] applyDesiredSecret_fields(4) [OF app] api_get(3) [OF srv ok get]
      by simp_all
    show thesis
      using api_update_replaces_read [OF srv ok get upd key] app updated by auto
  qed
qed

lemma write_desired_ok:
  assumes "api_server C ok view hist" "ok s1" "write_desired C ns name labels ex vars s1 = (r, s')"
  shows "ok s'"
  using assms api_create_ok [OF assms(1,2)] api_update_ok [OF assms(1,2)]
  by (auto simp: write_desired_def Let_def split: option.splits prod.splits if_splits)

lemma apply_attempt_ok:
  assumes "api_server C ok view hist" "ok s" "apply_attempt C ns name labels mutate s = (r, s')"
  shows "ok s'"
proof -
  obtain got s1 where get: "kGet C s (ns, name) = (got, s1)" by (cases "kGet C s (ns, name)")
  have "ok s1" using api_get_ok [OF assms(1,2) get] .
  then show ?thesis
    using assms(3) write_desired_ok [OF assms(1)] get
    by (auto simp: apply_attempt_def split: sum.splits option.splits if_splits)
qed

text \<open>The three ways an attempt can succeed.\<close>

lemma apply_attempt_cases:
  assumes "apply_attempt C ns name labels mutate s = (None, s')"
  obtains (skip) got where "kGet C s (ns, name) = (got, s')" "got = Inl NotFound \<or> (\<exists>sec. got = Inr sec)"
      "mutate (case got of Inl _ \<Rightarrow> [] | Inr sec \<Rightarrow> secretToEnvs sec) = Inl ErrSkip"
  | (create) s1 vars where "kGet C s (ns, name) = (Inl NotFound, s1)" "mutate [] = Inr vars"
      "validateEnvVars vars = None" "write_desired C ns name labels None vars s1 = (None, s')"
  | (update) s1 old vars where "kGet C s (ns, name) = (Inr old, s1)" "mutate (secretToEnvs old) = Inr vars"
      "validateEnvVars vars = None" "write_desired C ns name labels (Some old) vars s1 = (None, s')"
proof -
  obtain got s1 where get: "kGet C s (ns, name) = (got, s1)" by (cases "kGet C s (ns, name)")
  show thesis
  proof (cases got)
    case (Inl e)
    with get assms show thesis
      by (auto simp: apply_attempt_def intro: skip create split: sum.splits option.splits if_splits)
  next
    case (Inr old)
    with get assms show thesis
      by (auto simp: apply_attempt_def intro: skip update split: sum.splits option.splits if_splits)
  qed
qed

lemma apply_attempt_atomic:
  assumes srv: "api_server C ok view hist" and ok: "ok s"
    and a: "apply_attempt C ns name labels mutate s = (None, s')"
  shows "left_alone C (ns, name) mutate s' \<or> (\<exists>s1. applied_at view (ns, name) mutate s1 s')"
  using a
proof (cases rule: apply_attempt_cases)
  case (skip got)
  then show ?thesis by (intro disjI1 left_aloneI [OF skip(1)]) auto
next
  case (create s1 vars)
  have "ok s1" using api_get_ok [OF srv ok create(1)] .
  note w = write_desired_created [OF srv this create(4)]
  then obtain v where "view s' = (view s1)((ns, name) \<mapsto> (buildSecret ns name vars labels)\<lparr>Sec_RV := v\<rparr>)"
    by blast
  then have "applied_at view (ns, name) mutate s1 s'"
    using w(1) create by (intro applied_atI) (auto simp: vars_of_def fresh_secret.decode_encode holds_values_buildSecret)
  then show ?thesis by blast
next
  case (update s1 old vars)
  from srv ok update(1,4) show ?thesis
  proof (cases rule: write_desired_updated)
    case unchanged
    then have "left_alone C (ns, name) mutate s1"
      using update(2) secretToEnvs_applyDesired holds_values_updated by (intro left_aloneI [OF update(1)]) auto
    with unchanged show ?thesis by simp
  next
    case (updated v)
    have "holds_values vars (snd (applyDesiredSecret old (buildSecret ns name vars labels)))"
      by (rule holds_values_updated [OF prod.collapse [symmetric]])
    then have "applied_at view (ns, name) mutate s1 s'"
      using update updated
      by (intro applied_atI [OF updated(2)]) (auto simp: vars_of_def updated_secret.decode_encode)
    then show ?thesis by blast
  qed
qed

lemma applySecret_linear:
  assumes srv: "api_server C ok view hist" and rt: "retries retry" and ok: "ok s"
    and res: "applySecret C retry ns name labels mutate s = (None, s')"
  shows "left_alone C (ns, name) mutate s' \<or> (\<exists>s1. applied_at view (ns, name) mutate s1 s')"
proof -
  have "retry_run (apply_attempt C ns name labels mutate) s None s'"
    using rt res by (simp add: retries_def applySecret_def)
  then obtain s0 where "ok s0" "apply_attempt C ns name labels mutate s0 = (None, s')"
    using retry_run_last [of _ s None s' ok] ok apply_attempt_ok [OF srv] by blast
  then show ?thesis using apply_attempt_atomic [OF srv] by blast
qed

section \<open>The hash identifies the environment\<close>

definition pair_bytes :: "string \<times> string \<Rightarrow> string" where
  "pair_bytes = (\<lambda>(k, v). k @ ''='' @ v @ [CHR 0x00])"

definition plain_pair :: "string \<times> string \<Rightarrow> bool" where
  "plain_pair = (\<lambda>(k, v). CHR ''='' \<notin> set k \<and> CHR 0x00 \<notin> set v)"

lemma append_sep_inj:
  "c \<notin> set a \<Longrightarrow> c \<notin> set b \<Longrightarrow> a @ c # x = b @ c # y \<Longrightarrow> a = b \<and> x = y"
  by (induction a arbitrary: b) (case_tac [!] b, auto)

lemma concat_pair_bytes_inj:
  "\<forall>p \<in> set ps. plain_pair p \<Longrightarrow> \<forall>q \<in> set qs. plain_pair q \<Longrightarrow>
   concat (map pair_bytes ps) = concat (map pair_bytes qs) \<Longrightarrow> ps = qs"
proof (induction ps arbitrary: qs)
  case Nil
  then show ?case by (cases qs) (auto simp: pair_bytes_def)
next
  case (Cons p ps)
  obtain k v where p: "p = (k, v)" by (cases p)
  from Cons.prems(3) obtain q qs' where qs: "qs = q # qs'" by (cases qs) (auto simp: pair_bytes_def p)
  obtain k' v' where q: "q = (k', v')" by (cases q)
  have plain: "CHR ''='' \<notin> set k" "CHR ''='' \<notin> set k'" "CHR 0x00 \<notin> set v" "CHR 0x00 \<notin> set v'"
    using Cons.prems p q qs by (auto simp: plain_pair_def)
  have bytes: "k @ CHR ''='' # (v @ CHR 0x00 # concat (map pair_bytes ps)) =
      k' @ CHR ''='' # (v' @ CHR 0x00 # concat (map pair_bytes qs'))"
    using Cons.prems(3) p q qs by (simp add: pair_bytes_def)
  from append_sep_inj [OF plain(1,2) bytes]
  have k: "k = k'" and rest: "v @ CHR 0x00 # concat (map pair_bytes ps) = v' @ CHR 0x00 # concat (map pair_bytes qs')"
    by auto
  from append_sep_inj [OF plain(3,4) rest]
  have v: "v = v'" and tl: "concat (map pair_bytes ps) = concat (map pair_bytes qs')" by blast+
  have "ps = qs'" using Cons.prems(1,2) tl by (intro Cons.IH) (simp_all add: qs)
  then show ?case by (simp add: k v p q qs)
qed

definition sorted_pairs :: "string gomap \<Rightarrow> (string \<times> string) list" where
  "sorted_pairs data = map (\<lambda>k. (k, lookup_str data k)) (sort (map fst (entries data)))"

lemma hash_preimage_pairs: "hash_preimage data = concat (map pair_bytes (sorted_pairs data))"
  by (simp add: hash_preimage_def sorted_pairs_def pair_bytes_def o_def)

lemma lookup_str_entries: "(k, v) \<in> set (entries data) \<Longrightarrow> lookup_str data k = v"
  by (simp add: set_entries lookup_str_def)

lemma set_sorted_pairs: "set (sorted_pairs data) = set (entries data)"
  unfolding sorted_pairs_def using lookup_str_entries by force

lemma sorted_pairs_cong: "map_of a = map_of b \<Longrightarrow> sorted_pairs a = sorted_pairs b"
proof -
  assume eq: "map_of a = map_of b"
  then have "set (map fst (entries a)) = set (map fst (entries b))" by (simp add: set_entries)
  then have "sort (map fst (entries a)) = sort (map fst (entries b))"
    by (metis distinct_clearjunk distinct_sort set_sort sorted_distinct_set_unique sorted_sort)
  with eq show ?thesis by (simp add: sorted_pairs_def lookup_str_def)
qed

lemma HashData_cong: "map_of a = map_of b \<Longrightarrow> HashData sha a = HashData sha b"
proof -
  assume eq: "map_of a = map_of b"
  have "(entries a = []) = (entries b = [])"
    using eq by (metis map_of_clearjunk map_of_eq_empty_iff)
  with sorted_pairs_cong [OF eq] show ?thesis by (simp add: HashData_def hash_preimage_pairs)
qed

lemma hash_preimage_inj:
  assumes "\<forall>p \<in> set (entries a). plain_pair p" "\<forall>p \<in> set (entries b). plain_pair p"
    and "hash_preimage a = hash_preimage b"
  shows "map_of a = map_of b"
proof -
  have "sorted_pairs a = sorted_pairs b"
    using concat_pair_bytes_inj [of "sorted_pairs a" "sorted_pairs b"] assms
    by (simp add: set_sorted_pairs hash_preimage_pairs)
  then have "set (entries a) = set (entries b)" by (metis set_sorted_pairs)
  then have "map_of (entries a) = map_of (entries b)" by (intro map_of_set_cong) simp_all
  then show ?thesis by (simp add: map_of_clearjunk)
qed

text \<open>
  What a container sees: Kubernetes builds the environment from the \<open>envFrom\<close> entries in
  order and a later entry overrides an earlier one.
\<close>

definition process_env :: "secret list \<Rightarrow> string \<rightharpoonup> string" where
  "process_env sources = foldl (\<lambda>m sec. m ++ map_of (Sec_Data sec)) Map.empty sources"

lemma combine_sources_env:
  assumes "kGet C s (ns, a) = (r1, s1)" "kGet C s1 (ns, b) = (r2, s2)"
  shows "\<exists>d. combine_sources C ns [a, b] [] s = (d, s2) \<and>
    map_of d = process_env ((case r1 of Inr sec \<Rightarrow> [sec] | Inl _ \<Rightarrow> []) @ (case r2 of Inr sec \<Rightarrow> [sec] | Inl _ \<Rightarrow> []))"
  using assms
  by (auto simp: process_env_def map_of_put_all_distinct map_of_clearjunk split: sum.splits)

section \<open>Deleting a variable\<close>

lemma split_on_pieces: "p \<in> set (split_on c s) \<Longrightarrow> c \<notin> set p"
proof (induction s arbitrary: p)
  case (Cons x s)
  then show ?case by (cases "split_on c s") (auto split: if_splits)
qed simp

lemma parseKeySet_alt: "parseKeySet csv = trim_space ` set (split_on CHR '','' csv) - {[]}"
  by (auto simp: parseKeySet_def trim_space_def trim_def trim_left_def)

lemma parseKeySet_filter:
  assumes "filter P (split_on CHR '','' csv) \<noteq> []"
  shows "parseKeySet (join (filter P (split_on CHR '','' csv)) '','') =
    trim_space ` set (filter P (split_on CHR '','' csv)) - {[]}"
proof -
  have "split_on CHR '','' (join (filter P (split_on CHR '','' csv)) '','') = filter P (split_on CHR '','' csv)"
    using assms by (intro split_on_join) (auto dest: split_on_pieces)
  then show ?thesis by (simp add: parseKeySet_alt)
qed

lemma drop_key_parse:
  "parseKeySet (lookup_str (drop_key key ann m) ann) = parseKeySet (lookup_str m ann) - {key}"
proof (cases "map_of m ann")
  case None
  then show ?thesis by (simp add: drop_key_def lookup_str_def parseKeySet_def)
next
  case (Some csv)
  let ?f = "filter (\<lambda>k. trim_space k \<noteq> key) (split_on CHR '','' csv)"
  have kept: "trim_space ` set ?f - {[]} = parseKeySet csv - {key}" by (auto simp: parseKeySet_alt)
  show ?thesis
  proof (cases "?f = []")
    case True
    then have "lookup_str (drop_key key ann m) ann = []"
      using Some by (simp add: drop_key_def Let_def lookup_str_def delete_conv')
    moreover have "lookup_str m ann = csv" using Some by (simp add: lookup_str_def)
    ultimately show ?thesis using kept by (simp only: True) (simp add: parseKeySet_def)
  next
    case False
    then have "lookup_str (drop_key key ann m) ann = join ?f '',''"
      using Some by (simp only: drop_key_def Let_def option.case if_False lookup_str_update if_True refl)
    moreover have "lookup_str m ann = csv" using Some by (simp add: lookup_str_def)
    ultimately show ?thesis using kept parseKeySet_filter [OF False] by (simp only:)
  qed
qed

lemma drop_key_other: "ann' \<noteq> ann \<Longrightarrow> map_of (drop_key key ann m) ann' = map_of m ann'"
  by (auto simp: drop_key_def Let_def delete_conv' update_conv' split: option.split)

lemma drop_key_lookup_other [simp]: "ann' \<noteq> ann \<Longrightarrow> lookup_str (drop_key key ann m) ann' = lookup_str m ann'"
  by (simp add: lookup_str_def drop_key_other)

lemma removeKey_parse:
  assumes "ann \<in> set source_annotations"
  shows "parseKeySet (lookup_str (Sec_Annotations (removeKeyFromAnnotations sec key)) ann) =
    parseKeySet (lookup_str (Sec_Annotations sec) ann) - {key}"
  using assms unfolding removeKeyFromAnnotations_def source_annotations_def
  by (auto simp: drop_key_parse annotation_defs)

lemma removeKey_source_of: "k \<noteq> key \<Longrightarrow> source_of (removeKeyFromAnnotations sec key) k = source_of sec k"
  by (simp add: source_of_def removeKey_parse source_annotations_def)

lemma env_of_decoded:
  "env_of (map (\<lambda>(k, v). \<lparr>Env_Name = k, Env_Value = v, Env_Source = f k\<rparr>) xs) k = map_option (\<lambda>v. (v, f k)) (map_of xs k)"
  by (induction xs) (auto simp: env_of_def)

lemma env_of_secretToEnvs:
  "env_of (secretToEnvs sec) k = map_option (\<lambda>v. (v, source_of sec k)) (map_of (Sec_Data sec) k)"
proof -
  let ?dec = "\<lambda>(k, v). \<lparr>Env_Name = k, Env_Value = v, Env_Source = source_of sec k\<rparr>"
  have names: "map Env_Name (map ?dec (entries (Sec_Data sec))) = map fst (entries (Sec_Data sec))"
    by (simp add: case_prod_beta o_def)
  have "distinct (map Env_Name (map ?dec (entries (Sec_Data sec))))"
    by (simp only: names distinct_clearjunk)
  then have "env_of (secretToEnvs sec) k = env_of (map ?dec (entries (Sec_Data sec))) k"
    by (simp add: secretToEnvs_def)
  also have "\<dots> = map_option (\<lambda>v. (v, source_of sec k)) (map_of (entries (Sec_Data sec)) k)"
    by (rule env_of_decoded)
  finally show ?thesis by (simp add: map_of_clearjunk)
qed

lemma delete_key_view:
  assumes "delete_key key sec = (Inr True, new)"
  shows "env_of (secretToEnvs new) = (env_of (secretToEnvs sec))(key := None)"
    and "sec_key new = sec_key sec" "Sec_RV new = Sec_RV sec"
proof -
  have new: "new = removeKeyFromAnnotations (sec\<lparr>Sec_Data := AList.delete key (Sec_Data sec)\<rparr>) key"
    using assms by (auto simp: delete_key_def split: if_splits)
  have data: "map_of (Sec_Data new) = (map_of (Sec_Data sec))(key := None)"
    by (simp add: new removeKeyFromAnnotations_def delete_conv')
  have "source_of new k = source_of sec k" if "k \<noteq> key" for k
    using that by (simp add: new removeKey_source_of) (simp add: source_of_def cong: if_cong)
  then show "env_of (secretToEnvs new) = (env_of (secretToEnvs sec))(key := None)"
    by (auto simp: fun_eq_iff env_of_secretToEnvs data)
  show "sec_key new = sec_key sec" "Sec_RV new = Sec_RV sec"
    by (simp_all add: new removeKeyFromAnnotations_def sec_key_def)
qed

lemma update_attempt_ok:
  assumes "api_server C ok view hist" "ok s" "update_attempt C key mutate s = (r, s')"
  shows "ok s'"
proof -
  obtain got s1 where get: "kGet C s key = (got, s1)" by (cases "kGet C s key")
  have "ok s1" using api_get_ok [OF assms(1,2) get] .
  then show ?thesis
    using assms(3) api_update_ok [OF assms(1)] get
    by (auto simp: update_attempt_def split: sum.splits prod.splits if_splits)
qed

text \<open>
  A read-modify-write through \<open>UpdateWithConflictRetry\<close> that succeeds either found nothing to
  change in its last read or replaced the object it had read.
\<close>

lemma UpdateWithConflictRetry_linear:
  assumes srv: "api_server C ok view hist" and rt: "retries retry" and ok: "ok s"
    and keeps: "\<And>ob ob'. mutate ob = (Inr True, ob') \<Longrightarrow> sec_key ob' = sec_key ob \<and> Sec_RV ob' = Sec_RV ob"
    and res: "UpdateWithConflictRetry C retry key mutate s = (None, s')"
  obtains (unchanged) s0 ob where "kGet C s0 key = (Inr ob, s')" "fst (mutate ob) = Inr False"
  | (updated) s1 ob ob' v where "mutate ob = (Inr True, ob')" "view s1 key = Some ob"
      "view s' = (view s1)(key \<mapsto> ob'\<lparr>Sec_RV := v\<rparr>)"
proof -
  have "retry_run (update_attempt C key mutate) s None s'"
    using rt res by (simp add: retries_def UpdateWithConflictRetry_def)
  then obtain s0 where ok0: "ok s0" and a: "update_attempt C key mutate s0 = (None, s')"
    using retry_run_last [of _ s None s' ok] ok update_attempt_ok [OF srv] by blast
  obtain got s1 where get: "kGet C s0 key = (got, s1)" by (cases "kGet C s0 key")
  from a get obtain ob where got: "got = Inr ob" by (auto simp: update_attempt_def split: sum.splits)
  obtain r ob' where m: "mutate ob = (r, ob')" by (cases "mutate ob")
  from a get got m obtain ch where r: "r = Inr ch" by (auto simp: update_attempt_def split: sum.splits)
  show thesis
  proof (cases ch)
    case False
    with a get got m r show thesis by (intro unchanged) (auto simp: update_attempt_def)
  next
    case True
    with a get got m r have upd: "kUpdate C s1 ob' = (None, s')"
      by (auto simp: update_attempt_def split: prod.splits)
    have key: "sec_key ob' = key" "Sec_RV ob' = Sec_RV ob"
      using keeps m r True api_get(3) [OF srv ok0] get got by auto
    from get got have get': "kGet C s0 key = (Inr ob, s1)" by simp
    note w = api_update_replaces_read [OF srv ok0 get' upd key]
    from w(2) obtain v where "view s' = (view s1)(key \<mapsto> ob'\<lparr>Sec_RV := v\<rparr>)" by blast
    with w(1) m r True show thesis by (intro updated) auto
  qed
qed

lemma overlay_self:
  "(\<And>k v. (k, v) \<in> set src \<Longrightarrow> lookup_str dst k = v) \<Longrightarrow> snd (overlay src dst c) = c"
  by (induction src) auto

lemma source_of_norm [simp]: "norm_source (source_of sec k) = source_of sec k"
  by (simp add: source_of_def norm_source_def)

lemma vars_of_distinct: "distinct (map Env_Name (vars_of ob))"
proof (cases ob)
  case (Some sec)
  let ?dec = "\<lambda>(k, v). \<lparr>Env_Name = k, Env_Value = v, Env_Source = source_of sec k\<rparr>"
  have "map Env_Name (map ?dec (entries (Sec_Data sec))) = map fst (entries (Sec_Data sec))"
    by (simp add: case_prod_beta o_def)
  then have "distinct (map Env_Name (map ?dec (entries (Sec_Data sec))))"
    by (simp only: distinct_clearjunk)
  then have "distinct (map Env_Name (secretToEnvs sec))"
    unfolding secretToEnvs_def by (simp only: distinct_map distinct_sort set_sort)
  then show ?thesis by (simp add: Some vars_of_def)
qed (simp add: vars_of_def)

lemma vars_of_norm: "norm_view (env_of (vars_of ob)) = env_of (vars_of ob)"
proof (cases ob)
  case None
  then show ?thesis by (simp add: vars_of_def norm_view_def env_of_def)
next
  case (Some sec)
  then show ?thesis
    by (simp add: vars_of_def norm_view_def env_of_secretToEnvs option.map_comp o_def flip: fun_eq_iff)
       (rule ext, simp add: env_of_secretToEnvs)
qed

section \<open>Properties\<close>

text \<open>
  C1: A call of \<open>Apply\<close> (the primitive under every write of the store) that returns no error
  took effect atomically: either the Secret now holds, in the place of exactly the contents
  stored when the write happened, what the callback computes from those contents, and no
  other object changed; or the callback asked to skip, or the version it read already had
  the contents it wants. Concurrent writers cannot lose an update.
\<close>

theorem Apply_no_lost_update:
  assumes "api_server C ok view hist" and "retries retry" and "ok s"
    and "store_Apply C retry ns appName labels mutate s = (None, s')"
  shows "left_alone C (ns, AppEnvSecretName appName) mutate s' \<or>
    (\<exists>s1. applied_at view (ns, AppEnvSecretName appName) mutate s1 s')"
  using assms unfolding store_Apply_def by (rule applySecret_linear)

theorem Apply_no_lost_update_witness:
  "left_alone mem_client (''ns'', AppEnvSecretName ''a'') (\<lambda>cur. Inr cur)
     (snd (store_Apply mem_client mem_retry ''ns'' ''a'' [] (\<lambda>cur. Inr cur) mem_empty)) \<or>
   (\<exists>s1. applied_at (\<lambda>s. map_of (mem_objs s)) (''ns'', AppEnvSecretName ''a'') (\<lambda>cur. Inr cur) s1
     (snd (store_Apply mem_client mem_retry ''ns'' ''a'' [] (\<lambda>cur. Inr cur) mem_empty)))"
proof (rule Apply_no_lost_update [OF mem_api_server mem_retries mem_empty_ok])
  show "store_Apply mem_client mem_retry ''ns'' ''a'' [] (\<lambda>cur. Inr cur) mem_empty =
      (None, snd (store_Apply mem_client mem_retry ''ns'' ''a'' [] (\<lambda>cur. Inr cur) mem_empty))"
    by (simp add: store_Apply_def applySecret_def mem_retry_def numeral_eq_Suc apply_attempt_def mem_client_def
        mem_empty_def write_desired_def)
qed


definition ex_vars :: "Env list" where
  "ex_vars = [\<lparr>Env_Name = ''B'', Env_Value = ''2'', Env_Source = ''binding''\<rparr>,
     \<lparr>Env_Name = ''A'', Env_Value = ''1'', Env_Source = ''user''\<rparr>]"

lemma wf_ex_vars: "wf_envs ex_vars"
  by (simp add: ex_vars_def wf_envs_def ValidateEnvVarName_def name_start_def)

definition ex_merge :: "gerr option \<times> mem" where
  "ex_merge = store_Merge mem_client mem_retry ''ns'' ''a'' ex_vars [] mem_empty"

lemma ex_merge_ok: "store_Merge mem_client mem_retry ''ns'' ''a'' ex_vars [] mem_empty = (None, snd ex_merge)"
proof -
  have "wf_envs (mergeEnvs [] ex_vars)"
    using wf_ex_vars by (intro wf_mergeEnvs) (simp_all add: wf_envs_def)
  then show ?thesis
    using wf_ex_vars
    by (simp add: ex_merge_def store_Merge_def validated_def store_Apply_def applySecret_def mem_retry_def
        numeral_eq_Suc apply_attempt_def mem_client_def mem_empty_def write_desired_def wf_envs_def)
qed


text \<open>
  Round trip of the encoding. A list of variables with valid, distinct names written with
  \<open>buildSecret\<close> and read back with \<open>secretToEnvs\<close> is the same list sorted by name; every source
  the annotations track survives and any other source reads back as a user variable.
\<close>

theorem env_secret_roundtrip:
  assumes "distinct (map Env_Name vars)" and "validateEnvVars vars = None"
  shows "secretToEnvs (buildSecret ns name vars labels) = sort_key Env_Name (map norm_env vars)"
  using assms by (intro fresh_secret.decode_encode) (simp add: wf_envs_def)

theorem env_secret_roundtrip_witness:
  "secretToEnvs (buildSecret ''ns'' ''a-env'' ex_vars []) = rev ex_vars"
  using env_secret_roundtrip [of ex_vars "''ns''" "''a-env''" "[]"] wf_ex_vars
  by (simp add: wf_envs_def) (simp add: ex_vars_def norm_env_def norm_source_def)

text \<open>
  Updating an existing Secret keeps what is not the store's: annotations other than the
  four source lists and labels the store does not set are unchanged, while the data, the
  source of every key and the store's labels become those of the desired Secret. The
  object keeps its name, namespace and resource version.
\<close>

theorem applyDesiredSecret_frame:
  assumes "applyDesiredSecret existing (buildSecret ns name vars labels) = (changed, res)"
  shows "map_of (Sec_Data res) = map_of (Sec_Data (buildSecret ns name vars labels)) \<and>
    (\<forall>k. source_of res k = source_of (buildSecret ns name vars labels) k) \<and>
    (\<forall>k. k \<notin> set source_annotations \<longrightarrow> map_of (Sec_Annotations res) k = map_of (Sec_Annotations existing) k) \<and>
    (\<forall>k. k \<noteq> ManagedByLabel \<longrightarrow> map_of labels k = None \<longrightarrow> map_of (Sec_Labels res) k = map_of (Sec_Labels existing) k) \<and>
    (\<forall>k v. map_of labels k = Some v \<longrightarrow> lookup_str (Sec_Labels res) k = v) \<and>
    sec_key res = sec_key existing \<and> Sec_RV res = Sec_RV existing"
proof -
  note f = applyDesiredSecret_fields [OF assms]
  have anns: "fst ` set (Sec_Annotations (buildSecret ns name vars labels)) \<subseteq> set source_annotations"
    by (auto simp: buildSecret_def key_annotation_def source_annotations_def)
  have labs: "map_of (Sec_Labels (buildSecret ns name vars labels)) = [ManagedByLabel \<mapsto> ManagedByValue] ++ map_of labels"
    by (simp add: buildSecret_def map_of_put_all_distinct map_of_clearjunk)
  have "k \<notin> fst ` set (Sec_Labels (buildSecret ns name vars labels))"
    if "k \<noteq> ManagedByLabel" "map_of labels k = None" for k
    using that labs by (simp add: map_of_eq_None_iff [symmetric] map_add_None)
  moreover have "map_of (Sec_Labels (buildSecret ns name vars labels)) k = Some v" if "map_of labels k = Some v" for k v
    using that labs by simp
  ultimately show ?thesis
    using anns
    by (intro conjI allI impI f applyDesiredSecret_source_of [OF assms] applyDesiredSecret_key [OF assms]) auto
qed

definition ex_foreign :: secret where
  "ex_foreign = \<lparr>Sec_Namespace = ''ns'', Sec_Name = ''a-env'', Sec_Labels = [(''team'', ''x'')],
     Sec_Annotations = [(''note'', ''keep'')], Sec_Data = [(''OLD'', ''0'')], Sec_RV = ''7''\<rparr>"

theorem applyDesiredSecret_frame_witness:
  "map_of (Sec_Annotations (snd (applyDesiredSecret ex_foreign (buildSecret ''ns'' ''a-env'' ex_vars [])))) ''note''
     = Some ''keep''"
  using applyDesiredSecret_frame [of ex_foreign "''ns''" "''a-env''" ex_vars "[]",
      OF surjective_pairing]
  by (simp add: source_annotations_def annotation_defs) (simp add: ex_foreign_def)

text \<open>
  Writing a Secret again with the contents it already has. \<open>applyDesiredSecret\<close> leaves the
  contents as they are, yet it reports a change exactly when some variable has a tracked
  source: it deletes the source annotations first, counts that as a change, and puts the
  same annotations back. Every reconcile of an app with a binding, generated, shared or
  retained variable therefore sends an update that changes nothing.
\<close>

theorem reapply_reports_change_iff:
  assumes wf: "wf_envs vars"
  shows "fst (applyDesiredSecret (buildSecret ns name vars labels) (buildSecret ns name vars labels)) \<longleftrightarrow>
    (\<exists>e \<in> set vars. Env_Source e \<in> {''binding'', ''generated'', ''shared'', ''retained''})"
proof -
  let ?d = "buildSecret ns name vars labels"
  let ?cl = "drop_annotations source_annotations (Sec_Annotations ?d) False"
  let ?an = "overlay (entries (Sec_Annotations ?d)) (fst ?cl) (snd ?cl)"
  have same: "secretDataEqual (Sec_Data ?d) (Sec_Data ?d)" by (simp add: secretDataEqual_iff)
  have keys: "keys_with src vars = [] \<longleftrightarrow> (\<forall>e \<in> set vars. Env_Source e \<noteq> src)" for src
    by (auto simp: keys_with_def filter_empty_conv)
  have cl: "snd ?cl \<longleftrightarrow> (\<exists>e \<in> set vars. Env_Source e \<in> {''binding'', ''generated'', ''shared'', ''retained''})"
    unfolding drop_annotations_changed
    by (auto simp: source_annotations_def buildSecret_def key_annotation_def keys annotation_defs
        split: if_splits)
  have self: "snd (overlay (entries m) m c) = c" for m :: "string gomap" and c
    by (rule overlay_self) (auto simp: lookup_str_entries)
  have an: "snd ?an = snd ?cl"
  proof (cases "snd ?cl")
    case True
    then show ?thesis by (simp add: overlay_keeps_flag)
  next
    case False
    then have "fst ?cl = Sec_Annotations ?d" by (rule drop_annotations_unchanged)
    then show ?thesis by (simp add: self)
  qed
  have "fst (applyDesiredSecret ?d ?d) = snd ?an"
    by (simp add: applyDesiredSecret_def Let_def case_prod_beta same self)
  with an cl show ?thesis by simp
qed

theorem reapply_reports_change_iff_witness:
  "fst (applyDesiredSecret (buildSecret ''ns'' ''a-env'' ex_vars []) (buildSecret ''ns'' ''a-env'' ex_vars []))"
  using reapply_reports_change_iff [OF wf_ex_vars, of "''ns''" "''a-env''" "[]"]
  by (simp add: ex_vars_def)

text \<open>
  \<open>Delete\<close> of a variable that returns no error: the Secret that was stored when the write
  happened lost exactly that variable, with its entry in the source annotations, and kept
  the value and source of every other one; or a read found no such Secret or no such key.
\<close>

theorem Delete_removes_one:
  assumes srv: "api_server C ok view hist" and rt: "retries retry" and ok: "ok s"
    and res: "store_Delete C retry ns appName key s = (None, s')"
  shows "(\<exists>s1 old new. view s1 (ns, AppEnvSecretName appName) = Some old \<and>
            view s' = (view s1)((ns, AppEnvSecretName appName) \<mapsto> new) \<and>
            env_of (secretToEnvs new) = (env_of (secretToEnvs old))(key := None)) \<or>
         (\<exists>s0. kGet C s0 (ns, AppEnvSecretName appName) = (Inl NotFound, s')) \<or>
         (\<exists>s0 sec. kGet C s0 (ns, AppEnvSecretName appName) = (Inr sec, s') \<and> map_of (Sec_Data sec) key = None)"
proof -
  let ?key = "(ns, AppEnvSecretName appName)"
  obtain got s1 where get: "kGet C s ?key = (got, s1)" by (cases "kGet C s ?key")
  have ok1: "ok s1" using api_get_ok [OF srv ok get] .
  show ?thesis
  proof (cases "UpdateWithConflictRetry C retry ?key (delete_key key) s1 = (None, s')")
    case True
    have keeps: "sec_key ob' = sec_key ob \<and> Sec_RV ob' = Sec_RV ob" if "delete_key key ob = (Inr True, ob')" for ob ob'
      using delete_key_view(2,3) [OF that] by simp
    show ?thesis
    proof (rule UpdateWithConflictRetry_linear [OF srv rt ok1 keeps True])
      fix s0 ob assume "kGet C s0 ?key = (Inr ob, s')" "fst (delete_key key ob) = Inr False"
      then show ?thesis by (auto simp: delete_key_def split: if_splits)
    next
      fix s2 ob ob' v
      assume d: "delete_key key ob = (Inr True, ob')" and w: "view s2 ?key = Some ob"
        "view s' = (view s2)(?key \<mapsto> ob'\<lparr>Sec_RV := v\<rparr>)"
      have "env_of (secretToEnvs (ob'\<lparr>Sec_RV := v\<rparr>)) = (env_of (secretToEnvs ob))(key := None)"
        by (simp add: delete_key_view(1) [OF d])
      with w show ?thesis by blast
    qed
  next
    case False
    then show ?thesis
      using res get by (auto simp: store_Delete_def getSecret_def split: sum.splits if_splits)
  qed
qed

definition ex_stored :: mem where
  "ex_stored = mem_store mem_empty (buildSecret ''ns'' (AppEnvSecretName ''a'') ex_vars [])"

lemma ex_stored_ok: "mem_ok ex_stored"
  by (simp add: ex_stored_def mem_store_ok)

lemma ex_stored_obj:
  "mem_objs ex_stored = [((''ns'', AppEnvSecretName ''a''), buildSecret ''ns'' (AppEnvSecretName ''a'') ex_vars [])]"
  by (simp add: ex_stored_def mem_store_def mem_empty_def Let_def) (simp add: buildSecret_def)

lemma ex_data: "map_of (Sec_Data (buildSecret ns n ex_vars ls)) = [''B'' \<mapsto> ''2'', ''A'' \<mapsto> ''1'']"
  by (simp add: data_buildSecret wf_ex_vars [unfolded wf_envs_def]) (simp add: ex_vars_def fun_upd_twist)

definition ex_delete :: "gerr option \<times> mem" where
  "ex_delete = store_Delete mem_client mem_retry ''ns'' ''a'' ''A'' ex_stored"

lemma removeKey_sec_key [simp]: "sec_key (removeKeyFromAnnotations sec key) = sec_key sec"
    "Sec_RV (removeKeyFromAnnotations sec key) = Sec_RV sec"
  by (simp_all add: removeKeyFromAnnotations_def sec_key_def)

lemma ex_delete_ok: "store_Delete mem_client mem_retry ''ns'' ''a'' ''A'' ex_stored = (None, snd ex_delete)"
proof -
  let ?sec = "buildSecret ''ns'' (AppEnvSecretName ''a'') ex_vars []"
  have d: "delete_key ''A'' ?sec =
      (Inr True, removeKeyFromAnnotations (?sec\<lparr>Sec_Data := AList.delete ''A'' (Sec_Data ?sec)\<rparr>) ''A'')"
    by (simp add: delete_key_def ex_data)
  have k: "sec_key (?sec\<lparr>Sec_Data := x\<rparr>) = (''ns'', AppEnvSecretName ''a'')" for x
    by (simp add: sec_key_def buildSecret_def)
  show ?thesis
    by (simp add: ex_delete_def store_Delete_def getSecret_def UpdateWithConflictRetry_def mem_retry_def
        numeral_eq_Suc update_attempt_def mem_client_def ex_stored_obj ex_data d k)
qed

theorem Delete_removes_one_witness:
  "(\<exists>(s1 :: mem) old new. map_of (mem_objs s1) (''ns'', AppEnvSecretName ''a'') = Some old \<and>
      map_of (mem_objs (snd ex_delete)) = (map_of (mem_objs s1))((''ns'', AppEnvSecretName ''a'') \<mapsto> new) \<and>
      env_of (secretToEnvs new) = (env_of (secretToEnvs old))(''A'' := None)) \<or>
   (\<exists>s0. kGet mem_client s0 (''ns'', AppEnvSecretName ''a'') = (Inl NotFound, snd ex_delete)) \<or>
   (\<exists>s0 sec. kGet mem_client s0 (''ns'', AppEnvSecretName ''a'') = (Inr sec, snd ex_delete) \<and>
      map_of (Sec_Data sec) ''A'' = None)"
  by (rule Delete_removes_one [OF mem_api_server mem_retries ex_stored_ok ex_delete_ok])

text \<open>
  C3: The hash stamped on pods follows what the container runs. The map \<open>EnvHash\<close> digests is
  the environment Kubernetes builds from the container's \<open>envFrom\<close> list over the same two
  reads (a missing Secret contributes nothing, the app's Secret wins over the shared one).
\<close>

theorem EnvHash_tracks_process_env:
  assumes "kGet C s (envNs, SharedEnvName) = (r1, s1)"
    and "kGet C s1 (envNs, AppEnvSecretName appName) = (r2, s2)"
  shows "EnvFromSources appName = [SharedEnvName, AppEnvSecretName appName] \<and>
    (\<exists>d. EnvHash C sha256 appName envNs s = (HashData sha256 d, s2) \<and>
       map_of d = process_env ((case r1 of Inr sec \<Rightarrow> [sec] | Inl _ \<Rightarrow> []) @ (case r2 of Inr sec \<Rightarrow> [sec] | Inl _ \<Rightarrow> [])))"
  using combine_sources_env [OF assms]
  by (auto simp: EnvHash_def envSourceNames_def EnvFromSources_def)

theorem EnvHash_tracks_process_env_witness:
  "\<exists>d. EnvHash mem_client (\<lambda>b. b) ''a'' ''ns'' ex_stored = (HashData (\<lambda>b. b) d, ex_stored) \<and>
     map_of d = process_env [buildSecret ''ns'' (AppEnvSecretName ''a'') ex_vars []]"
  using EnvHash_tracks_process_env [of mem_client ex_stored "''ns''" "Inl NotFound" ex_stored "''a''"
      "Inr (buildSecret ''ns'' (AppEnvSecretName ''a'') ex_vars [])" ex_stored "\<lambda>b. b"]
  by (simp add: mem_client_def ex_stored_obj SharedEnvName_def AppEnvSecretName_def AppEnvSuffix_def)

text \<open>
  The hash depends on the contents of the data map only, never on the order a Go map is
  iterated in; and it distinguishes contents: when the digest does not collide on the two
  inputs, equal hashes mean equal variables, for names without \<open>=\<close> and values without a
  zero byte.
\<close>

theorem HashData_identifies_contents:
  assumes "\<forall>p \<in> set (entries a). plain_pair p" "\<forall>p \<in> set (entries b). plain_pair p"
    and "entries a \<noteq> []" "entries b \<noteq> []"
    and "sha256 (hash_preimage a) = sha256 (hash_preimage b) \<Longrightarrow> hash_preimage a = hash_preimage b"
  shows "HashData sha256 a = HashData sha256 b \<longleftrightarrow> map_of a = map_of b"
proof
  assume "HashData sha256 a = HashData sha256 b"
  with assms(3,4) have "sha256 (hash_preimage a) = sha256 (hash_preimage b)"
    by (auto simp: HashData_def dest: hex_encode_inj)
  then show "map_of a = map_of b" using assms(1,2,5) hash_preimage_inj by blast
qed (rule HashData_cong)

theorem HashData_identifies_contents_witness:
  "HashData (\<lambda>b. b) [(''A'', ''1''), (''B'', ''2'')] = HashData (\<lambda>b. b) [(''B'', ''2''), (''A'', ''1'')]"
proof -
  have "HashData (\<lambda>b. b) [(''A'', ''1''), (''B'', ''2'')] = HashData (\<lambda>b. b) [(''B'', ''2''), (''A'', ''1'')] \<longleftrightarrow>
      map_of [(''A'', ''1''), (''B'', ''2'')] = map_of [(''B'', ''2''), (''A'', ''1'')]"
    by (rule HashData_identifies_contents) (auto simp: plain_pair_def)
  then show ?thesis by (simp add: fun_upd_twist)
qed

end
