(* ===== verification/Constants.thy ===== *)
theory Constants
  imports Prelude
begin

text \<open>
  Package \<open>internal/constants\<close>: the names of namespaces, preview environments and project
  members. The names are the only link between objects in different namespaces, so what
  matters is their length, their alphabet and when two of them can be equal.

  \<open>sha256\<close> stands for the digest of the standard library and \<open>url_path\<close> for the path
  component \<open>net/url.Parse\<close> extracts (\<open>None\<close> on a parse error).
\<close>

section \<open>Definitions\<close>

definition ControlNamespacePrefix :: string where "ControlNamespacePrefix = ''pj-''"
definition DefaultProjectEnvironment :: string where "DefaultProjectEnvironment = ''production''"
definition MaxNamespaceLen :: nat where "MaxNamespaceLen = 63"
definition maxPreviewPRNumberDigits :: nat where "maxPreviewPRNumberDigits = 19"
definition previewRepoHashLen :: nat where "previewRepoHashLen = 8"

definition ProjectLabel :: string where "ProjectLabel = ''mortise.dev/project''"
definition EnvironmentLabel :: string where "EnvironmentLabel = ''mortise.dev/environment''"
definition AppNameLabel :: string where "AppNameLabel = ''app.kubernetes.io/name''"

definition NamespaceRoleLabel :: string where "NamespaceRoleLabel = ''mortise.dev/namespace-role''"
definition NamespaceRoleControl :: string where "NamespaceRoleControl = ''control''"
definition NamespaceRoleEnv :: string where "NamespaceRoleEnv = ''env''"
definition NsClusterRoleName :: string where "NsClusterRoleName = ''mortise-controller-ns''"
definition NsRoleBindingName :: string where "NsRoleBindingName = ''mortise-controller-ns''"
definition GroupVersion :: string where
  \<comment> \<open>\<open>GroupVersion.String()\<close> of \<open>api/v1alpha1\<close>\<close>
  "GroupVersion = ''mortise.mortise.dev/v1alpha1''"

definition ControlNamespace :: "string \<Rightarrow> string" where
  "ControlNamespace projectName = ControlNamespacePrefix @ projectName"

definition EnvNamespace :: "string \<Rightarrow> string \<Rightarrow> string" where
  "EnvNamespace projectName envName = ControlNamespacePrefix @ projectName @ ''-'' @ envName"

definition PreviewNamespace :: "string \<Rightarrow> int \<Rightarrow> string" where
  "PreviewNamespace projectName prNumber =
     ControlNamespacePrefix @ projectName @ ''-pr-'' @ show_int prNumber"

definition alnum_lower :: "char \<Rightarrow> bool" where
  "alnum_lower c \<longleftrightarrow> CHR ''a'' \<le> c \<and> c \<le> CHR ''z'' \<or> CHR ''0'' \<le> c \<and> c \<le> CHR ''9''"

fun slug_chars :: "string \<Rightarrow> bool \<Rightarrow> string" where
  \<comment> \<open>the loop of \<open>previewRepoSlug\<close>; the flag is \<open>lastDash\<close>\<close>
  "slug_chars [] lastDash = []"
| "slug_chars (r # rs) lastDash =
     (if alnum_lower r then r # slug_chars rs False
      else if \<not> lastDash then CHR ''-'' # slug_chars rs True
      else slug_chars rs lastDash)"

definition previewRepoSlug :: "string \<Rightarrow> string" where
  "previewRepoSlug repo =
     (let slug = trim_suffix (trim_space repo) ''/'';
          slug = after_last CHR ''/'' slug;
          slug = after_last CHR '':'' slug;
          slug = trim_suffix (to_lower slug) ''.git'';
          slug = trim (slug_chars slug False) ''-''
      in if slug = [] then ''repo'' else slug)"

definition previewRepoHash :: "(string \<Rightarrow> string) \<Rightarrow> string \<Rightarrow> string" where
  "previewRepoHash sha256 repo = take previewRepoHashLen (hex_encode (sha256 (trim_space repo)))"

definition CanonicalRepoKey :: "(string \<Rightarrow> string option) \<Rightarrow> string \<Rightarrow> string" where
  "CanonicalRepoKey url_path repo0 =
     (let repo = trim_space (trim_suffix repo0 ''.git'')
      in if repo = [] then []
         else
           let repo = (if contains repo ''://''
                       then (case url_path repo of Some p \<Rightarrow> trim_prefix p ''/'' | None \<Rightarrow> repo) else repo);
               repo = (case index_of repo ''@'' of
                         Some idx \<Rightarrow> if contains (drop idx repo) '':'' then after_last CHR '':'' repo else repo
                       | None \<Rightarrow> repo);
               repo = trim_suffix repo ''/'';
               parts = split_on CHR ''/'' repo
           in if length parts \<ge> 2
              then to_lower (parts ! (length parts - 2) @ ''/'' @ parts ! (length parts - 1))
              else to_lower repo)"

definition PreviewEnvironmentPrefix ::
  "(string \<Rightarrow> string) \<Rightarrow> (string \<Rightarrow> string option) \<Rightarrow> string \<Rightarrow> bool \<Rightarrow> string" where
  "PreviewEnvironmentPrefix sha256 url_path repo multiRepo =
     (if \<not> multiRepo then ''preview-pr-''
      else
        let canonicalRepo = CanonicalRepoKey url_path repo;
            slug = previewRepoSlug canonicalRepo;
            hash = previewRepoHash sha256 canonicalRepo;
            maxSlugLen = 63 - length ''preview-'' - length ''-'' - previewRepoHashLen - length ''-pr-''
                           - maxPreviewPRNumberDigits;
            maxSlugLen = (if maxSlugLen < 1 then 1 else maxSlugLen);
            slug = (if length slug > maxSlugLen
                    then (let cut = trim (take maxSlugLen slug) ''-'' in if cut = [] then ''repo'' else cut)
                    else slug)
        in ''preview-'' @ slug @ ''-'' @ hash @ ''-pr-'')"

definition PreviewEnvironmentName ::
  "(string \<Rightarrow> string) \<Rightarrow> (string \<Rightarrow> string option) \<Rightarrow> string \<Rightarrow> int \<Rightarrow> bool \<Rightarrow> string" where
  "PreviewEnvironmentName sha256 url_path repo prNumber multiRepo =
     (if \<not> multiRepo then ''preview-pr-'' @ show_int prNumber
      else PreviewEnvironmentPrefix sha256 url_path repo True @ show_int prNumber)"

definition ValidateProjectEnvLengths :: "string \<Rightarrow> string \<Rightarrow> string option" where
  \<comment> \<open>\<open>Some\<close> message is the error\<close>
  "ValidateProjectEnvLengths projectName envName =
     (let got = length (EnvNamespace projectName envName)
      in if got > MaxNamespaceLen
         then Some (''namespace '' @ [CHR 0x22] @ EnvNamespace projectName envName @ [CHR 0x22] @ '' exceeds '' @ show_nat MaxNamespaceLen
                      @ ''-char limit by '' @ show_nat (got - MaxNamespaceLen)
                      @ '' chars; shorten project or env name'')
         else None)"

definition ProjectFromControlNs :: "string \<Rightarrow> string \<times> bool" where
  "ProjectFromControlNs ns =
     (if length ns \<le> length ControlNamespacePrefix then ([], False)
      else if take (length ControlNamespacePrefix) ns \<noteq> ControlNamespacePrefix then ([], False)
      else (drop (length ControlNamespacePrefix) ns, True))"

definition MemberCRDName :: "(string \<Rightarrow> string) \<Rightarrow> string \<Rightarrow> string" where
  "MemberCRDName sha256 email =
     (let encoded = hex_encode email
      in if length ''member-'' + length encoded \<le> 253 then ''member-'' @ encoded
         else ''member-'' @ hex_encode (sha256 email))"

definition DeploymentName :: "string \<Rightarrow> string" where "DeploymentName appName = appName"
definition CronJobName :: "string \<Rightarrow> string" where "CronJobName appName = appName"

section \<open>Alphabet and length\<close>

definition dns_char :: "char \<Rightarrow> bool" where
  "dns_char c \<longleftrightarrow> alnum_lower c \<or> c = CHR ''-''"

definition dns_label :: "string \<Rightarrow> bool" where
  \<comment> \<open>an RFC 1123 label: at most 63 of \<open>[a-z0-9-]\<close>, alphanumeric at both ends\<close>
  "dns_label s \<longleftrightarrow> s \<noteq> [] \<and> length s \<le> 63 \<and> list_all dns_char s \<and> alnum_lower (hd s) \<and> alnum_lower (last s)"

lemma slug_chars_dns: "list_all dns_char (slug_chars s d)"
  by (induction s d rule: slug_chars.induct) (auto simp: dns_char_def)

lemma list_all_trim: "list_all P s \<Longrightarrow> list_all P (trim s cs)"
  using set_trim_subset [of s cs] by (auto simp: list_all_iff)

lemma previewRepoSlug_dns: "list_all dns_char (previewRepoSlug repo)"
  by (simp add: previewRepoSlug_def Let_def list_all_trim slug_chars_dns)
     (simp add: dns_char_def alnum_lower_def)

lemma digit_alnum: "d < 10 \<Longrightarrow> alnum_lower (digit_char d)"
  by (simp add: alnum_lower_def less_eq_char_def of_digit_char)

lemma show_nat_alnum: "list_all alnum_lower (show_nat n)"
  using set_show_nat [of n] digit_alnum by (fastforce simp: list_all_iff)

lemma hex_digit_alnum: "d < 16 \<Longrightarrow> alnum_lower (hex_digit d)"
  by (auto simp: hex_digit_def alnum_lower_def less_eq_char_def of_char_of take_bit_eq_mod)

lemma hex_encode_alnum: "list_all alnum_lower (hex_encode s)"
proof (induction s)
  case (Cons c s)
  have "(of_char c :: nat) div 16 < 16" using of_char_less_256 [of c] by (simp add: less_mult_imp_div_less)
  with Cons show ?case by (simp add: hex_digit_alnum)
qed simp

lemma prefix_multi:
  "\<exists>slug hash. PreviewEnvironmentPrefix sha up repo True = ''preview-'' @ slug @ ''-'' @ hash @ ''-pr-'' \<and>
     length slug \<le> 23 \<and> length hash \<le> 8 \<and> list_all dns_char slug \<and> list_all dns_char hash"
proof -
  let ?c = "CanonicalRepoKey up repo"
  let ?slug = "previewRepoSlug ?c" and ?cut = "trim (take 23 (previewRepoSlug (CanonicalRepoKey up repo))) ''-''"
  let ?s = "if length ?slug > 23 then (if ?cut = [] then ''repo'' else ?cut) else ?slug"
  have eq: "PreviewEnvironmentPrefix sha up repo True = ''preview-'' @ ?s @ ''-'' @ previewRepoHash sha ?c @ ''-pr-''"
    by (simp add: PreviewEnvironmentPrefix_def Let_def previewRepoHashLen_def maxPreviewPRNumberDigits_def)
  have "length ?cut \<le> 23" using length_trim_le [of "take 23 ?slug" "''-''"] by simp
  moreover have "list_all dns_char ?cut"
    using previewRepoSlug_dns [of ?c] by (intro list_all_trim) (auto simp: list_all_iff dest: in_set_takeD)
  ultimately have s: "length ?s \<le> 23" "list_all dns_char ?s"
    using previewRepoSlug_dns [of ?c] by (auto simp: dns_char_def alnum_lower_def)
  have "list_all dns_char (previewRepoHash sha ?c)"
    using hex_encode_alnum by (auto simp: previewRepoHash_def list_all_iff dns_char_def dest: in_set_takeD)
  moreover have "length (previewRepoHash sha ?c) \<le> 8"
    by (simp add: previewRepoHash_def previewRepoHashLen_def)
  ultimately show ?thesis using eq s by blast
qed

lemma show_int_digits:
  assumes "0 \<le> n" "n < 10 ^ 19"
  shows "length (show_int n) \<le> 19" "list_all alnum_lower (show_int n)" "show_int n \<noteq> []"
proof -
  have "nat n < 10 ^ 19" using assms by (simp add: nat_less_iff)
  then show "length (show_int n) \<le> 19" using assms length_show_nat_le [of "nat n" 19] by (simp add: show_int_def)
qed (use assms show_nat_alnum in \<open>auto simp: show_int_def\<close>)

lemma dns_label_preview:
  assumes mid: "length mid \<le> 36" "list_all dns_char mid" and n: "0 \<le> n" "n < 10 ^ 19"
  shows "dns_label (''preview-'' @ mid @ show_int n)"
proof -
  note d = show_int_digits [OF n]
  have "alnum_lower (last (show_int n))" using d(2,3) by (simp add: list_all_iff)
  moreover have "list_all dns_char (show_int n)" using d(2) by (auto simp: list_all_iff dns_char_def)
  ultimately show ?thesis
    using mid d by (simp add: dns_label_def dns_char_def alnum_lower_def)
qed

section \<open>Properties\<close>

text \<open>
  Every preview environment of a pull request gets a name the API server accepts: for any
  repository string and any non-negative 64-bit pull request number the name is an RFC 1123
  label of at most 63 characters, in the single-repository and in the multi-repository form.
\<close>

theorem preview_name_is_dns_label:
  assumes "0 \<le> prNumber" and "prNumber < 10 ^ 19"
  shows "dns_label (PreviewEnvironmentName sha256 url_path repo prNumber multiRepo)"
proof (cases multiRepo)
  case False
  have "list_all dns_char ''pr-''" by (simp add: dns_char_def alnum_lower_def)
  from dns_label_preview [OF _ this assms] False show ?thesis by (simp add: PreviewEnvironmentName_def)
next
  case True
  obtain slug hash where p: "PreviewEnvironmentPrefix sha256 url_path repo True = ''preview-'' @ slug @ ''-'' @ hash @ ''-pr-''"
    and l: "length slug \<le> 23" "length hash \<le> 8" "list_all dns_char slug" "list_all dns_char hash"
    using prefix_multi by blast
  have "list_all dns_char (slug @ ''-'' @ hash @ ''-pr-'')" "length (slug @ ''-'' @ hash @ ''-pr-'') \<le> 36"
    using l by (simp_all add: dns_char_def alnum_lower_def)
  from dns_label_preview [OF this(2,1) assms] True p show ?thesis by (simp add: PreviewEnvironmentName_def)
qed

theorem preview_name_is_dns_label_witness:
  "dns_label (PreviewEnvironmentName (\<lambda>b. b) (\<lambda>_. None) ''git@host:Acme/Web_App.git'' 42 True)"
  by (rule preview_name_is_dns_label) simp_all

text \<open>
  The project is recovered from its control namespace and from nothing else:
  \<open>ProjectFromControlNs\<close> answers a project exactly for the control namespaces of non-empty
  project names, and the answer is that project.
\<close>

theorem ProjectFromControlNs_inverse:
  "ProjectFromControlNs ns = (p, True) \<longleftrightarrow> ns = ControlNamespace p \<and> p \<noteq> []"
proof
  assume "ProjectFromControlNs ns = (p, True)"
  then have "take (length ControlNamespacePrefix) ns = ControlNamespacePrefix" "length ControlNamespacePrefix < length ns"
    and "p = drop (length ControlNamespacePrefix) ns"
    by (auto simp: ProjectFromControlNs_def split: if_splits)
  then show "ns = ControlNamespace p \<and> p \<noteq> []"
    unfolding ControlNamespace_def by (metis append_take_drop_id drop_eq_Nil not_le)
next
  assume "ns = ControlNamespace p \<and> p \<noteq> []"
  then show "ProjectFromControlNs ns = (p, True)"
    by (cases p) (auto simp: ProjectFromControlNs_def ControlNamespace_def)
qed

text \<open>
  The length check guards exactly the namespaces the API server can hold, and it is needed
  because names are not bounded by construction: a project and environment pass iff their
  namespace has at most 63 characters. Two different pairs can still share a namespace (a
  dash in either name moves the boundary), so ownership cannot be read off the name.
\<close>

lemma env_namespace_limits:
  "(ValidateProjectEnvLengths p e = None \<longleftrightarrow> length p + length e \<le> 59) \<and>
   (EnvNamespace p e = EnvNamespace p e' \<longleftrightarrow> e = e') \<and>
   EnvNamespace (p @ ''-'' @ q) e = EnvNamespace p (q @ ''-'' @ e) \<and>
   EnvNamespace p e = ControlNamespace (p @ ''-'' @ e)"
  by (auto simp: ValidateProjectEnvLengths_def EnvNamespace_def ControlNamespace_def
      ControlNamespacePrefix_def MaxNamespaceLen_def Let_def)

end
