(* ===== verification/Types.thy ===== *)
theory Types
  imports Kube "HOL-Library.Word"
begin

text \<open>
  The API types of \<open>api/v1alpha1\<close> as records and datatypes, field by field, and the
  principals of \<open>internal/auth\<close>. Object metadata is flattened into the object (namespace,
  name, labels, annotations, generation, deletion timestamp). A Go pointer to an optional
  value is an \<open>option\<close>; a timestamp is an \<open>int\<close> of nanoseconds; a quantity is its string.

  String types with an enum validation on the custom resource become datatypes. The empty
  string, which the API server admits for an omitted optional field, has its own constructor
  where the code distinguishes it. \<open>ProjectRole\<close> is compared by a \<open>switch\<close> that falls through
  for other strings, so it keeps them.
\<close>

section \<open>Applications\<close>

datatype SourceType = SourceTypeGit | SourceTypeImage | SourceTypeExternal

datatype AppKind = AppKindUnset | AppKindService | AppKindCron

datatype ConcurrencyPolicy =
  ConcurrencyPolicyUnset | ConcurrencyPolicyAllow | ConcurrencyPolicyForbid | ConcurrencyPolicyReplace

datatype BuildMode = BuildModeUnset | BuildModeAuto | BuildModeDockerfile | BuildModeRailpack

datatype BuildContext = BuildContextUnset | BuildContextRoot | BuildContextSubdir

record ExternalSource =
  ext_Host :: string
  ext_Port :: "32 word"

record Build =
  bld_Mode :: BuildMode
  bld_DockerfilePath :: string
  bld_Context :: BuildContext
  bld_Cache :: "bool option"
  bld_Args :: "string gomap"

record AppSource =
  src_Type :: SourceType
  src_Repo :: string
  src_Branch :: string
  src_Path :: string
  src_WatchPaths :: "string list"
  src_Build :: "Build option"
  src_ProviderRef :: string
  src_Image :: string
  src_PullSecretRef :: string
  src_External :: "ExternalSource option"

record NetworkConfig =
  net_Public :: bool
  net_Port :: "32 word"

record VolumeSpec =
  vol_Name :: string
  vol_MountPath :: string
  vol_Size :: string
  vol_StorageClass :: string
  vol_AccessMode :: string

record ConfigFile =
  cf_Path :: string
  cf_Content :: string

record BindingVarSource =
  bvs_Ref :: string
  bvs_Key :: string

record EnvVarSource =
  evs_SecretRef :: string
  evs_FromBinding :: "BindingVarSource option"

record EnvVar =
  ev_Name :: string
  ev_Value :: string
  ev_ValueFrom :: "EnvVarSource option"

record SecretKeyRef =
  skr_Name :: string
  skr_Key :: string

record CredentialSource =
  cs_SecretRef :: "SecretKeyRef option"

record Credential =
  cred_Name :: string
  cred_Value :: string
  cred_ValueFrom :: "CredentialSource option"

record Binding =
  bind_Ref :: string

record ResourceRequirements =
  res_CPU :: string
  res_Memory :: string
  res_CPULimit :: string
  res_MemoryLimit :: string

record ProbeConfig =
  probe_Enabled :: "bool option"
  probe_Path :: string
  probe_Port :: "32 word"
  probe_InitialDelaySeconds :: "32 word"
  probe_PeriodSeconds :: "32 word"
  probe_TimeoutSeconds :: "32 word"
  probe_FailureThreshold :: "32 word"

record KeyToPath =
  ktp_Key :: string
  ktp_Path :: string
  ktp_Mode :: "32 word option"

record SecretMount =
  sm_Name :: string
  sm_Secret :: string
  sm_Path :: string
  sm_Items :: "KeyToPath list"
  sm_ReadOnly :: "bool option"

record EnvTLSConfig =
  tls_SecretName :: string
  tls_ClusterIssuer :: string

record Environment =
  env_Name :: string
  env_Enabled :: "bool option"
  env_Branch :: string
  env_Replicas :: "32 word option"
  env_Resources :: ResourceRequirements
  env_LivenessProbe :: "ProbeConfig option"
  env_ReadinessProbe :: "ProbeConfig option"
  env_StartupProbe :: "ProbeConfig option"
  env_Env :: "EnvVar list"
  env_Bindings :: "Binding list"
  env_Domain :: string
  env_CustomDomains :: "string list"
  env_Schedule :: string
  env_ConcurrencyPolicy :: ConcurrencyPolicy
  env_SecretMounts :: "SecretMount list"
  env_Annotations :: "string gomap"
  env_TLS :: "EnvTLSConfig option"
  env_BuildArgs :: "string gomap"
  env_Image :: string

definition emptyResources :: ResourceRequirements where
  "emptyResources = \<lparr>res_CPU = [], res_Memory = [], res_CPULimit = [], res_MemoryLimit = []\<rparr>"

definition new_Environment :: "string \<Rightarrow> Environment" where
  \<comment> \<open>the composite literal \<open>Environment{Name: name}\<close>\<close>
  "new_Environment name = \<lparr>env_Name = name, env_Enabled = None, env_Branch = [], env_Replicas = None,
     env_Resources = emptyResources, env_LivenessProbe = None, env_ReadinessProbe = None,
     env_StartupProbe = None, env_Env = [], env_Bindings = [], env_Domain = [], env_CustomDomains = [],
     env_Schedule = [], env_ConcurrencyPolicy = ConcurrencyPolicyUnset, env_SecretMounts = [],
     env_Annotations = [], env_TLS = None, env_BuildArgs = [], env_Image = []\<rparr>"

record AppSpec =
  spec_Kind :: AppKind
  spec_Source :: AppSource
  spec_Network :: NetworkConfig
  spec_Storage :: "VolumeSpec list"
  spec_SecurityProfile :: string
  spec_ConfigFiles :: "ConfigFile list"
  spec_Credentials :: "Credential list"
  spec_SharedVars :: "EnvVar list"
  spec_Environments :: "Environment list"

record DeployRecord =
  dr_Image :: string
  dr_Digest :: string
  dr_GitSHA :: string
  dr_EnvHash :: string
  dr_Timestamp :: int
  dr_Confirmed :: bool

datatype AppPhase = AppPhaseUnset | AppPhasePending | AppPhaseBuilding | AppPhaseDeploying | AppPhaseReady
  | AppPhaseDegraded | AppPhaseCrashLooping | AppPhaseFailed

datatype BuildRunPhase =
  BuildRunPhaseUnset | BuildRunPhasePending | BuildRunPhaseRunning | BuildRunPhaseSucceeded | BuildRunPhaseFailed

record BuildRunReference =
  brr_Name :: string
  brr_Phase :: BuildRunPhase

record Condition =
  cond_Type :: string
  cond_Status :: string
  cond_ObservedGeneration :: int
  cond_LastTransitionTime :: int
  cond_Reason :: string
  cond_Message :: string

record SecretRef =
  sr_Namespace :: string
  sr_Name :: string
  sr_Key :: string

record BuildRunTargetRef =
  brt_Kind :: string
  brt_Name :: string
  brt_Namespace :: string

datatype BuildRunTrigger =
  BuildRunTriggerUnset | BuildRunTriggerAuto | BuildRunTriggerManual | BuildRunTriggerWebhook

record BuildRunSpec =
  brs_AppName :: string
  brs_TargetRef :: BuildRunTargetRef
  brs_Environment :: string
  brs_Trigger :: BuildRunTrigger
  brs_RequestID :: string
  brs_ProviderRef :: string
  brs_CreatedBy :: string
  brs_TokenOwner :: string
  brs_Repo :: string
  brs_Branch :: string
  brs_Revision :: string
  brs_SourcePath :: string
  brs_Path :: string
  brs_BuildMode :: string
  brs_DockerfilePath :: string
  brs_Dockerfile :: string
  brs_BuildContext :: BuildContext
  brs_BuildArgs :: "string gomap"
  brs_PushTarget :: string
  brs_PushImage :: string
  brs_PullTarget :: string
  brs_PullImage :: string
  brs_NoCache :: bool
  brs_InputHash :: string
  brs_TokenSecretRef :: "SecretRef option"

record BuildRunStatus =
  brst_Phase :: BuildRunPhase
  brst_Attempt :: "32 word"
  brst_JobRef :: "string option"
  brst_LogRef :: "string option"
  brst_Image :: string
  brst_Digest :: string
  brst_DetectedPort :: "32 word"
  brst_StartedAt :: "int option"
  brst_CompletedAt :: "int option"
  brst_FinishedAt :: "int option"
  brst_Error :: string
  brst_FailureReason :: string
  brst_FailureMessage :: string
  brst_Conditions :: "Condition list"

record BuildRun =
  br_Namespace :: string
  br_Name :: string
  br_Labels :: "string gomap"
  br_Annotations :: "string gomap"
  br_CreationTimestamp :: int
  br_DeletionTimestamp :: "int option"
  br_Finalizers :: "string list"
  br_Spec :: BuildRunSpec
  br_Status :: BuildRunStatus

record EnvironmentStatus =
  es_Name :: string
  es_JoinedAt :: "int option"
  es_Phase :: AppPhase
  es_Message :: string
  es_ReadyReplicas :: "32 word"
  es_CurrentImage :: string
  es_CurrentDigest :: string
  es_DeployHistory :: "DeployRecord list"
  es_Domain :: string
  es_AutoDomain :: string
  es_LastProcessedRestartedAt :: string
  es_LastBuiltSHA :: string
  es_LastBuiltImage :: string
  es_CurrentBuildRunRef :: "BuildRunReference option"
  es_LastSuccessfulBuildRunRef :: "BuildRunReference option"
  es_PendingEnvHash :: string
  es_DeployedEnvHash :: string
  es_UnresolvedEnvKeys :: "string list"
  es_OverriddenEnvKeys :: "string list"
  es_RetainedEnvKeys :: "string list"
  es_CertificateStatus :: string
  es_CertificateMessage :: string

record AppStatus =
  st_Phase :: AppPhase
  st_Environments :: "EnvironmentStatus list"
  st_CurrentBuildRunName :: string
  st_LastBuildRunName :: string
  st_LastBuiltSHA :: string
  st_LastBuiltImage :: string
  st_DetectedPort :: "32 word"
  st_DetectedPortImage :: string
  st_Conditions :: "Condition list"

record App =
  app_Namespace :: string
  app_Name :: string
  app_Labels :: "string gomap"
  app_Annotations :: "string gomap"
  app_Generation :: int
  app_DeletionTimestamp :: "int option"
  app_Finalizers :: "string list"
  app_Spec :: AppSpec
  app_Status :: AppStatus

section \<open>Projects and members\<close>

record PreviewConfig =
  pc_Enabled :: bool
  pc_SourceEnvironment :: string
  pc_BotPR :: "bool option"

record ProjectEnvironment =
  pe_Name :: string
  pe_DisplayOrder :: int
  pe_Restricted :: bool
  pe_Preview :: bool

record ProjectSpec =
  ps_Description :: string
  ps_Environments :: "ProjectEnvironment list"
  ps_Preview :: "PreviewConfig option"
  ps_AutoRedeploy :: bool

datatype ProjectPhase =
  ProjectPhaseUnset | ProjectPhasePending | ProjectPhaseReady | ProjectPhaseTerminating | ProjectPhaseFailed

record ProjectStatus =
  pst_Phase :: ProjectPhase
  pst_Namespace :: string
  pst_EnvNamespaces :: "string gomap"
  pst_AppCount :: "32 word"
  pst_Environments :: "string list"
  pst_Conditions :: "Condition list"

record Project =
  prj_Name :: string
  prj_UID :: string
  prj_Labels :: "string gomap"
  prj_Annotations :: "string gomap"
  prj_Generation :: int
  prj_CreationTimestamp :: "int option"
  prj_DeletionTimestamp :: "int option"
  prj_Finalizers :: "string list"
  prj_Spec :: ProjectSpec
  prj_Status :: ProjectStatus

datatype ProjectRole =
  ProjectRoleOther string | ProjectRoleViewer | ProjectRoleDeveloper | ProjectRoleOwner

record ProjectMemberSpec =
  pm_Email :: string
  pm_Project :: string
  pm_Role :: ProjectRole

record ProjectMemberStatus =
  pms_AddedAt :: string
  pms_AddedBy :: string

record ProjectMember =
  member_Namespace :: string
  member_Name :: string
  member_Labels :: "string gomap"
  member_Spec :: ProjectMemberSpec
  member_Status :: ProjectMemberStatus

definition no_member_status :: ProjectMemberStatus where
  "no_member_status = \<lparr>pms_AddedAt = [], pms_AddedBy = []\<rparr>"

text \<open>Project roles by increasing power; a role the code does not know has none.\<close>

fun role_rank :: "ProjectRole \<Rightarrow> nat \<times> string" where
  "role_rank (ProjectRoleOther s) = (0, s)"
| "role_rank ProjectRoleViewer = (1, [])"
| "role_rank ProjectRoleDeveloper = (2, [])"
| "role_rank ProjectRoleOwner = (3, [])"

lemma role_rank_inj: "role_rank a = role_rank b \<Longrightarrow> a = b"
  by (cases a; cases b) auto

instantiation ProjectRole :: linorder
begin

definition less_eq_ProjectRole :: "ProjectRole \<Rightarrow> ProjectRole \<Rightarrow> bool" where
  "less_eq_ProjectRole a b \<longleftrightarrow>
     fst (role_rank a) < fst (role_rank b) \<or> fst (role_rank a) = fst (role_rank b) \<and> snd (role_rank a) \<le> snd (role_rank b)"

definition less_ProjectRole :: "ProjectRole \<Rightarrow> ProjectRole \<Rightarrow> bool" where
  "less_ProjectRole a b \<longleftrightarrow> a \<le> b \<and> \<not> b \<le> a"

instance
proof
  fix x y z :: ProjectRole
  show "x < y \<longleftrightarrow> x \<le> y \<and> \<not> y \<le> x" by (simp add: less_ProjectRole_def)
  show "x \<le> x" "x \<le> y \<or> y \<le> x" by (auto simp: less_eq_ProjectRole_def)
  show "x \<le> y \<Longrightarrow> y \<le> z \<Longrightarrow> x \<le> z" by (auto simp: less_eq_ProjectRole_def)
  show "x \<le> y \<Longrightarrow> y \<le> x \<Longrightarrow> x = y"
    by (rule role_rank_inj) (auto simp: less_eq_ProjectRole_def prod_eq_iff)
qed

end

section \<open>Namespaces\<close>

record owner_ref =
  or_APIVersion :: string
  or_Kind :: string
  or_Name :: string
  or_UID :: string
  or_Controller :: bool
  or_BlockOwnerDeletion :: bool

record nsobj =
  ns_Name :: string
  ns_Labels :: "string gomap"
  ns_Annotations :: "string gomap"
  ns_CreationTimestamp :: int
  ns_DeletionTimestamp :: "int option"
  ns_OwnerReferences :: "owner_ref list"

section \<open>Principals\<close>

datatype Role = RoleAdmin | RoleMember | RoleViewer | RoleOther string

record Principal =
  p_ID :: string
  p_Email :: string
  p_Role :: Role
  p_PasswordGen :: int

end
