(* ===== verification/Authz.thy ===== *)
theory Authz
  imports Types Constants
begin

text \<open>
  Package \<open>internal/authz\<close>: the native policy engine. \<open>Authorize\<close> reads the caller's
  \<open>ProjectMember\<close> and, for developers, the \<open>Project\<close>; the two reads of the API client are the
  parameters \<open>getMember\<close> and \<open>getProject\<close>. A result \<open>Inl e\<close> is a Go error, \<open>Inr b\<close> the answer.

  The locale \<open>policy_engine\<close> is the contract of the interface \<open>PolicyEngine\<close> that the HTTP
  handlers rely on; the native engine is interpreted in it.
\<close>

section \<open>Definitions\<close>

record Resource =
  rs_Kind :: string
  rs_Namespace :: string
  rs_Name :: string
  rs_Project :: string
  rs_Environment :: string

datatype Action = ActionCreate | ActionRead | ActionUpdate | ActionDelete

type_synonym get_member = "nn \<Rightarrow> kerr + ProjectMember"
type_synonym get_project = "string \<Rightarrow> kerr + Project"
type_synonym digest = "string \<Rightarrow> string"

fun env_restriction :: "ProjectEnvironment list \<Rightarrow> string \<Rightarrow> bool" where
  \<comment> \<open>the loop over \<open>Spec.Environments\<close>: the first entry of that name decides\<close>
  "env_restriction [] envName = False"
| "env_restriction (env # envs) envName =
     (if pe_Name env = envName then pe_Restricted env else env_restriction envs envName)"

definition isRestrictedEnv :: "get_project \<Rightarrow> string \<Rightarrow> string \<Rightarrow> kerr + bool" where
  "isRestrictedEnv getProject projectName envName =
     (case getProject projectName of
        Inl err \<Rightarrow> Inl err
      | Inr project \<Rightarrow> Inr (env_restriction (ps_Environments (prj_Spec project)) envName))"

definition restricted_check :: "get_project \<Rightarrow> Resource \<Rightarrow> Action \<Rightarrow> kerr + bool" where
  \<comment> \<open>the tail of \<open>authorizeDeveloper\<close>\<close>
  "restricted_check getProject resource action =
     (if rs_Environment resource \<noteq> [] then
        (case isRestrictedEnv getProject (rs_Project resource) (rs_Environment resource) of
           Inl err \<Rightarrow> Inl err
         | Inr restricted \<Rightarrow> if restricted then Inr (action = ActionRead) else Inr True)
      else Inr True)"

definition authorizeDeveloper :: "get_project \<Rightarrow> Resource \<Rightarrow> Action \<Rightarrow> kerr + bool" where
  "authorizeDeveloper getProject resource action =
     (if rs_Kind resource = ''member'' \<or> rs_Kind resource = ''token'' then Inr False
      else if rs_Kind resource = ''project'' then Inr (action \<noteq> ActionDelete)
      else if rs_Kind resource = ''app'' \<and> action = ActionDelete then Inr False
      else restricted_check getProject resource action)"

definition role_answer :: "get_project \<Rightarrow> ProjectRole \<Rightarrow> Resource \<Rightarrow> Action \<Rightarrow> kerr + bool" where
  \<comment> \<open>the \<open>switch\<close> of \<open>authorizeProject\<close> over the member's role\<close>
  "role_answer getProject role resource action =
     (case role of
        ProjectRoleOwner \<Rightarrow> Inr True
      | ProjectRoleViewer \<Rightarrow>
          if action \<noteq> ActionRead then Inr False else Inr (rs_Kind resource \<noteq> ''token'')
      | ProjectRoleDeveloper \<Rightarrow> authorizeDeveloper getProject resource action
      | ProjectRoleOther _ \<Rightarrow> Inr False)"

definition authorizeProject ::
  "digest \<Rightarrow> get_member \<Rightarrow> get_project \<Rightarrow> Principal \<Rightarrow> Resource \<Rightarrow> Action \<Rightarrow> kerr + bool" where
  "authorizeProject sha256 getMember getProject p resource action =
     (let memberName = MemberCRDName sha256 (p_Email p);
          ns = ControlNamespace (rs_Project resource)
      in case getMember (ns, memberName) of
           Inl err \<Rightarrow> if err = NotFound then Inr False else Inl err
         | Inr member \<Rightarrow> role_answer getProject (pm_Role (member_Spec member)) resource action)"

definition authorizePlatform :: "Resource \<Rightarrow> Action \<Rightarrow> kerr + bool" where
  "authorizePlatform resource action =
     (if rs_Kind resource = ''user'' then Inr False
      else if rs_Kind resource = ''project'' then
        (if action = ActionCreate then Inr True else Inr (action = ActionRead))
      else Inr (action = ActionRead))"

definition Authorize ::
  "digest \<Rightarrow> get_member \<Rightarrow> get_project \<Rightarrow> Principal \<Rightarrow> Resource \<Rightarrow> Action \<Rightarrow> kerr + bool" where
  "Authorize sha256 getMember getProject p resource action =
     (if p_Role p = RoleAdmin then Inr True
      else if p_Role p = RoleViewer then
        (if rs_Project resource = [] then Inr (action = ActionRead \<and> rs_Kind resource \<noteq> ''user'')
         else if action \<noteq> ActionRead then Inr False
         else authorizeProject sha256 getMember getProject p resource action)
      else if rs_Project resource = [] then authorizePlatform resource action
      else authorizeProject sha256 getMember getProject p resource action)"

section \<open>The contract of a policy engine\<close>

text \<open>
  What the handlers assume of \<open>PolicyEngine\<close>: administrators are never refused, platform
  viewers never write, and a positive answer inside a project needs a membership.
\<close>

locale policy_engine =
  fixes authorize :: "Principal \<Rightarrow> Resource \<Rightarrow> Action \<Rightarrow> kerr + bool"
    and is_member :: "Principal \<Rightarrow> string \<Rightarrow> bool"
  assumes admin_granted: "p_Role p = RoleAdmin \<Longrightarrow> authorize p r a = Inr True"
    and viewer_reads: "p_Role p = RoleViewer \<Longrightarrow> authorize p r a = Inr True \<Longrightarrow> a = ActionRead"
    and project_needs_member:
      "p_Role p \<noteq> RoleAdmin \<Longrightarrow> rs_Project r \<noteq> [] \<Longrightarrow> authorize p r a = Inr True \<Longrightarrow> is_member p (rs_Project r)"
begin

text \<open>Only administrators and members of the project ever change something inside it.\<close>

lemma write_granted_to:
  assumes "authorize p r a = Inr True" "a \<noteq> ActionRead" "rs_Project r \<noteq> []"
  shows "p_Role p = RoleAdmin \<or> p_Role p \<noteq> RoleViewer \<and> is_member p (rs_Project r)"
  using assms viewer_reads project_needs_member by blast

end

definition member_of :: "digest \<Rightarrow> get_member \<Rightarrow> Principal \<Rightarrow> string \<Rightarrow> bool" where
  "member_of sha256 getMember p project \<longleftrightarrow>
     (\<exists>m. getMember (ControlNamespace project, MemberCRDName sha256 (p_Email p)) = Inr m)"

lemmas authz_defs = Authorize_def authorizeProject_def authorizePlatform_def role_answer_def authorizeDeveloper_def
  restricted_check_def isRestrictedEnv_def Let_def

lemma authorizeProject_granted:
  assumes "authorizeProject sha gm gp p r a = Inr True"
  shows "\<exists>m. gm (ControlNamespace (rs_Project r), MemberCRDName sha (p_Email p)) = Inr m"
  using assms by (auto simp: authorizeProject_def Let_def split: sum.splits if_splits)

interpretation native: policy_engine "Authorize sha256 getMember getProject" "member_of sha256 getMember"
  for sha256 getMember getProject
proof unfold_locales
  fix p r a
  show "p_Role p = RoleAdmin \<Longrightarrow> Authorize sha256 getMember getProject p r a = Inr True"
    by (simp add: Authorize_def)
  show "p_Role p = RoleViewer \<Longrightarrow> Authorize sha256 getMember getProject p r a = Inr True \<Longrightarrow> a = ActionRead"
    by (auto simp: Authorize_def split: if_splits)
  show "p_Role p \<noteq> RoleAdmin \<Longrightarrow> rs_Project r \<noteq> [] \<Longrightarrow> Authorize sha256 getMember getProject p r a = Inr True
      \<Longrightarrow> member_of sha256 getMember p (rs_Project r)"
    by (auto simp: Authorize_def member_of_def split: if_splits dest: authorizeProject_granted)
qed

section \<open>Properties\<close>

definition with_role :: "get_member \<Rightarrow> ProjectRole \<Rightarrow> get_member" where
  \<comment> \<open>the same memberships with another project role\<close>
  "with_role getMember role k = map_sum id (\<lambda>m. m\<lparr>member_Spec := member_Spec m\<lparr>pm_Role := role\<rparr>\<rparr>) (getMember k)"

lemma authorizeProject_with_role:
  "authorizeProject sha (with_role gm role) gp p r a =
     (case gm (ControlNamespace (rs_Project r), MemberCRDName sha (p_Email p)) of
        Inl err \<Rightarrow> if err = NotFound then Inr False else Inl err
      | Inr _ \<Rightarrow> role_answer gp role r a)"
  by (simp add: authorizeProject_def with_role_def Let_def split: sum.split)

lemma role_answer_mono:
  assumes "role \<le> role'" "role_answer gp role r a = Inr True" "\<not> (rs_Kind r = ''member'' \<and> a = ActionRead)"
  shows "role_answer gp role' r a = Inr True \<or> (\<exists>e. role_answer gp role' r a = Inl e)"
proof (cases role')
  case ProjectRoleDeveloper
  with assms show ?thesis
    by (cases role)
       (auto simp: role_answer_def authorizeDeveloper_def restricted_check_def less_eq_ProjectRole_def
         split: sum.splits if_splits)
qed (use assms in \<open>cases role; auto simp: role_answer_def less_eq_ProjectRole_def split: if_splits\<close>)+

text \<open>
  C4: No write inside a project is granted to a platform viewer or to somebody without a
  membership in that project: whoever gets a positive answer for create, update or delete is an
  administrator, or a non-viewer whose membership object exists in the project's control
  namespace.
\<close>

theorem project_writes_need_membership:
  assumes "Authorize sha256 getMember getProject p r a = Inr True" "a \<noteq> ActionRead" "rs_Project r \<noteq> []"
  shows "p_Role p = RoleAdmin \<or>
    p_Role p \<noteq> RoleViewer \<and> (\<exists>m. getMember (ControlNamespace (rs_Project r), MemberCRDName sha256 (p_Email p)) = Inr m)"
  using native.write_granted_to [OF assms] by (simp add: member_of_def)

definition ex_member :: "ProjectRole \<Rightarrow> ProjectMember" where
  "ex_member role = \<lparr>member_Namespace = ''pj-web'', member_Name = ''member-61'', member_Labels = [],
     member_Spec = \<lparr>pm_Email = ''a'', pm_Project = ''web'', pm_Role = role\<rparr>, member_Status = no_member_status\<rparr>"

definition ex_getMember :: "ProjectRole \<Rightarrow> get_member" where
  "ex_getMember role k = (if fst k = ''pj-web'' then Inr (ex_member role) else Inl NotFound)"

definition ex_project :: Project where
  "ex_project = \<lparr>prj_Name = ''web'', prj_UID = ''u'', prj_Labels = [], prj_Annotations = [], prj_Generation = 1, prj_CreationTimestamp = None,
     prj_DeletionTimestamp = None, prj_Finalizers = [],
     prj_Spec = \<lparr>ps_Description = [],
        ps_Environments = [\<lparr>pe_Name = ''production'', pe_DisplayOrder = 0, pe_Restricted = True, pe_Preview = False\<rparr>,
                           \<lparr>pe_Name = ''staging'', pe_DisplayOrder = 1, pe_Restricted = False, pe_Preview = False\<rparr>],
        ps_Preview = None, ps_AutoRedeploy = False\<rparr>,
     prj_Status = \<lparr>pst_Phase = ProjectPhaseReady, pst_Namespace = ''pj-web'', pst_EnvNamespaces = [],
        pst_AppCount = 0, pst_Environments = [], pst_Conditions = []\<rparr>\<rparr>"

definition ex_principal :: "Role \<Rightarrow> Principal" where
  "ex_principal role = \<lparr>p_ID = ''a'', p_Email = ''a'', p_Role = role, p_PasswordGen = 0\<rparr>"

definition ex_resource :: "string \<Rightarrow> string \<Rightarrow> Resource" where
  "ex_resource kind env = \<lparr>rs_Kind = kind, rs_Namespace = [], rs_Name = ''x'', rs_Project = ''web'', rs_Environment = env\<rparr>"

lemmas authz_ex_defs = ex_member_def ex_getMember_def ex_project_def ex_principal_def ex_resource_def

lemma ex_member_found [simp]:
  "ex_getMember role (ControlNamespace ''web'', n) = Inr (ex_member role)"
  by (simp add: ex_getMember_def ControlNamespace_def ControlNamespacePrefix_def)

lemma ex_role [simp]: "pm_Role (member_Spec (ex_member role)) = role"
  by (simp add: ex_member_def)

lemma ex_resource_sel [simp]:
  "rs_Kind (ex_resource k e) = k" "rs_Project (ex_resource k e) = ''web''" "rs_Environment (ex_resource k e) = e"
  by (simp_all add: ex_resource_def)

lemma ex_principal_sel [simp]: "p_Role (ex_principal role) = role"
  by (simp add: ex_principal_def)

lemma ex_env_restriction [simp]:
  "env_restriction (ps_Environments (prj_Spec ex_project)) ''production''"
  "\<not> env_restriction (ps_Environments (prj_Spec ex_project)) ''staging''"
  by (simp_all add: ex_project_def)

theorem project_writes_need_membership_witness:
  "p_Role (ex_principal RoleMember) = RoleAdmin \<or> p_Role (ex_principal RoleMember) \<noteq> RoleViewer \<and>
   (\<exists>m. ex_getMember ProjectRoleDeveloper (ControlNamespace (rs_Project (ex_resource ''secret'' ''staging'')),
      MemberCRDName id (p_Email (ex_principal RoleMember))) = Inr m)"
  by (rule project_writes_need_membership [where a = ActionUpdate and getProject = "\<lambda>_. Inr ex_project"])
     (simp_all add: authz_defs)

text \<open>
  Project roles are ordered viewer, developer, owner, and more power never removes a
  permission, with one exception that the theorem names: reading the resource kind
  \<open>member\<close> is granted to project viewers and refused to developers. The statement compares the
  answers for the same caller under two roles; a failing read of the project counts as no answer.
\<close>

theorem authorize_monotone_in_role:
  assumes "role \<le> role'"
    and "Authorize sha256 (with_role getMember role) getProject p r a = Inr True"
    and "\<And>e. Authorize sha256 (with_role getMember role') getProject p r a \<noteq> Inl e"
    and "\<not> (rs_Kind r = ''member'' \<and> a = ActionRead)"
  shows "Authorize sha256 (with_role getMember role') getProject p r a = Inr True"
  using assms role_answer_mono [OF assms(1) _ assms(4), of getProject]
  by (fastforce simp: Authorize_def authorizeProject_with_role split: if_splits sum.splits)

theorem authorize_monotone_in_role_witness:
  "Authorize id (with_role (ex_getMember ProjectRoleOwner) ProjectRoleDeveloper) (\<lambda>_. Inr ex_project)
     (ex_principal RoleMember) (ex_resource ''app'' ''staging'') ActionRead = Inr True"
  by (rule authorize_monotone_in_role [where role = ProjectRoleViewer])
     (simp_all add: less_eq_ProjectRole_def authz_defs with_role_def)



text \<open>
  At platform level the three roles are nested: what a viewer may do a member may do, and
  what a member may do an administrator may do; the user list is the administrators' alone.
\<close>

lemma platform_roles_nested:
  "\<exists>v m. Authorize sha256 gm gp (p\<lparr>p_Role := RoleViewer\<rparr>) (r\<lparr>rs_Project := []\<rparr>) a = Inr v \<and>
     Authorize sha256 gm gp (p\<lparr>p_Role := RoleMember\<rparr>) (r\<lparr>rs_Project := []\<rparr>) a = Inr m \<and>
     Authorize sha256 gm gp (p\<lparr>p_Role := RoleAdmin\<rparr>) (r\<lparr>rs_Project := []\<rparr>) a = Inr True \<and>
     v \<le> m \<and> m \<le> (rs_Kind r \<noteq> ''user'')"
  by (auto simp: authz_defs)

end
