(* ===== verification/LoginLimit.thy ===== *)
theory LoginLimit
  imports Complex_Main Prelude
begin

text \<open>
  The login throttle of \<open>internal/api/loginlimit.go\<close>: a token bucket per key with a lockout
  after repeated failures, in a table of bounded size. Every method holds the mutex for its
  whole body, so an execution is a list of timed operations.

  Times and durations are nanoseconds. The bucket level, a \<open>float64\<close> in the code, is a
  rational number here: the theorems are about the algorithm and ignore rounding. The zero
  \<open>time.Time\<close> of \<open>lockedUntil\<close>, which lies before every clock reading, is \<open>None\<close>.
\<close>

section \<open>Definitions\<close>

definition defaultLoginRatePerMin :: int where "defaultLoginRatePerMin = 5"
definition defaultLoginBurst :: int where "defaultLoginBurst = 10"
definition defaultLoginLockoutAfter :: int where "defaultLoginLockoutAfter = 10"
definition defaultLoginLockoutMinutes :: int where "defaultLoginLockoutMinutes = 15"
definition loginLimiterMaxEntries :: nat where "loginLimiterMaxEntries = 10000"
definition time_Minute :: int where "time_Minute = 60000000000"
definition loginLimiterIdleEvict :: int where "loginLimiterIdleEvict = 30 * time_Minute"

record loginEntry =
  le_tokens :: rat
  le_lastRefill :: int
  le_failures :: int
  le_lockedUntil :: "int option"
  le_lastSeen :: int

record loginLimiter =
  ll_ratePerMin :: rat
  ll_burst :: rat
  ll_lockoutAfter :: int
  ll_lockoutDur :: int
  ll_entries :: "loginEntry gomap"

definition envInt :: "(string \<Rightarrow> string) \<Rightarrow> string \<Rightarrow> int \<Rightarrow> int" where
  "envInt getenv name def =
     (let v = getenv name
      in if v \<noteq> [] then (case Atoi v of Some n \<Rightarrow> if n > 0 then n else def | None \<Rightarrow> def) else def)"

definition newLoginLimiter :: "(string \<Rightarrow> string) \<Rightarrow> loginLimiter" where
  "newLoginLimiter getenv = \<lparr>
     ll_ratePerMin = of_int (envInt getenv ''MORTISE_LOGIN_RATE_PER_MIN'' defaultLoginRatePerMin),
     ll_burst = of_int (envInt getenv ''MORTISE_LOGIN_BURST'' defaultLoginBurst),
     ll_lockoutAfter = envInt getenv ''MORTISE_LOGIN_LOCKOUT_FAILURES'' defaultLoginLockoutAfter,
     ll_lockoutDur = envInt getenv ''MORTISE_LOGIN_LOCKOUT_MINUTES'' defaultLoginLockoutMinutes * time_Minute,
     ll_entries = []\<rparr>"

definition SplitHostPort :: "string \<Rightarrow> string option" where
  \<comment> \<open>the host \<open>net.SplitHostPort\<close> returns, \<open>None\<close> on its errors\<close>
  "SplitHostPort hostport =
     (if CHR '':'' \<notin> set hostport then None
      else
        let i = length hostport - 1 - length (takeWhile (\<lambda>c. c \<noteq> CHR '':'') (rev hostport))
        in if hd hostport = CHR ''['' then
             (let end = length (takeWhile (\<lambda>c. c \<noteq> CHR '']'') hostport)
              in if end \<ge> length hostport \<or> end + 1 \<noteq> i then None
                 else if CHR ''['' \<in> set (drop 1 hostport) \<or> CHR '']'' \<in> set (drop (end + 1) hostport) then None
                 else Some (take (end - 1) (drop 1 hostport)))
           else
             (let host = take i hostport
              in if CHR '':'' \<in> set host then None
                 else if CHR ''['' \<in> set hostport \<or> CHR '']'' \<in> set hostport then None
                 else Some host))"

definition loginRateKey :: "string \<Rightarrow> string \<Rightarrow> string" where
  "loginRateKey email remoteAddr =
     (let host = (case SplitHostPort remoteAddr of Some h \<Rightarrow> h | None \<Rightarrow> remoteAddr)
      in to_lower (trim_space email) @ ''|'' @ host)"

definition before :: "int \<Rightarrow> int option \<Rightarrow> bool" where
  \<comment> \<open>\<open>now.Before(t)\<close>\<close>
  "before now t = (case t of None \<Rightarrow> False | Some u \<Rightarrow> now < u)"

definition after :: "int \<Rightarrow> int option \<Rightarrow> bool" where
  \<comment> \<open>\<open>now.After(t)\<close>\<close>
  "after now t = (case t of None \<Rightarrow> True | Some u \<Rightarrow> now > u)"

definition pruneLocked :: "int \<Rightarrow> loginEntry gomap \<Rightarrow> loginEntry gomap" where
  "pruneLocked now es =
     filter (\<lambda>(k, e). \<not> (now - le_lastSeen e > loginLimiterIdleEvict \<and> after now (le_lockedUntil e))) es"

definition new_entry :: "loginLimiter \<Rightarrow> int \<Rightarrow> loginEntry" where
  "new_entry l now = \<lparr>le_tokens = ll_burst l, le_lastRefill = now, le_failures = 0,
     le_lockedUntil = None, le_lastSeen = now\<rparr>"

definition find_entry :: "loginLimiter \<Rightarrow> int \<Rightarrow> string \<Rightarrow> loginEntry option \<times> loginLimiter" where
  \<comment> \<open>the lookup both methods start with; \<open>None\<close> when the table is full\<close>
  "find_entry l now key =
     (case map_of (ll_entries l) key of
        Some e \<Rightarrow> (Some e, l)
      | None \<Rightarrow>
          let l = (if length (ll_entries l) \<ge> loginLimiterMaxEntries
                   then l\<lparr>ll_entries := pruneLocked now (ll_entries l)\<rparr> else l)
          in if length (ll_entries l) \<ge> loginLimiterMaxEntries then (None, l)
             else let e = new_entry l now in (Some e, l\<lparr>ll_entries := AList.update key e (ll_entries l)\<rparr>))"

definition set_entry :: "loginLimiter \<Rightarrow> string \<Rightarrow> loginEntry \<Rightarrow> loginLimiter" where
  \<comment> \<open>the entry is shared through its pointer: writing a field updates the table\<close>
  "set_entry l key e = l\<lparr>ll_entries := AList.update key e (ll_entries l)\<rparr>"

definition allow :: "int \<Rightarrow> string \<Rightarrow> loginLimiter \<Rightarrow> (bool \<times> int) \<times> loginLimiter" where
  "allow now key l0 =
     (case find_entry l0 now key of
        (None, l) \<Rightarrow> ((True, 0), l)
      | (Some e0, l) \<Rightarrow>
          let e = e0\<lparr>le_lastSeen := now\<rparr>
          in if before now (le_lockedUntil e)
             then ((False, the (le_lockedUntil e) - now), set_entry l key e)
             else
               let elapsed = of_int (now - le_lastRefill e) / of_int time_Minute;
                   e = e\<lparr>le_tokens := min (ll_burst l) (le_tokens e + elapsed * ll_ratePerMin l),
                         le_lastRefill := now\<rparr>
               in if le_tokens e \<ge> 1
                  then ((True, 0), set_entry l key (e\<lparr>le_tokens := le_tokens e - 1\<rparr>))
                  else ((False, \<lfloor>(1 - le_tokens e) / ll_ratePerMin l * of_int time_Minute\<rfloor>), set_entry l key e))"

definition recordFailure :: "int \<Rightarrow> string \<Rightarrow> loginLimiter \<Rightarrow> loginLimiter" where
  "recordFailure now key l0 =
     (case find_entry l0 now key of
        (None, l) \<Rightarrow> l
      | (Some e0, l) \<Rightarrow>
          let e = e0\<lparr>le_lastSeen := now, le_failures := le_failures e0 + 1\<rparr>;
              e = (if le_failures e \<ge> ll_lockoutAfter l
                   then e\<lparr>le_lockedUntil := Some (now + ll_lockoutDur l)\<rparr> else e)
          in set_entry l key e)"

definition recordSuccess :: "string \<Rightarrow> loginLimiter \<Rightarrow> loginLimiter" where
  "recordSuccess key l = l\<lparr>ll_entries := AList.delete key (ll_entries l)\<rparr>"

section \<open>Executions\<close>

datatype limiter_op = Allow string | Failure string | Success string

fun limiter_step :: "int \<times> limiter_op \<Rightarrow> loginLimiter \<Rightarrow> loginLimiter" where
  "limiter_step (now, Allow k) l = snd (allow now k l)"
| "limiter_step (now, Failure k) l = recordFailure now k l"
| "limiter_step (now, Success k) l = recordSuccess k l"

fun grants :: "string \<Rightarrow> (int \<times> limiter_op) list \<Rightarrow> loginLimiter \<Rightarrow> nat" where
  \<comment> \<open>how many login attempts of \<open>key\<close> the run lets through\<close>
  "grants key [] l = 0"
| "grants key ((now, x) # xs) l =
     (if x = Allow key \<and> fst (fst (allow now key l)) then 1 else 0) + grants key xs (limiter_step (now, x) l)"

definition limiter_inv :: "loginLimiter \<Rightarrow> bool" where
  "limiter_inv l \<longleftrightarrow> distinct (map fst (ll_entries l)) \<and> length (ll_entries l) \<le> loginLimiterMaxEntries \<and>
     (\<forall>(k, e) \<in> set (ll_entries l). le_tokens e \<le> ll_burst l)"

lemma length_update_le: "length (AList.update k v m) \<le> Suc (length m)"
  by (induction m) auto

lemma length_update_old: "map_of m k = Some v \<Longrightarrow> length (AList.update k w m) = length m"
  by (induction m) (auto split: if_splits)

lemma set_update_subset: "set (AList.update k v m) \<subseteq> insert (k, v) (set m)"
  by (induction m) auto

lemma prune_inv: "limiter_inv l \<Longrightarrow> limiter_inv (l\<lparr>ll_entries := pruneLocked now (ll_entries l)\<rparr>)"
  unfolding limiter_inv_def pruneLocked_def
  by (auto simp: distinct_map_filter intro: le_trans [OF length_filter_le])

lemma set_entry_inv:
  assumes "limiter_inv l" "map_of (ll_entries l) k = Some e0" "le_tokens e \<le> ll_burst l"
  shows "limiter_inv (set_entry l k e)"
  using assms set_update_subset [of k e "ll_entries l"]
  by (auto simp: limiter_inv_def set_entry_def length_update_old distinct_update)

lemma find_entry_cases:
  assumes "find_entry l now key = (r, l')"
  obtains (old) e where "r = Some e" "l' = l" "map_of (ll_entries l) key = Some e"
  | (new) es where "r = Some (new_entry l now)" "map_of (ll_entries l) key = None"
      "es = ll_entries l \<or> es = pruneLocked now (ll_entries l) \<and> length (ll_entries l) \<ge> loginLimiterMaxEntries"
      "length es < loginLimiterMaxEntries" "l' = l\<lparr>ll_entries := AList.update key (new_entry l now) es\<rparr>"
  | (full) "r = None" "map_of (ll_entries l) key = None" "length (ll_entries l) \<ge> loginLimiterMaxEntries"
      "l' = l\<lparr>ll_entries := pruneLocked now (ll_entries l)\<rparr>"
proof (cases "map_of (ll_entries l) key")
  case (Some e)
  with assms old [of e] show ?thesis by (simp add: find_entry_def)
next
  case None
  define es where "es = (if length (ll_entries l) \<ge> loginLimiterMaxEntries then pruneLocked now (ll_entries l) else ll_entries l)"
  have fe: "find_entry l now key =
      (if length es \<ge> loginLimiterMaxEntries then (None, l\<lparr>ll_entries := es\<rparr>)
       else (Some (new_entry l now), l\<lparr>ll_entries := AList.update key (new_entry l now) es\<rparr>))"
    using None by (simp add: find_entry_def Let_def new_entry_def es_def)
  show ?thesis
  proof (cases "length es \<ge> loginLimiterMaxEntries")
    case True
    then have "length (ll_entries l) \<ge> loginLimiterMaxEntries" "es = pruneLocked now (ll_entries l)"
      by (auto simp: es_def split: if_splits)
    with full assms fe None True show ?thesis by simp
  next
    case False
    moreover have "es = ll_entries l \<or> es = pruneLocked now (ll_entries l) \<and> length (ll_entries l) \<ge> loginLimiterMaxEntries"
      by (simp add: es_def)
    ultimately show ?thesis using new [of es] assms fe None by simp
  qed
qed

lemma insert_new_inv:
  assumes "limiter_inv (l\<lparr>ll_entries := es\<rparr>)" "length es < loginLimiterMaxEntries"
  shows "limiter_inv (l\<lparr>ll_entries := AList.update key (new_entry l now) es\<rparr>)"
  using assms set_update_subset [of key "new_entry l now" es] length_update_le [of key "new_entry l now" es]
  by (auto simp: limiter_inv_def distinct_update new_entry_def)

lemma find_entry_inv:
  assumes "limiter_inv l" "find_entry l now key = (r, l')"
  shows "limiter_inv l'" "ll_burst l' = ll_burst l"
    "\<And>e. r = Some e \<Longrightarrow> map_of (ll_entries l') key = Some e \<and> le_tokens e \<le> ll_burst l"
  using assms(2)
proof (atomize (full), cases rule: find_entry_cases)
  case (old e)
  with assms(1) show "limiter_inv l' \<and> ll_burst l' = ll_burst l \<and>
      (\<forall>e. r = Some e \<longrightarrow> map_of (ll_entries l') key = Some e \<and> le_tokens e \<le> ll_burst l)"
    by (auto simp: limiter_inv_def dest: map_of_SomeD)
next
  case (new es)
  then have "limiter_inv (l\<lparr>ll_entries := es\<rparr>)" using assms(1) prune_inv by auto
  from insert_new_inv [OF this new(4)] new show "limiter_inv l' \<and> ll_burst l' = ll_burst l \<and>
      (\<forall>e. r = Some e \<longrightarrow> map_of (ll_entries l') key = Some e \<and> le_tokens e \<le> ll_burst l)"
    by (auto simp: new_entry_def update_conv')
next
  case full
  then show "limiter_inv l' \<and> ll_burst l' = ll_burst l \<and>
      (\<forall>e. r = Some e \<longrightarrow> map_of (ll_entries l') key = Some e \<and> le_tokens e \<le> ll_burst l)"
    using assms(1) prune_inv by auto
qed

lemma allow_inv: "limiter_inv l \<Longrightarrow> limiter_inv (snd (allow now key l))"
  by (cases "find_entry l now key")
     (auto simp: allow_def Let_def find_entry_inv intro!: set_entry_inv dest: find_entry_inv
       split: option.split)

lemma recordFailure_inv: "limiter_inv l \<Longrightarrow> limiter_inv (recordFailure now key l)"
  by (cases "find_entry l now key")
     (auto simp: recordFailure_def Let_def find_entry_inv intro!: set_entry_inv dest: find_entry_inv
       split: option.split)

lemma recordSuccess_inv: "limiter_inv l \<Longrightarrow> limiter_inv (recordSuccess key l)"
  unfolding limiter_inv_def recordSuccess_def
  by (auto simp: AList.delete_eq distinct_map_filter intro: le_trans [OF length_filter_le])

lemma limiter_step_inv: "limiter_inv l \<Longrightarrow> limiter_inv (limiter_step x l)"
  by (cases "(x, l)" rule: limiter_step.cases) (auto simp: allow_inv recordFailure_inv recordSuccess_inv)

interpretation limiter: machine limiter_step limiter_inv
  by unfold_locales (rule limiter_step_inv)

section \<open>The bucket level\<close>

definition refill :: "loginLimiter \<Rightarrow> int \<Rightarrow> rat" where
  "refill l d = of_int d / of_int time_Minute * ll_ratePerMin l"

definition level :: "loginLimiter \<Rightarrow> int \<Rightarrow> string \<Rightarrow> rat" where
  \<comment> \<open>the tokens a key has at a time; a key without entry has a full bucket\<close>
  "level l now k = (case map_of (ll_entries l) k of None \<Rightarrow> ll_burst l
     | Some e \<Rightarrow> min (ll_burst l) (le_tokens e + refill l (now - le_lastRefill e)))"

lemma allow_refill:
  "allow now key l0 =
     (case find_entry l0 now key of
        (None, l) \<Rightarrow> ((True, 0), l)
      | (Some e0, l) \<Rightarrow>
          let e = e0\<lparr>le_lastSeen := now\<rparr>
          in if before now (le_lockedUntil e)
             then ((False, the (le_lockedUntil e) - now), set_entry l key e)
             else
               let e = e\<lparr>le_tokens := min (ll_burst l) (le_tokens e + refill l (now - le_lastRefill e)),
                         le_lastRefill := now\<rparr>
               in if le_tokens e \<ge> 1
                  then ((True, 0), set_entry l key (e\<lparr>le_tokens := le_tokens e - 1\<rparr>))
                  else ((False, \<lfloor>(1 - le_tokens e) / ll_ratePerMin l * of_int time_Minute\<rfloor>), set_entry l key e))"
  unfolding allow_def refill_def Let_def by (rule refl)

lemma refill_config:
  "ll_ratePerMin l' = ll_ratePerMin l \<Longrightarrow> refill l' d = refill l d" "refill l 0 = 0"
  by (simp_all add: refill_def)

lemma level_later:
  assumes "0 \<le> ll_ratePerMin l" "now \<le> now'"
  shows "level l now' k \<le> level l now k + refill l (now' - now)"
proof -
  have pos: "0 \<le> refill l (now' - now)"
    using assms by (simp add: refill_def time_Minute_def)
  show ?thesis
  proof (cases "map_of (ll_entries l) k")
    case None
    with pos show ?thesis by (simp add: level_def)
  next
    case (Some e)
    have "refill l (now' - le_lastRefill e) = refill l (now - le_lastRefill e) + refill l (now' - now)"
      by (simp add: refill_def diff_divide_distrib algebra_simps)
    with Some pos show ?thesis by (simp add: level_def)
  qed
qed

lemma find_entry_room:
  assumes "length (ll_entries l) < loginLimiterMaxEntries" "find_entry l now key = (r, l')"
  shows "\<exists>e. r = Some e \<and> map_of (ll_entries l') key = Some e \<and> (\<forall>k. level l' now k = level l now k) \<and>
     length (ll_entries l') \<le> Suc (length (ll_entries l)) \<and>
     ll_burst l' = ll_burst l \<and> ll_ratePerMin l' = ll_ratePerMin l"
  using assms(2)
proof (cases rule: find_entry_cases)
  case (new es)
  with assms(1) length_update_le [of key "new_entry l now" es] show ?thesis
    by (auto simp: level_def update_conv' new_entry_def refill_def split: option.split)
qed (use assms(1) in auto)

lemma level_set_entry:
  "level (set_entry l key e) now k = (if k = key
     then min (ll_burst l) (le_tokens e + refill l (now - le_lastRefill e))
     else level l now k)"
  by (simp add: level_def set_entry_def update_conv' refill_def split: option.split)

lemma set_entry_config [simp]:
  "ll_burst (set_entry l key e) = ll_burst l" "ll_ratePerMin (set_entry l key e) = ll_ratePerMin l"
  "ll_lockoutDur (set_entry l key e) = ll_lockoutDur l" "ll_lockoutAfter (set_entry l key e) = ll_lockoutAfter l"
  by (simp_all add: set_entry_def)

lemma length_set_entry:
  "map_of (ll_entries l) key = Some e0 \<Longrightarrow> length (ll_entries (set_entry l key e)) = length (ll_entries l)"
  by (simp add: set_entry_def length_update_old)

text \<open>One operation at time \<open>now\<close>: a granted attempt costs a token, nothing else gains one.\<close>

lemma allow_level:
  assumes room: "length (ll_entries l) < loginLimiterMaxEntries" and al: "allow now key l = ((b, d), l')"
  shows "(if b \<and> k = key then 1 else 0) + max 0 (level l' now k) \<le> max 0 (level l now k)"
    and "length (ll_entries l') \<le> Suc (length (ll_entries l))"
    and "ll_burst l' = ll_burst l" and "ll_ratePerMin l' = ll_ratePerMin l"
proof -
  obtain r l1 where fe: "find_entry l now key = (r, l1)" by (cases "find_entry l now key")
  from find_entry_room [OF room fe] obtain e where e: "r = Some e" "map_of (ll_entries l1) key = Some e"
    "\<And>k. level l1 now k = level l now k" "length (ll_entries l1) \<le> Suc (length (ll_entries l))"
    "ll_burst l1 = ll_burst l" "ll_ratePerMin l1 = ll_ratePerMin l" by blast
  have lv: "level l now key =
      min (ll_burst l) (le_tokens e + refill l (now - le_lastRefill e))"
    unfolding e(3) [symmetric] using e(2,5,6) by (simp add: level_def refill_def)
  note facts = fe e length_set_entry [OF e(2)] level_set_entry refill_config(1) [OF e(6)] refill_config(2)
  show "(if b \<and> k = key then 1 else 0) + max 0 (level l' now k) \<le> max 0 (level l now k)"
    using al by (cases "k = key") (auto simp: allow_refill Let_def facts lv split: if_splits)
  show "length (ll_entries l') \<le> Suc (length (ll_entries l))"
    "ll_burst l' = ll_burst l" "ll_ratePerMin l' = ll_ratePerMin l"
    using al by (auto simp: allow_def Let_def facts split: if_splits)
qed

lemma failure_level:
  assumes room: "length (ll_entries l) < loginLimiterMaxEntries"
  shows "level (recordFailure now key l) now k = level l now k"
    and "length (ll_entries (recordFailure now key l)) \<le> Suc (length (ll_entries l))"
    and "ll_burst (recordFailure now key l) = ll_burst l" and "ll_ratePerMin (recordFailure now key l) = ll_ratePerMin l"
proof -
  obtain r l1 where fe: "find_entry l now key = (r, l1)" by (cases "find_entry l now key")
  from find_entry_room [OF room fe] obtain e where e: "r = Some e" "map_of (ll_entries l1) key = Some e"
    "\<And>k. level l1 now k = level l now k" "length (ll_entries l1) \<le> Suc (length (ll_entries l))"
    "ll_burst l1 = ll_burst l" "ll_ratePerMin l1 = ll_ratePerMin l" by blast
  note facts = fe e length_set_entry [OF e(2)] level_set_entry refill_config(1) [OF e(6)] refill_config(2)
  have lv: "level l now key =
      min (ll_burst l) (le_tokens e + refill l (now - le_lastRefill e))"
    unfolding e(3) [symmetric] using e(2,5,6) by (simp add: level_def refill_def)
  show "level (recordFailure now key l) now k = level l now k"
    by (cases "k = key") (simp_all add: recordFailure_def Let_def facts lv)
  show "length (ll_entries (recordFailure now key l)) \<le> Suc (length (ll_entries l))"
    "ll_burst (recordFailure now key l) = ll_burst l" "ll_ratePerMin (recordFailure now key l) = ll_ratePerMin l"
    by (simp_all add: recordFailure_def Let_def facts)
qed

definition spends :: "limiter_op \<Rightarrow> int \<Rightarrow> string \<Rightarrow> loginLimiter \<Rightarrow> rat" where
  "spends x now k l = (if x = Allow k \<and> fst (fst (allow now k l)) then 1 else 0)"

lemma step_level:
  assumes "length (ll_entries l) < loginLimiterMaxEntries" "x \<noteq> Success k"
  shows "spends x now k l + max 0 (level (limiter_step (now, x) l) now k) \<le> max 0 (level l now k) \<and>
    length (ll_entries (limiter_step (now, x) l)) \<le> Suc (length (ll_entries l)) \<and>
    ll_burst (limiter_step (now, x) l) = ll_burst l \<and> ll_ratePerMin (limiter_step (now, x) l) = ll_ratePerMin l"
proof (cases x)
  case (Allow j)
  obtain b d l' where al: "allow now j l = ((b, d), l')" by (metis surj_pair)
  from allow_level(1) [OF assms(1) al, of k] allow_level(2-) [OF assms(1) al] al Allow show ?thesis
    by (auto simp: spends_def split: if_splits)
next
  case (Failure j)
  then show ?thesis using failure_level [OF assms(1)] by (simp add: spends_def)
next
  case (Success j)
  have "length (AList.delete j (ll_entries l)) \<le> length (ll_entries l)"
    by (simp add: AList.delete_eq)
  then show ?thesis
    using Success assms(2) by (auto simp: spends_def recordSuccess_def level_def delete_conv' refill_def split: option.split)
qed

lemma grants_level:
  assumes "sorted (map fst xs)" "\<forall>(t, x) \<in> set xs. now \<le> t \<and> t \<le> until \<and> x \<noteq> Success k" "now \<le> until"
    and "length (ll_entries l) + length xs \<le> loginLimiterMaxEntries" "0 \<le> ll_ratePerMin l"
  shows "of_nat (grants k xs l) \<le> max 0 (level l now k) + refill l (until - now)"
  using assms
proof (induction xs arbitrary: l now)
  case Nil
  have "0 \<le> refill l (until - now)" using Nil.prems by (simp add: refill_def time_Minute_def)
  then show ?case by simp
next
  case (Cons tx xs)
  obtain t x where tx: "tx = (t, x)" by (cases tx)
  let ?l = "limiter_step (t, x) l"
  have room: "length (ll_entries l) < loginLimiterMaxEntries" and t: "now \<le> t" "t \<le> until" "x \<noteq> Success k"
    using Cons.prems by (auto simp: tx)
  note st = step_level [OF room t(3), of t, THEN conjunct1]
    step_level [OF room t(3), of t, THEN conjunct2, THEN conjunct1]
    step_level [OF room t(3), of t, THEN conjunct2, THEN conjunct2, THEN conjunct2]
  have "of_nat (grants k xs ?l) \<le> max 0 (level ?l t k) + refill ?l (until - t)"
    using Cons.prems st(2,3) by (intro Cons.IH) (auto simp: tx)
  moreover have "refill ?l (until - t) = refill l (until - t)" by (rule refill_config(1)) (rule st(3))
  moreover have "level l t k \<le> level l now k + refill l (t - now)"
    using level_later Cons.prems(5) t(1) by blast
  moreover have "refill l (until - now) = refill l (t - now) + refill l (until - t)"
    by (simp add: refill_def diff_divide_distrib algebra_simps)
  moreover have "0 \<le> refill l (t - now)" using Cons.prems(5) t(1) by (simp add: refill_def time_Minute_def)
  moreover have "of_nat (grants k (tx # xs) l) =
      spends x t k l + of_nat (grants k xs ?l)"
    by (simp add: tx spends_def)
  ultimately show ?case using st(1) by linarith
qed

section \<open>Lockout\<close>

definition locked_for :: "loginLimiter \<Rightarrow> string \<Rightarrow> int \<Rightarrow> bool" where
  "locked_for l k u \<longleftrightarrow> (\<exists>e v. map_of (ll_entries l) k = Some e \<and> le_lockedUntil e = Some v \<and> u \<le> v)"

lemma locked_prune:
  "locked_for l k u \<Longrightarrow> now < u \<Longrightarrow> distinct (map fst (ll_entries l)) \<Longrightarrow>
   locked_for (l\<lparr>ll_entries := pruneLocked now (ll_entries l)\<rparr>) k u"
  by (auto simp: locked_for_def pruneLocked_def after_def distinct_map_filter map_of_eq_Some_iff)

lemma find_entry_locked:
  assumes "locked_for l k u" "now < u" "limiter_inv l" "find_entry l now key = (r, l')"
  shows "locked_for l' k u" "ll_lockoutDur l' = ll_lockoutDur l"
    "key = k \<Longrightarrow> r = map_of (ll_entries l) k \<and> l' = l"
proof (atomize (full), use assms(4) in \<open>cases rule: find_entry_cases\<close>)
  case (old e)
  with assms show "locked_for l' k u \<and> ll_lockoutDur l' = ll_lockoutDur l \<and>
      (key = k \<longrightarrow> r = map_of (ll_entries l) k \<and> l' = l)"
    by auto
next
  case (new es)
  have ne: "key \<noteq> k" using new(2) assms(1) by (auto simp: locked_for_def)
  have "locked_for (l\<lparr>ll_entries := es\<rparr>) k u"
    using new(3) locked_prune [OF assms(1,2)] assms(1,3) by (auto simp: limiter_inv_def locked_for_def)
  then show "locked_for l' k u \<and> ll_lockoutDur l' = ll_lockoutDur l \<and>
      (key = k \<longrightarrow> r = map_of (ll_entries l) k \<and> l' = l)"
    using ne new(5) by (auto simp: locked_for_def update_conv')
next
  case full
  then have "key \<noteq> k" using assms(1) by (auto simp: locked_for_def)
  with full show "locked_for l' k u \<and> ll_lockoutDur l' = ll_lockoutDur l \<and>
      (key = k \<longrightarrow> r = map_of (ll_entries l) k \<and> l' = l)"
    using locked_prune [OF assms(1,2)] assms(3) by (auto simp: limiter_inv_def)
qed

lemma set_entry_locked:
  "locked_for l k u \<Longrightarrow> (key = k \<Longrightarrow> \<exists>v. le_lockedUntil e = Some v \<and> u \<le> v) \<Longrightarrow> locked_for (set_entry l key e) k u"
  by (auto simp: locked_for_def set_entry_def update_conv')

lemma step_locked:
  assumes l: "locked_for l k u" "limiter_inv l" and t: "u - ll_lockoutDur l \<le> now" "now < u" and x: "x \<noteq> Success k"
  shows "locked_for (limiter_step (now, x) l) k u" "ll_lockoutDur (limiter_step (now, x) l) = ll_lockoutDur l"
    "x = Allow k \<Longrightarrow> \<not> fst (fst (allow now k l))"
proof (atomize (full), cases x)
  case (Allow j)
  obtain r l' where fe: "find_entry l now j = (r, l')" by (cases "find_entry l now j")
  note f = find_entry_locked [OF l(1) t(2) l(2) fe]
  show "locked_for (limiter_step (now, x) l) k u \<and> ll_lockoutDur (limiter_step (now, x) l) = ll_lockoutDur l \<and>
      (x = Allow k \<longrightarrow> \<not> fst (fst (allow now k l)))"
    using f l(1) t fe Allow
    by (cases "j = k") (auto simp: allow_def Let_def locked_for_def before_def set_entry_def update_conv' split: option.split)
next
  case (Failure j)
  obtain r l' where fe: "find_entry l now j = (r, l')" by (cases "find_entry l now j")
  note f = find_entry_locked [OF l(1) t(2) l(2) fe]
  show "locked_for (limiter_step (now, x) l) k u \<and> ll_lockoutDur (limiter_step (now, x) l) = ll_lockoutDur l \<and>
      (x = Allow k \<longrightarrow> \<not> fst (fst (allow now k l)))"
    using f l(1) t fe Failure
    by (cases "j = k") (auto simp: recordFailure_def Let_def locked_for_def set_entry_def update_conv' split: option.split)
next
  case (Success j)
  then show "locked_for (limiter_step (now, x) l) k u \<and> ll_lockoutDur (limiter_step (now, x) l) = ll_lockoutDur l \<and>
      (x = Allow k \<longrightarrow> \<not> fst (fst (allow now k l)))"
    using l(1) x by (auto simp: recordSuccess_def locked_for_def delete_conv')
qed

lemma locked_no_grants:
  assumes "locked_for l k u" "limiter_inv l"
    and "\<forall>(t, x) \<in> set xs. u - ll_lockoutDur l \<le> t \<and> t < u \<and> x \<noteq> Success k"
  shows "grants k xs l = 0"
  using assms
proof (induction xs arbitrary: l)
  case (Cons tx xs)
  obtain t x where tx: "tx = (t, x)" by (cases tx)
  have "u - ll_lockoutDur l \<le> t" "t < u" "x \<noteq> Success k" using Cons.prems by (auto simp: tx)
  note st = step_locked [OF Cons.prems(1,2) this]
  have "grants k xs (limiter_step (t, x) l) = 0"
    using Cons.prems st by (intro Cons.IH) (auto simp: limiter_step_inv)
  with st(3) show ?case by (auto simp: tx)
qed simp

section \<open>Properties\<close>


definition ex_limiter :: loginLimiter where
  "ex_limiter = \<lparr>ll_ratePerMin = 5, ll_burst = 10, ll_lockoutAfter = 10, ll_lockoutDur = 15 * time_Minute,
     ll_entries = [(''a|h'', \<lparr>le_tokens = 3, le_lastRefill = 0, le_failures = 9, le_lockedUntil = None, le_lastSeen = 0\<rparr>)]\<rparr>"


text \<open>
  C7: Reaching the failure threshold locks the key: after a failure at time \<open>t\<close> that brings the
  count to the threshold, no attempt of that key is let through in the lockout window, whatever
  else happens on any key in between (pruning of the full table and further failures included),
  short of a successful login of that key.
\<close>

theorem lockout_holds:
  assumes "limiter_inv l" "map_of (ll_entries l) k = Some e" "ll_lockoutAfter l \<le> le_failures e + 1"
    and "\<forall>(t', x) \<in> set xs. t \<le> t' \<and> t' < t + ll_lockoutDur l \<and> x \<noteq> Success k"
  shows "grants k xs (recordFailure t k l) = 0"
proof (rule locked_no_grants)
  show "locked_for (recordFailure t k l) k (t + ll_lockoutDur l)"
    using assms(2,3) by (simp add: recordFailure_def find_entry_def locked_for_def set_entry_def update_conv' Let_def)
  show "limiter_inv (recordFailure t k l)" using assms(1) by (rule recordFailure_inv)
  have "ll_lockoutDur (recordFailure t k l) = ll_lockoutDur l"
    using assms(2) by (simp add: recordFailure_def find_entry_def Let_def)
  with assms(4) show "\<forall>(t', x) \<in> set xs. t + ll_lockoutDur l - ll_lockoutDur (recordFailure t k l) \<le> t' \<and>
      t' < t + ll_lockoutDur l \<and> x \<noteq> Success k"
    by simp
qed

theorem lockout_holds_witness:
  "grants ''a|h'' [(7, Allow ''a|h''), (8, Failure ''a|h''), (800000000000, Allow ''a|h'')]
     (recordFailure 5 ''a|h'' ex_limiter) = 0"
  by (rule lockout_holds [where e = "the (map_of (ll_entries ex_limiter) ''a|h'')"])
     (simp_all add: limiter_inv_def ex_limiter_def loginLimiterMaxEntries_def time_Minute_def)

text \<open>
  The table cannot grow without bound and no bucket overflows: after any sequence of
  operations on a limiter configured from any environment there are at most 10,000 entries, each
  key once, and no entry holds more than the burst.
\<close>

theorem limiter_bounded:
  "let l = fold limiter_step xs (newLoginLimiter getenv)
   in length (ll_entries l) \<le> 10000 \<and> distinct (map fst (ll_entries l)) \<and>
      list_all (\<lambda>(k, e). le_tokens e \<le> ll_burst l) (ll_entries l)"
proof -
  have "limiter_inv (newLoginLimiter getenv)"
    by (simp add: limiter_inv_def newLoginLimiter_def)
  from limiter.run_inv [OF this] show ?thesis
    by (simp add: Let_def limiter_inv_def loginLimiterMaxEntries_def list_all_iff)
qed

end
