(* ===== verification/SseTokens.thy ===== *)
theory SseTokens
  imports Types
begin

text \<open>
  The short-lived stream tokens of \<open>internal/api/sse_tokens.go\<close>. \<open>Issue\<close>, \<open>Redeem\<close> and the body
  of the cleanup loop each run under the mutex; random bytes (or a failure of the generator) and
  the clock reading are inputs of the operation. The background goroutine is the operation
  \<open>Cleanup\<close>, which may happen at any time until the store is stopped.
\<close>

section \<open>Definitions\<close>

definition sseTokenTTL :: int where "sseTokenTTL = 30000000000"
definition sseTokenBytes :: nat where "sseTokenBytes = 32"
definition sseTokenPrefix :: string where "sseTokenPrefix = ''msse_''"

record sseTokenPrincipal =
  stp_email :: string
  stp_passwordGen :: int

record sseTokenEntry =
  ste_principal :: sseTokenPrincipal
  ste_expiresAt :: int

record sseTokenStore =
  sts_tokens :: "sseTokenEntry gomap"
  sts_stopped :: bool

definition newSSETokenStore :: sseTokenStore where
  "newSSETokenStore = \<lparr>sts_tokens = [], sts_stopped = False\<rparr>"

definition Issue :: "string option \<Rightarrow> int \<Rightarrow> Principal \<Rightarrow> sseTokenStore \<Rightarrow> string option \<times> sseTokenStore" where
  \<comment> \<open>the bytes \<open>rand.Read\<close> delivers, \<open>None\<close> when it fails\<close>
  "Issue raw now p s =
     (case raw of
        None \<Rightarrow> (None, s)
      | Some bytes \<Rightarrow>
          let token = sseTokenPrefix @ hex_encode bytes;
              entry = \<lparr>ste_principal = \<lparr>stp_email = p_Email p, stp_passwordGen = p_PasswordGen p\<rparr>,
                       ste_expiresAt = now + sseTokenTTL\<rparr>
          in (Some token, s\<lparr>sts_tokens := AList.update token entry (sts_tokens s)\<rparr>))"

definition Redeem :: "int \<Rightarrow> string \<Rightarrow> sseTokenStore \<Rightarrow> sseTokenPrincipal option \<times> sseTokenStore" where
  "Redeem now token s =
     (case map_of (sts_tokens s) token of
        None \<Rightarrow> (None, s)
      | Some entry \<Rightarrow>
          let s = s\<lparr>sts_tokens := AList.delete token (sts_tokens s)\<rparr>
          in if now > ste_expiresAt entry then (None, s) else (Some (ste_principal entry), s))"

definition cleanup_tick :: "int \<Rightarrow> sseTokenStore \<Rightarrow> sseTokenStore" where
  "cleanup_tick now s = s\<lparr>sts_tokens := filter (\<lambda>(k, v). \<not> now > ste_expiresAt v) (sts_tokens s)\<rparr>"

definition Stop :: "sseTokenStore \<Rightarrow> sseTokenStore" where
  "Stop s = (if \<not> sts_stopped s then s\<lparr>sts_stopped := True\<rparr> else s)"

section \<open>Executions\<close>

datatype sse_op = IssueOp "string option" Principal | RedeemOp string | CleanupOp | StopOp

fun sse_step :: "int \<times> sse_op \<Rightarrow> sseTokenStore \<Rightarrow> sseTokenStore" where
  "sse_step (now, IssueOp raw p) s = snd (Issue raw now p s)"
| "sse_step (now, RedeemOp token) s = snd (Redeem now token s)"
| "sse_step (now, CleanupOp) s = (if sts_stopped s then s else cleanup_tick now s)"
| "sse_step (now, StopOp) s = Stop s"

fun redeemed :: "string \<Rightarrow> (int \<times> sse_op) list \<Rightarrow> sseTokenStore \<Rightarrow> sseTokenPrincipal list" where
  \<comment> \<open>what the successful redemptions of \<open>token\<close> in a run returned\<close>
  "redeemed token [] s = []"
| "redeemed token ((now, x) # xs) s =
     (if x = RedeemOp token then (case fst (Redeem now token s) of None \<Rightarrow> [] | Some p \<Rightarrow> [p]) else [])
     @ redeemed token xs (sse_step (now, x) s)"

definition issues :: "string \<Rightarrow> sse_op \<Rightarrow> bool" where
  "issues token x \<longleftrightarrow> (\<exists>bytes p. x = IssueOp (Some bytes) p \<and> sseTokenPrefix @ hex_encode bytes = token)"

definition sse_inv :: "sseTokenStore \<Rightarrow> bool" where
  "sse_inv s \<longleftrightarrow> distinct (map fst (sts_tokens s))"

lemma sse_step_inv: "sse_inv s \<Longrightarrow> sse_inv (sse_step x s)"
  by (cases "(x, s)" rule: sse_step.cases)
     (auto simp: sse_inv_def Issue_def Redeem_def cleanup_tick_def Stop_def Let_def distinct_update
       AList.delete_eq distinct_map_filter split: option.split)

interpretation sse: machine sse_step sse_inv
  by unfold_locales (rule sse_step_inv)

lemma step_absent:
  assumes "map_of (sts_tokens s) token = None" "\<not> issues token x" "sse_inv s"
  shows "map_of (sts_tokens (sse_step (now, x) s)) token = None"
  using assms
  by (cases x)
     (auto simp: issues_def Issue_def Redeem_def cleanup_tick_def Stop_def Let_def update_conv' delete_conv'
       sse_inv_def map_simps split: option.split)

lemma absent_not_redeemed:
  assumes "map_of (sts_tokens s) token = None" "sse_inv s" "\<forall>(t, x) \<in> set xs. \<not> issues token x"
  shows "redeemed token xs s = []"
  using assms
proof (induction xs arbitrary: s)
  case (Cons tx xs)
  obtain t x where tx: "tx = (t, x)" by (cases tx)
  have "map_of (sts_tokens (sse_step (t, x) s)) token = None"
    using Cons.prems by (intro step_absent) (auto simp: tx)
  moreover have "fst (Redeem t token s) = None" using Cons.prems(1) by (simp add: Redeem_def)
  ultimately show ?case using Cons by (auto simp: tx sse_step_inv)
qed simp

lemma step_present:
  assumes "map_of (sts_tokens s) token = Some e" "\<not> issues token x" "sse_inv s" "x \<noteq> RedeemOp token"
  shows "map_of (sts_tokens (sse_step (now, x) s)) token = Some e \<or>
     now > ste_expiresAt e \<and> map_of (sts_tokens (sse_step (now, x) s)) token = None"
  using assms
  by (cases x)
     (auto simp: issues_def Issue_def Redeem_def cleanup_tick_def Stop_def Let_def update_conv' delete_conv'
       sse_inv_def map_simps split: option.split)

text \<open>
  From a stored token on, a run that does not issue the same token again redeems it at most
  once, for the principal stored, and only by its expiry.
\<close>

lemma present_redeemed_once:
  assumes "map_of (sts_tokens s) token = Some e" "sse_inv s" "\<forall>(t, x) \<in> set xs. \<not> issues token x"
  shows "redeemed token xs s = [] \<or> redeemed token xs s = [ste_principal e] \<and>
     (\<exists>t \<in> fst ` set xs. t \<le> ste_expiresAt e)"
  using assms
proof (induction xs arbitrary: s)
  case (Cons tx xs)
  obtain t x where tx: "tx = (t, x)" by (cases tx)
  let ?s = "sse_step (t, x) s"
  have inv: "sse_inv ?s" using Cons.prems(2) by (rule sse_step_inv)
  have rest: "\<forall>(t, x) \<in> set xs. \<not> issues token x" and x: "\<not> issues token x" using Cons.prems(3) by (auto simp: tx)
  show ?case
  proof (cases "x = RedeemOp token")
    case True
    then have "map_of (sts_tokens ?s) token = None"
      using Cons.prems(1) by (simp add: Redeem_def Let_def delete_conv')
    from absent_not_redeemed [OF this inv rest] True Cons.prems(1) show ?thesis
      by (auto simp: tx Redeem_def Let_def)
  next
    case False
    from step_present [OF Cons.prems(1) x Cons.prems(2) False, of t]
    show ?thesis
    proof
      assume "map_of (sts_tokens ?s) token = Some e"
      from Cons.IH [OF this inv rest] False show ?thesis by (auto simp: tx)
    next
      assume "t > ste_expiresAt e \<and> map_of (sts_tokens ?s) token = None"
      with absent_not_redeemed [OF _ inv rest] False show ?thesis by (auto simp: tx)
    qed
  qed
qed simp

lemma present_kept:
  assumes "map_of (sts_tokens s) token = Some e" "sse_inv s"
    and "\<forall>(t, x) \<in> set xs. \<not> issues token x \<and> x \<noteq> RedeemOp token \<and> t \<le> ste_expiresAt e"
  shows "map_of (sts_tokens (fold sse_step xs s)) token = Some e"
  using assms
proof (induction xs arbitrary: s)
  case (Cons tx xs)
  obtain t x where tx: "tx = (t, x)" by (cases tx)
  have x: "\<not> issues token x" "x \<noteq> RedeemOp token" "\<not> t > ste_expiresAt e" using Cons.prems(3) by (auto simp: tx)
  have "map_of (sts_tokens (sse_step (t, x) s)) token = Some e"
    using step_present [OF Cons.prems(1) x(1) Cons.prems(2) x(2), of t] x(3) by blast
  with Cons show ?case by (simp add: tx sse_step_inv)
qed simp

lemma Issue_stores:
  assumes "Issue (Some bytes) now p s = (Some token, s1)" "sse_inv s"
  shows "sse_inv s1" "map_of (sts_tokens s1) token =
      Some \<lparr>ste_principal = \<lparr>stp_email = p_Email p, stp_passwordGen = p_PasswordGen p\<rparr>, ste_expiresAt = now + sseTokenTTL\<rparr>"
  using assms by (auto simp: Issue_def Let_def update_conv' sse_inv_def distinct_update)

section \<open>Properties\<close>


definition ex_sse_principal :: Principal where
  "ex_sse_principal = \<lparr>p_ID = ''u'', p_Email = ''u'', p_Role = RoleMember, p_PasswordGen = 3\<rparr>"


text \<open>
  A token redeemed in time is honoured: whatever other operations happened since it was
  issued (issues and redemptions of other tokens, cleanups, a stop), its first redemption by its
  expiry returns its principal.
\<close>

theorem sse_token_honoured:
  assumes "Issue (Some bytes) now p s = (Some token, s1)" "sse_inv s"
    and "\<forall>(t, x) \<in> set xs. \<not> issues token x \<and> x \<noteq> RedeemOp token \<and> t \<le> now + sseTokenTTL"
    and "t1 \<le> now + sseTokenTTL"
  shows "fst (Redeem t1 token (fold sse_step xs s1)) = Some \<lparr>stp_email = p_Email p, stp_passwordGen = p_PasswordGen p\<rparr>"
  using present_kept [OF Issue_stores(2,1) [OF assms(1,2)], of xs] assms(3,4)
  by (simp add: Redeem_def Let_def)

theorem sse_token_honoured_witness:
  "let t = ''msse_'' @ hex_encode ''ab''; s1 = snd (Issue (Some ''ab'') 0 ex_sse_principal newSSETokenStore)
   in fst (Redeem 9 t (fold sse_step [(4, CleanupOp), (5, RedeemOp ''zz''), (6, StopOp)] s1)) =
        Some \<lparr>stp_email = ''u'', stp_passwordGen = 3\<rparr>"
  using sse_token_honoured [of "''ab''" 0 ex_sse_principal newSSETokenStore "''msse_'' @ hex_encode ''ab''"
      "snd (Issue (Some ''ab'') 0 ex_sse_principal newSSETokenStore)"
      "[(4, CleanupOp), (5, RedeemOp ''zz''), (6, StopOp)]" 9]
  by (simp add: Issue_def newSSETokenStore_def sse_inv_def issues_def sseTokenPrefix_def sseTokenTTL_def
      ex_sse_principal_def Let_def)

end
