(* ===== verification/BuildTracker.thy ===== *)
theory BuildTracker
  imports Types
begin

text \<open>
  The in-memory build trackers of \<open>internal/controller/build_tracker.go\<close>: a rolling log buffer
  per running build and the map of active builds. Every method holds the tracker's mutex; the
  map is a \<open>sync.Map\<close>, so its operations are atomic too. The \<open>cancel\<close> closure is represented by
  whether it is set; \<open>cancelAndDelete\<close> reports whether it called it.

  \<open>poll\<close> is the reading side: the server-sent event loop of \<open>internal/api/events.go\<close>
  (\<open>emitBuildLogDelta\<close>) remembers the total of the last call and asks for the lines from there.
\<close>

section \<open>Definitions\<close>

datatype buildPhase = buildPhaseRunning | buildPhaseSucceeded | buildPhaseFailed

definition maxBuildLogLines :: nat where "maxBuildLogLines = 1000"
definition maxBuildLogLineBytes :: nat where "maxBuildLogLineBytes = 2048"

definition truncatedSuffix :: string where
  \<comment> \<open>the UTF-8 ellipsis, then the word\<close>
  "truncatedSuffix = [CHR 0xE2, CHR 0x80, CHR 0xA6] @ '' [truncated]''"

record buildTracker =
  bt_revision :: string
  bt_phase :: buildPhase
  bt_image :: string
  bt_digest :: string
  bt_detectedPort :: "32 word"
  bt_errMsg :: string
  bt_logs :: "string list"
  bt_cancel :: bool

definition snapshot :: "buildTracker \<Rightarrow> buildPhase \<times> string \<times> string \<times> string \<times> string \<times> 32 word" where
  "snapshot t = (bt_phase t, bt_revision t, bt_image t, bt_digest t, bt_errMsg t, bt_detectedPort t)"

definition truncate_line :: "string \<Rightarrow> string" where
  "truncate_line line =
     (if length line > maxBuildLogLineBytes then take maxBuildLogLineBytes line @ truncatedSuffix else line)"

definition appendLog :: "string \<Rightarrow> buildTracker \<Rightarrow> buildTracker" where
  "appendLog line t =
     (let logs = (if length (bt_logs t) \<ge> maxBuildLogLines then tl (bt_logs t) else bt_logs t)
      in t\<lparr>bt_logs := logs @ [truncate_line line]\<rparr>)"

definition snapshotLogs :: "buildTracker \<Rightarrow> string list" where
  "snapshotLogs t = bt_logs t"

definition snapshotLogsSince :: "int \<Rightarrow> buildTracker \<Rightarrow> string list \<times> int" where
  "snapshotLogsSince offset t =
     (let n = int (length (bt_logs t))
      in if offset \<ge> n then ([], n)
         else let offset = (if offset < 0 then 0 else offset) in (drop (nat offset) (bt_logs t), n))"

definition setSucceeded :: "string \<Rightarrow> string \<Rightarrow> 32 word \<Rightarrow> buildTracker \<Rightarrow> buildTracker" where
  "setSucceeded img digest detectedPort t =
     t\<lparr>bt_phase := buildPhaseSucceeded, bt_image := img, bt_digest := digest, bt_detectedPort := detectedPort\<rparr>"

definition setFailed :: "string \<Rightarrow> buildTracker \<Rightarrow> buildTracker" where
  "setFailed msg t = t\<lparr>bt_phase := buildPhaseFailed, bt_errMsg := msg\<rparr>"

type_synonym BuildTrackerStore = "(nn \<times> buildTracker) list"

definition store_get :: "nn \<Rightarrow> BuildTrackerStore \<Rightarrow> buildTracker option" where
  "store_get key s = map_of s key"

definition store_set :: "nn \<Rightarrow> buildTracker \<Rightarrow> BuildTrackerStore \<Rightarrow> BuildTrackerStore" where
  "store_set key t s = AList.update key t s"

definition store_delete :: "nn \<Rightarrow> BuildTrackerStore \<Rightarrow> BuildTrackerStore" where
  "store_delete key s = AList.delete key s"

definition cancelAndDelete :: "nn \<Rightarrow> BuildTrackerStore \<Rightarrow> bool \<times> BuildTrackerStore" where
  "cancelAndDelete key s =
     (case map_of s key of
        None \<Rightarrow> (False, s)
      | Some t \<Rightarrow> (bt_cancel t, AList.delete key s))"

definition GetBuildLogs :: "nn \<Rightarrow> BuildTrackerStore \<Rightarrow> string list option" where
  "GetBuildLogs key s = map_option snapshotLogs (store_get key s)"

definition GetBuildLogsSince :: "nn \<Rightarrow> int \<Rightarrow> BuildTrackerStore \<Rightarrow> string list option \<times> int" where
  "GetBuildLogsSince key offset s =
     (case store_get key s of
        None \<Rightarrow> (None, 0)
      | Some t \<Rightarrow> (case snapshotLogsSince offset t of (lines, n) \<Rightarrow> (Some lines, n)))"

section \<open>The buffer\<close>

datatype tracker_op = AppendLog string | Succeed string string "32 word" | Fail string

fun tracker_step :: "tracker_op \<Rightarrow> buildTracker \<Rightarrow> buildTracker" where
  "tracker_step (AppendLog line) t = appendLog line t"
| "tracker_step (Succeed i d p) t = setSucceeded i d p t"
| "tracker_step (Fail msg) t = setFailed msg t"

definition tracker_inv :: "buildTracker \<Rightarrow> bool" where
  "tracker_inv t \<longleftrightarrow> length (bt_logs t) \<le> maxBuildLogLines \<and>
     list_all (\<lambda>l. length l \<le> maxBuildLogLineBytes + length truncatedSuffix) (bt_logs t)"

lemma length_truncate_line: "length (truncate_line l) \<le> maxBuildLogLineBytes + length truncatedSuffix"
  by (simp add: truncate_line_def)

lemma list_all_tl: "list_all P xs \<Longrightarrow> list_all P (tl xs)"
  by (cases xs) auto

lemma appendLog_inv: "tracker_inv t \<Longrightarrow> tracker_inv (appendLog line t)"
  using length_truncate_line [of line]
  by (auto simp: tracker_inv_def appendLog_def Let_def list_all_tl maxBuildLogLines_def)

lemma tracker_step_inv: "tracker_inv t \<Longrightarrow> tracker_inv (tracker_step x t)"
  by (cases x) (simp_all add: appendLog_inv, simp_all add: tracker_inv_def setSucceeded_def setFailed_def)

interpretation tracker: machine tracker_step tracker_inv
  by unfold_locales (rule tracker_step_inv)

definition last_n :: "nat \<Rightarrow> 'a list \<Rightarrow> 'a list" where
  "last_n n xs = drop (length xs - n) xs"

lemma appendLog_last:
  "length (bt_logs t) \<le> maxBuildLogLines \<Longrightarrow>
   bt_logs (appendLog line t) = last_n maxBuildLogLines (bt_logs t @ [truncate_line line])"
  by (auto simp: appendLog_def last_n_def Let_def maxBuildLogLines_def drop_Suc)

lemma last_n_append: "last_n n (last_n n xs @ ys) = last_n n (xs @ ys)"
  by (cases "length xs \<le> n") (auto simp: last_n_def add.commute)

lemma length_last_n: "length (last_n n xs) \<le> n"
  by (simp add: last_n_def)

lemma appendLogs_last:
  "length (bt_logs t) \<le> maxBuildLogLines \<Longrightarrow>
   bt_logs (fold appendLog lines t) = last_n maxBuildLogLines (bt_logs t @ map truncate_line lines)"
proof (induction lines arbitrary: t)
  case Nil
  then show ?case by (simp add: last_n_def)
next
  case (Cons l ls)
  have b: "bt_logs (appendLog l t) = last_n maxBuildLogLines (bt_logs t @ [truncate_line l])"
    using Cons.prems by (rule appendLog_last)
  with Cons.IH [of "appendLog l t"] show ?case
    by (simp add: length_last_n last_n_append)
qed

lemma last_n_id: "length xs \<le> n \<Longrightarrow> last_n n xs = xs"
  by (simp add: last_n_def)

section \<open>Properties\<close>

text \<open>
  A build's log buffer is exactly the most recent 1,000 lines, each cut to 2,048 bytes plus
  the marker, and never larger, whatever the build prints and whenever it finishes.
\<close>

theorem build_log_is_recent_window:
  assumes "tracker_inv t"
  shows "bt_logs (fold appendLog lines t) =
      (let all = bt_logs t @ map truncate_line lines in drop (length all - 1000) all) \<and>
    length (bt_logs (fold tracker_step ops t)) \<le> 1000 \<and>
    list_all (\<lambda>l. length l \<le> 2048 + length truncatedSuffix) (bt_logs (fold tracker_step ops t))"
  using assms appendLogs_last [of t lines] tracker.run_inv [OF assms, of ops]
  by (simp add: last_n_def maxBuildLogLines_def Let_def tracker_inv_def maxBuildLogLineBytes_def)

definition ex_tracker :: buildTracker where
  "ex_tracker = \<lparr>bt_revision = ''abc'', bt_phase = buildPhaseRunning, bt_image = [], bt_digest = [],
     bt_detectedPort = 0, bt_errMsg = [], bt_logs = [''a'', ''b''], bt_cancel = True\<rparr>"

theorem build_log_is_recent_window_witness:
  "bt_logs (fold appendLog [''c''] ex_tracker) =
     (let all = bt_logs ex_tracker @ map truncate_line [''c''] in drop (length all - 1000) all) \<and>
   length (bt_logs (fold tracker_step [AppendLog ''x'', Fail ''e''] ex_tracker)) \<le> 1000"
  using build_log_is_recent_window [of ex_tracker "[''c'']" "[AppendLog ''x'', Fail ''e'']"]
  by (simp add: tracker_inv_def ex_tracker_def maxBuildLogLines_def maxBuildLogLineBytes_def)

text \<open>
  Polling with the returned total delivers the log completely while it fits the buffer, and
  stalls for good once it does not. If the lines so far and the new ones together are at most
  1,000, asking from the previous total returns exactly the new lines. Once 1,000 lines are held, the
  same question returns nothing, however many lines the build prints afterwards.
\<close>

theorem build_log_polling:
  assumes "length (bt_logs t) \<le> maxBuildLogLines" and "offset = snd (snapshotLogsSince 0 t)"
  shows "(length (bt_logs t) + length lines \<le> 1000 \<longrightarrow>
      snapshotLogsSince offset (fold appendLog lines t) =
        (map truncate_line lines, int (length (bt_logs t) + length lines))) \<and>
    (length (bt_logs t) = 1000 \<longrightarrow> snapshotLogsSince offset (fold appendLog lines t) = ([], 1000))"
proof -
  have off: "offset = int (length (bt_logs t))" using assms(2) by (auto simp: snapshotLogsSince_def Let_def)
  show ?thesis
    using appendLogs_last [OF assms(1), of lines]
    by (auto simp: last_n_def maxBuildLogLines_def snapshotLogsSince_def off Let_def)
qed

theorem build_log_polling_witness:
  "snapshotLogsSince 2 (fold appendLog [''c''] ex_tracker) = (map truncate_line [''c''], 3) \<and>
   snapshotLogsSince 1000 (fold appendLog [''new''] (ex_tracker\<lparr>bt_logs := replicate 1000 ''l''\<rparr>)) = ([], 1000)"
proof -
  have "2 = snd (snapshotLogsSince 0 ex_tracker)" "length (bt_logs ex_tracker) = 2"
    and "1000 = snd (snapshotLogsSince 0 (ex_tracker\<lparr>bt_logs := replicate 1000 ''l''\<rparr>))"
    by (simp_all add: ex_tracker_def snapshotLogsSince_def Let_def)
  with build_log_polling [of ex_tracker 2 "[''c'']"]
    build_log_polling [of "ex_tracker\<lparr>bt_logs := replicate 1000 ''l''\<rparr>" 1000 "[''new'']"]
  show ?thesis by (simp add: maxBuildLogLines_def del: fold.simps)
qed

text \<open>
  The tracker map behaves as one value per build key: a stored tracker is what the next
  lookup finds until that key is stored or deleted again, other keys are not affected, and after
  \<open>cancelAndDelete\<close> no log can be read for the key while the cancel function of exactly the
  removed tracker was called.
\<close>

lemma tracker_store_laws:
  "store_get k (store_set k' t s) = (if k = k' then Some t else store_get k s) \<and>
   store_get k (store_delete k' s) = (if k = k' then None else store_get k s) \<and>
   store_get k (snd (cancelAndDelete k' s)) = (if k = k' then None else store_get k s) \<and>
   (fst (cancelAndDelete k s) \<longleftrightarrow> (\<exists>t. store_get k s = Some t \<and> bt_cancel t)) \<and>
   GetBuildLogs k (snd (cancelAndDelete k s)) = None"
  by (auto simp: store_get_def store_set_def store_delete_def cancelAndDelete_def GetBuildLogs_def
      update_conv' delete_conv' split: option.split)

end
