(* ===== verification/Bindings.thy ===== *)
theory Bindings
  imports Types Constants EnvStore
begin

text \<open>
  Package \<open>internal/bindings\<close>: turning the bindings of an application environment into
  environment variables. The resolver only reads; the two reads of the API client are the
  parameters \<open>getApp\<close> and \<open>getSecret\<close>. Errors are \<open>gerr\<close> values whose text is built as in the
  code; \<open>%q\<close> is the text between quotes, which is exact for the names the API server admits.
\<close>

section \<open>Definitions\<close>

record ResolvedVar =
  rv_Name :: string
  rv_Value :: string

abbreviation var :: "string \<Rightarrow> string \<Rightarrow> ResolvedVar" where
  "var n v \<equiv> \<lparr>rv_Name = n, rv_Value = v\<rparr>"

record resolvedBinding =
  rb_app :: App
  rb_host :: string
  rb_port :: string
  rb_prefix :: string
  rb_extraCreds :: "Credential list"
  rb_credSecret :: "secret option"

type_synonym get_app = "nn \<Rightarrow> kerr + App"
type_synonym get_secret = "nn \<Rightarrow> kerr + secret"

definition prefix_char :: "char \<Rightarrow> bool" where
  \<comment> \<open>the class \<open>[A-Z0-9_]\<close>\<close>
  "prefix_char c \<longleftrightarrow> c = CHR ''_'' \<or> c \<ge> CHR ''0'' \<and> c \<le> CHR ''9'' \<or> c \<ge> CHR ''A'' \<and> c \<le> CHR ''Z''"

definition toEnvPrefix :: "string \<Rightarrow> string" where
  "toEnvPrefix name =
     (let upper = to_upper name;
          sanitized = map (\<lambda>c. if prefix_char c then c else CHR ''_'') upper;
          sanitized = trim_left sanitized ''0123456789_''
      in if sanitized = [] then ''BINDING'' else sanitized)"

definition imageBaseName :: "string \<Rightarrow> string" where
  "imageBaseName img = before_first CHR '':'' (after_last CHR ''/'' (to_lower img))"

definition isRelationalDatabase :: "string \<Rightarrow> bool" where
  "isRelationalDatabase img \<longleftrightarrow> imageBaseName img \<in> {''postgres'', ''mysql'', ''mariadb''}"

definition autoURL :: "string \<Rightarrow> string \<Rightarrow> string \<Rightarrow> string" where
  "autoURL img host port =
     (if host = [] \<or> port = [] then []
      else
        let base = imageBaseName img
        in if base = ''postgres'' then ''postgres://'' @ host @ '':'' @ port @ ''?sslmode=disable''
           else if base = ''redis'' then ''redis://'' @ host @ '':'' @ port
           else if base = ''mysql'' \<or> base = ''mariadb'' then ''mysql://'' @ host @ '':'' @ port
           else if base = ''mongo'' then ''mongodb://'' @ host @ '':'' @ port
           else [])"

fun enabled_in :: "Environment list \<Rightarrow> string \<Rightarrow> bool" where
  "enabled_in [] env = True"
| "enabled_in (e # es) env =
     (if env_Name e \<noteq> env then enabled_in es env
      else env_Enabled e \<noteq> Some False)"

definition boundAppEnabledIn :: "App \<Rightarrow> string \<Rightarrow> bool" where
  "boundAppEnabledIn app env = enabled_in (spec_Environments (app_Spec app)) env"

definition bound_address :: "App \<Rightarrow> string \<Rightarrow> string \<Rightarrow> (string \<times> string) option" where
  \<comment> \<open>host and port of the bound application; \<open>None\<close> when it is disabled in the environment\<close>
  "bound_address app env envNs =
     (case (src_Type (spec_Source (app_Spec app)), src_External (spec_Source (app_Spec app))) of
        (SourceTypeExternal, Some ex) \<Rightarrow>
          Some (ext_Host ex, if 0 <s ext_Port ex then show_int (sint (ext_Port ex)) else [])
      | _ \<Rightarrow>
          if \<not> boundAppEnabledIn app env then None
          else Some (app_Name app @ ''.'' @ envNs @ ''.svc.cluster.local'',
                     (let port = net_Port (spec_Network (app_Spec app))
                      in show_int (sint (if port = 0 then 8080 else port)))))"

definition extra_creds :: "App \<Rightarrow> Credential list" where
  "extra_creds app = filter (\<lambda>c. cred_Name c \<noteq> ''host'' \<and> cred_Name c \<noteq> ''port'') (spec_Credentials (app_Spec app))"

definition lookupBinding ::
  "get_app \<Rightarrow> get_secret \<Rightarrow> string \<Rightarrow> string \<Rightarrow> string \<Rightarrow> gerr + resolvedBinding option" where
  "lookupBinding getApp getSecret project env ref =
     (let controlNs = ControlNamespace project;
          envNs = EnvNamespace project env
      in case getApp (controlNs, ref) of
           Inl err \<Rightarrow> if err = NotFound then Inr None
                     else Inl (Api (''resolve binding '' @ quoted ref @ '' in project '' @ quoted project) err)
         | Inr boundApp \<Rightarrow>
             (case bound_address boundApp env envNs of
                None \<Rightarrow> Inr None
              | Some (host, port) \<Rightarrow>
                  let creds = extra_creds boundApp;
                      rb = \<lparr>rb_app = boundApp, rb_host = host, rb_port = port, rb_prefix = toEnvPrefix ref,
                            rb_extraCreds = creds, rb_credSecret = None\<rparr>;
                      secretName = app_Name boundApp @ ''-credentials''
                  in if creds = [] then Inr (Some rb)
                     else (case getSecret (envNs, secretName) of
                             Inl err \<Rightarrow> Inl (Api (''resolve credentials for binding '' @ quoted ref @ '': secret ''
                                             @ envNs @ ''/'' @ secretName) err)
                           | Inr s \<Rightarrow> Inr (Some (rb\<lparr>rb_credSecret := Some s\<rparr>)))))"

definition cred_value :: "resolvedBinding \<Rightarrow> string \<Rightarrow> string" where
  "cred_value rb name = (case rb_credSecret rb of None \<Rightarrow> [] | Some s \<Rightarrow> lookup_str (Sec_Data s) name)"

abbreviation rb_url :: "resolvedBinding \<Rightarrow> string" where
  "rb_url rb \<equiv> autoURL (src_Image (spec_Source (app_Spec (rb_app rb)))) (rb_host rb) (rb_port rb)"

definition expandBindingWithPrefix :: "resolvedBinding \<Rightarrow> string \<Rightarrow> ResolvedVar list" where
  "expandBindingWithPrefix rb prefix =
     [var (prefix @ ''_HOST'') (rb_host rb), var (prefix @ ''_PORT'') (rb_port rb)]
     @ (if rb_url rb \<noteq> [] then [var (prefix @ ''_URL'') (rb_url rb)] else [])
     @ map (\<lambda>cred. var (prefix @ ''_'' @ to_upper (cred_Name cred)) (cred_value rb (cred_Name cred))) (rb_extraCreds rb)"

definition expandBinding :: "resolvedBinding \<Rightarrow> ResolvedVar list" where
  "expandBinding rb = expandBindingWithPrefix rb (rb_prefix rb)"

fun resolve_loop ::
  "(string \<Rightarrow> gerr + resolvedBinding option) \<Rightarrow> Binding list \<Rightarrow> string gomap \<Rightarrow> ResolvedVar list
     \<Rightarrow> resolvedBinding list \<Rightarrow> gerr + ResolvedVar list \<times> resolvedBinding list" where
  \<comment> \<open>the loop of \<open>Resolve\<close>: \<open>seenPrefix\<close>, \<open>result\<close> and \<open>dbBindings\<close> are its variables\<close>
  "resolve_loop look [] seen res dbs = Inr (res, dbs)"
| "resolve_loop look (b # bs) seen res dbs =
     (case look (bind_Ref b) of
        Inl err \<Rightarrow> Inl err
      | Inr None \<Rightarrow> resolve_loop look bs seen res dbs
      | Inr (Some rb) \<Rightarrow>
          (case map_of seen (rb_prefix rb) of
             Some other \<Rightarrow> Inl (Msg (''bindings '' @ quoted other @ '' and '' @ quoted (bind_Ref b)
               @ '' both map to env-var prefix '' @ quoted (rb_prefix rb)
               @ ''; rename one so their injected variables don't collide''))
           | None \<Rightarrow>
               resolve_loop look bs (AList.update (rb_prefix rb) (bind_Ref b) seen) (res @ expandBinding rb)
                 (if isRelationalDatabase (src_Image (spec_Source (app_Spec (rb_app rb)))) then dbs @ [rb] else dbs)))"

definition database_alias :: "resolvedBinding list \<Rightarrow> ResolvedVar list" where
  "database_alias dbs =
     (case dbs of
        [rb] \<Rightarrow> if rb_prefix rb \<noteq> ''DATABASE'' then expandBindingWithPrefix rb ''DATABASE'' else []
      | _ \<Rightarrow> [])"

definition Resolve ::
  "get_app \<Rightarrow> get_secret \<Rightarrow> string \<Rightarrow> string \<Rightarrow> Binding list \<Rightarrow> gerr + ResolvedVar list" where
  "Resolve getApp getSecret project env bindings =
     (case resolve_loop (lookupBinding getApp getSecret project env) bindings [] [] [] of
        Inl err \<Rightarrow> Inl err
      | Inr (res, dbs) \<Rightarrow> Inr (res @ database_alias dbs))"

definition availableKeys :: "resolvedBinding \<Rightarrow> string list" where
  "availableKeys rb = [''host'', ''port''] @ (if rb_url rb \<noteq> [] then [''url''] else [])
     @ map cred_Name (rb_extraCreds rb)"

definition missing_app :: "string \<Rightarrow> string \<Rightarrow> gerr" where
  "missing_app ref env = Msg (''bound app '' @ quoted ref @ '' not found or disabled in env '' @ quoted env)"

definition select_key :: "resolvedBinding \<Rightarrow> string \<Rightarrow> string \<Rightarrow> gerr + string" where
  \<comment> \<open>the \<open>switch key\<close> of \<open>ResolveSingle\<close>\<close>
  "select_key rb ref key =
     (if key = ''host'' then Inr (rb_host rb)
      else if key = ''port'' then Inr (rb_port rb)
      else if key = ''url'' then
        (if rb_url rb = [] then
           Inl (Msg (''binding '' @ quoted ref @ '' does not expose key '' @ quoted key
             @ '' (auto-URL not available for image '' @ quoted (src_Image (spec_Source (app_Spec (rb_app rb))))
             @ ''); available keys: '' @ join (availableKeys rb) '', ''))
         else Inr (rb_url rb))
      else if key \<in> set (map cred_Name (rb_extraCreds rb)) then Inr (cred_value rb key)
      else Inl (Msg (''binding '' @ quoted ref @ '' does not expose key '' @ quoted key
             @ ''; available keys: '' @ join (availableKeys rb) '', '')))"

definition ResolveSingle ::
  "get_app \<Rightarrow> get_secret \<Rightarrow> string \<Rightarrow> string \<Rightarrow> string \<Rightarrow> string \<Rightarrow> gerr + string" where
  "ResolveSingle getApp getSecret project env ref key =
     (case lookupBinding getApp getSecret project env ref of
        Inl err \<Rightarrow> Inl err
      | Inr None \<Rightarrow> Inl (missing_app ref env)
      | Inr (Some rb) \<Rightarrow> select_key rb ref key)"

definition AvailableKeys ::
  "get_app \<Rightarrow> get_secret \<Rightarrow> string \<Rightarrow> string \<Rightarrow> string \<Rightarrow> gerr + string list" where
  "AvailableKeys getApp getSecret project env ref =
     (case lookupBinding getApp getSecret project env ref of
        Inl err \<Rightarrow> Inl err
      | Inr None \<Rightarrow> Inl (missing_app ref env)
      | Inr (Some rb) \<Rightarrow> Inr (availableKeys rb))"

section \<open>What the loop computes\<close>

definition found :: "(string \<Rightarrow> gerr + resolvedBinding option) \<Rightarrow> Binding list \<Rightarrow> resolvedBinding list" where
  \<comment> \<open>the bindings whose application exists and is enabled, in order\<close>
  "found look bs = List.map_filter (\<lambda>b. case look (bind_Ref b) of Inr r \<Rightarrow> r | Inl _ \<Rightarrow> None) bs"

abbreviation is_db :: "resolvedBinding \<Rightarrow> bool" where
  "is_db rb \<equiv> isRelationalDatabase (src_Image (spec_Source (app_Spec (rb_app rb))))"

lemma found_simps [simp]:
  "found look [] = []"
  "found look (b # bs) = (case look (bind_Ref b) of Inr (Some rb) \<Rightarrow> rb # found look bs | _ \<Rightarrow> found look bs)"
  by (simp_all add: found_def List.map_filter_def split: sum.split option.split)

lemma found_append: "found look (bs @ cs) = found look bs @ found look cs"
  by (simp add: found_def List.map_filter_def)

lemma set_found: "rb \<in> set (found look bs) \<longleftrightarrow> (\<exists>b \<in> set bs. look (bind_Ref b) = Inr (Some rb))"
  by (induction bs) (auto split: sum.split option.split)

lemma resolve_loop_ok:
  assumes "\<forall>b \<in> set bs. \<exists>r. look (bind_Ref b) = Inr r" "distinct (map rb_prefix (found look bs))"
    and "\<forall>rb \<in> set (found look bs). map_of seen (rb_prefix rb) = None"
  shows "resolve_loop look bs seen res dbs =
     Inr (res @ concat (map expandBinding (found look bs)), dbs @ filter is_db (found look bs))"
  using assms
proof (induction look bs seen res dbs rule: resolve_loop.induct)
  case (2 look b bs seen res dbs)
  from 2(3) obtain r where look: "look (bind_Ref b) = Inr r" by auto
  show ?case
  proof (cases r)
    case None
    with 2 look show ?thesis by simp
  next
    case (Some rb)
    have seen: "map_of seen (rb_prefix rb) = None" using 2(5) look Some by simp
    have "\<forall>r \<in> set (found look bs). map_of (AList.update (rb_prefix rb) (bind_Ref b) seen) (rb_prefix r) = None"
      using 2(4,5) look Some by (auto simp: update_conv' image_iff)
    with 2(2) [OF look Some seen] 2(3,4) look Some seen show ?thesis by simp
  qed
qed simp

lemma resolve_loop_Inr:
  assumes "resolve_loop look bs seen res dbs = Inr out"
  shows "(\<forall>b \<in> set bs. \<exists>r. look (bind_Ref b) = Inr r) \<and> distinct (map rb_prefix (found look bs)) \<and>
     (\<forall>rb \<in> set (found look bs). map_of seen (rb_prefix rb) = None)"
  using assms
proof (induction look bs seen res dbs rule: resolve_loop.induct)
  case (2 look b bs seen res dbs)
  from 2(3) obtain r where look: "look (bind_Ref b) = Inr r" by (auto split: sum.splits)
  show ?case
  proof (cases r)
    case None
    with 2(1) [OF look None] 2(3) look show ?thesis by simp
  next
    case (Some rb)
    with 2(3) look have seen: "map_of seen (rb_prefix rb) = None" by (auto split: option.splits)
    with 2(3) look Some have "(\<forall>b \<in> set bs. \<exists>r. look (bind_Ref b) = Inr r) \<and> distinct (map rb_prefix (found look bs)) \<and>
        (\<forall>r \<in> set (found look bs). map_of (AList.update (rb_prefix rb) (bind_Ref b) seen) (rb_prefix r) = None)"
      by (intro 2(2) [OF look Some seen]) simp
    with look Some seen show ?thesis by (auto simp: update_conv' split: if_splits)
  qed
qed simp

abbreviation all_found :: "(string \<Rightarrow> gerr + resolvedBinding option) \<Rightarrow> Binding list \<Rightarrow> bool" where
  "all_found look bs \<equiv> (\<forall>b \<in> set bs. \<exists>r. look (bind_Ref b) = Inr r) \<and> distinct (map rb_prefix (found look bs))"

lemma Resolve_iff:
  "Resolve getApp getSecret project env bs = Inr res \<longleftrightarrow>
     all_found (lookupBinding getApp getSecret project env) bs \<and>
     res = concat (map expandBinding (found (lookupBinding getApp getSecret project env) bs))
       @ database_alias (filter is_db (found (lookupBinding getApp getSecret project env) bs))"
proof -
  let ?look = "lookupBinding getApp getSecret project env"
  show ?thesis
  proof (cases "all_found ?look bs")
    case True
    then show ?thesis using resolve_loop_ok [of bs ?look "[]" "[]" "[]"] by (auto simp: Resolve_def)
  next
    case False
    then have "resolve_loop ?look bs [] [] [] \<noteq> Inr out" for out
      using resolve_loop_Inr by blast
    with False show ?thesis by (auto simp: Resolve_def split: sum.split)
  qed
qed

section \<open>Names\<close>

lemma prefix_char_name: "prefix_char c \<Longrightarrow> name_char c"
  by (auto simp: prefix_char_def name_char_def name_start_def)

lemma upper_name_char: "name_char c \<Longrightarrow> name_char (upper_char c)"
proof (cases "97 \<le> (of_char c :: nat) \<and> (of_char c :: nat) \<le> 122")
  case True
  then have "((of_char c :: nat) - 32) mod 256 = of_char c - 32" by (intro mod_less) linarith
  moreover from True have "65 \<le> (of_char c :: nat) - 32 \<and> (of_char c :: nat) - 32 \<le> 90" by linarith
  ultimately show ?thesis using True
    by (simp add: name_char_def name_start_def upper_char_def Let_def less_eq_char_def of_char_of take_bit_eq_mod)
qed (auto simp: upper_char_def)

lemma sanitized_chars: "list_all prefix_char (map (\<lambda>c. if prefix_char c then c else CHR ''_'') s)"
proof -
  have "prefix_char CHR ''_''" by (simp add: prefix_char_def)
  then show ?thesis by (auto simp: list_all_iff)
qed

lemma toEnvPrefix_cases:
  obtains "toEnvPrefix name = ''BINDING''"
  | s where "toEnvPrefix name = trim_left s ''0123456789_''" "toEnvPrefix name \<noteq> []" "list_all prefix_char s"
proof -
  define s where "s = map (\<lambda>c. if prefix_char c then c else CHR ''_'') (to_upper name)"
  have "list_all prefix_char s" unfolding s_def by (rule sanitized_chars)
  moreover have "toEnvPrefix name = (let p = trim_left s ''0123456789_'' in if p = [] then ''BINDING'' else p)"
    unfolding toEnvPrefix_def s_def Let_def by (rule refl)
  ultimately show thesis using that by (auto simp: Let_def split: if_splits)
qed

lemma toEnvPrefix_chars: "list_all prefix_char (toEnvPrefix name)"
proof (cases rule: toEnvPrefix_cases [of name])
  case 1
  then show ?thesis by (simp add: prefix_char_def)
next
  case (2 s)
  then show ?thesis unfolding 2(1) trim_left_def by (metis list_all_iff set_dropWhileD)
qed

lemma digit_in_cutset: "CHR ''0'' \<le> c \<Longrightarrow> c \<le> CHR ''9'' \<Longrightarrow> c \<in> set ''0123456789_''"
proof -
  assume "CHR ''0'' \<le> c" "c \<le> CHR ''9''"
  then have "(of_char c :: nat) \<in> {48..57}" by (simp add: less_eq_char_def)
  then have "(of_char c :: nat) \<in> {48,49,50,51,52,53,54,55,56,57}"
    unfolding atLeastAtMost_iff insert_iff empty_iff by presburger
  then have "(of_char c :: nat) \<in> of_char ` set ''0123456789_''" by simp blast
  then show ?thesis by (metis imageE of_char_eq_iff)
qed

lemma toEnvPrefix_start: "toEnvPrefix name \<noteq> [] \<and> name_start (hd (toEnvPrefix name))"
proof (cases rule: toEnvPrefix_cases [of name])
  case 1
  then show ?thesis by (simp add: name_start_def)
next
  case (2 s)
  have "hd (toEnvPrefix name) \<notin> set ''0123456789_''"
    using 2(2) unfolding 2(1) trim_left_def by (rule hd_dropWhile)
  moreover have "prefix_char (hd (toEnvPrefix name))"
    using toEnvPrefix_chars [of name] 2(2) by (simp add: list_all_iff)
  ultimately have "name_start (hd (toEnvPrefix name))"
    using digit_in_cutset unfolding prefix_char_def name_start_def by blast
  with 2(2) show ?thesis by simp
qed

lemma prefixed_name_valid:
  assumes "p \<noteq> []" "name_start (hd p)" "list_all name_char p" "list_all name_char n"
  shows "validEnvVarName (p @ n)"
  using assms by (cases p) auto

definition plain_suffixes :: "string set" where
  "plain_suffixes = {''_HOST'', ''_PORT'', ''_URL''}"

lemma plain_suffix_unique:
  assumes "p @ s = q @ s'" "s \<in> plain_suffixes" "s' \<in> plain_suffixes"
  shows "p = q \<and> s = s'"
  using assms arg_cong [OF assms(1), of last] by (auto simp: plain_suffixes_def)

lemma plain_names:
  assumes "rb_extraCreds rb = []"
  shows "distinct (map rv_Name (expandBindingWithPrefix rb p))"
    and "n \<in> set (map rv_Name (expandBindingWithPrefix rb p)) \<Longrightarrow> \<exists>s \<in> plain_suffixes. n = p @ s"
  using assms by (auto simp: expandBindingWithPrefix_def plain_suffixes_def)

lemma plain_names_disjoint:
  assumes "rb_extraCreds rb = []" "rb_extraCreds rb' = []" "p \<noteq> q"
  shows "set (map rv_Name (expandBindingWithPrefix rb p)) \<inter> set (map rv_Name (expandBindingWithPrefix rb' q)) = {}"
  using plain_names(2) [OF assms(1)] plain_names(2) [OF assms(2)] plain_suffix_unique assms(3) by blast

lemma names_of_distinct_prefixes:
  assumes "distinct (map rb_prefix rbs)" "\<forall>rb \<in> set rbs. rb_extraCreds rb = []"
  shows "distinct (map rv_Name (concat (map expandBinding rbs)))"
    and "q \<notin> rb_prefix ` set rbs \<Longrightarrow> rb_extraCreds rb' = [] \<Longrightarrow>
      set (map rv_Name (concat (map expandBinding rbs))) \<inter> set (map rv_Name (expandBindingWithPrefix rb' q)) = {}"
proof -
  have disj: "set (map rv_Name (concat (map expandBinding rs))) \<inter> set (map rv_Name (expandBindingWithPrefix rb' q)) = {}"
    if "q \<notin> rb_prefix ` set rs" "rb_extraCreds rb' = []" "\<forall>rb \<in> set rs. rb_extraCreds rb = []" for rs rb' q
    using that
  proof (induction rs)
    case (Cons r rs)
    then have "set (map rv_Name (expandBinding r)) \<inter> set (map rv_Name (expandBindingWithPrefix rb' q)) = {}"
      unfolding expandBinding_def by (intro plain_names_disjoint) auto
    with Cons show ?case by auto
  qed simp
  then show "q \<notin> rb_prefix ` set rbs \<Longrightarrow> rb_extraCreds rb' = [] \<Longrightarrow>
      set (map rv_Name (concat (map expandBinding rbs))) \<inter> set (map rv_Name (expandBindingWithPrefix rb' q)) = {}"
    using assms(2) by blast
  show "distinct (map rv_Name (concat (map expandBinding rbs)))"
    using assms
  proof (induction rbs)
    case (Cons r rs)
    then have "distinct (map rv_Name (expandBinding r))" by (simp add: expandBinding_def plain_names(1))
    moreover have "set (map rv_Name (concat (map expandBinding rs))) \<inter> set (map rv_Name (expandBinding r)) = {}"
      unfolding expandBinding_def using Cons.prems by (intro disj [unfolded expandBinding_def]) auto
    ultimately show ?case using Cons by auto
  qed simp
qed

lemma expand_names_valid:
  assumes "validEnvVarName p" "\<forall>c \<in> set (rb_extraCreds rb). validEnvVarName (cred_Name c)"
  shows "\<forall>v \<in> set (expandBindingWithPrefix rb p). validEnvVarName (rv_Name v)"
proof -
  have p: "p \<noteq> []" "name_start (hd p)" "list_all name_char p"
    using assms(1) by (cases p; auto simp: name_char_def)+
  have "list_all name_char ''_HOST''" "list_all name_char ''_PORT''" "list_all name_char ''_URL''"
    by (simp_all add: name_char_def name_start_def)
  moreover have "list_all name_char (''_'' @ to_upper (cred_Name c))" if "c \<in> set (rb_extraCreds rb)" for c
    using assms(2) that upper_name_char validEnvVarName_chars
    by (auto simp: list_all_iff name_char_def [of "CHR ''_''"] name_start_def [of "CHR ''_''"])
  ultimately show ?thesis
    using prefixed_name_valid [OF p] by (auto simp: expandBindingWithPrefix_def)
qed

lemma lookupBinding_prefix:
  "lookupBinding getApp getSecret project env ref = Inr (Some rb) \<Longrightarrow> rb_prefix rb = toEnvPrefix ref"
  by (auto simp: lookupBinding_def Let_def split: sum.splits option.splits if_splits)

lemma prefix_valid: "validEnvVarName (toEnvPrefix ref)"
  using prefixed_name_valid [of "toEnvPrefix ref" "[]"] toEnvPrefix_start [of ref] toEnvPrefix_chars [of ref]
  by (auto simp: list_all_iff dest: prefix_char_name)

lemma database_alias_cases:
  "database_alias dbs = [] \<or> (\<exists>rb. dbs = [rb] \<and> rb_prefix rb \<noteq> ''DATABASE'' \<and> database_alias dbs = expandBindingWithPrefix rb ''DATABASE'')"
  by (auto simp: database_alias_def split: list.split)

section \<open>Properties\<close>

text \<open>
  C9: What \<open>Resolve\<close> computes. It succeeds exactly when no lookup fails and the applications it
  found have pairwise different prefixes; then it returns, in binding order, the variables of
  every application found, followed by the \<open>DATABASE_\<close> copy of the single relational database if
  there is exactly one and its own prefix is another. Missing and disabled applications contribute
  nothing.
\<close>

theorem Resolve_spec:
  "Resolve getApp getSecret project env bs = Inr res \<longleftrightarrow>
     (let look = lookupBinding getApp getSecret project env; rbs = found look bs; dbs = filter is_db rbs
      in list_all (\<lambda>b. \<exists>r. look (bind_Ref b) = Inr r) bs \<and> distinct (map rb_prefix rbs) \<and>
         res = concat (map (\<lambda>rb. expandBindingWithPrefix rb (rb_prefix rb)) rbs) @
           (if length dbs = 1 \<and> rb_prefix (hd dbs) \<noteq> ''DATABASE''
            then expandBindingWithPrefix (hd dbs) ''DATABASE'' else []))"
  unfolding Resolve_iff Let_def
  by (auto simp: expandBinding_def [abs_def] list_all_iff database_alias_def split: list.split)

text \<open>
  Bindings do not overwrite each other. When \<open>Resolve\<close> succeeds for applications without
  declared credentials, all variable names are different, provided no other kind of application
  has the prefix \<open>DATABASE\<close>. The proviso is needed: \<open>Resolve\<close> never compares the conventional
  \<open>DATABASE_\<close> names with the names of the other bindings.
\<close>

theorem Resolve_names_distinct:
  assumes "Resolve getApp getSecret project env bs = Inr res"
    and "\<forall>b \<in> set bs. \<forall>rb. lookupBinding getApp getSecret project env (bind_Ref b) = Inr (Some rb) \<longrightarrow>
       rb_extraCreds rb = [] \<and> (rb_prefix rb = ''DATABASE'' \<longrightarrow> is_db rb)"
  shows "distinct (map rv_Name res)"
proof -
  define rbs where "rbs = found (lookupBinding getApp getSecret project env) bs"
  have rbs: "\<forall>rb \<in> set rbs. rb_extraCreds rb = [] \<and> (rb_prefix rb = ''DATABASE'' \<longrightarrow> is_db rb)"
    using assms(2) by (auto simp: rbs_def set_found)
  from assms(1) have d: "distinct (map rb_prefix rbs)"
    and res: "res = concat (map expandBinding rbs) @ database_alias (filter is_db rbs)"
    unfolding Resolve_iff by (auto simp: rbs_def)
  note plain = names_of_distinct_prefixes [OF d]
  consider "database_alias (filter is_db rbs) = []"
    | rb where "filter is_db rbs = [rb]" "rb_prefix rb \<noteq> ''DATABASE''"
        "database_alias (filter is_db rbs) = expandBindingWithPrefix rb ''DATABASE''"
    using database_alias_cases by blast
  then show ?thesis
  proof cases
    case 1
    with plain(1) rbs res show ?thesis by simp
  next
    case 2
    have dbs: "{r \<in> set rbs. is_db r} = {rb}" using arg_cong [OF 2(1), of set] by simp
    then have "''DATABASE'' \<notin> rb_prefix ` set rbs" using rbs 2(2) by force
    moreover have "rb \<in> set rbs" using dbs by blast
    ultimately show ?thesis
      using plain(1) plain(2) [of "''DATABASE''" rb] plain_names(1) [of rb "''DATABASE''"] rbs res 2(3) by auto
  qed
qed

definition ex_app :: "string \<Rightarrow> string \<Rightarrow> Credential list \<Rightarrow> App" where
  "ex_app name img creds = \<lparr>app_Namespace = ''pj-web'', app_Name = name, app_Labels = [], app_Annotations = [],
     app_Generation = 1, app_DeletionTimestamp = None, app_Finalizers = [],
     app_Spec = \<lparr>spec_Kind = AppKindService,
       spec_Source = \<lparr>src_Type = SourceTypeImage, src_Repo = [], src_Branch = [], src_Path = [], src_WatchPaths = [],
         src_Build = None, src_ProviderRef = [], src_Image = img, src_PullSecretRef = [], src_External = None\<rparr>,
       spec_Network = \<lparr>net_Public = True, net_Port = 5432\<rparr>, spec_Storage = [], spec_SecurityProfile = [],
       spec_ConfigFiles = [], spec_Credentials = creds, spec_SharedVars = [], spec_Environments = []\<rparr>,
     app_Status = \<lparr>st_Phase = AppPhaseReady, st_Environments = [], st_CurrentBuildRunName = [], st_LastBuildRunName = [],
       st_LastBuiltSHA = [], st_LastBuiltImage = [], st_DetectedPort = 0, st_DetectedPortImage = [], st_Conditions = []\<rparr>\<rparr>"

definition ex_getApp :: get_app where
  "ex_getApp k = (if snd k = ''pg'' then Inr (ex_app ''pg'' ''postgres:16'' [])
     else if snd k = ''database'' then Inr (ex_app ''database'' ''redis'' [])
     else if snd k = ''api'' then Inr (ex_app ''api'' ''acme/api'' [\<lparr>cred_Name = ''url'', cred_Value = ''u'', cred_ValueFrom = None\<rparr>])
     else Inl NotFound)"

definition ex_getSecret :: get_secret where
  "ex_getSecret k = Inr \<lparr>Sec_Namespace = fst k, Sec_Name = snd k, Sec_Labels = [], Sec_Annotations = [],
     Sec_Data = [(''url'', ''https://api'')], Sec_RV = ''1''\<rparr>"

abbreviation ex_look :: "string \<Rightarrow> gerr + resolvedBinding option" where
  "ex_look \<equiv> lookupBinding ex_getApp ex_getSecret ''web'' ''production''"

definition ex_host :: "string \<Rightarrow> string" where
  "ex_host name = name @ ''.pj-web-production.svc.cluster.local''"

abbreviation ex_rb :: "string \<Rightarrow> string \<Rightarrow> resolvedBinding" where
  "ex_rb name img \<equiv> \<lparr>rb_app = ex_app name img [], rb_host = ex_host name, rb_port = show_int 5432,
      rb_prefix = toEnvPrefix name, rb_extraCreds = [], rb_credSecret = None\<rparr>"

lemma ex_look_plain:
  "ex_look ''pg'' = Inr (Some (ex_rb ''pg'' ''postgres:16''))"
  "ex_look ''database'' = Inr (Some (ex_rb ''database'' ''redis''))"
  "ex_look ''gone'' = Inr None"
  by (simp_all add: lookupBinding_def ex_getApp_def ex_app_def Let_def bound_address_def boundAppEnabledIn_def
      extra_creds_def ex_host_def EnvNamespace_def ControlNamespacePrefix_def)

definition ex_url_cred :: Credential where
  "ex_url_cred = \<lparr>cred_Name = ''url'', cred_Value = ''u'', cred_ValueFrom = None\<rparr>"

lemma ex_look_api:
  "ex_look ''api'' = Inr (Some \<lparr>rb_app = ex_app ''api'' ''acme/api'' [ex_url_cred], rb_host = ex_host ''api'',
      rb_port = show_int 5432, rb_prefix = toEnvPrefix ''api'', rb_extraCreds = [ex_url_cred],
      rb_credSecret = Some \<lparr>Sec_Namespace = ''pj-web-production'', Sec_Name = ''api-credentials'', Sec_Labels = [],
        Sec_Annotations = [], Sec_Data = [(''url'', ''https://api'')], Sec_RV = ''1''\<rparr>\<rparr>)"
  by (simp add: lookupBinding_def ex_getApp_def ex_app_def ex_url_cred_def Let_def bound_address_def boundAppEnabledIn_def
      extra_creds_def ex_host_def ex_getSecret_def EnvNamespace_def ControlNamespacePrefix_def)

lemma ex_prefixes [simp]: "toEnvPrefix ''pg'' = ''PG''" "toEnvPrefix ''database'' = ''DATABASE''" "toEnvPrefix ''api'' = ''API''"
  by code_simp+

lemma ex_images [simp]:
  "imageBaseName ''postgres:16'' = ''postgres''" "imageBaseName ''redis'' = ''redis''" "imageBaseName ''acme/api'' = ''api''"
  by code_simp+

lemma ex_app_image [simp]: "src_Image (spec_Source (app_Spec (ex_app n i cs))) = i"
  by (simp add: ex_app_def)

theorem Resolve_names_distinct_witness:
  "\<exists>res. Resolve ex_getApp ex_getSecret ''web'' ''production'' [\<lparr>bind_Ref = ''pg''\<rparr>, \<lparr>bind_Ref = ''gone''\<rparr>] = Inr res \<and>
     distinct (map rv_Name res)"
proof -
  let ?bs = "[\<lparr>bind_Ref = ''pg''\<rparr>, \<lparr>bind_Ref = ''gone''\<rparr>]"
  obtain res where r: "Resolve ex_getApp ex_getSecret ''web'' ''production'' ?bs = Inr res"
    using ex_look_plain(1,3) by (simp add: Resolve_iff)
  have "\<forall>b \<in> set ?bs. \<forall>rb. ex_look (bind_Ref b) = Inr (Some rb) \<longrightarrow>
       rb_extraCreds rb = [] \<and> (rb_prefix rb = ''DATABASE'' \<longrightarrow> is_db rb)"
    using ex_look_plain(1,3) by simp
  from Resolve_names_distinct [OF r this] r show ?thesis by blast
qed

text \<open>
  The unguarded case really happens: with a Redis application called \<open>database\<close> and a
  Postgres application called \<open>pg\<close>, \<open>Resolve\<close> succeeds and emits \<open>DATABASE_HOST\<close> twice, with the
  host of one and then the host of the other.
\<close>

lemma Resolve_database_alias_clobbers:
  "\<exists>res. Resolve ex_getApp ex_getSecret ''web'' ''production'' [\<lparr>bind_Ref = ''database''\<rparr>, \<lparr>bind_Ref = ''pg''\<rparr>] = Inr res \<and>
     var ''DATABASE_HOST'' (ex_host ''database'') \<in> set res \<and> var ''DATABASE_HOST'' (ex_host ''pg'') \<in> set res"
  using ex_look_plain(1,2)
  by (simp add: Resolve_iff isRelationalDatabase_def database_alias_def expandBinding_def expandBindingWithPrefix_def)

text \<open>
  C10: A key of a binding is projected exactly when it is advertised, with one exception.
  \<open>ResolveSingle\<close> succeeds iff the application is found, the key is one of \<open>AvailableKeys\<close>, and
  it is not a declared credential \<open>url\<close> of an application without automatic URL: that key is listed as
  available and refused. When it succeeds, the value is the one \<open>Resolve\<close> injects under the
  prefixed name.
\<close>

theorem ResolveSingle_available:
  "(ResolveSingle getApp getSecret project env ref key = Inr v \<longleftrightarrow>
     (\<exists>rb. lookupBinding getApp getSecret project env ref = Inr (Some rb) \<and>
        AvailableKeys getApp getSecret project env ref = Inr (availableKeys rb) \<and>
        key \<in> set (availableKeys rb) \<and> \<not> (key = ''url'' \<and> rb_url rb = []) \<and>
        v = (if key = ''host'' then rb_host rb else if key = ''port'' then rb_port rb
             else if key = ''url'' then rb_url rb else cred_value rb key) \<and>
        var (toEnvPrefix ref @ ''_'' @ to_upper key) v \<in> set (expandBinding rb)))"
proof -
  have up: "map upper_char ''host'' = ''HOST''" "map upper_char ''port'' = ''PORT''" "map upper_char ''url'' = ''URL''"
    by code_simp+
  show ?thesis
  proof (cases "lookupBinding getApp getSecret project env ref")
    case (Inr r)
    show ?thesis
    proof (cases r)
      case (Some rb)
      with Inr lookupBinding_prefix have "rb_prefix rb = toEnvPrefix ref" by blast
      with Inr Some up show ?thesis
        by (auto simp: ResolveSingle_def AvailableKeys_def select_key_def availableKeys_def expandBinding_def
            expandBindingWithPrefix_def)
    qed (use Inr in \<open>simp add: ResolveSingle_def\<close>)
  qed (simp add: ResolveSingle_def)
qed

text \<open>
  The exception in the projection of keys is reachable: an application with an unknown image
  that declares a credential \<open>url\<close> advertises the key and \<open>Resolve\<close> injects its value, yet
  \<open>ResolveSingle\<close> fails for it.
\<close>

lemma ResolveSingle_refuses_declared_url:
  "\<exists>ks e res. AvailableKeys ex_getApp ex_getSecret ''web'' ''production'' ''api'' = Inr ks \<and> ''url'' \<in> set ks \<and>
     Resolve ex_getApp ex_getSecret ''web'' ''production'' [\<lparr>bind_Ref = ''api''\<rparr>] = Inr res \<and>
     var ''API_URL'' ''https://api'' \<in> set res \<and>
     ResolveSingle ex_getApp ex_getSecret ''web'' ''production'' ''api'' ''url'' = Inl e"
proof -
  have "map upper_char ''url'' = ''URL''" by code_simp
  with ex_look_api show ?thesis
    by (simp add: AvailableKeys_def availableKeys_def Resolve_iff ResolveSingle_def select_key_def database_alias_def
        expandBinding_def expandBindingWithPrefix_def autoURL_def isRelationalDatabase_def cred_value_def
        lookup_str_def ex_url_cred_def)
qed

text \<open>
  Everything \<open>Resolve\<close> returns can be stored: when the declared credential names follow the
  pattern the API server enforces, every injected name passes the environment store's own
  validation, whatever characters the bound applications' names contain.
\<close>

theorem Resolve_names_valid:
  assumes "Resolve getApp getSecret project env bs = Inr res"
    and "\<forall>b \<in> set bs. \<forall>rb. lookupBinding getApp getSecret project env (bind_Ref b) = Inr (Some rb) \<longrightarrow>
       (\<forall>c \<in> set (rb_extraCreds rb). validEnvVarName (cred_Name c))"
  shows "\<forall>v \<in> set res. ValidateEnvVarName (rv_Name v) = None"
proof -
  define rbs where "rbs = found (lookupBinding getApp getSecret project env) bs"
  have rbs: "\<forall>rb \<in> set rbs. validEnvVarName (rb_prefix rb) \<and> (\<forall>c \<in> set (rb_extraCreds rb). validEnvVarName (cred_Name c))"
  proof
    fix rb assume "rb \<in> set rbs"
    then obtain b where "b \<in> set bs" "lookupBinding getApp getSecret project env (bind_Ref b) = Inr (Some rb)"
      by (auto simp: rbs_def set_found)
    with assms(2) lookupBinding_prefix prefix_valid
    show "validEnvVarName (rb_prefix rb) \<and> (\<forall>c \<in> set (rb_extraCreds rb). validEnvVarName (cred_Name c))" by metis
  qed
  have db: "validEnvVarName ''DATABASE''" by (simp add: name_char_def name_start_def)
  have res: "res = concat (map expandBinding rbs) @ database_alias (filter is_db rbs)"
    using assms(1) unfolding Resolve_iff by (simp add: rbs_def)
  have "\<forall>v \<in> set (database_alias (filter is_db rbs)). validEnvVarName (rv_Name v)"
    using database_alias_cases [of "filter is_db rbs"]
  proof
    assume "\<exists>rb. filter is_db rbs = [rb] \<and> rb_prefix rb \<noteq> ''DATABASE'' \<and>
        database_alias (filter is_db rbs) = expandBindingWithPrefix rb ''DATABASE''"
    then obtain rb where rb: "filter is_db rbs = [rb]" "database_alias (filter is_db rbs) = expandBindingWithPrefix rb ''DATABASE''"
      by blast
    have "{r \<in> set rbs. is_db r} = {rb}" using arg_cong [OF rb(1), of set] by simp
    then have "rb \<in> set rbs" by blast
    with rbs rb(2) expand_names_valid [OF db, of rb] show ?thesis by simp
  qed simp
  moreover have "\<forall>v \<in> set (concat (map expandBinding rbs)). validEnvVarName (rv_Name v)"
    using rbs expand_names_valid by (auto simp: expandBinding_def)
  ultimately show ?thesis using res by (auto simp: ValidateEnvVarName_def)
qed

theorem Resolve_names_valid_witness:
  "\<exists>res. Resolve ex_getApp ex_getSecret ''web'' ''production'' [\<lparr>bind_Ref = ''pg''\<rparr>] = Inr res \<and>
     (\<forall>v \<in> set res. ValidateEnvVarName (rv_Name v) = None)"
proof -
  obtain res where r: "Resolve ex_getApp ex_getSecret ''web'' ''production'' [\<lparr>bind_Ref = ''pg''\<rparr>] = Inr res"
    using ex_look_plain(1) by (simp add: Resolve_iff)
  have "\<forall>b \<in> set [\<lparr>bind_Ref = ''pg''\<rparr>]. \<forall>rb. ex_look (bind_Ref b) = Inr (Some rb) \<longrightarrow>
       (\<forall>c \<in> set (rb_extraCreds rb). validEnvVarName (cred_Name c))"
    using ex_look_plain(1) by simp
  from Resolve_names_valid [OF r this] r show ?thesis by blast
qed

end
