(* ===== verification/EnvResolver.thy ===== *)
theory EnvResolver
  imports Authz Bindings
begin

text \<open>
  \<open>internal/controller/app_env_resolver.go\<close>: which environments an application participates in.
  The project declares the environments, the application overrides or disables single ones. A Go
  set (\<open>map[string]struct{}\<close>) is a set of strings; \<open>nil\<close> and the empty map behave alike in
  every use and are both the empty set.
\<close>

section \<open>Definitions\<close>


definition fetch_by_name :: "get_project \<Rightarrow> string \<Rightarrow> gerr + Project option" where
  \<comment> \<open>the \<open>Get\<close> of a project with its two error branches\<close>
  "fetch_by_name getProject name =
     (case getProject name of
        Inr project \<Rightarrow> Inr (Some project)
      | Inl err \<Rightarrow> if err = NotFound then Inr None else Inl (Api (''get project '' @ quoted name) err))"

definition fetchParentProject ::
  "get_project \<Rightarrow> (string \<Rightarrow> kerr + string gomap) \<Rightarrow> App \<Rightarrow> gerr + Project option" where
  \<comment> \<open>\<open>getNsLabels\<close> reads the labels of a Namespace\<close>
  "fetchParentProject getProject getNsLabels app =
     (let direct = (case ProjectFromControlNs (app_Namespace app) of
                      (name, True) \<Rightarrow> fetch_by_name getProject name
                    | (_, False) \<Rightarrow> Inr None)
      in case direct of
           Inl err \<Rightarrow> Inl err
         | Inr (Some project) \<Rightarrow> Inr (Some project)
         | Inr None \<Rightarrow>
             (case getNsLabels (app_Namespace app) of
                Inl err \<Rightarrow> if err = NotFound then Inr None
                          else Inl (Api (''get namespace '' @ quoted (app_Namespace app)) err)
              | Inr labels \<Rightarrow>
                  let projectName = lookup_str labels ProjectLabel
                  in if projectName = [] then Inr None else fetch_by_name getProject projectName))"

definition overrides_of :: "App \<Rightarrow> Environment gomap" where
  \<comment> \<open>later entries of the same name replace earlier ones\<close>
  "overrides_of app = put_all (map (\<lambda>e. (env_Name e, e)) (spec_Environments (app_Spec app))) []"

definition resolve_one :: "Environment gomap \<Rightarrow> string \<Rightarrow> Environment option" where
  "resolve_one overrides name =
     (case map_of overrides name of
        Some o1 \<Rightarrow> if env_Enabled o1 = Some False then None else Some o1
      | None \<Rightarrow> Some (new_Environment name))"

definition resolveEnvs :: "Project \<Rightarrow> App \<Rightarrow> Environment list" where
  "resolveEnvs project app =
     (let overrides = overrides_of app
      in List.map_filter (\<lambda>projEnv. resolve_one overrides (pe_Name projEnv)) (ps_Environments (prj_Spec project)))"

definition resolvedEnvNames :: "Environment list \<Rightarrow> string set" where
  "resolvedEnvNames envs = set (map env_Name envs)"

definition resolvedPreviewEnvNames :: "Project option \<Rightarrow> Environment list \<Rightarrow> string set" where
  "resolvedPreviewEnvNames project resolvedEnvs =
     (case project of
        None \<Rightarrow> {}
      | Some p \<Rightarrow>
          if ps_Environments (prj_Spec p) = [] \<or> resolvedEnvs = [] then {}
          else
            let projectPreviewByName = set (map pe_Name (filter pe_Preview (ps_Environments (prj_Spec p))))
            in if projectPreviewByName = {} then {}
               else set (map env_Name (filter (\<lambda>env. env_Name env \<in> projectPreviewByName) resolvedEnvs)))"

definition buildFailureAggregationEnvNames :: "Environment list \<Rightarrow> string set \<Rightarrow> string set" where
  "buildFailureAggregationEnvNames resolvedEnvs previewEnvNames =
     (if resolvedEnvs = [] then {}
      else
        let nonPreview = set (map env_Name (filter (\<lambda>env. env_Name env \<notin> previewEnvNames) resolvedEnvs))
        in if nonPreview \<noteq> {} then nonPreview else resolvedEnvNames resolvedEnvs)"

section \<open>Lemmas\<close>

abbreviation overrides :: "App \<Rightarrow> Environment list" where
  "overrides app \<equiv> spec_Environments (app_Spec app)"

abbreviation project_envs :: "Project \<Rightarrow> string list" where
  "project_envs project \<equiv> map pe_Name (ps_Environments (prj_Spec project))"

lemma overrides_of_lookup:
  "map_of (overrides_of app) = map_of (rev (map (\<lambda>e. (env_Name e, e)) (overrides app)))"
  by (simp add: overrides_of_def map_simps)

lemma override_name: "map_of (overrides_of app) n = Some e \<Longrightarrow> env_Name e = n \<and> e \<in> set (overrides app)"
  unfolding overrides_of_lookup by (drule map_of_SomeD) auto

lemma resolve_one_name: "resolve_one (overrides_of app) n = Some e \<Longrightarrow> env_Name e = n"
  by (auto simp: resolve_one_def new_Environment_def split: option.splits if_splits dest: override_name)

lemma resolveEnvs_names:
  "map env_Name (resolveEnvs project app) =
     filter (\<lambda>n. resolve_one (overrides_of app) n \<noteq> None) (project_envs project)"
proof -
  have "map env_Name (List.map_filter (\<lambda>p. resolve_one (overrides_of app) (pe_Name p)) ps) =
      filter (\<lambda>n. resolve_one (overrides_of app) n \<noteq> None) (map pe_Name ps)" for ps
    by (induction ps) (auto simp: List.map_filter_def dest: resolve_one_name)
  then show ?thesis by (simp add: resolveEnvs_def Let_def)
qed

lemma enabled_in_map_of:
  "enabled_in es env = (case map_of (map (\<lambda>e. (env_Name e, e)) es) env of None \<Rightarrow> True | Some e \<Rightarrow> env_Enabled e \<noteq> Some False)"
  by (induction es) auto

lemma resolve_one_enabled:
  "resolve_one (overrides_of app) n \<noteq> None \<longleftrightarrow>
     (case map_of (rev (map (\<lambda>e. (env_Name e, e)) (overrides app))) n of None \<Rightarrow> True | Some e \<Rightarrow> env_Enabled e \<noteq> Some False)"
  by (auto simp: resolve_one_def overrides_of_lookup split: option.split)

lemma resolve_one_agrees:
  assumes "distinct (map env_Name (overrides app))"
  shows "resolve_one (overrides_of app) n \<noteq> None \<longleftrightarrow> boundAppEnabledIn app n"
proof -
  have "map_of (rev (map (\<lambda>e. (env_Name e, e)) (overrides app))) = map_of (map (\<lambda>e. (env_Name e, e)) (overrides app))"
    using assms by (intro map_of_distinct_rev) (simp add: comp_def)
  then show ?thesis by (simp only: resolve_one_enabled boundAppEnabledIn_def enabled_in_map_of)
qed

section \<open>Properties\<close>


definition ex_override :: "string \<Rightarrow> bool option \<Rightarrow> Environment" where
  "ex_override n en = new_Environment n\<lparr>env_Enabled := en, env_Image := ''img''\<rparr>"

definition ex_overridden :: "Environment list \<Rightarrow> App" where
  "ex_overridden es = (let app = ex_app ''api'' ''acme/api'' [] in app\<lparr>app_Spec := app_Spec app\<lparr>spec_Environments := es\<rparr>\<rparr>)"

lemma ex_override_sel [simp]: "env_Name (ex_override n en) = n" "env_Enabled (ex_override n en) = en"
  by (simp_all add: ex_override_def new_Environment_def)

lemma ex_overridden_envs [simp]: "overrides (ex_overridden es) = es"
  by (simp add: ex_overridden_def Let_def)


text \<open>
  With an environment overridden twice the two parts of the program disagree: the controller takes the last
  entry and deploys, the bindings resolver takes the first and treats the application as disabled.
\<close>

lemma duplicate_override_disagrees:
  "let app = ex_overridden [ex_override ''production'' (Some False), ex_override ''production'' None]
   in ''production'' \<in> resolvedEnvNames (resolveEnvs ex_project app) \<and> \<not> boundAppEnabledIn app ''production''"
proof -
  let ?app = "ex_overridden [ex_override ''production'' (Some False), ex_override ''production'' None]"
  have "set (project_envs ex_project) = {''production'', ''staging''}" by (simp add: ex_project_def)
  moreover have "resolve_one (overrides_of ?app) ''production'' \<noteq> None"
    unfolding resolve_one_enabled by simp
  ultimately have "''production'' \<in> resolvedEnvNames (resolveEnvs ex_project ?app)"
    unfolding resolvedEnvNames_def resolveEnvs_names by simp
  then show ?thesis by (simp add: boundAppEnabledIn_def)
qed

lemma preview_names_eq:
  "resolvedPreviewEnvNames (Some project) (resolveEnvs project app) =
     {n. \<exists>e \<in> set (resolveEnvs project app). env_Name e = n \<and>
        (\<exists>p \<in> set (ps_Environments (prj_Spec project)). pe_Name p = n \<and> pe_Preview p)}"
proof -
  have "ps_Environments (prj_Spec project) = [] \<Longrightarrow> resolveEnvs project app = []"
    by (simp add: resolveEnvs_def List.map_filter_def)
  moreover have "set (map pe_Name (filter pe_Preview ps)) = {n. \<exists>p \<in> set ps. pe_Name p = n \<and> pe_Preview p}" for ps
    by auto
  ultimately show ?thesis
    unfolding resolvedPreviewEnvNames_def Let_def by (auto simp: image_def) metis
qed

lemma aggregation_cases:
  "let agg = buildFailureAggregationEnvNames envs previews
   in agg \<subseteq> resolvedEnvNames envs \<and> (agg = {} \<longleftrightarrow> envs = []) \<and> (agg \<inter> previews = {} \<or> agg = resolvedEnvNames envs \<and> agg \<subseteq> previews)"
  by (auto simp: Let_def buildFailureAggregationEnvNames_def resolvedEnvNames_def image_iff)

text \<open>
  Preview environments do not decide the health of an application that has others: the
  environments whose build failures are aggregated are resolved environments, there is at least
  one whenever the application has any, and a preview environment is among them only if all are.
\<close>

theorem aggregation_ignores_previews:
  "let envs = resolveEnvs project app; previews = resolvedPreviewEnvNames (Some project) envs;
       agg = buildFailureAggregationEnvNames envs previews
   in agg \<subseteq> resolvedEnvNames envs \<and> (agg = {} \<longleftrightarrow> envs = []) \<and> (agg \<inter> previews = {} \<or> agg = resolvedEnvNames envs \<and> agg \<subseteq> previews)
      \<and> previews = {n. \<exists>e \<in> set envs. env_Name e = n \<and>
           (\<exists>p \<in> set (ps_Environments (prj_Spec project)). pe_Name p = n \<and> pe_Preview p)}"
  using aggregation_cases [of "resolveEnvs project app" "resolvedPreviewEnvNames (Some project) (resolveEnvs project app)"]
    preview_names_eq [of project app]
  by (simp only: Let_def)

end
