(* ===== verification/AppGC.thy ===== *)
theory AppGC
  imports EnvResolver
begin

text \<open>
  \<open>internal/controller/app_env_gc.go\<close>: deleting what an application left behind, across all
  namespaces of its project when it is deleted and in single environments it opts out of. The
  API client is the parameter \<open>gc_client\<close> (list by labels, delete, read a namespace);
  \<open>gc_server\<close> names its documented behaviour for the duration of one collection: a list returns
  the matching objects, a deletion removes its object or reports why not.
\<close>

section \<open>Definitions\<close>

datatype res_kind = KDeployment | KCronJob | KService | KIngress | KConfigMap | KSecret | KServiceAccount | KPVC

record robj =
  ro_Kind :: res_kind
  ro_Namespace :: string
  ro_Name :: string
  ro_Labels :: "string gomap"

type_synonym selector = "(string \<times> string) list"

record 's gc_client =
  gList :: "'s \<Rightarrow> res_kind \<Rightarrow> selector \<Rightarrow> string \<Rightarrow> (kerr + robj list) \<times> 's"
  gDelete :: "'s \<Rightarrow> robj \<Rightarrow> kerr option \<times> 's"
  gGetNs :: "'s \<Rightarrow> string \<Rightarrow> (kerr + int option) \<times> 's"
  gListNs :: "'s \<Rightarrow> selector \<Rightarrow> (kerr + string list) \<times> 's"


definition appProjectName :: "App \<Rightarrow> gerr + string" where
  "appProjectName app =
     (case ProjectFromControlNs (app_Namespace app) of
        (projectName, True) \<Rightarrow> Inr projectName
      | (_, False) \<Rightarrow> Inl (Msg (''app '' @ quoted (app_Name app) @ '' not in a control namespace (''
                        @ quoted (app_Namespace app) @ '')'')))"

definition managed_selector :: "App \<Rightarrow> string \<Rightarrow> selector" where
  "managed_selector app projectName =
     [(AppNameLabel, app_Name app), (ProjectLabel, projectName), (ManagedByLabel, ManagedByValue)]"

definition appManagedSelector :: "App \<Rightarrow> gerr + selector" where
  "appManagedSelector app = (case appProjectName app of Inl err \<Rightarrow> Inl err | Inr p \<Rightarrow> Inr (managed_selector app p))"

definition token_selector :: "App \<Rightarrow> selector" where
  "token_selector app = [(''mortise.dev/deploy-token'', ''true''), (''mortise.dev/app'', app_Name app)]"

definition namespaceGoneOrTerminating :: "'s gc_client \<Rightarrow> string \<Rightarrow> 's \<Rightarrow> (kerr + bool) \<times> 's" where
  "namespaceGoneOrTerminating C name s =
     (case gGetNs C s name of
        (Inl err, s) \<Rightarrow> (if err = NotFound then Inr True else Inl err, s)
      | (Inr deletionTimestamp, s) \<Rightarrow> (Inr (deletionTimestamp \<noteq> None), s))"

fun delete_all :: "'s gc_client \<Rightarrow> robj list \<Rightarrow> 's \<Rightarrow> kerr option \<times> 's" where
  \<comment> \<open>the loop of \<open>deleteMatching\<close>\<close>
  "delete_all C [] s = (None, s)"
| "delete_all C (obj # objs) s =
     (case gDelete C s obj of
        (None, s1) \<Rightarrow> delete_all C objs s1
      | (Some err, s1) \<Rightarrow>
          if err = NotFound then delete_all C objs s1
          else if err = Forbidden then
            (case namespaceGoneOrTerminating C (ro_Namespace obj) s1 of
               (Inl nsErr, s2) \<Rightarrow> (Some nsErr, s2)
             | (Inr gone, s2) \<Rightarrow> if gone then delete_all C objs s2 else (Some err, s2))
          else (Some err, s1))"

definition deleteMatching :: "'s gc_client \<Rightarrow> res_kind \<Rightarrow> selector \<Rightarrow> string \<Rightarrow> 's \<Rightarrow> kerr option \<times> 's" where
  "deleteMatching C kind sel ns s =
     (case gList C s kind sel ns of
        (Inl err, s1) \<Rightarrow> (Some err, s1)
      | (Inr items, s1) \<Rightarrow> delete_all C items s1)"

fun delete_kinds :: "'s gc_client \<Rightarrow> (res_kind \<times> string) list \<Rightarrow> selector \<Rightarrow> string \<Rightarrow> 's \<Rightarrow> gerr option \<times> 's" where
  \<comment> \<open>one \<open>if err := r.deleteMatching(...); err != nil { return fmt.Errorf(text, err) }\<close> per entry\<close>
  "delete_kinds C [] sel ns s = (None, s)"
| "delete_kinds C ((kind, txt) # ks) sel ns s =
     (case deleteMatching C kind sel ns s of
        (Some err, s1) \<Rightarrow> (Some (Api txt err), s1)
      | (None, s1) \<Rightarrow> delete_kinds C ks sel ns s1)"

definition all_kinds :: "(res_kind \<times> string) list" where
  "all_kinds = [(KDeployment, ''gc deployments''), (KCronJob, ''gc cronjobs''), (KService, ''gc services''),
     (KIngress, ''gc ingresses''), (KConfigMap, ''gc configmaps''), (KSecret, ''gc secrets''),
     (KServiceAccount, ''gc serviceaccounts''), (KPVC, ''gc pvcs'')]"

fun gc_namespaces :: "'s gc_client \<Rightarrow> selector \<Rightarrow> string list \<Rightarrow> 's \<Rightarrow> gerr option \<times> 's" where
  "gc_namespaces C sel [] s = (None, s)"
| "gc_namespaces C sel (ns # nss) s =
     (case delete_kinds C all_kinds sel ns s of
        (Some err, s1) \<Rightarrow> (Some err, s1)
      | (None, s1) \<Rightarrow> gc_namespaces C sel nss s1)"

definition gcAppAcrossEnvs :: "'s gc_client \<Rightarrow> App \<Rightarrow> 's \<Rightarrow> gerr option \<times> 's" where
  "gcAppAcrossEnvs C app s =
     (case appProjectName app of
        Inl _ \<Rightarrow> (None, s)
      | Inr projectName \<Rightarrow>
          (case gListNs C s [(ProjectLabel, projectName)] of
             (Inl err, s1) \<Rightarrow> (Some (Api ''list project namespaces'' err), s1)
           | (Inr nss, s1) \<Rightarrow>
               (case gc_namespaces C (managed_selector app projectName) nss s1 of
                  (Some err, s2) \<Rightarrow> (Some err, s2)
                | (None, s2) \<Rightarrow> delete_kinds C [(KSecret, ''gc app deploy tokens'')] (token_selector app) (app_Namespace app) s2)))"

definition optout_kinds :: "string \<Rightarrow> (res_kind \<times> string) list" where
  "optout_kinds envNs = [(KDeployment, ''gc opted-out deployments in '' @ envNs), (KCronJob, ''gc opted-out cronjobs in '' @ envNs),
     (KService, ''gc opted-out services in '' @ envNs), (KIngress, ''gc opted-out ingresses in '' @ envNs),
     (KConfigMap, ''gc opted-out configmaps in '' @ envNs), (KServiceAccount, ''gc opted-out serviceaccounts in '' @ envNs)]"

fun gc_optout :: "'s gc_client \<Rightarrow> App \<Rightarrow> string \<Rightarrow> string set \<Rightarrow> string list \<Rightarrow> 's \<Rightarrow> gerr option \<times> 's" where
  "gc_optout C app projectName keep [] s = (None, s)"
| "gc_optout C app projectName keep (env # envs) s =
     (if env \<in> keep then gc_optout C app projectName keep envs s
      else
        let envNs = EnvNamespace projectName env
        in case delete_kinds C (optout_kinds envNs) (managed_selector app projectName) envNs s of
             (Some err, s1) \<Rightarrow> (Some err, s1)
           | (None, s1) \<Rightarrow> gc_optout C app projectName keep envs s1)"

definition gcOptedOutEnvs :: "'s gc_client \<Rightarrow> App \<Rightarrow> Project \<Rightarrow> Environment list \<Rightarrow> 's \<Rightarrow> gerr option \<times> 's" where
  "gcOptedOutEnvs C app project resolved s =
     (case appProjectName app of
        Inl _ \<Rightarrow> (None, s)
      | Inr projectName \<Rightarrow>
          gc_optout C app projectName (resolvedEnvNames resolved) (map pe_Name (ps_Environments (prj_Spec project))) s)"

definition ensure_none :: "'s gc_client \<Rightarrow> res_kind list \<Rightarrow> App \<Rightarrow> string \<Rightarrow> 's \<Rightarrow> kerr option \<times> 's" where
  \<comment> \<open>the shape of the four \<open>ensureNo\<close> functions: delete kind after kind, stop at the first error\<close>
  "ensure_none C kinds app envNs s =
     (case appManagedSelector app of
        Inl _ \<Rightarrow> (None, s)
      | Inr sel \<Rightarrow>
          foldl (\<lambda>(r, s) kind. case r of Some err \<Rightarrow> (Some err, s) | None \<Rightarrow> deleteMatching C kind sel envNs s) (None, s) kinds)"

definition ensureNoIngress :: "'s gc_client \<Rightarrow> App \<Rightarrow> string \<Rightarrow> 's \<Rightarrow> kerr option \<times> 's" where
  "ensureNoIngress C = ensure_none C [KIngress]"

definition ensureNoCronJob :: "'s gc_client \<Rightarrow> App \<Rightarrow> string \<Rightarrow> 's \<Rightarrow> kerr option \<times> 's" where
  "ensureNoCronJob C = ensure_none C [KCronJob]"

definition ensureNoServiceWorkload :: "'s gc_client \<Rightarrow> App \<Rightarrow> string \<Rightarrow> 's \<Rightarrow> kerr option \<times> 's" where
  "ensureNoServiceWorkload C = ensure_none C [KDeployment, KService, KIngress]"

definition ensureNoExternalRouting :: "'s gc_client \<Rightarrow> App \<Rightarrow> string \<Rightarrow> 's \<Rightarrow> kerr option \<times> 's" where
  "ensureNoExternalRouting C = ensure_none C [KService, KIngress]"

section \<open>Documented behaviour of the server\<close>

definition selects :: "selector \<Rightarrow> string gomap \<Rightarrow> bool" where
  "selects sel labels \<longleftrightarrow> (\<forall>(k, v) \<in> set sel. map_of labels k = Some v)"

definition target :: "res_kind set \<Rightarrow> selector \<Rightarrow> string set \<Rightarrow> robj set" where
  "target kinds sel nss = {ob. ro_Kind ob \<in> kinds \<and> ro_Namespace ob \<in> nss \<and> selects sel (ro_Labels ob)}"

definition gc_server :: "'s gc_client \<Rightarrow> ('s \<Rightarrow> robj set) \<Rightarrow> string set \<Rightarrow> bool" where
  \<comment> \<open>\<open>objs\<close> is what the server stores; \<open>ending\<close> the namespaces that are gone or terminating\<close>
  "gc_server C objs ending \<longleftrightarrow>
     (\<forall>s kind sel ns r s'. gList C s kind sel ns = (r, s') \<longrightarrow> objs s' = objs s \<and>
        (\<forall>items. r = Inr items \<longrightarrow> set items = objs s \<inter> target {kind} sel {ns})) \<and>
     (\<forall>s ob r s'. gDelete C s ob = (r, s') \<longrightarrow>
        (r = None \<longrightarrow> objs s' = objs s - {ob}) \<and> (r \<noteq> None \<longrightarrow> objs s' = objs s) \<and>
        (r = Some NotFound \<longrightarrow> ob \<notin> objs s)) \<and>
     (\<forall>s ns r s'. gGetNs C s ns = (r, s') \<longrightarrow> objs s' = objs s \<and>
        (r = Inl NotFound \<or> (\<exists>t. r = Inr (Some t)) \<longrightarrow> ns \<in> ending)) \<and>
     (\<forall>s sel r s'. gListNs C s sel = (r, s') \<longrightarrow> objs s' = objs s)"

text \<open>
  \<open>collects objs ending T r s s'\<close>: from \<open>s\<close> to \<open>s'\<close> only objects of \<open>T\<close> disappeared, and if no error was
  reported, what is left of \<open>T\<close> lies in namespaces that are going away.
\<close>

definition collects :: "('s \<Rightarrow> robj set) \<Rightarrow> string set \<Rightarrow> robj set \<Rightarrow> 'e option \<Rightarrow> 's \<Rightarrow> 's \<Rightarrow> bool" where
  "collects objs ending T r s s' \<longleftrightarrow>
     objs s' \<subseteq> objs s \<and> objs s - objs s' \<subseteq> T \<and>
     (r = None \<longrightarrow> (\<forall>ob \<in> objs s' \<inter> T. ro_Namespace ob \<in> ending))"

lemma gc_list: "gc_server C objs ending \<Longrightarrow> gList C s kind sel ns = (r, s') \<Longrightarrow>
    objs s' = objs s \<and> (\<forall>items. r = Inr items \<longrightarrow> set items = objs s \<inter> target {kind} sel {ns})"
  unfolding gc_server_def by (elim conjE) simp

lemma gc_delete: "gc_server C objs ending \<Longrightarrow> gDelete C s ob = (r, s') \<Longrightarrow>
    (r = None \<longrightarrow> objs s' = objs s - {ob}) \<and> (r \<noteq> None \<longrightarrow> objs s' = objs s) \<and> (r = Some NotFound \<longrightarrow> ob \<notin> objs s)"
  unfolding gc_server_def by (elim conjE) simp

lemma gc_list_ns: "gc_server C objs ending \<Longrightarrow> gListNs C s sel = (r, s') \<Longrightarrow> objs s' = objs s"
  unfolding gc_server_def by (elim conjE) simp

lemma gc_get_ns: "gc_server C objs ending \<Longrightarrow> gGetNs C s ns = (r, s') \<Longrightarrow>
    objs s' = objs s \<and> (r = Inl NotFound \<or> (\<exists>t. r = Inr (Some t)) \<longrightarrow> ns \<in> ending)"
  unfolding gc_server_def by (elim conjE) simp

lemma gc_gone:
  assumes "gc_server C objs ending" "namespaceGoneOrTerminating C ns s = (r, s')"
  shows "objs s' = objs s" "r = Inr True \<Longrightarrow> ns \<in> ending"
proof -
  obtain q s1 where q: "gGetNs C s ns = (q, s1)" by (cases "gGetNs C s ns")
  note g = gc_get_ns [OF assms(1) q]
  show "objs s' = objs s"
    using assms(2) q g by (auto simp: namespaceGoneOrTerminating_def split: sum.splits)
  show "r = Inr True \<Longrightarrow> ns \<in> ending"
    using assms(2) q g by (auto simp: namespaceGoneOrTerminating_def split: sum.splits if_splits)
qed

lemma collects_refl: "objs s' = objs s \<Longrightarrow> r \<noteq> None \<or> T = {} \<Longrightarrow> collects objs ending T r s s'"
  by (auto simp: collects_def)

lemma collects_comp:
  assumes "collects objs ending T r1 s s1" "collects objs ending U r2 s1 s2" "r1 = None \<or> r2 \<noteq> None"
  shows "collects objs ending (T \<union> U) r2 s s2"
  using assms unfolding collects_def by blast

lemma collects_error: "collects objs ending T (Some e) s s' \<Longrightarrow> T \<subseteq> U \<Longrightarrow> collects objs ending U (Some e') s s'"
  by (auto simp: collects_def)

lemma collects_cong: "objs s1 = objs s \<Longrightarrow> collects objs ending T r s1 s' \<Longrightarrow> collects objs ending T r s s'"
  by (simp add: collects_def)

text \<open>One object: it is gone afterwards, or its namespace is going away, or the loop stops with an error.\<close>

lemma delete_all_collects:
  assumes srv: "gc_server C objs ending"
  shows "delete_all C items s = (r, s') \<Longrightarrow> collects objs ending (set items) r s s'"
proof (induction items arbitrary: s)
  case Nil
  then show ?case by (simp add: collects_refl)
next
  case (Cons ob items)
  obtain q s1 where q: "gDelete C s ob = (q, s1)" by (cases "gDelete C s ob")
  note d = gc_delete [OF srv q]
  have cont: "collects objs ending (set (ob # items)) r s s'"
    if "delete_all C items s2 = (r, s')" "objs s2 = objs s1" "q \<noteq> None \<longrightarrow> ob \<notin> objs s \<or> ro_Namespace ob \<in> ending" for s2
  proof -
    have "collects objs ending {ob} (None :: kerr option) s s2"
      using d that(2,3) by (cases q) (auto simp: collects_def)
    from collects_comp [OF this Cons.IH [OF that(1)]] show ?thesis by simp
  qed
  have stop: "collects objs ending (set (ob # items)) (Some e) s s2" if "objs s2 = objs s1" for e :: kerr and s2
    using d that by (cases q) (auto simp: collects_def)
  show ?case
  proof (cases q)
    case None
    with Cons.prems q cont show ?thesis by simp
  next
    case (Some err)
    show ?thesis
    proof (cases "err = Forbidden")
      case True
      obtain g s2 where g: "namespaceGoneOrTerminating C (ro_Namespace ob) s1 = (g, s2)"
        by (cases "namespaceGoneOrTerminating C (ro_Namespace ob) s1")
      note gone = gc_gone [OF srv g]
      show ?thesis
        using Cons.prems q Some True g cont [OF _ gone(1)] stop [OF gone(1)] gone(2)
        by (auto split: sum.splits if_splits)
    next
      case False
      with Cons.prems q Some cont [OF _ refl] stop [OF refl] d show ?thesis
        by (auto split: if_splits)
    qed
  qed
qed

lemma target_split: "target (insert k ks) sel nss = target {k} sel nss \<union> target ks sel nss"
  "target ks sel (insert n nss) = target ks sel {n} \<union> target ks sel nss"
  by (auto simp: target_def)

lemma deleteMatching_collects:
  assumes srv: "gc_server C objs ending" and "deleteMatching C kind sel ns s = (r, s')"
  shows "collects objs ending (target {kind} sel {ns}) r s s'"
proof -
  obtain q s1 where q: "gList C s kind sel ns = (q, s1)" by (cases "gList C s kind sel ns")
  note l = gc_list [OF srv q]
  show ?thesis
  proof (cases q)
    case (Inl e)
    with assms(2) q l show ?thesis by (auto simp: deleteMatching_def intro: collects_refl)
  next
    case (Inr items)
    then have "collects objs ending (set items) r s1 s'"
      using assms(2) q delete_all_collects [OF srv] by (simp add: deleteMatching_def)
    moreover have "set items = objs s \<inter> target {kind} sel {ns}" using l Inr by blast
    ultimately show ?thesis using l unfolding collects_def by auto
  qed
qed

lemma delete_kinds_collects:
  assumes srv: "gc_server C objs ending"
  shows "delete_kinds C ks sel ns s = (r, s') \<Longrightarrow> collects objs ending (target (fst ` set ks) sel {ns}) r s s'"
proof (induction ks arbitrary: s)
  case Nil
  then show ?case by (simp add: collects_refl target_def)
next
  case (Cons k ks)
  obtain kind msg where k: "k = (kind, msg)" by (cases k)
  obtain q s1 where q: "deleteMatching C kind sel ns s = (q, s1)" by (cases "deleteMatching C kind sel ns s")
  note one = deleteMatching_collects [OF srv q]
  show ?case
  proof (cases q)
    case None
    with Cons.prems q k have "delete_kinds C ks sel ns s1 = (r, s')" by simp
    from collects_comp [OF one Cons.IH [OF this]] None show ?thesis by (simp add: k target_split(1) [of kind "fst ` set ks"])
  next
    case (Some e)
    with Cons.prems q k have "s' = s1" "r = Some (Api msg e)" by simp_all
    with one Some show ?thesis
      by (simp add: k target_split(1) [of kind "fst ` set ks"] collects_error [OF _ Un_upper1])
  qed
qed

lemma gc_namespaces_collects:
  assumes srv: "gc_server C objs ending"
  shows "gc_namespaces C sel nss s = (r, s') \<Longrightarrow> collects objs ending (target (fst ` set all_kinds) sel (set nss)) r s s'"
proof (induction nss arbitrary: s)
  case Nil
  then show ?case by (simp add: collects_refl target_def)
next
  case (Cons ns nss)
  obtain q s1 where q: "delete_kinds C all_kinds sel ns s = (q, s1)" by (cases "delete_kinds C all_kinds sel ns s")
  note one = delete_kinds_collects [OF srv q]
  show ?case
  proof (cases q)
    case None
    with Cons.prems q have "gc_namespaces C sel nss s1 = (r, s')" by simp
    from collects_comp [OF one Cons.IH [OF this]] None show ?thesis by (simp add: target_split(2) [of _ _ ns "set nss"])
  next
    case (Some e)
    with Cons.prems q have "s' = s1" "r = Some e" by simp_all
    with one Some show ?thesis
      using collects_error [of objs ending _ e s s1 "target (fst ` set all_kinds) sel (set (ns # nss))" e]
      by (simp add: target_split(2) [of _ _ ns "set nss"])
  qed
qed

lemma gc_optout_collects:
  assumes srv: "gc_server C objs ending"
  shows "gc_optout C app p keep envs s = (r, s') \<Longrightarrow>
    collects objs ending (target (fst ` set (optout_kinds [])) (managed_selector app p)
      (EnvNamespace p ` (set envs - keep))) r s s'"
proof (induction envs arbitrary: s)
  case Nil
  then show ?case by (simp add: collects_refl target_def)
next
  case (Cons env envs)
  let ?ns = "EnvNamespace p env"
  have kinds: "fst ` set (optout_kinds n) = fst ` set (optout_kinds [])" for n by (simp add: optout_kinds_def)
  show ?case
  proof (cases "env \<in> keep")
    case True
    with Cons show ?thesis by simp
  next
    case False
    obtain q s1 where q: "delete_kinds C (optout_kinds ?ns) (managed_selector app p) ?ns s = (q, s1)"
      by (cases "delete_kinds C (optout_kinds ?ns) (managed_selector app p) ?ns s")
    note one = delete_kinds_collects [OF srv q, unfolded kinds [of ?ns]]
    have ns: "EnvNamespace p ` (set (env # envs) - keep) = insert ?ns (EnvNamespace p ` (set envs - keep))"
      using False by auto
    show ?thesis
    proof (cases q)
      case None
      with Cons.prems q False have "gc_optout C app p keep envs s1 = (r, s')" by simp
      from collects_comp [OF one Cons.IH [OF this]] None show ?thesis
        unfolding ns by (simp add: target_split(2) [of _ _ ?ns "EnvNamespace p ` (set envs - keep)"])
    next
      case (Some e)
      with Cons.prems q False have "s' = s1" "r = Some e" by simp_all
      with one Some show ?thesis
        unfolding ns target_split(2) [of _ _ ?ns "EnvNamespace p ` (set envs - keep)"] by (simp add: collects_error [OF _ Un_upper1])
    qed
  qed
qed

section \<open>One server\<close>

definition mem_gc :: "robj list gc_client" where
  "mem_gc = \<lparr>
     gList = (\<lambda>s kind sel ns. (Inr (filter (\<lambda>ob. ob \<in> target {kind} sel {ns}) s), s)),
     gDelete = (\<lambda>s ob. if ob \<in> set s then (None, removeAll ob s) else (Some NotFound, s)),
     gGetNs = (\<lambda>s ns. (Inr None, s)),
     gListNs = (\<lambda>s sel. (Inr (remdups (map ro_Namespace s)), s))\<rparr>"

lemma mem_gc_server: "gc_server mem_gc set ending"
  unfolding gc_server_def by (intro conjI allI impI) (auto simp: mem_gc_def split: if_splits)

definition ex_obj :: "res_kind \<Rightarrow> string \<Rightarrow> robj" where
  "ex_obj kind owner = \<lparr>ro_Kind = kind, ro_Namespace = ''pj-web-production'', ro_Name = owner,
     ro_Labels = [(AppNameLabel, owner), (ProjectLabel, ''web''), (ManagedByLabel, ManagedByValue)]\<rparr>"

lemma ex_app_project: "appProjectName (ex_overridden es) = Inr ''web''"
proof -
  have "ProjectFromControlNs (app_Namespace (ex_overridden es)) = (''web'', True)"
    by (simp add: ex_overridden_def ex_app_def Let_def ProjectFromControlNs_def ControlNamespacePrefix_def)
  then show ?thesis by (simp add: appProjectName_def)
qed

section \<open>Properties\<close>

text \<open>
  C12: Deleting an application cleans up after it and touches nothing else. Whatever the outcome,
  \<open>gcAppAcrossEnvs\<close> removes only objects of the eight kinds that carry the application's, the project's
  and the manager's label in the project's namespaces, and the application's deploy tokens. If it reports success, every such
  object is gone or lies in a namespace that is itself going away, so removing the finalizer
  leaves no orphan.
\<close>

theorem gcAppAcrossEnvs_exact:
  assumes "gc_server C objs ending" "appProjectName app = Inr p"
    and "gListNs C s [(ProjectLabel, p)] = (Inr nss, s1)" and "gcAppAcrossEnvs C app s = (r, s')"
  shows "let owned = target (fst ` set all_kinds) (managed_selector app p) (set nss)
               \<union> target {KSecret} (token_selector app) {app_Namespace app}
         in objs s' \<subseteq> objs s \<and> objs s - objs s' \<subseteq> owned \<and>
            (r = None \<longrightarrow> (\<forall>ob \<in> objs s' \<inter> owned. ro_Namespace ob \<in> ending))"
proof -
  let ?T = "target (fst ` set all_kinds) (managed_selector app p) (set nss)"
  let ?U = "target {KSecret} (token_selector app) {app_Namespace app}"
  obtain q s2 where q: "gc_namespaces C (managed_selector app p) nss s1 = (q, s2)"
    by (cases "gc_namespaces C (managed_selector app p) nss s1")
  note one = collects_cong [OF gc_list_ns [OF assms(1,3)] gc_namespaces_collects [OF assms(1) q]]
  have "collects objs ending (?T \<union> ?U) r s s'"
  proof (cases q)
    case None
    with assms(2-4) q have "delete_kinds C [(KSecret, ''gc app deploy tokens'')] (token_selector app) (app_Namespace app) s2 = (r, s')"
      by (simp add: gcAppAcrossEnvs_def)
    from collects_comp [OF one delete_kinds_collects [OF assms(1) this]] None show ?thesis by simp
  next
    case (Some e)
    with assms(2-4) q have "s' = s2" "r = Some e" by (simp_all add: gcAppAcrossEnvs_def)
    with one Some show ?thesis by (simp add: collects_error [OF _ Un_upper1])
  qed
  then show ?thesis by (simp add: collects_def Let_def)
qed

theorem gcAppAcrossEnvs_exact_witness:
  "let app = ex_overridden []; s = [ex_obj KDeployment ''api'', ex_obj KSecret ''api'', ex_obj KSecret ''other'']
   in ex_obj KSecret ''other'' \<in> set (snd (gcAppAcrossEnvs mem_gc app s))"
proof -
  let ?app = "ex_overridden []" and ?s = "[ex_obj KDeployment ''api'', ex_obj KSecret ''api'', ex_obj KSecret ''other'']"
  obtain r s' where g: "gcAppAcrossEnvs mem_gc ?app ?s = (r, s')" by (cases "gcAppAcrossEnvs mem_gc ?app ?s")
  have "gListNs mem_gc ?s [(ProjectLabel, ''web'')] = (Inr [''pj-web-production''], ?s)"
    by (simp add: mem_gc_def ex_obj_def)
  from gcAppAcrossEnvs_exact [OF mem_gc_server [of "{}"] ex_app_project this g]
  have "set ?s - set s' \<subseteq> target (fst ` set all_kinds) (managed_selector ?app ''web'') {''pj-web-production''}
      \<union> target {KSecret} (token_selector ?app) {app_Namespace ?app}"
    by (simp add: Let_def)
  moreover have "ex_obj KSecret ''other'' \<notin> target (fst ` set all_kinds) (managed_selector ?app ''web'') {''pj-web-production''}
      \<union> target {KSecret} (token_selector ?app) {app_Namespace ?app}"
    by (simp add: target_def selects_def ex_obj_def managed_selector_def token_selector_def AppNameLabel_def
        ex_overridden_def ex_app_def Let_def)
  ultimately have "ex_obj KSecret ''other'' \<in> set s'" by auto
  with g show ?thesis by (simp add: Let_def)
qed

lemma EnvNamespace_inj: "EnvNamespace p e = EnvNamespace p e' \<longleftrightarrow> e = e'"
  by (simp add: EnvNamespace_def)

text \<open>
  C13: Opting out of an environment is reversible. With the environments \<open>resolveEnvs\<close> computed,
  \<open>gcOptedOutEnvs\<close> never deletes a Secret or a volume claim and nothing in an environment the
  application still participates in; and when it succeeds, no workload, route or configuration of the
  application is left in the environments it opted out of (unless the namespace is going away).
\<close>

theorem gcOptedOutEnvs_reversible:
  assumes "gc_server C objs ending" "appProjectName app = Inr p"
    and "gcOptedOutEnvs C app project (resolveEnvs project app) s = (r, s')" and "ob \<in> objs s"
  shows "(ro_Kind ob \<in> {KSecret, KPVC} \<longrightarrow> ob \<in> objs s') \<and>
    (env \<in> resolvedEnvNames (resolveEnvs project app) \<and> ro_Namespace ob = EnvNamespace p env \<longrightarrow> ob \<in> objs s') \<and>
    (env \<in> set (project_envs project) - resolvedEnvNames (resolveEnvs project app) \<and> r = None \<and>
     ro_Namespace ob = EnvNamespace p env \<and> selects (managed_selector app p) (ro_Labels ob) \<and>
     ro_Kind ob \<notin> {KSecret, KPVC} \<and> ob \<in> objs s' \<longrightarrow> EnvNamespace p env \<in> ending)"
proof -
  let ?keep = "resolvedEnvNames (resolveEnvs project app)"
  have "gc_optout C app p ?keep (project_envs project) s = (r, s')"
    using assms(2,3) by (simp add: gcOptedOutEnvs_def)
  note col = gc_optout_collects [OF assms(1) this]
  have kinds: "k \<in> fst ` set (optout_kinds []) \<longleftrightarrow> k \<notin> {KSecret, KPVC}" for k
    by (cases k) (auto simp: optout_kinds_def)
  let ?out = "set (project_envs project) - ?keep"
  have removed: "ro_Kind ob \<notin> {KSecret, KPVC} \<and> ro_Namespace ob \<in> EnvNamespace p ` ?out" if "ob \<notin> objs s'"
    using col assms(4) that unfolding collects_def target_def mem_Collect_eq kinds by blast
  have left: "ro_Namespace ob \<in> ending"
    if "r = None" "ob \<in> objs s'" "ro_Kind ob \<notin> {KSecret, KPVC}" "selects (managed_selector app p) (ro_Labels ob)"
      "ro_Namespace ob = EnvNamespace p env" "env \<in> ?out"
    using col that unfolding collects_def target_def kinds by blast
  have "env \<in> ?keep \<and> ro_Namespace ob = EnvNamespace p env \<longrightarrow> ob \<in> objs s'"
    using removed EnvNamespace_inj [of p] by (metis DiffD2 imageE)
  with removed left show ?thesis by metis
qed

theorem gcOptedOutEnvs_reversible_witness:
  "let app = ex_overridden [ex_override ''production'' (Some False)]; s = [ex_obj KDeployment ''api'', ex_obj KSecret ''api'']
   in ex_obj KSecret ''api'' \<in> set (snd (gcOptedOutEnvs mem_gc app ex_project (resolveEnvs ex_project app) s))"
proof -
  let ?app = "ex_overridden [ex_override ''production'' (Some False)]" and ?s = "[ex_obj KDeployment ''api'', ex_obj KSecret ''api'']"
  obtain r s' where g: "gcOptedOutEnvs mem_gc ?app ex_project (resolveEnvs ex_project ?app) ?s = (r, s')"
    by (cases "gcOptedOutEnvs mem_gc ?app ex_project (resolveEnvs ex_project ?app) ?s")
  have "ex_obj KSecret ''api'' \<in> set s'"
    using gcOptedOutEnvs_reversible [OF mem_gc_server [of "{}"] ex_app_project g, of "ex_obj KSecret ''api''" "[]"]
    by (simp add: ex_obj_def)
  with g show ?thesis by (simp add: Let_def)
qed

end
