(* ===== verification/EnvReconcile.thy ===== *)
theory EnvReconcile
  imports EnvOps AppGC
begin

text \<open>
  The reconciliation of an application's environment Secret
  (\<open>reconcileEnvSecret\<close> and its helpers in \<open>internal/controller/app_controller.go\<close>): resolving the
  declared variables, merging them into what the Secret holds without losing changes made by
  users, and remembering digests of the values last applied.

  The merge itself is the callback given to \<open>Store.Apply\<close>; it is the pure function \<open>merge_env\<close>.
  Reads of other objects happen before, on the state the client offers at that moment: \<open>gApp\<close> is
  the read of an App in a state. The JSON codec of the digest annotation is the pair of
  parameters \<open>marshal\<close> and \<open>unmarshal\<close> (\<open>None\<close>: malformed), the digest is \<open>sha256\<close>.
\<close>

section \<open>Resolving declared variables\<close>


fun wrap :: "string \<Rightarrow> gerr \<Rightarrow> gerr" where
  \<comment> \<open>\<open>fmt.Errorf("text: %w", err)\<close>\<close>
  "wrap txt0 (Api c e) = Api (txt0 @ '': '' @ c) e"
| "wrap txt0 (Msg m) = Msg (txt0 @ '': '' @ m)"
| "wrap txt0 ErrSkip = ErrSkip"

definition env_var_prefix :: "EnvVar \<Rightarrow> string" where
  "env_var_prefix ev = ''env var '' @ quoted (ev_Name ev)"

definition secret_ref :: "EnvVar \<Rightarrow> string" where
  "secret_ref ev = (case ev_ValueFrom ev of None \<Rightarrow> [] | Some vf \<Rightarrow> evs_SecretRef vf)"

definition from_binding :: "EnvVar \<Rightarrow> BindingVarSource option" where
  "from_binding ev = (case ev_ValueFrom ev of None \<Rightarrow> None | Some vf \<Rightarrow> evs_FromBinding vf)"

definition count_sources :: "EnvVar \<Rightarrow> nat" where
  "count_sources ev =
     (if ev_Value ev \<noteq> [] then 1 else 0) + (if secret_ref ev \<noteq> [] then 1 else 0) + (if from_binding ev \<noteq> None then 1 else 0)"

definition resolveEnvVarValue ::
  "get_app \<Rightarrow> get_secret \<Rightarrow> EnvVar \<Rightarrow> string \<Rightarrow> string \<Rightarrow> string \<Rightarrow> string set \<Rightarrow> gerr + string \<times> string" where
  \<comment> \<open>value and source\<close>
  "resolveEnvVarValue getApp readSecret ev envNs projectName envName bindingRefs =
     (if count_sources ev > 1 then
        Inl (Msg (env_var_prefix ev @ '': only one of value, valueFrom.secretRef, valueFrom.fromBinding may be set''))
      else if secret_ref ev \<noteq> [] then
        (case readSecret (envNs, secret_ref ev) of
           Inl err \<Rightarrow> Inl (Api (env_var_prefix ev @ '': read secretRef '' @ quoted (secret_ref ev) @ '' in '' @ envNs) err)
         | Inr sec \<Rightarrow>
             (case map_of (Sec_Data sec) (ev_Name ev) of
                None \<Rightarrow> Inl (Msg (env_var_prefix ev @ '': secretRef '' @ quoted (secret_ref ev) @ '' in '' @ envNs
                          @ '' has no key '' @ quoted (ev_Name ev)))
              | Some raw \<Rightarrow> Inr (raw, ''user'')))
      else (case from_binding ev of
        Some fb \<Rightarrow>
          if bvs_Ref fb \<notin> bindingRefs then
            Inl (Msg (env_var_prefix ev @ '': fromBinding.ref '' @ quoted (bvs_Ref fb)
              @ '' is not in this environment's bindings list''))
          else (case ResolveSingle getApp readSecret projectName envName (bvs_Ref fb) (bvs_Key fb) of
                  Inl err \<Rightarrow> Inl (wrap (env_var_prefix ev @ '': resolve fromBinding'') err)
                | Inr val \<Rightarrow> Inr (val, ''binding''))
      | None \<Rightarrow> Inr (ev_Value ev, ''user'')))"

type_synonym resolution = "Env list \<times> Env list \<times> string gomap"

fun resolve_spec :: "(EnvVar \<Rightarrow> gerr + string \<times> string) \<Rightarrow> string set \<Rightarrow> EnvVar list \<Rightarrow> resolution \<Rightarrow> gerr + resolution" where
  \<comment> \<open>the loop over \<open>env.Env\<close>; the accumulators are \<open>specVars\<close>, \<open>fromBindingEnvs\<close> and \<open>resolvedSpecEnv\<close>\<close>
  "resolve_spec resolve derivedKeys [] acc = Inr acc"
| "resolve_spec resolve derivedKeys (ev # evs) (specVars, fromBinding, resolvedSpec) =
     (case resolve ev of
        Inl err \<Rightarrow> if ev_Name ev \<in> derivedKeys then resolve_spec resolve derivedKeys evs (specVars, fromBinding, resolvedSpec)
                   else Inl err
      | Inr (resolved, source) \<Rightarrow>
          let resolvedSpec = AList.update (ev_Name ev) resolved resolvedSpec;
              v = \<lparr>Env_Name = ev_Name ev, Env_Value = resolved, Env_Source = source\<rparr>
          in if source = ''binding'' then resolve_spec resolve derivedKeys evs (specVars, fromBinding @ [v], resolvedSpec)
             else resolve_spec resolve derivedKeys evs (specVars @ [v], fromBinding, resolvedSpec))"

section \<open>The merge\<close>

definition lastSpecEnvDigest :: "digest \<Rightarrow> string \<Rightarrow> string" where
  "lastSpecEnvDigest sha256 value = hex_encode (sha256 value)"

definition keep_one :: "digest \<Rightarrow> string gomap \<Rightarrow> string set \<Rightarrow> Env \<Rightarrow> Env option" where
  \<comment> \<open>the body of the first loop; \<open>None\<close> for a variable that is dropped\<close>
  "keep_one sha256 lastSpec specEnvKeys e =
     (if Env_Source e \<in> {[], ''user'', ''retained''} then
        (if Env_Name e \<notin> specEnvKeys \<and> Env_Source e \<noteq> ''retained'' then
           (case map_of lastSpec (Env_Name e) of
              None \<Rightarrow> Some e
            | Some lastVal \<Rightarrow>
                if lastSpecEnvDigest sha256 (Env_Value e) = lastVal then None else Some (e\<lparr>Env_Source := ''retained''\<rparr>))
         else if Env_Name e \<in> specEnvKeys \<and> Env_Source e = ''retained'' then Some (e\<lparr>Env_Source := ''user''\<rparr>)
         else Some e)
      else Some e)"

definition by_name :: "Env list \<Rightarrow> string gomap" where
  \<comment> \<open>\<open>keptByName\<close>\<close>
  "by_name kept = put_all (map (\<lambda>e. (Env_Name e, Env_Value e)) kept) []"

definition seed_spec :: "digest \<Rightarrow> string gomap \<Rightarrow> string gomap \<Rightarrow> Env \<Rightarrow> Env gomap \<Rightarrow> Env gomap" where
  "seed_spec sha256 lastSpec keptByName sv seed =
     (case map_of keptByName (Env_Name sv) of
        None \<Rightarrow> AList.update (Env_Name sv) sv seed
      | Some existingVal \<Rightarrow>
          if Env_Value sv = existingVal then seed
          else if map_of lastSpec (Env_Name sv) = Some (lastSpecEnvDigest sha256 existingVal)
               then AList.update (Env_Name sv) sv seed
               else seed)"

definition seed_shared :: "string gomap \<Rightarrow> EnvVar \<Rightarrow> Env gomap \<Rightarrow> Env gomap" where
  "seed_shared keptByName sv seed =
     (if map_of keptByName (ev_Name sv) = None
      then AList.update (ev_Name sv) \<lparr>Env_Name = ev_Name sv, Env_Value = ev_Value sv, Env_Source = ''shared''\<rparr> seed
      else seed)"

fun assemble :: "Env list \<Rightarrow> Env gomap \<Rightarrow> Env list \<Rightarrow> Env list \<times> Env gomap" where
  \<comment> \<open>the loop over \<open>kept\<close>, with the seeds it leaves over\<close>
  "assemble [] seed acc = (acc, seed)"
| "assemble (e # es) seed acc =
     (if Env_Source e = ''binding'' then assemble es seed acc
      else (case map_of seed (Env_Name e) of
              Some ne \<Rightarrow> assemble es (AList.delete (Env_Name e) seed) (acc @ [ne])
            | None \<Rightarrow> assemble es seed (acc @ [e])))"

definition merge_env ::
  "digest \<Rightarrow> string gomap \<Rightarrow> string set \<Rightarrow> Env list \<Rightarrow> EnvVar list \<Rightarrow> Env list \<Rightarrow> Env list \<Rightarrow> Env list" where
  \<comment> \<open>the callback of \<open>Store.Apply\<close>\<close>
  "merge_env sha256 lastSpec specEnvKeys specVars sharedVars bindingEnvs current =
     (let kept = List.map_filter (keep_one sha256 lastSpec specEnvKeys) current;
          keptByName = by_name kept;
          seed = fold (seed_spec sha256 lastSpec keptByName) specVars [];
          seed = fold (seed_shared keptByName) sharedVars seed
      in case assemble kept seed [] of (res, rest) \<Rightarrow> res @ map snd (entries rest) @ bindingEnvs)"

section \<open>The digest annotation\<close>

definition readLastSpecEnv ::
  "'s client \<Rightarrow> digest \<Rightarrow> (string \<Rightarrow> string gomap option) \<Rightarrow> string \<Rightarrow> string \<Rightarrow> 's \<Rightarrow> string gomap \<times> 's" where
  "readLastSpecEnv C sha256 unmarshal ns appName s =
     (case kGet C s (ns, AppEnvSecretName appName) of
        (Inl _, s1) \<Rightarrow> ([], s1)
      | (Inr sec, s1) \<Rightarrow>
          let raw = lookup_str (Sec_Annotations sec) AnnotationLastSpecEnvDigest;
              legacy = lookup_str (Sec_Annotations sec) AnnotationLastSpecEnv
          in if raw \<noteq> [] then (case unmarshal raw of None \<Rightarrow> [] | Some m \<Rightarrow> m, s1)
             else if legacy = [] then ([], s1)
             else (case unmarshal legacy of
                     None \<Rightarrow> []
                   | Some m \<Rightarrow> map (\<lambda>(k, v). (k, lastSpecEnvDigest sha256 v)) (entries m), s1))"

definition digests_of :: "digest \<Rightarrow> string gomap \<Rightarrow> string gomap" where
  "digests_of sha256 envVars = map (\<lambda>(name, value). (name, lastSpecEnvDigest sha256 value)) (entries envVars)"

definition set_digest :: "string \<Rightarrow> secret \<Rightarrow> (gerr + bool) \<times> secret" where
  \<comment> \<open>the mutate callback of \<open>writeLastSpecEnv\<close>\<close>
  "set_digest data sec =
     (let legacy = map_of (Sec_Annotations sec) AnnotationLastSpecEnv \<noteq> None
      in if \<not> legacy \<and> lookup_str (Sec_Annotations sec) AnnotationLastSpecEnvDigest = data then (Inr False, sec)
         else (Inr True, sec\<lparr>Sec_Annotations :=
                 AList.update AnnotationLastSpecEnvDigest data (AList.delete AnnotationLastSpecEnv (Sec_Annotations sec))\<rparr>))"

definition writeLastSpecEnv ::
  "'s client \<Rightarrow> ('s call \<Rightarrow> 's call) \<Rightarrow> digest \<Rightarrow> (string gomap \<Rightarrow> string) \<Rightarrow> string \<Rightarrow> string \<Rightarrow> string gomap \<Rightarrow> 's call" where
  "writeLastSpecEnv C retry sha256 marshal ns appName envVars s =
     (case kGet C s (ns, AppEnvSecretName appName) of
        (Inl err, s1) \<Rightarrow> (if err = NotFound then None else Some (Api ''get env secret for last-spec annotation'' err), s1)
      | (Inr sec, s1) \<Rightarrow>
          let data = marshal (digests_of sha256 envVars);
              hasLegacy = map_of (Sec_Annotations sec) AnnotationLastSpecEnv \<noteq> None
          in if \<not> hasLegacy \<and> entries (Sec_Annotations sec) \<noteq> [] \<and> lookup_str (Sec_Annotations sec) AnnotationLastSpecEnvDigest = data
             then (None, s1)
             else (case UpdateWithConflictRetry C retry (ns, AppEnvSecretName appName) (set_digest data) s1 of
                     (None, s2) \<Rightarrow> (None, s2)
                   | (Some err, s2) \<Rightarrow> (Some (wrap ''write last-spec-env annotation'' err), s2)))"

section \<open>The reconciler\<close>

datatype reconcile_error = EnvVarResolution gerr | Reconcile gerr

definition binding_vars :: "ResolvedVar list \<Rightarrow> Env list" where
  "binding_vars vs = map (\<lambda>bv. \<lparr>Env_Name = rv_Name bv, Env_Value = rv_Value bv, Env_Source = ''binding''\<rparr>) vs"

definition env_labels :: "string \<Rightarrow> string \<Rightarrow> string \<Rightarrow> string gomap" where
  "env_labels projectName envName appName =
     [(ProjectLabel, projectName), (EnvironmentLabel, envName), (AppNameLabel, appName)]"

definition shared_env_labels :: "string \<Rightarrow> string \<Rightarrow> string gomap" where
  "shared_env_labels projectName envName = [(ProjectLabel, projectName), (EnvironmentLabel, envName)]"

definition materialize_shared ::
  "'s client \<Rightarrow> ('s call \<Rightarrow> 's call) \<Rightarrow> string \<Rightarrow> string \<Rightarrow> string gomap \<Rightarrow> 's call" where
  \<comment> \<open>the shared variables of the control namespace, copied into the environment\<close>
  "materialize_shared C retry controlNs envNs sharedLabels s =
     (case store_GetSharedSource C controlNs s of
        (Inl err, s1) \<Rightarrow> (Some (Api ''get shared vars from control ns'' err), s1)
      | (Inr sharedSource, s1) \<Rightarrow>
          (case store_SetShared C retry envNs sharedSource sharedLabels s1 of
             (Some err, s2) \<Rightarrow> (Some (wrap ''materialize shared-env'' err), s2)
           | (None, s2) \<Rightarrow> (None, s2)))"

definition derived_keys :: "'s client \<Rightarrow> string \<Rightarrow> string \<Rightarrow> 's \<Rightarrow> (gerr + string set) \<times> 's" where
  "derived_keys C envNs appName s =
     (case kGet C s (envNs, AppEnvSecretName appName) of
        (Inr sec, s1) \<Rightarrow> (Inr (set (map fst (Sec_Data sec))), s1)
      | (Inl err, s1) \<Rightarrow> (if err = NotFound then Inr {} else Inl (Api ''read derived env secret'' err), s1))"

definition resolve_declared ::
  "get_app \<Rightarrow> get_secret \<Rightarrow> string \<Rightarrow> string \<Rightarrow> Environment \<Rightarrow> string set \<Rightarrow> reconcile_error + resolution" where
  \<comment> \<open>declared variables and bindings: \<open>specVars\<close>, the binding variables in order, \<open>resolvedSpecEnv\<close>\<close>
  "resolve_declared getApp readSecret envNs projectName env derivedKeys =
     (let bindingRefs = set (map bind_Ref (env_Bindings env));
          resolve = (\<lambda>ev. resolveEnvVarValue getApp readSecret ev envNs projectName (env_Name env) bindingRefs)
      in case resolve_spec resolve derivedKeys (env_Env env) ([], [], []) of
           Inl err \<Rightarrow> Inl (EnvVarResolution err)
         | Inr (specVars, fromBinding, resolvedSpec) \<Rightarrow>
             (if env_Bindings env = [] then Inr (specVars, fromBinding, resolvedSpec)
              else (case Resolve getApp readSecret projectName (env_Name env) (env_Bindings env) of
                      Inl err \<Rightarrow> Inl (Reconcile (wrap ''resolve bindings'' err))
                    | Inr boundVars \<Rightarrow> Inr (specVars, binding_vars boundVars @ fromBinding, resolvedSpec))))"

definition apply_and_record ::
  "'s client \<Rightarrow> ('s call \<Rightarrow> 's call) \<Rightarrow> digest \<Rightarrow> (string gomap \<Rightarrow> string) \<Rightarrow> App \<Rightarrow> Environment \<Rightarrow> string \<Rightarrow> string \<Rightarrow>
   string gomap \<Rightarrow> resolution \<Rightarrow> 's call" where
  "apply_and_record C retry sha256 marshal app env envNs projectName lastSpec res s =
     (case res of (specVars, bindingEnvs, resolvedSpec) \<Rightarrow>
        (case store_Apply C retry envNs (app_Name app) (env_labels projectName (env_Name env) (app_Name app))
                (\<lambda>current. Inr (merge_env sha256 lastSpec (set (map ev_Name (env_Env env))) specVars
                   (spec_SharedVars (app_Spec app)) bindingEnvs current)) s of
           (Some err, s1) \<Rightarrow> (Some (wrap ''apply env secret'' err), s1)
         | (None, s1) \<Rightarrow>
             (case writeLastSpecEnv C retry sha256 marshal envNs (app_Name app) resolvedSpec s1 of
                (Some err, s2) \<Rightarrow> (Some (wrap ''write last-spec-env'' err), s2)
              | (None, s2) \<Rightarrow> (None, s2))))"

definition reconcileEnvSecret ::
  "'s client \<Rightarrow> ('s call \<Rightarrow> 's call) \<Rightarrow> ('s \<Rightarrow> get_app) \<Rightarrow> digest \<Rightarrow> (string gomap \<Rightarrow> string) \<Rightarrow> (string \<Rightarrow> string gomap option) \<Rightarrow>
   App \<Rightarrow> Environment \<Rightarrow> string \<Rightarrow> 's \<Rightarrow> reconcile_error option \<times> 's" where
  "reconcileEnvSecret C retry gApp sha256 marshal unmarshal app env envNs s =
     (let projectName = (case appProjectName app of Inr p \<Rightarrow> p | Inl _ \<Rightarrow> [])
      in case materialize_shared C retry (app_Namespace app) envNs (shared_env_labels projectName (env_Name env)) s of
           (Some err, s1) \<Rightarrow> (Some (Reconcile err), s1)
         | (None, s1) \<Rightarrow>
             (case readLastSpecEnv C sha256 unmarshal envNs (app_Name app) s1 of (lastSpec, s2) \<Rightarrow>
                (case derived_keys C envNs (app_Name app) s2 of
                   (Inl err, s3) \<Rightarrow> (Some (Reconcile err), s3)
                 | (Inr derivedKeys, s3) \<Rightarrow>
                     (case resolve_declared (gApp s3) (\<lambda>k. fst (kGet C s3 k)) envNs projectName env derivedKeys of
                        Inl err \<Rightarrow> (Some err, s3)
                      | Inr res \<Rightarrow>
                          (case apply_and_record C retry sha256 marshal app env envNs projectName lastSpec res s3 of
                             (Some err, s4) \<Rightarrow> (Some (Reconcile err), s4)
                           | (None, s4) \<Rightarrow> (None, s4))))))"

section \<open>What the merge computes\<close>

definition value_in :: "Env list \<Rightarrow> string \<rightharpoonup> string" where
  \<comment> \<open>the value the Secret built from the list holds: the last entry of a name wins\<close>
  "value_in vs = map_of (rev (map (\<lambda>e. (Env_Name e, Env_Value e)) vs))"

lemma value_in_simps [simp]:
  "value_in [] = Map.empty"
  "value_in (xs @ ys) = value_in xs ++ value_in ys"
  by (simp_all add: value_in_def)

lemma value_in_Cons: "value_in (e # es) n = (case value_in es n of None \<Rightarrow> if n = Env_Name e then Some (Env_Value e) else None | Some v \<Rightarrow> Some v)"
  by (auto simp: value_in_def map_add_def split: option.split)

lemma value_in_buildSecret: "map_of (Sec_Data (buildSecret ns name vs ls)) = value_in vs"
  by (simp add: buildSecret_def value_in_def map_simps)

lemma value_in_distinct:
  "distinct (map Env_Name vs) \<Longrightarrow> value_in vs n = map_option Env_Value (map_of (map (\<lambda>e. (Env_Name e, e)) vs) n)"
  unfolding value_in_def
  by (subst map_of_distinct_rev) (simp_all add: o_def map_option_map_of_self)

abbreviation find_env :: "Env list \<Rightarrow> string \<Rightarrow> Env option" where
  "find_env vs \<equiv> map_of (map (\<lambda>e. (Env_Name e, e)) vs)"

lemma find_env_name: "find_env vs n = Some e \<Longrightarrow> Env_Name e = n \<and> e \<in> set vs"
  by (drule map_of_SomeD) auto

lemma keep_one_name: "keep_one sha lastSpec keys e = Some e' \<Longrightarrow> Env_Name e' = Env_Name e \<and> Env_Value e' = Env_Value e"
  by (auto simp: keep_one_def split: if_splits option.splits)

lemma find_kept:
  assumes "distinct (map Env_Name vs)"
  shows "find_env (List.map_filter (keep_one sha lastSpec keys) vs) n =
      (case find_env vs n of None \<Rightarrow> None | Some e \<Rightarrow> keep_one sha lastSpec keys e)"
    and "distinct (map Env_Name (List.map_filter (keep_one sha lastSpec keys) vs))"
proof -
  let ?f = "List.map_filter (keep_one sha lastSpec keys)"
  have names: "set (map Env_Name (?f vs)) \<subseteq> set (map Env_Name vs)" for vs
    using keep_one_name by (fastforce simp: List.map_filter_def)
  show "distinct (map Env_Name (?f vs))"
    using assms
  proof (induction vs)
    case (Cons v vs)
    then show ?case using names [of vs] keep_one_name [of sha lastSpec keys v]
      by (auto simp: List.map_filter_def split: option.splits)
  qed (simp add: List.map_filter_def)
  show "find_env (?f vs) n = (case find_env vs n of None \<Rightarrow> None | Some e \<Rightarrow> keep_one sha lastSpec keys e)"
    using assms
  proof (induction vs)
    case (Cons v vs)
    have "n \<notin> set (map Env_Name vs) \<Longrightarrow> find_env (?f vs) n = None"
      using names [of vs] by (auto simp: map_of_eq_None_iff)
    with Cons keep_one_name [of sha lastSpec keys v] show ?case
      by (auto simp: List.map_filter_def split: option.splits)
  qed (simp add: List.map_filter_def)
qed

definition wants_seed :: "digest \<Rightarrow> string gomap \<Rightarrow> string option \<Rightarrow> Env \<Rightarrow> bool" where
  \<comment> \<open>a declared variable replaces what is there: nothing, or the value last applied\<close>
  "wants_seed sha256 lastSpec existing sv \<longleftrightarrow>
     (case existing of None \<Rightarrow> True
      | Some v \<Rightarrow> Env_Value sv \<noteq> v \<and> map_of lastSpec (Env_Name sv) = Some (lastSpecEnvDigest sha256 v))"

lemma seed_spec_fold:
  assumes "distinct (map Env_Name svs)"
  shows "map_of (fold (seed_spec sha lastSpec kn) svs seed) n =
    (case find_env svs n of Some sv \<Rightarrow> if wants_seed sha lastSpec (map_of kn n) sv then Some sv else map_of seed n
     | None \<Rightarrow> map_of seed n)"
  using assms
proof (induction svs arbitrary: seed)
  case (Cons sv svs)
  have one: "map_of (seed_spec sha lastSpec kn sv seed) n =
      (if n = Env_Name sv \<and> wants_seed sha lastSpec (map_of kn n) sv then Some sv else map_of seed n)"
    by (auto simp: seed_spec_def wants_seed_def update_conv' split: option.split)
  have "n = Env_Name sv \<Longrightarrow> find_env svs n = None"
    using Cons.prems by (auto simp: map_of_eq_None_iff)
  with Cons one show ?case by (auto split: option.split)
qed simp

definition shared_value :: "EnvVar list \<Rightarrow> string \<rightharpoonup> string" where
  "shared_value svs = map_of (rev (map (\<lambda>v. (ev_Name v, ev_Value v)) svs))"

lemma seed_shared_fold:
  "map_of (fold (seed_shared kn) svs seed) n =
    (case shared_value svs n of
       Some v \<Rightarrow> if map_of kn n = None then Some \<lparr>Env_Name = n, Env_Value = v, Env_Source = ''shared''\<rparr> else map_of seed n
     | None \<Rightarrow> map_of seed n)"
proof (induction svs arbitrary: seed)
  case (Cons sv svs)
  have "shared_value (sv # svs) n = (case shared_value svs n of None \<Rightarrow> if n = ev_Name sv then Some (ev_Value sv) else None | Some v \<Rightarrow> Some v)"
    by (auto simp: shared_value_def map_add_def split: option.split)
  with Cons show ?case by (auto simp: seed_shared_def update_conv' split: option.split)
qed (simp add: shared_value_def)

lemma assemble_value:
  assumes "distinct (map Env_Name es)" "assemble es seed acc = (res, rest)"
    and "\<And>m ne. map_of seed m = Some ne \<Longrightarrow> Env_Name ne = m"
  shows "value_in (res @ map snd (entries rest)) n =
    (case map_of seed n of Some ne \<Rightarrow> Some (Env_Value ne)
     | None \<Rightarrow> (case find_env es n of
          Some e \<Rightarrow> if Env_Source e = ''binding'' then value_in acc n else Some (Env_Value e)
        | None \<Rightarrow> value_in acc n))"
  using assms
proof (induction es arbitrary: seed acc)
  case Nil
  have "\<And>m ne. (m, ne) \<in> set (entries rest) \<Longrightarrow> Env_Name ne = m"
    using Nil.prems(2,3) set_entries [of rest] by auto
  then have "map (\<lambda>e. (Env_Name e, Env_Value e)) (map snd (entries rest)) = map (\<lambda>(k, e). (k, Env_Value e)) (entries rest)"
    by auto
  then have "value_in (map snd (entries rest)) = map_of (rev (map (\<lambda>(k, e). (k, Env_Value e)) (entries rest)))"
    by (simp only: value_in_def)
  also have "\<dots> = map_of (map (\<lambda>(k, e). (k, Env_Value e)) (entries rest))"
    by (rule map_of_distinct_rev) (simp add: o_def case_prod_unfold distinct_clearjunk)
  also have "\<dots> = map_option Env_Value \<circ> map_of rest" by (simp add: map_of_map map_of_clearjunk)
  finally show ?case using Nil.prems(2) by (auto simp: map_add_def split: option.split)
next
  case (Cons e es)
  have d: "distinct (map Env_Name es)" and notin: "find_env es (Env_Name e) = None"
    using Cons.prems(1) by (auto simp: map_of_eq_None_iff)
  show ?case
  proof (cases "Env_Source e = ''binding''")
    case True
    with Cons.prems(2) have "assemble es seed acc = (res, rest)" by simp
    from Cons.IH [OF d this Cons.prems(3)] True notin show ?thesis
      by (auto split: option.split)
  next
    case False
    show ?thesis
    proof (cases "map_of seed (Env_Name e)")
      case None
      with Cons.prems(2) False have "assemble es seed (acc @ [e]) = (res, rest)" by simp
      from Cons.IH [OF d this Cons.prems(3)] None False notin show ?thesis
        by (auto simp: value_in_Cons map_add_def split: option.split)
    next
      case (Some ne)
      then have ne: "Env_Name ne = Env_Name e" by (rule Cons.prems(3))
      from Some Cons.prems(2) False have "assemble es (AList.delete (Env_Name e) seed) (acc @ [ne]) = (res, rest)" by simp
      moreover have "map_of (AList.delete (Env_Name e) seed) m = Some ne' \<Longrightarrow> Env_Name ne' = m" for m ne'
        using Cons.prems(3) by (simp add: delete_conv' split: if_splits)
      ultimately have ih: "value_in (res @ map snd (entries rest)) n =
          (case map_of (AList.delete (Env_Name e) seed) n of Some ne \<Rightarrow> Some (Env_Value ne)
           | None \<Rightarrow> (case find_env es n of
                Some e \<Rightarrow> if Env_Source e = ''binding'' then value_in (acc @ [ne]) n else Some (Env_Value e)
              | None \<Rightarrow> value_in (acc @ [ne]) n))"
        by (rule Cons.IH [OF d])
      show ?thesis
      proof (cases "n = Env_Name e")
        case True
        with ih Some ne notin show ?thesis by (simp add: delete_conv' value_in_Cons)
      next
        case other: False
        with ih ne show ?thesis by (simp add: delete_conv' value_in_Cons map_add_def split: option.split)
      qed
    qed
  qed
qed

lemma merge_env_value:
  assumes "distinct (map Env_Name current)" "distinct (map Env_Name specVars)"
  shows "value_in (merge_env sha256 lastSpec keys specVars shared bindingEnvs current) n =
    (case value_in bindingEnvs n of Some v \<Rightarrow> Some v
     | None \<Rightarrow>
       (case Option.bind (find_env current n) (keep_one sha256 lastSpec keys) of
          None \<Rightarrow> (case shared_value shared n of Some v \<Rightarrow> Some v | None \<Rightarrow> map_option Env_Value (find_env specVars n))
        | Some e \<Rightarrow>
            (case find_env specVars n of
               Some sv \<Rightarrow> if wants_seed sha256 lastSpec (Some (Env_Value e)) sv then Some (Env_Value sv)
                          else if Env_Source e = ''binding'' then None else Some (Env_Value e)
             | None \<Rightarrow> if Env_Source e = ''binding'' then None else Some (Env_Value e))))"
proof -
  define kept where "kept = List.map_filter (keep_one sha256 lastSpec keys) current"
  define seed where "seed = fold (seed_shared (by_name kept)) shared (fold (seed_spec sha256 lastSpec (by_name kept)) specVars [])"
  obtain res rest where asm: "assemble kept seed [] = (res, rest)" by (cases "assemble kept seed []")
  have kept: "distinct (map Env_Name kept)" "find_env kept m = Option.bind (find_env current m) (keep_one sha256 lastSpec keys)" for m
    unfolding kept_def using find_kept [OF assms(1)] by (auto split: option.split)
  have kn: "map_of (by_name kept) m = map_option Env_Value (find_env kept m)" for m
    using value_in_distinct [OF kept(1), of m] by (simp add: by_name_def value_in_def map_simps)
  have seed: "map_of seed m =
      (case shared_value shared m of
         Some v \<Rightarrow> if find_env kept m = None then Some \<lparr>Env_Name = m, Env_Value = v, Env_Source = ''shared''\<rparr>
                   else map_of (fold (seed_spec sha256 lastSpec (by_name kept)) specVars []) m
       | None \<Rightarrow> map_of (fold (seed_spec sha256 lastSpec (by_name kept)) specVars []) m)" for m
    unfolding seed_def seed_shared_fold by (simp add: kn split: option.split)
  have spec: "map_of (fold (seed_spec sha256 lastSpec (by_name kept)) specVars []) m =
      (case find_env specVars m of
         Some sv \<Rightarrow> if wants_seed sha256 lastSpec (map_option Env_Value (find_env kept m)) sv then Some sv else None
       | None \<Rightarrow> None)" for m
    using seed_spec_fold [OF assms(2)] by (simp add: kn split: option.split)
  have names: "map_of seed m = Some ne \<Longrightarrow> Env_Name ne = m" for m ne
    unfolding seed spec by (auto split: option.splits if_splits dest: find_env_name)
  have "value_in (merge_env sha256 lastSpec keys specVars shared bindingEnvs current) n =
      (case value_in bindingEnvs n of Some v \<Rightarrow> Some v | None \<Rightarrow> value_in (res @ map snd (entries rest)) n)"
    using asm by (simp add: merge_env_def Let_def kept_def seed_def map_add_def split: option.split)
  also have "value_in (res @ map snd (entries rest)) n =
      (case map_of seed n of Some ne \<Rightarrow> Some (Env_Value ne)
       | None \<Rightarrow> (case find_env kept n of None \<Rightarrow> None
          | Some e \<Rightarrow> if Env_Source e = ''binding'' then None else Some (Env_Value e)))"
    using assemble_value [OF kept(1) asm names] by (simp split: option.split)
  finally show ?thesis
    unfolding seed spec kept(2) [symmetric]
    by (auto simp: wants_seed_def split: option.split)
qed

section \<open>Properties\<close>


definition uenv :: "string \<Rightarrow> string \<Rightarrow> string \<Rightarrow> Env" where
  "uenv n v src = \<lparr>Env_Name = n, Env_Value = v, Env_Source = src\<rparr>"

lemma uenv_sel [simp]: "Env_Name (uenv n v src) = n" "Env_Value (uenv n v src) = v" "Env_Source (uenv n v src) = src"
  by (simp_all add: uenv_def)


text \<open>
  C15: A change somebody made to a declared variable survives every later reconciliation. If the
  Secret's value of a variable under the user's control is not the one last applied, the merge keeps it,
  whatever the declaration says now (still declared with any value, or removed), unless a
  binding variable of that name exists; and a name removed from the declaration whose value
  was not touched disappears, unless shared variables provide it.
\<close>

theorem user_changes_survive:
  assumes "distinct (map Env_Name current)" "distinct (map Env_Name specVars)"
    and "find_env current n = Some e" "Env_Source e \<in> {[], ''user'', ''retained''}" "value_in bindingEnvs n = None"
    and "fst ` set (map (\<lambda>v. (Env_Name v, v)) specVars) \<subseteq> keys"
  shows "map_of (Sec_Data (buildSecret ns name
      (merge_env sha256 lastSpec keys specVars shared bindingEnvs current) labels)) n =
    (if map_of lastSpec n \<noteq> Some (lastSpecEnvDigest sha256 (Env_Value e)) then Some (Env_Value e)
     else if n \<notin> keys \<and> Env_Source e \<noteq> ''retained'' then shared_value shared n
     else (case find_env specVars n of Some sv \<Rightarrow> Some (Env_Value sv) | None \<Rightarrow> Some (Env_Value e)))"
proof -
  have name: "Env_Name e = n" using assms(3) find_env_name by blast
  let ?tracked = "map_of lastSpec n = Some (lastSpecEnvDigest sha256 (Env_Value e))"
  note val = merge_env_value [OF assms(1,2), of sha256 lastSpec keys shared bindingEnvs n]
  have dat: "map_of (Sec_Data (buildSecret ns name vs labels)) n = value_in vs n" for vs
    by (simp only: value_in_buildSecret)
  show ?thesis
  proof (cases "n \<in> keys")
    case True
    then obtain e' where e': "keep_one sha256 lastSpec keys e = Some e'" "Env_Value e' = Env_Value e" "Env_Source e' \<noteq> ''binding''"
      using assms(4) name by (auto simp: keep_one_def)
    show ?thesis
    proof (cases "find_env specVars n")
      case None
      with val e' assms(3,5) True show ?thesis by (simp add: dat)
    next
      case (Some sv)
      then have "Env_Name sv = n" by (drule_tac find_env_name) simp
      with val e' assms(3,5) True Some show ?thesis by (simp add: dat wants_seed_def)
    qed
  next
    case False
    have none: "find_env specVars n = None"
      using assms(6) False by (auto simp: map_of_eq_None_iff)
    show ?thesis
    proof (cases "Env_Source e \<noteq> ''retained'' \<and> ?tracked")
      case True
      with assms(4) name False have "keep_one sha256 lastSpec keys e = None" by (simp add: keep_one_def)
      with val assms(3,5) none True False show ?thesis by (simp add: dat split: option.split)
    next
      case other: False
      obtain e' where "keep_one sha256 lastSpec keys e = Some e'" "Env_Value e' = Env_Value e" "Env_Source e' \<noteq> ''binding''"
        using assms(4) name False other by (cases "map_of lastSpec n") (auto simp: keep_one_def)
      with val assms(3,5) none False other show ?thesis by (auto simp: dat)
    qed
  qed
qed

theorem user_changes_survive_witness:
  "map_of (Sec_Data (buildSecret ''ns'' ''a-env''
      (merge_env id [(''A'', hex_encode ''1'')] {''A''} [uenv ''A'' ''2'' ''user''] [] [] [uenv ''A'' ''mine'' ''user'']) [])) ''A'' = Some ''mine''"
proof -
  have "hex_encode ''mine'' \<noteq> hex_encode ''1''" using hex_encode_inj by fastforce
  with user_changes_survive [of "[uenv ''A'' ''mine'' ''user'']" "[uenv ''A'' ''2'' ''user'']" "''A''" "uenv ''A'' ''mine'' ''user''"
      "[]" "{''A''}" "''ns''" "''a-env''" id "[(''A'', hex_encode ''1'')]" "[]" "[]"]
  show ?thesis by (simp add: lastSpecEnvDigest_def)
qed

section \<open>Where the merge loses or freezes a declaration\<close>

text \<open>
  A reference that broke for one reconciliation is not recorded among the digests, so when it resolves again with
  another value the value in the Secret counts as a user's change: the declared value is not
  applied, now or later.
\<close>

lemma frozen_after_broken_reference:
  assumes "find_env current n = Some e" "Env_Source e = ''user''" "n \<in> keys" "map_of lastSpec n = None"
    and "distinct (map Env_Name current)" "distinct (map Env_Name specVars)" "value_in bindingEnvs n = None"
  shows "value_in (merge_env sha256 lastSpec keys specVars shared bindingEnvs current) n = Some (Env_Value e)"
proof -
  have "Env_Name e = n" using assms(1) find_env_name by blast
  then have k: "keep_one sha256 lastSpec keys e = Some e" using assms(2,3) by (simp add: keep_one_def)
  show ?thesis
  proof (cases "find_env specVars n")
    case None
    with assms(1,2,7) k show ?thesis unfolding merge_env_value [OF assms(5,6)] by simp
  next
    case (Some sv)
    then have "Env_Name sv = n" by (drule_tac find_env_name) simp
    with Some assms(1,2,4,7) k show ?thesis
      unfolding merge_env_value [OF assms(5,6)] by (simp add: wants_seed_def)
  qed
qed

text \<open>
  The first reconciliation of a variable declared both for the environment and as a shared
  variable stores the shared value, although the environment's value should take precedence, and
  from then on the declared value is taken for a value a user replaced.
\<close>

lemma shared_shadows_declared:
  assumes "distinct (map Env_Name specVars)" "find_env specVars n = Some sv" "shared_value shared n = Some v"
    and "Env_Value sv \<noteq> v" "value_in bindingEnvs n = None" "find_env current n = None" "distinct (map Env_Name current)"
  shows "value_in (merge_env sha256 lastSpec keys specVars shared bindingEnvs current) n = Some v"
  unfolding merge_env_value [OF assms(7,1)] using assms(3,5,6) by simp

lemma shared_shadows_declared_forever:
  assumes "distinct (map Env_Name specVars)" "find_env specVars n = Some sv"
    and "find_env current n = Some e" "Env_Source e = ''shared''" "distinct (map Env_Name current)"
    and "map_of lastSpec n = Some (lastSpecEnvDigest sha256 (Env_Value sv))"
    and "lastSpecEnvDigest sha256 (Env_Value sv) \<noteq> lastSpecEnvDigest sha256 (Env_Value e)" "value_in bindingEnvs n = None"
  shows "value_in (merge_env sha256 lastSpec keys specVars shared bindingEnvs current) n = Some (Env_Value e)"
proof -
  have "Env_Name sv = n" using assms(2) by (drule_tac find_env_name) simp
  moreover have "keep_one sha256 lastSpec keys e = Some e" using assms(4) by (simp add: keep_one_def)
  ultimately show ?thesis
    unfolding merge_env_value [OF assms(5,1)] using assms by (simp add: wants_seed_def)
qed

text \<open>
  A variable switched from a binding projection to a literal of the same value disappears for one
  reconciliation: the entry left by the binding counts as present when the seeds are chosen, and is dropped
  when the result is assembled.
\<close>

lemma literal_equal_to_binding_is_lost:
  assumes "distinct (map Env_Name specVars)" "find_env specVars n = Some sv"
    and "find_env current n = Some e" "Env_Source e = ''binding''" "Env_Value e = Env_Value sv"
    and "distinct (map Env_Name current)" "value_in bindingEnvs n = None"
  shows "value_in (merge_env sha256 lastSpec keys specVars shared bindingEnvs current) n = None"
proof -
  have "keep_one sha256 lastSpec keys e = Some e" using assms(4) by (simp add: keep_one_def)
  then show ?thesis
    unfolding merge_env_value [OF assms(6,1)] using assms by (simp add: wants_seed_def)
qed

section \<open>The whole reconciliation\<close>

lemma applySecret_ok:
  assumes "api_server C ok view hist" "retries retry" "ok s" "applySecret C retry ns name labels mutate s = (r, s')"
  shows "ok s'"
proof -
  have "retry_run (apply_attempt C ns name labels mutate) s r s'"
    using assms(2,4) by (simp add: retries_def applySecret_def)
  then obtain s0 where "ok s0" "apply_attempt C ns name labels mutate s0 = (r, s')"
    using retry_run_last [of _ s r s' ok] assms(3) apply_attempt_ok [OF assms(1)] by blast
  then show ?thesis using apply_attempt_ok [OF assms(1)] by blast
qed

lemma materialize_shared_ok:
  assumes "api_server C ok view hist" "retries retry" "ok s"
    and "materialize_shared C retry controlNs envNs labels s = (r, s')"
  shows "ok s'"
proof -
  obtain got s1 where g: "kGet C s (controlNs, SharedVarsSourceName) = (got, s1)"
    by (cases "kGet C s (controlNs, SharedVarsSourceName)")
  have ok1: "ok s1" using api_get_ok [OF assms(1,3) g] .
  have set_ok: "ok s2" if "store_SetShared C retry envNs vs labels s1 = (q, s2)" for vs q s2
    using that ok1 applySecret_ok [OF assms(1,2)]
    by (auto simp: store_SetShared_def validated_def upsertSecret_def split: option.splits)
  show ?thesis
    using assms(4) g ok1 set_ok
    by (auto simp: materialize_shared_def store_GetSharedSource_def getSecret_def split: sum.splits prod.splits option.splits if_splits)
qed

lemma readLastSpecEnv_ok:
  assumes "api_server C ok view hist" "ok s" "readLastSpecEnv C sha256 unmarshal ns appName s = (m, s')"
  shows "ok s'"
proof -
  obtain got s1 where g: "kGet C s (ns, AppEnvSecretName appName) = (got, s1)" by (cases "kGet C s (ns, AppEnvSecretName appName)")
  then have "s' = s1" using assms(3) by (cases got) (auto simp: readLastSpecEnv_def Let_def split: if_splits)
  with api_get_ok [OF assms(1,2) g] show ?thesis by simp
qed

lemma derived_keys_ok:
  assumes "api_server C ok view hist" "ok s" "derived_keys C ns appName s = (r, s')"
  shows "ok s'"
proof -
  obtain got s1 where g: "kGet C s (ns, AppEnvSecretName appName) = (got, s1)" by (cases "kGet C s (ns, AppEnvSecretName appName)")
  then have "s' = s1" using assms(3) by (cases got) (auto simp: derived_keys_def split: if_splits)
  with api_get_ok [OF assms(1,2) g] show ?thesis by simp
qed

text \<open>
  What a successful reconciliation did to the application's Secret: for the declared and binding variables it
  resolved and the digests it read, a single write replaced exactly the contents the merge was computed from
  (so no concurrent change of a user is overwritten), or the merge had nothing to change; then the
  digests of the resolved values were recorded.
\<close>

theorem reconcileEnvSecret_atomic:
  assumes srv: "api_server C ok view hist" and rt: "retries retry" and ok: "ok s"
    and res: "reconcileEnvSecret C retry gApp sha256 marshal unmarshal app env envNs s = (None, s')"
  shows "\<exists>lastSpec specVars bindingEnvs resolvedSpec s4.
    (let key = (envNs, AppEnvSecretName (app_Name app));
         merge = (\<lambda>current. Inr (merge_env sha256 lastSpec (set (map ev_Name (env_Env env))) specVars
                    (spec_SharedVars (app_Spec app)) bindingEnvs current))
     in left_alone C key merge s4 \<or> (\<exists>s1. applied_at view key merge s1 s4)) \<and>
    writeLastSpecEnv C retry sha256 marshal envNs (app_Name app) resolvedSpec s4 = (None, s')"
proof -
  define p where "p = (case appProjectName app of Inr p \<Rightarrow> p | Inl _ \<Rightarrow> [])"
  obtain m s1 where m: "materialize_shared C retry (app_Namespace app) envNs (shared_env_labels p (env_Name env)) s = (m, s1)"
    by (cases "materialize_shared C retry (app_Namespace app) envNs (shared_env_labels p (env_Name env)) s")
  obtain lastSpec s2 where l: "readLastSpecEnv C sha256 unmarshal envNs (app_Name app) s1 = (lastSpec, s2)"
    by (cases "readLastSpecEnv C sha256 unmarshal envNs (app_Name app) s1")
  obtain d s3 where d: "derived_keys C envNs (app_Name app) s2 = (d, s3)" by (cases "derived_keys C envNs (app_Name app) s2")
  have ok3: "ok s3"
    using derived_keys_ok [OF srv readLastSpecEnv_ok [OF srv materialize_shared_ok [OF srv rt ok m] l] d] .
  from res m l d obtain r where "apply_and_record C retry sha256 marshal app env envNs p lastSpec r s3 = (None, s')"
    by (auto simp: reconcileEnvSecret_def p_def [symmetric] Let_def split: option.splits sum.splits prod.splits)
  moreover obtain specVars bindingEnvs resolvedSpec where r: "r = (specVars, bindingEnvs, resolvedSpec)" by (cases r)
  ultimately obtain s4 where a: "store_Apply C retry envNs (app_Name app) (env_labels p (env_Name env) (app_Name app))
        (\<lambda>current. Inr (merge_env sha256 lastSpec (set (map ev_Name (env_Env env))) specVars
           (spec_SharedVars (app_Spec app)) bindingEnvs current)) s3 = (None, s4)"
    and w: "writeLastSpecEnv C retry sha256 marshal envNs (app_Name app) resolvedSpec s4 = (None, s')"
    by (auto simp: apply_and_record_def split: option.splits prod.splits)
  from applySecret_linear [OF srv rt ok3 a [unfolded store_Apply_def]] w show ?thesis
    unfolding Let_def by blast
qed

definition ex_env :: Environment where
  "ex_env = (new_Environment ''production'')\<lparr>env_Env := [\<lparr>ev_Name = ''A'', ev_Value = ''1'', ev_ValueFrom = None\<rparr>]\<rparr>"

definition ex_reconcile :: "reconcile_error option \<times> mem" where
  "ex_reconcile = reconcileEnvSecret mem_client mem_retry (\<lambda>_ _. Inl NotFound) id (\<lambda>_. ''{}'') (\<lambda>_. None)
     (ex_overridden []) ex_env ''pj-web-production'' mem_empty"

lemma ex_reconcile_succeeds: "fst ex_reconcile = None"
  by code_simp

theorem reconcileEnvSecret_atomic_witness:
  "\<exists>lastSpec specVars bindingEnvs s4.
     (let key = (''pj-web-production'', ''api-env'');
          merge = (\<lambda>current. Inr (merge_env id lastSpec {''A''} specVars [] bindingEnvs current))
      in left_alone mem_client key merge s4 \<or> (\<exists>s1. applied_at (\<lambda>s. map_of (mem_objs s)) key merge s1 s4))"
proof -
  have "reconcileEnvSecret mem_client mem_retry (\<lambda>_ _. Inl NotFound) id (\<lambda>_. ''{}'') (\<lambda>_. None)
      (ex_overridden []) ex_env ''pj-web-production'' mem_empty = (None, snd ex_reconcile)"
    using ex_reconcile_succeeds unfolding ex_reconcile_def by (metis prod.collapse)
  from reconcileEnvSecret_atomic [OF mem_api_server mem_retries mem_empty_ok this] show ?thesis
    by (simp add: Let_def ex_env_def new_Environment_def AppEnvSecretName_def AppEnvSuffix_def ex_overridden_def ex_app_def)
       blast
qed

end
