(* ===== verification/Activity.thy ===== *)
theory Activity
  imports Kube Constants
begin

text \<open>
  Package \<open>internal/activity\<close>: the per-project event log, a ring buffer stored as JSON in one
  ConfigMap. ConfigMaps are modelled by the same record as Secrets. The JSON codec is the pair of
  parameters \<open>marshal\<close> and \<open>unmarshal\<close> (\<open>None\<close> is a codec error); \<open>json_codec\<close> is what the proofs
  use of it. Each attempt reads the clock (\<open>now\<close>) and \<open>done\<close> tells for the wait after it
  whether the context was cancelled; both are indexed by the attempts left. The audit line on standard output is left out.

  Sequence numbers are unbounded integers here (an \<open>int64\<close> in the code).
\<close>

section \<open>Definitions\<close>

definition Cap :: nat where "Cap = 2000"
definition MaxBytes :: nat where "MaxBytes = 768 * 1024"
definition Retention :: int where "Retention = 30 * 24 * 3600 * 1000000000"
definition configMapNamePrefix :: string where "configMapNamePrefix = ''activity-''"
definition eventsKey :: string where "eventsKey = ''events''"
definition maxConflictRetries :: nat where "maxConflictRetries = 5"

record Event =
  ae_Seq :: int
  ae_Timestamp :: int
  ae_Actor :: string
  ae_Action :: string
  ae_ResourceKind :: string
  ae_ResourceName :: string
  ae_Project :: string
  ae_Message :: string
  ae_Metadata :: "string gomap"

type_synonym marshal = "Event list \<Rightarrow> string option"
type_synonym unmarshal = "string \<Rightarrow> Event list option"

definition configMapName :: "string \<Rightarrow> string" where
  "configMapName project = configMapNamePrefix @ project"

definition projectNamespace :: "string \<Rightarrow> string" where
  "projectNamespace project = ControlNamespace project"

definition activity_key :: "string \<Rightarrow> nn" where
  "activity_key project = (projectNamespace project, configMapName project)"

definition unmarshalEvents :: "unmarshal \<Rightarrow> string \<Rightarrow> Event list option" where
  "unmarshalEvents unmarshal raw = (if raw = [] then Some [] else unmarshal raw)"

fun backfill :: "int \<Rightarrow> Event list \<Rightarrow> Event list" where
  \<comment> \<open>the loop of \<open>backfillSeq\<close> with its \<open>runningMax\<close>\<close>
  "backfill runningMax [] = []"
| "backfill runningMax (ev # evs) =
     (let ev = (if ae_Seq ev = 0 then ev\<lparr>ae_Seq := runningMax + 1\<rparr> else ev)
      in ev # backfill (if ae_Seq ev > runningMax then ae_Seq ev else runningMax) evs)"

definition backfillSeq :: "Event list \<Rightarrow> Event list" where
  "backfillSeq events = backfill 0 events"

definition nextSeq :: "Event list \<Rightarrow> int" where
  "nextSeq events = foldl (\<lambda>m ev. if ae_Seq ev > m then ae_Seq ev else m) 0 events + 1"

definition trimRetention :: "Event list \<Rightarrow> int \<Rightarrow> Event list" where
  "trimRetention events now = dropWhile (\<lambda>ev. ae_Timestamp ev < now - Retention) events"

function trim_bytes :: "marshal \<Rightarrow> Event list \<Rightarrow> Event list" where
  \<comment> \<open>the second loop of \<open>trimSize\<close>\<close>
  "trim_bytes marshal events =
     (if length events > 1 then
        (case marshal events of
           None \<Rightarrow> events
         | Some data \<Rightarrow>
             if length data \<le> MaxBytes then events
             else
               let n = length events div 8; n = (if n = 0 then 1 else n)
               in trim_bytes marshal (drop n events))
      else events)"
  by pat_completeness auto
termination
  by (relation "measure (\<lambda>(m, evs). length evs)") (auto simp: Let_def)

declare trim_bytes.simps [simp del]

definition trimSize :: "marshal \<Rightarrow> Event list \<Rightarrow> Event list" where
  "trimSize marshal events =
     trim_bytes marshal (if length events > Cap then drop (length events - Cap) events else events)"

definition append_events :: "marshal \<Rightarrow> int \<Rightarrow> Event \<Rightarrow> Event list \<Rightarrow> Event list" where
  \<comment> \<open>the computation of \<open>appendOnce\<close> between decoding and encoding\<close>
  "append_events marshal now e stored =
     (let events = backfillSeq stored;
          e = e\<lparr>ae_Seq := nextSeq events\<rparr>;
          events = trimRetention events now
      in trimSize marshal (events @ [e]))"

definition new_log :: "string \<Rightarrow> string \<Rightarrow> secret" where
  "new_log project data =
     \<lparr>Sec_Namespace = projectNamespace project, Sec_Name = configMapName project,
      Sec_Labels = [(''app.kubernetes.io/managed-by'', ''mortise''), (''mortise.dev/kind'', ''activity'')],
      Sec_Annotations = [], Sec_Data = [(eventsKey, data)], Sec_RV = []\<rparr>"

definition appendOnce :: "'s client \<Rightarrow> marshal \<Rightarrow> unmarshal \<Rightarrow> int \<Rightarrow> Event \<Rightarrow> 's call" where
  "appendOnce C marshal unmarshal now e s =
     (case kGet C s (activity_key (ae_Project e)) of
        (Inl err, s1) \<Rightarrow>
          if err = NotFound then
            (case marshal [e] of
               None \<Rightarrow> (Some (Msg ''marshal events''), s1)
             | Some data \<Rightarrow>
                 (case kCreate C s1 (new_log (ae_Project e) data) of (r, s2) \<Rightarrow> (map_option (Api []) r, s2)))
          else (Some (Api [] err), s1)
      | (Inr cm, s1) \<Rightarrow>
          (case unmarshalEvents unmarshal (lookup_str (Sec_Data cm) eventsKey) of
             None \<Rightarrow> (Some (Msg ''unmarshal events''), s1)
           | Some stored \<Rightarrow>
               (case marshal (append_events marshal now e stored) of
                  None \<Rightarrow> (Some (Msg ''marshal events''), s1)
                | Some data \<Rightarrow>
                    (case kUpdate C s1 (cm\<lparr>Sec_Data := AList.update eventsKey data (Sec_Data cm)\<rparr>) of
                       (r, s2) \<Rightarrow> (map_option (Api []) r, s2)))))"

fun retryable :: "gerr \<Rightarrow> bool" where
  "retryable (Api _ Conflict) = True"
| "retryable (Api _ AlreadyExists) = True"
| "retryable _ = False"

fun is_not_found :: "gerr \<Rightarrow> bool" where
  "is_not_found (Api _ NotFound) = True"
| "is_not_found _ = False"

fun append_attempts :: "nat \<Rightarrow> (nat \<Rightarrow> bool) \<Rightarrow> (nat \<Rightarrow> 's call) \<Rightarrow> 's call" where
  \<comment> \<open>the loop of \<open>Append\<close>, with the attempts it has left\<close>
  "append_attempts 0 done f s = (Some (Msg ''activity: append gave up after 5 conflict retries''), s)"
| "append_attempts (Suc n) done f s =
     (case f n s of
        (None, s1) \<Rightarrow> (None, s1)
      | (Some err, s1) \<Rightarrow>
          if is_not_found err then (None, s1)
          else if \<not> retryable err then (Some err, s1)
          else if done n then (Some (Msg ''context canceled''), s1)
          else append_attempts n done f s1)"

definition Append :: "'s client \<Rightarrow> marshal \<Rightarrow> unmarshal \<Rightarrow> (nat \<Rightarrow> bool) \<Rightarrow> (nat \<Rightarrow> int) \<Rightarrow> Event \<Rightarrow> 's call" where
  "Append C marshal unmarshal done now e =
     append_attempts maxConflictRetries done (\<lambda>n. appendOnce C marshal unmarshal (now n) e)"

definition clamp_limit :: "int \<Rightarrow> nat" where
  "clamp_limit limit = (if limit \<le> 0 \<or> limit > int Cap then Cap else nat limit)"

definition read_events :: "'s client \<Rightarrow> unmarshal \<Rightarrow> string \<Rightarrow> 's \<Rightarrow> gerr + Event list option" where
  \<comment> \<open>the common read of \<open>List\<close> and \<open>ListPage\<close>; \<open>Inr None\<close> when there is no log\<close>
  "read_events C unmarshal project s =
     (case fst (kGet C s (activity_key project)) of
        Inl err \<Rightarrow> if err = NotFound then Inr None else Inl (Api [] err)
      | Inr cm \<Rightarrow>
          (case unmarshalEvents unmarshal (lookup_str (Sec_Data cm) eventsKey) of
             None \<Rightarrow> Inl (Msg ''unmarshal events'') | Some evs \<Rightarrow> Inr (Some evs)))"

definition List_events :: "'s client \<Rightarrow> unmarshal \<Rightarrow> string \<Rightarrow> int \<Rightarrow> 's \<Rightarrow> gerr + Event list" where
  "List_events C unmarshal project limit s =
     (case read_events C unmarshal project s of
        Inl err \<Rightarrow> Inl err
      | Inr None \<Rightarrow> Inr []
      | Inr (Some events) \<Rightarrow> Inr (take (clamp_limit limit) (rev events)))"

fun fill_page :: "nat \<Rightarrow> int \<Rightarrow> Event list \<Rightarrow> Event list" where
  \<comment> \<open>the loop of \<open>ListPage\<close> over the events, newest first, with the room left in the page\<close>
  "fill_page room before [] = []"
| "fill_page room before (ev # evs) =
     (if room = 0 then []
      else if before > 0 \<and> ae_Seq ev \<ge> before then fill_page room before evs
      else ev # fill_page (room - 1) before evs)"

definition page_of :: "Event list \<Rightarrow> nat \<Rightarrow> int \<Rightarrow> Event list \<times> string" where
  "page_of stored limit before =
     (let events = backfillSeq stored;
          page = fill_page limit before (rev events);
          oldestSeq = (if events = [] then 0 else ae_Seq (hd events));
          next_cursor = (if page \<noteq> [] \<and> ae_Seq (last page) > oldestSeq then show_int (ae_Seq (last page)) else [])
      in (page, next_cursor))"

definition parse_cursor :: "string \<Rightarrow> int option" where
  \<comment> \<open>\<open>before\<close>; 0 without a cursor, \<open>None\<close> for a bad one\<close>
  "parse_cursor cursor =
     (if cursor = [] then Some 0
      else (case Atoi cursor of None \<Rightarrow> None | Some n \<Rightarrow> if n \<le> 0 then None else Some n))"

definition ListPage :: "'s client \<Rightarrow> unmarshal \<Rightarrow> string \<Rightarrow> int \<Rightarrow> string \<Rightarrow> 's \<Rightarrow> gerr + Event list \<times> string" where
  "ListPage C unmarshal project limit cursor s =
     (case parse_cursor cursor of
        None \<Rightarrow> Inl (Msg (''activity: invalid cursor: '' @ [CHR 0x22] @ cursor @ [CHR 0x22]))
      | Some before \<Rightarrow>
          (case read_events C unmarshal project s of
             Inl err \<Rightarrow> Inl err
           | Inr None \<Rightarrow> Inr ([], [])
           | Inr (Some stored) \<Rightarrow> Inr (page_of stored (clamp_limit limit) before)))"

definition json_codec :: "marshal \<Rightarrow> unmarshal \<Rightarrow> bool" where
  "json_codec marshal unmarshal \<longleftrightarrow> (\<forall>evs data. marshal evs = Some data \<longrightarrow> data \<noteq> [] \<and> unmarshal data = Some evs)"

section \<open>Sequence numbers\<close>

definition seqs_ok :: "Event list \<Rightarrow> bool" where
  \<comment> \<open>positive and strictly increasing\<close>
  "seqs_ok evs \<longleftrightarrow> sorted_wrt (<) (map ae_Seq evs) \<and> (\<forall>ev \<in> set evs. 0 < ae_Seq ev)"

lemma backfill_id: "\<forall>ev \<in> set evs. ae_Seq ev \<noteq> 0 \<Longrightarrow> backfill m evs = evs"
  by (induction evs arbitrary: m) (auto simp: Let_def)

lemma seqs_ok_backfill: "seqs_ok evs \<Longrightarrow> backfillSeq evs = evs"
  unfolding backfillSeq_def by (rule backfill_id) (auto simp: seqs_ok_def)

lemma backfill_legacy:
  "0 \<le> m \<Longrightarrow> \<forall>ev \<in> set evs. ae_Seq ev = 0 \<Longrightarrow>
   seqs_ok (backfill m evs) \<and> (\<forall>ev \<in> set (backfill m evs). m < ae_Seq ev)"
proof (induction evs arbitrary: m)
  case (Cons ev evs)
  then have "seqs_ok (backfill (m + 1) evs) \<and> (\<forall>ev \<in> set (backfill (m + 1) evs). m + 1 < ae_Seq ev)" by simp
  with Cons.prems show ?case by (fastforce simp: seqs_ok_def Let_def)
qed (simp add: seqs_ok_def)

lemma nextSeq_fold:
  "m \<le> foldl (\<lambda>m ev. if ae_Seq ev > m then ae_Seq ev else m) m evs \<and>
   (\<forall>ev \<in> set evs. ae_Seq ev \<le> foldl (\<lambda>m ev. if ae_Seq ev > m then ae_Seq ev else m) m evs)"
proof (induction evs arbitrary: m)
  case (Cons ev evs)
  from Cons [of "if ae_Seq ev > m then ae_Seq ev else m"] show ?case by (auto split: if_splits)
qed simp

lemma nextSeq_greater: "0 < nextSeq evs" "ev \<in> set evs \<Longrightarrow> ae_Seq ev < nextSeq evs"
  using nextSeq_fold [of 0 evs] by (auto simp: nextSeq_def)

lemma seqs_ok_drop: "seqs_ok evs \<Longrightarrow> seqs_ok (drop n evs)"
  by (auto simp: seqs_ok_def drop_map [symmetric] sorted_wrt_drop dest: in_set_dropD)

lemma seqs_ok_snoc:
  "seqs_ok evs \<Longrightarrow> 0 < ae_Seq e \<Longrightarrow> \<forall>ev \<in> set evs. ae_Seq ev < ae_Seq e \<Longrightarrow> seqs_ok (evs @ [e])"
  by (auto simp: seqs_ok_def sorted_wrt_append)

lemma trimRetention_drop: "\<exists>n \<le> length evs. trimRetention evs now = drop n evs"
  unfolding trimRetention_def by (metis dropWhile_eq_drop length_takeWhile_le)

lemma trim_bytes_drop:
  "\<exists>n. trim_bytes marshal evs = drop n evs \<and> (evs \<noteq> [] \<longrightarrow> n < length evs) \<and>
     (length (drop n evs) \<le> 1 \<or> marshal (drop n evs) = None \<or> (\<exists>d. marshal (drop n evs) = Some d \<and> length d \<le> MaxBytes))"
proof (induction marshal evs rule: trim_bytes.induct)
  case (1 marshal evs)
  show ?case
  proof (cases "length evs > 1 \<and> (\<exists>d. marshal evs = Some d \<and> \<not> length d \<le> MaxBytes)")
    case False
    then have "trim_bytes marshal evs = evs" by (auto simp: trim_bytes.simps [of marshal evs] split: option.split)
    with False show ?thesis by (intro exI [of _ 0]) (auto split: option.splits)
  next
    case True
    then obtain d where d: "length evs > 1" "marshal evs = Some d" "\<not> length d \<le> MaxBytes" by blast
    define n where "n = (if length evs div 8 = 0 then 1 else length evs div 8)"
    have n: "n < length evs" using d(1) by (auto simp: n_def)
    have eq: "trim_bytes marshal evs = trim_bytes marshal (drop n evs)"
      using d by (simp add: trim_bytes.simps [of marshal evs] n_def Let_def)
    from "1.IH" [OF d refl n_def] obtain k where
      "trim_bytes marshal (drop n evs) = drop k (drop n evs)" "drop n evs \<noteq> [] \<longrightarrow> k < length (drop n evs)"
      "length (drop k (drop n evs)) \<le> 1 \<or> marshal (drop k (drop n evs)) = None \<or>
         (\<exists>d. marshal (drop k (drop n evs)) = Some d \<and> length d \<le> MaxBytes)" by blast
    with eq n show ?thesis by (intro exI [of _ "k + n"]) (auto simp: add.commute)
  qed
qed

lemma trimSize_drop:
  assumes "evs \<noteq> []"
  shows "\<exists>n < length evs. trimSize marshal evs = drop n evs \<and> length (drop n evs) \<le> Cap \<and>
     (length (drop n evs) \<le> 1 \<or> marshal (drop n evs) = None \<or> (\<exists>d. marshal (drop n evs) = Some d \<and> length d \<le> MaxBytes))"
proof -
  define k where "k = (if length evs > Cap then length evs - Cap else 0)"
  have k: "k < length evs" "length (drop k evs) \<le> Cap" using assms by (auto simp: k_def Cap_def)
  have eq: "trimSize marshal evs = trim_bytes marshal (drop k evs)" by (simp add: trimSize_def k_def)
  obtain n where n: "trim_bytes marshal (drop k evs) = drop n (drop k evs)" "drop k evs \<noteq> [] \<longrightarrow> n < length (drop k evs)"
    "length (drop n (drop k evs)) \<le> 1 \<or> marshal (drop n (drop k evs)) = None \<or>
       (\<exists>d. marshal (drop n (drop k evs)) = Some d \<and> length d \<le> MaxBytes)"
    using trim_bytes_drop by blast
  show ?thesis
    using eq n k by (intro exI [of _ "n + k"]) auto
qed

lemma append_events_spec:
  fixes marshal now e
  assumes "seqs_ok (backfillSeq stored)"
  defines "new \<equiv> append_events marshal now e stored" and "prior \<equiv> trimRetention (backfillSeq stored) now"
  shows "\<exists>n. new = drop n prior @ [e\<lparr>ae_Seq := nextSeq (backfillSeq stored)\<rparr>]"
    and "seqs_ok new" and "length new \<le> Cap"
    and "length new \<le> 1 \<or> marshal new = None \<or> (\<exists>d. marshal new = Some d \<and> length d \<le> MaxBytes)"
proof -
  let ?e = "e\<lparr>ae_Seq := nextSeq (backfillSeq stored)\<rparr>"
  obtain n where n: "n < length (prior @ [?e])" "new = drop n (prior @ [?e])" "length new \<le> Cap"
    "length new \<le> 1 \<or> marshal new = None \<or> (\<exists>d. marshal new = Some d \<and> length d \<le> MaxBytes)"
    using trimSize_drop [of "prior @ [?e]" marshal] by (auto simp: new_def append_events_def prior_def Let_def)
  then show "\<exists>n. new = drop n prior @ [?e]" "length new \<le> Cap"
    "length new \<le> 1 \<or> marshal new = None \<or> (\<exists>d. marshal new = Some d \<and> length d \<le> MaxBytes)"
    by (auto simp: less_Suc_eq_le)
  obtain k where k: "prior = drop k (backfillSeq stored)" using trimRetention_drop prior_def by blast
  have "seqs_ok (prior @ [?e])"
    unfolding k using assms(1) nextSeq_greater by (intro seqs_ok_snoc seqs_ok_drop) (auto dest: in_set_dropD)
  then show "seqs_ok new" unfolding n(2) by (rule seqs_ok_drop)
qed

section \<open>Pages\<close>

definition visible :: "int \<Rightarrow> Event \<Rightarrow> bool" where
  "visible before ev \<longleftrightarrow> \<not> (before > 0 \<and> ae_Seq ev \<ge> before)"

lemma fill_page_take: "fill_page room before evs = take room (filter (visible before) evs)"
proof (induction room before evs rule: fill_page.induct)
  case (2 room before ev evs)
  then show ?case by (cases room) (auto simp: visible_def)
qed simp

fun walk :: "nat \<Rightarrow> Event list \<Rightarrow> nat \<Rightarrow> int \<Rightarrow> Event list" where
  \<comment> \<open>a reader that follows the cursors, for at most so many pages\<close>
  "walk 0 stored limit before = []"
| "walk (Suc n) stored limit before =
     (case page_of stored limit before of (page, cursor) \<Rightarrow>
        page @ (if cursor = [] then []
                else (case parse_cursor cursor of None \<Rightarrow> [] | Some b \<Rightarrow> walk n stored limit b)))"

lemma filter_below:
  assumes "sorted_wrt (>) (map ae_Seq (xs @ y # zs))" "0 < ae_Seq y"
  shows "filter (visible (ae_Seq y)) (xs @ y # zs) = zs"
proof -
  have "\<forall>x \<in> set xs. ae_Seq x > ae_Seq y" "\<forall>z \<in> set zs. ae_Seq y > ae_Seq z"
    using assms(1) by (auto simp: sorted_wrt_append)
  then have "filter (visible (ae_Seq y)) xs = []" "filter (visible (ae_Seq y)) zs = zs"
    using assms(2) by (auto simp: visible_def filter_empty_conv filter_id_conv)
  with assms(2) show ?thesis by (simp add: visible_def)
qed

lemma parse_show_cursor: "0 < n \<Longrightarrow> n < 2 ^ 63 \<Longrightarrow> show_int n \<noteq> [] \<and> parse_cursor (show_int n) = Some n"
  by (auto simp: show_int_def parse_cursor_def Atoi_show_nat)

lemma walk_suffix:
  assumes ok: "seqs_ok evs" "\<forall>ev \<in> set evs. ae_Seq ev < 2 ^ 63" and stored: "backfillSeq stored = evs" and lim: "0 < limit"
  shows "rev evs = xs @ D \<Longrightarrow> filter (visible before) (rev evs) = D \<Longrightarrow> length D < n \<Longrightarrow> walk n stored limit before = D"
proof (induction n arbitrary: xs D before)
  case (Suc n)
  have dec: "sorted_wrt (>) (map ae_Seq (rev evs))"
    using ok(1) by (simp add: seqs_ok_def sorted_wrt_rev flip: rev_map)
  define page where "page = take limit D"
  have page: "page_of stored limit before =
      (page, if page \<noteq> [] \<and> ae_Seq (last page) > (if evs = [] then 0 else ae_Seq (hd evs)) then show_int (ae_Seq (last page)) else [])"
    using Suc.prems(2) by (simp add: page_of_def stored Let_def fill_page_take page_def)
  show ?case
  proof (cases "length D \<le> limit")
    case True
    then have all: "page = D" by (simp add: page_def)
    have "page \<noteq> [] \<Longrightarrow> evs \<noteq> [] \<and> last page = hd evs"
      using Suc.prems(1) by (metis all append_is_Nil_conv hd_rev last_appendR rev_is_Nil_conv rev_rev_ident)
    then show ?thesis using page all by auto
  next
    case False
    define ys y zs where "ys = take (limit - 1) D" and "y = D ! (limit - 1)" and "zs = drop limit D"
    have lt: "limit - 1 < length D" and suc: "Suc (limit - 1) = limit" using False lim by simp_all
    have D: "D = ys @ y # zs" "zs \<noteq> []"
      using id_take_nth_drop [OF lt] False suc by (simp_all add: ys_def y_def zs_def)
    have pg: "page = ys @ [y]"
      using take_Suc_conv_app_nth [OF lt] suc by (simp add: page_def ys_def y_def)
    have evs: "evs = rev zs @ y # rev (xs @ ys)"
      using arg_cong [OF Suc.prems(1), of rev] D(1) by simp
    then have y: "y \<in> set evs" "hd evs = last zs" "evs \<noteq> []" using D(2) by (simp_all add: hd_rev)
    have "ae_Seq y > ae_Seq (last zs)"
      using dec D Suc.prems(1) last_in_set [OF D(2)] by (auto simp: sorted_wrt_append)
    moreover have pos: "0 < ae_Seq y" "ae_Seq y < 2 ^ 63" using ok y(1) by (auto simp: seqs_ok_def)
    ultimately have "walk (Suc n) stored limit before = page @ walk n stored limit (ae_Seq y)"
      using page pg y parse_show_cursor [OF pos] by simp
    also have "walk n stored limit (ae_Seq y) = zs"
    proof (rule Suc.IH)
      show "rev evs = (xs @ ys @ [y]) @ zs" using Suc.prems(1) D(1) by simp
      then have "rev evs = (xs @ ys) @ y # zs" by simp
      with filter_below [of "xs @ ys" y zs] dec pos(1) show "filter (visible (ae_Seq y)) (rev evs) = zs" by metis
      show "length zs < n" using Suc.prems(3) D(1) by simp
    qed
    finally show ?thesis using pg D(1) by simp
  qed
qed simp

section \<open>Atomicity\<close>

lemma append_attempts_last:
  assumes "append_attempts n done f s = (None, s')" "P s" "\<And>k s r s1. P s \<Longrightarrow> f k s = (r, s1) \<Longrightarrow> P s1"
  shows "\<exists>k s0. P s0 \<and> (f k s0 = (None, s') \<or> (\<exists>err. is_not_found err \<and> f k s0 = (Some err, s')))"
  using assms(1,2)
proof (induction n arbitrary: s)
  case (Suc n)
  obtain r s1 where r: "f n s = (r, s1)" by force
  from assms(3) [OF Suc.prems(2) r] have "P s1" .
  then show ?case
    using r Suc by (auto split: option.splits if_splits)
qed simp

lemma appendOnce_ok:
  assumes "api_server C ok view hist" "ok s" "appendOnce C marshal unmarshal now e s = (r, s')"
  shows "ok s'"
proof -
  obtain r0 s1 where get: "kGet C s (activity_key (ae_Project e)) = (r0, s1)" by force
  note ok1 = api_get_ok [OF assms(1,2) get]
  note steps = api_create_ok [OF assms(1) ok1] api_update_ok [OF assms(1) ok1]
  show ?thesis
  proof (cases r0)
    case Inl
    with get assms(3) show ?thesis
      using ok1 by (auto simp: appendOnce_def split: prod.splits if_splits option.splits dest: steps)
  next
    case Inr
    with get assms(3) show ?thesis
      using ok1 by (auto simp: appendOnce_def split: prod.splits option.splits dest: steps)
  qed
qed

definition appended ::
  "('s \<Rightarrow> nn \<rightharpoonup> secret) \<Rightarrow> marshal \<Rightarrow> unmarshal \<Rightarrow> int \<Rightarrow> Event \<Rightarrow> 's \<Rightarrow> 's \<Rightarrow> bool" where
  \<comment> \<open>the log stored in \<open>s1\<close> is replaced by the log with the event\<close>
  "appended view marshal unmarshal now e s1 s' \<longleftrightarrow>
     (\<exists>cm old data v. view s1 (activity_key (ae_Project e)) = Some cm \<and>
        unmarshalEvents unmarshal (lookup_str (Sec_Data cm) eventsKey) = Some old \<and>
        view s' = (view s1)(activity_key (ae_Project e) \<mapsto>
          cm\<lparr>Sec_Data := AList.update eventsKey data (Sec_Data cm), Sec_RV := v\<rparr>) \<and>
        unmarshal data = Some (append_events marshal now e old))"

definition started ::
  "('s \<Rightarrow> nn \<rightharpoonup> secret) \<Rightarrow> unmarshal \<Rightarrow> Event \<Rightarrow> 's \<Rightarrow> 's \<Rightarrow> bool" where
  \<comment> \<open>there is no log in \<open>s1\<close>, and one with just the event in \<open>s'\<close>\<close>
  "started view unmarshal e s1 s' \<longleftrightarrow>
     (\<exists>data v. view s1 (activity_key (ae_Project e)) = None \<and>
        view s' = (view s1)(activity_key (ae_Project e) \<mapsto> (new_log (ae_Project e) data)\<lparr>Sec_RV := v\<rparr>) \<and>
        unmarshal data = Some [e])"

lemma appendOnce_atomic:
  assumes srv: "api_server C ok view hist" and ok: "ok s" and codec: "json_codec marshal unmarshal"
    and res: "appendOnce C marshal unmarshal now e s = (None, s')"
  shows "\<exists>s1. appended view marshal unmarshal now e s1 s' \<or> started view unmarshal e s1 s'"
proof -
  let ?k = "activity_key (ae_Project e)"
  obtain r s1 where get: "kGet C s ?k = (r, s1)" by force
  note ok1 = api_get_ok [OF srv ok get]
  show ?thesis
  proof (cases r)
    case (Inl err)
    with res get obtain data where d: "marshal [e] = Some data" "kCreate C s1 (new_log (ae_Project e) data) = (None, s')"
      by (auto simp: appendOnce_def split: if_splits option.splits prod.splits)
    have "sec_key (new_log (ae_Project e) data) = ?k" by (simp add: new_log_def sec_key_def activity_key_def)
    with api_create [OF srv ok1 d(2)] codec d(1) have "started view unmarshal e s1 s'"
      by (auto simp: started_def json_codec_def)
    then show ?thesis by blast
  next
    case (Inr cm)
    define new where "new data = cm\<lparr>Sec_Data := AList.update eventsKey data (Sec_Data cm)\<rparr>" for data
    from Inr res get obtain stored data where
      d: "unmarshalEvents unmarshal (lookup_str (Sec_Data cm) eventsKey) = Some stored"
         "marshal (append_events marshal now e stored) = Some data" "kUpdate C s1 (new data) = (None, s')"
      by (auto simp: appendOnce_def new_def split: if_splits option.splits prod.splits)
    have key: "sec_key (new data) = ?k"
      using api_get(3) [OF srv ok] get Inr by (auto simp: new_def sec_key_def)
    from api_update_replaces_read [OF srv ok _ d(3) key] get Inr obtain v where
      "view s1 ?k = Some cm" "view s' = (view s1)(?k \<mapsto> (new data)\<lparr>Sec_RV := v\<rparr>)"
      by (auto simp: new_def)
    with d codec have "appended view marshal unmarshal now e s1 s'"
      by (auto simp: appended_def json_codec_def new_def)
    then show ?thesis by blast
  qed
qed

section \<open>Properties\<close>


definition ex_event :: "string \<Rightarrow> int \<Rightarrow> Event" where
  "ex_event actor n = \<lparr>ae_Seq = n, ae_Timestamp = 0, ae_Actor = actor, ae_Action = ''create'', ae_ResourceKind = ''app'',
     ae_ResourceName = ''api'', ae_Project = ''web'', ae_Message = [], ae_Metadata = []\<rparr>"


text \<open>
  C17: Pagination is complete: a reader that follows the cursors of \<open>ListPage\<close>, with any page size, while the log is not
  written to, sees every event exactly once, newest first, and stops.
\<close>

theorem pagination_complete:
  assumes "seqs_ok (backfillSeq stored)" "\<forall>ev \<in> set (backfillSeq stored). ae_Seq ev < 2 ^ 63"
    and "length stored < n"
  shows "walk n stored (clamp_limit limit) 0 = rev (backfillSeq stored)"
proof -
  have len: "length (backfill m evs) = length evs" for m evs
    by (induction evs arbitrary: m) (auto simp: Let_def)
  have "0 < clamp_limit limit" by (auto simp: clamp_limit_def Cap_def)
  from walk_suffix [OF assms(1,2) refl this, of "[]" _ 0] show ?thesis
    using assms(3) by (simp add: visible_def [abs_def] len backfillSeq_def)
qed

theorem pagination_complete_witness:
  "walk 4 [ex_event ''a'' 1, ex_event ''b'' 2, ex_event ''c'' 5] (clamp_limit 2) 0 =
     [ex_event ''c'' 5, ex_event ''b'' 2, ex_event ''a'' 1]"
proof -
  have "backfillSeq [ex_event ''a'' 1, ex_event ''b'' 2, ex_event ''c'' 5] = [ex_event ''a'' 1, ex_event ''b'' 2, ex_event ''c'' 5]"
    by (simp add: backfillSeq_def ex_event_def)
  with pagination_complete [of "[ex_event ''a'' 1, ex_event ''b'' 2, ex_event ''c'' 5]" 4 2] show ?thesis
    by (simp add: seqs_ok_def ex_event_def)
qed


text \<open>
  C18: An \<open>Append\<close> that returns no error is atomic: the log stored at that moment was replaced by the log
  that \<open>appendOnce\<close> computes from it, or a missing log was created with the event, and no other object changed;
  otherwise the API server answered that an object or the namespace does not exist, the one error that is swallowed.
  Concurrent appends never drop each other's events.
\<close>

theorem Append_atomic:
  assumes "api_server C ok view hist" "ok s" "json_codec marshal unmarshal"
    and "Append C marshal unmarshal done now e s = (None, s')"
  shows "(\<exists>n s1. appended view marshal unmarshal (now n) e s1 s' \<or> started view unmarshal e s1 s') \<or>
     (\<exists>n s1 err. is_not_found err \<and> appendOnce C marshal unmarshal (now n) e s1 = (Some err, s'))"
proof -
  have keep: "\<And>k s r s1. ok s \<Longrightarrow> appendOnce C marshal unmarshal (now k) e s = (r, s1) \<Longrightarrow> ok s1"
    by (rule appendOnce_ok [OF assms(1)])
  obtain k s0 where k: "ok s0" "appendOnce C marshal unmarshal (now k) e s0 = (None, s') \<or>
      (\<exists>err. is_not_found err \<and> appendOnce C marshal unmarshal (now k) e s0 = (Some err, s'))"
    using append_attempts_last [where P = ok, OF assms(4)[unfolded Append_def] assms(2)] keep by blast
  from k(2) show ?thesis
    using appendOnce_atomic [OF assms(1) k(1) assms(3)] by blast
qed

definition ex_marshal :: marshal where
  \<comment> \<open>a codec for the logs with one certain event\<close>
  "ex_marshal evs = (if evs = [ex_event ''a'' 0] then Some ''json'' else None)"

definition ex_unmarshal :: unmarshal where
  "ex_unmarshal data = (if data = ''json'' then Some [ex_event ''a'' 0] else None)"

theorem Append_atomic_witness:
  "(\<exists>n s1. appended (\<lambda>s. map_of (mem_objs s)) ex_marshal ex_unmarshal n (ex_event ''a'' 0) s1
        (snd (Append mem_client ex_marshal ex_unmarshal (\<lambda>_. False) (\<lambda>_. 0) (ex_event ''a'' 0) mem_empty)) \<or>
      started (\<lambda>s. map_of (mem_objs s)) ex_unmarshal (ex_event ''a'' 0) s1
        (snd (Append mem_client ex_marshal ex_unmarshal (\<lambda>_. False) (\<lambda>_. 0) (ex_event ''a'' 0) mem_empty))) \<or>
   (\<exists>n s1 err. is_not_found err \<and> appendOnce mem_client ex_marshal ex_unmarshal n (ex_event ''a'' 0) s1 =
        (Some err, snd (Append mem_client ex_marshal ex_unmarshal (\<lambda>_. False) (\<lambda>_. 0) (ex_event ''a'' 0) mem_empty)))"
proof -
  have "json_codec ex_marshal ex_unmarshal"
    by (auto simp: json_codec_def ex_marshal_def ex_unmarshal_def split: if_splits)
  from Append_atomic [OF mem_api_server mem_empty_ok this,
      of "\<lambda>_. False" "\<lambda>_. 0" "ex_event ''a'' 0" "snd (Append mem_client ex_marshal ex_unmarshal (\<lambda>_. False) (\<lambda>_. 0) (ex_event ''a'' 0) mem_empty)"]
  show ?thesis
    by (auto simp: Append_def maxConflictRetries_def numeral_eq_Suc appendOnce_def mem_client_def mem_empty_def ex_marshal_def)
qed

end
