(* ===== verification/Forge.thy ===== *)
theory Forge
  imports Types Constants
begin

text \<open>
  Git forges as the program knows them: the \<open>GitProvider\<close> resource, the three clients that
  \<open>internal/git/factory.go\<close> constructs, and how each verifies an inbound webhook. What the
  clients do over the network is left out. Parameters: \<open>hmac\<close> (HMAC-SHA256 of the standard
  library, key first), \<open>sdk_ok\<close> (whether the vendor's client library accepts the base URL).

  A request header is the function \<open>Header.Get\<close>: the empty string for an absent header.
\<close>

section \<open>Resources\<close>

datatype GitProviderType = GitProviderTypeGitHub | GitProviderTypeGitLab | GitProviderTypeGitea | GitProviderTypeOther string

record GitProviderSpec =
  gps_Type :: GitProviderType
  gps_Host :: string
  gps_ClientID :: string
  gps_ClientSecretRef :: "SecretRef option"
  gps_WebhookSecretRef :: "SecretRef option"

datatype GitProviderPhase = GitProviderPhaseUnset | GitProviderPhasePending | GitProviderPhaseReady | GitProviderPhaseFailed

record GitProviderStatus =
  gpst_Phase :: GitProviderPhase
  gpst_Conditions :: "Condition list"

record GitProvider =
  gp_Name :: string
  gp_Generation :: int
  gp_Spec :: GitProviderSpec
  gp_Status :: GitProviderStatus

datatype PreviewPhase = PreviewPhaseUnset | PreviewPhasePending | PreviewPhaseReady | PreviewPhaseFailed

record PullRequestRef =
  prr_Number :: int
  prr_Branch :: string
  prr_SHA :: string
  prr_Repo :: string

record PreviewEnvironmentSpec =
  pes_ProjectRef :: string
  pes_SourceEnv :: string
  pes_PullRequest :: PullRequestRef

record PreviewEnvironmentStatus =
  pest_Phase :: PreviewPhase
  pest_EnvironmentName :: string
  pest_Conditions :: "Condition list"

record PreviewEnvironment =
  pv_Namespace :: string
  pv_Name :: string
  pv_Finalizers :: "string list"
  pv_CreationTimestamp :: int
  pv_DeletionTimestamp :: "int option"
  pv_Spec :: PreviewEnvironmentSpec
  pv_Status :: PreviewEnvironmentStatus

definition no_preview_status :: PreviewEnvironmentStatus where
  "no_preview_status = \<lparr>pest_Phase = PreviewPhaseUnset, pest_EnvironmentName = [], pest_Conditions = []\<rparr>"

definition new_preview :: "string \<Rightarrow> string \<Rightarrow> PreviewEnvironmentSpec \<Rightarrow> PreviewEnvironment" where
  \<comment> \<open>the composite literal with just a name, a namespace and a specification\<close>
  "new_preview ns name spec =
     \<lparr>pv_Namespace = ns, pv_Name = name, pv_Finalizers = [], pv_CreationTimestamp = 0, pv_DeletionTimestamp = None,
      pv_Spec = spec, pv_Status = no_preview_status\<rparr>"

section \<open>Clients and signatures\<close>

record GitHubAPI =
  gh_token :: string
  gh_secret :: string

record GitLabAPI =
  gl_token :: string
  gl_secret :: string

record GiteaAPI =
  gt_token :: string
  gt_secret :: string

datatype GitAPI = GitHub GitHubAPI | GitLab GitLabAPI | Gitea GiteaAPI

definition NewGitAPIFromProvider :: "(string \<Rightarrow> bool) \<Rightarrow> GitProvider \<Rightarrow> string \<Rightarrow> string \<Rightarrow> gerr + GitAPI" where
  "NewGitAPIFromProvider sdk_ok gp token webhookSecret =
     (case gps_Type (gp_Spec gp) of
        GitProviderTypeGitHub \<Rightarrow>
          if gps_Host (gp_Spec gp) = [] \<or> gps_Host (gp_Spec gp) = ''https://github.com'' \<or> sdk_ok (gps_Host (gp_Spec gp))
          then Inr (GitHub \<lparr>gh_token = token, gh_secret = webhookSecret\<rparr>)
          else Inl (Msg ''new github enterprise client'')
      | GitProviderTypeGitLab \<Rightarrow>
          if sdk_ok (gps_Host (gp_Spec gp)) then Inr (GitLab \<lparr>gl_token = token, gl_secret = webhookSecret\<rparr>)
          else Inl (Msg ''new gitlab client'')
      | GitProviderTypeGitea \<Rightarrow>
          if sdk_ok (gps_Host (gp_Spec gp)) then Inr (Gitea \<lparr>gt_token = token, gt_secret = webhookSecret\<rparr>)
          else Inl (Msg ''new gitea client'')
      | GitProviderTypeOther t \<Rightarrow> Inl (Msg (''unsupported git provider type: '' @ t)))"

definition VerifyGitHub :: "(string \<Rightarrow> string \<Rightarrow> string) \<Rightarrow> string \<Rightarrow> string \<Rightarrow> (string \<Rightarrow> string) \<Rightarrow> gerr option" where
  "VerifyGitHub hmac secret body header =
     (let sig = header ''X-Hub-Signature-256''
      in if sig = [] then Some (Msg ''missing X-Hub-Signature-256 header'')
         else if trim_prefix sig ''sha256='' \<noteq> hex_encode (hmac secret body) then Some (Msg ''signature mismatch'')
         else None)"

definition VerifyGitLab :: "string \<Rightarrow> (string \<Rightarrow> string) \<Rightarrow> gerr option" where
  "VerifyGitLab secret header =
     (let got = header ''X-Gitlab-Token''
      in if got = [] then Some (Msg ''missing X-Gitlab-Token header'')
         else if got \<noteq> secret then Some (Msg ''token mismatch'')
         else None)"

definition VerifyGitea :: "(string \<Rightarrow> string \<Rightarrow> string) \<Rightarrow> string \<Rightarrow> string \<Rightarrow> (string \<Rightarrow> string) \<Rightarrow> gerr option" where
  "VerifyGitea hmac secret body header =
     (let sig = header ''X-Gitea-Signature''
      in if sig = [] then Some (Msg ''missing X-Gitea-Signature header'')
         else if sig \<noteq> hex_encode (hmac secret body) then Some (Msg ''signature mismatch'')
         else None)"

fun VerifyWebhookSignature :: "(string \<Rightarrow> string \<Rightarrow> string) \<Rightarrow> GitAPI \<Rightarrow> string \<Rightarrow> (string \<Rightarrow> string) \<Rightarrow> gerr option" where
  "VerifyWebhookSignature hmac (GitHub api) body header = VerifyGitHub hmac (gh_secret api) body header"
| "VerifyWebhookSignature hmac (GitLab api) body header = VerifyGitLab (gl_secret api) header"
| "VerifyWebhookSignature hmac (Gitea api) body header = VerifyGitea hmac (gt_secret api) body header"

text \<open>
  What a verified delivery proves: the sender knows the shared secret. A GitLab delivery
  carries the secret itself and says nothing about its body.
\<close>

definition knows_secret :: "(string \<Rightarrow> string \<Rightarrow> string) \<Rightarrow> GitProviderType \<Rightarrow> string \<Rightarrow> string \<Rightarrow> (string \<Rightarrow> string) \<Rightarrow> bool" where
  "knows_secret hmac type secret body header \<longleftrightarrow>
     (case type of
        GitProviderTypeGitHub \<Rightarrow>
          header ''X-Hub-Signature-256'' \<in> {hex_encode (hmac secret body), ''sha256='' @ hex_encode (hmac secret body)}
      | GitProviderTypeGitLab \<Rightarrow> secret \<noteq> [] \<and> header ''X-Gitlab-Token'' = secret
      | GitProviderTypeGitea \<Rightarrow> header ''X-Gitea-Signature'' = hex_encode (hmac secret body)
      | GitProviderTypeOther _ \<Rightarrow> False)"

lemma verified_knows_secret:
  assumes "NewGitAPIFromProvider sdk_ok gp token secret = Inr api" "VerifyWebhookSignature hmac api body header = None"
  shows "knows_secret hmac (gps_Type (gp_Spec gp)) secret body header"
  using assms
  by (auto simp: NewGitAPIFromProvider_def knows_secret_def VerifyGitHub_def VerifyGitLab_def VerifyGitea_def Let_def
      trim_prefix_def has_prefix_conv split: GitProviderType.splits if_splits)

end
