(* ===== verification/Webhook.thy ===== *)
theory Webhook
  imports Forge
begin

text \<open>
  Package \<open>internal/webhook\<close>: the unauthenticated endpoint that turns deliveries of a git
  forge into rebuilds (an annotation on each matching application) and preview environments.

  Parameters: the API client \<open>hooks\<close> with the typed operations \<open>k8s.go\<close> uses, the library's
  conflict retry and condition helpers (\<open>cond_lib\<close>), the JSON decoder (\<open>json_lib\<close>, \<open>None\<close> on a
  decoding error), \<open>hmac\<close>, \<open>sdk_ok\<close> and \<open>url_path\<close> as in the other theories. Errors that the
  handler only logs are dropped where the code drops them.
\<close>

section \<open>The API as the package uses it\<close>

record 's hooks =
  hk_GetProvider :: "'s \<Rightarrow> string \<Rightarrow> (kerr + GitProvider) \<times> 's"
  hk_ListProviders :: "'s \<Rightarrow> (kerr + GitProvider list) \<times> 's"
  hk_UpdateProviderStatus :: "'s \<Rightarrow> GitProvider \<Rightarrow> kerr option \<times> 's"
  hk_GetProject :: "'s \<Rightarrow> string \<Rightarrow> (kerr + Project) \<times> 's"
  hk_GetSecret :: "'s \<Rightarrow> nn \<Rightarrow> (kerr + secret) \<times> 's"
  hk_ListApps :: "'s \<Rightarrow> (kerr + App list) \<times> 's"
  hk_PatchAnnotation :: "'s \<Rightarrow> App \<Rightarrow> string \<Rightarrow> string \<Rightarrow> kerr option \<times> 's"
  hk_GetPreview :: "'s \<Rightarrow> nn \<Rightarrow> (kerr + PreviewEnvironment) \<times> 's"
  hk_CreatePreview :: "'s \<Rightarrow> PreviewEnvironment \<Rightarrow> kerr option \<times> 's"
  hk_UpdatePreview :: "'s \<Rightarrow> PreviewEnvironment \<Rightarrow> kerr option \<times> 's"
  hk_DeletePreview :: "'s \<Rightarrow> nn \<Rightarrow> kerr option \<times> 's"

record cond_lib =
  cl_Find :: "Condition list \<Rightarrow> string \<Rightarrow> Condition option"
  cl_Set :: "Condition \<Rightarrow> Condition list \<Rightarrow> Condition list"
  cl_Remove :: "string \<Rightarrow> Condition list \<Rightarrow> Condition list"
  cl_RFC3339 :: "int \<Rightarrow> string"

definition countGitProviders :: "'s hooks \<Rightarrow> 's \<Rightarrow> (kerr + nat) \<times> 's" where
  "countGitProviders K s =
     (case hk_ListProviders K s of (Inl err, s1) \<Rightarrow> (Inl err, s1) | (Inr items, s1) \<Rightarrow> (Inr (length items), s1))"

definition hook_secret :: "'s hooks \<Rightarrow> string \<Rightarrow> string \<Rightarrow> string \<Rightarrow> 's \<Rightarrow> (gerr + string) \<times> 's" where
  "hook_secret K namespace name key s =
     (case hk_GetSecret K s (namespace, name) of
        (Inl err, s1) \<Rightarrow> (Inl (Api (''get secret '' @ namespace @ ''/'' @ name) err), s1)
      | (Inr sec, s1) \<Rightarrow>
          (case map_of (Sec_Data sec) key of
             None \<Rightarrow> (Inl (Msg (''key '' @ key @ '' not found in secret '' @ namespace @ ''/'' @ name)), s1)
           | Some v \<Rightarrow> (Inr v, s1)))"

definition listGitApps :: "'s hooks \<Rightarrow> 's \<Rightarrow> (kerr + App list) \<times> 's" where
  "listGitApps K s =
     (case hk_ListApps K s of
        (Inl err, s1) \<Rightarrow> (Inl err, s1)
      | (Inr items, s1) \<Rightarrow> (Inr (filter (\<lambda>a. src_Type (spec_Source (app_Spec a)) = SourceTypeGit) items), s1))"

definition patchAppRevision :: "'s hooks \<Rightarrow> App \<Rightarrow> string \<Rightarrow> 's \<Rightarrow> kerr option \<times> 's" where
  "patchAppRevision K app sha s = hk_PatchAnnotation K s app ''mortise.dev/revision'' sha"

definition deletePreviewEnvironment :: "'s hooks \<Rightarrow> string \<Rightarrow> string \<Rightarrow> 's \<Rightarrow> kerr option \<times> 's" where
  "deletePreviewEnvironment K namespace name s =
     (case hk_DeletePreview K s (namespace, name) of
        (Some err, s1) \<Rightarrow> (if err = NotFound then None else Some err, s1)
      | (None, s1) \<Rightarrow> (None, s1))"

definition WebhookSignatureCondition :: string where "WebhookSignatureCondition = ''WebhookSignature''"

definition signature_attempt :: "'s hooks \<Rightarrow> cond_lib \<Rightarrow> string \<Rightarrow> bool \<Rightarrow> int \<Rightarrow> 's call" where
  \<comment> \<open>the closure of \<open>setWebhookSignatureCondition\<close>\<close>
  "signature_attempt K L providerName mismatch now s =
     (case hk_GetProvider K s providerName of
        (Inl err, s1) \<Rightarrow> (Some (Api [] err), s1)
      | (Inr gp, s1) \<Rightarrow>
          let conds = gpst_Conditions (gp_Status gp);
              put = (\<lambda>cs. case hk_UpdateProviderStatus K s1 (gp\<lparr>gp_Status := (gp_Status gp)\<lparr>gpst_Conditions := cs\<rparr>\<rparr>) of
                       (r, s2) \<Rightarrow> (map_option (Api []) r, s2))
          in if \<not> mismatch then
               (if cl_Find L conds WebhookSignatureCondition = None then (None, s1)
                else put (cl_Remove L WebhookSignatureCondition conds))
             else put (cl_Set L \<lparr>cond_Type = WebhookSignatureCondition, cond_Status = ''False'',
                          cond_ObservedGeneration = gp_Generation gp, cond_LastTransitionTime = 0,
                          cond_Reason = ''SignatureMismatch'',
                          cond_Message = 
                            ''a delivery to /api/webhooks/'' @ providerName @ '' at '' @ cl_RFC3339 L now @ '' failed HMAC verification: the hook'' @ [CHR 0x27] @ ''s secret on the git host does not match webhookSecretRef, so pushes are not deploying. Delete the hook on the git host (the operator re-registers it on the App'' @ [CHR 0x27] @ ''s next reconcile), or restore the Secret the hook was registered with''\<rparr> conds))"

definition setWebhookSignatureCondition ::
  "'s hooks \<Rightarrow> ('s call \<Rightarrow> 's call) \<Rightarrow> cond_lib \<Rightarrow> string \<Rightarrow> bool \<Rightarrow> int \<Rightarrow> 's call" where
  "setWebhookSignatureCondition K retry L providerName mismatch now =
     retry (signature_attempt K L providerName mismatch now)"

section \<open>Payloads\<close>

record BuildRequest =
  brq_Provider :: string
  brq_Repo :: string
  brq_Ref :: string
  brq_SHA :: string
  brq_ChangedPaths :: "string list option"

record PREvent =
  pr_Provider :: string
  pr_Repo :: string
  pr_Number :: int
  pr_Action :: string
  pr_Branch :: string
  pr_SHA :: string
  pr_AuthorIsBot :: bool

record commit =
  cm_Added :: "string list"
  cm_Modified :: "string list"
  cm_Removed :: "string list"

record pushPayload =
  pp_Ref :: string
  pp_SHA :: string
  pp_FullName :: string
  pp_HTMLURL :: string
  pp_Commits :: "commit list option"

record prPayload =
  prp_Action :: string
  prp_Number :: int
  prp_PRNumber :: int
  prp_HeadRef :: string
  prp_HeadSHA :: string
  prp_UserLogin :: string
  prp_UserType :: string
  prp_OAAction :: string
  prp_OAIID :: int
  prp_OASourceBranch :: string
  prp_OALastCommitID :: string
  prp_OAState :: string
  prp_FullName :: string
  prp_HTMLURL :: string

record json_lib =
  js_Object :: "string \<Rightarrow> string gomap option"
  js_Push :: "string \<Rightarrow> pushPayload option"
  js_PR :: "string \<Rightarrow> prPayload option"
  js_String :: "string \<Rightarrow> string option"

definition changed_paths :: "commit list \<Rightarrow> string list" where
  \<comment> \<open>the three nested loops of \<open>parsePushEvent\<close>; \<open>seen\<close> is the set of the paths collected\<close>
  "changed_paths commits =
     fold (\<lambda>path changed. if path = [] \<or> path \<in> set changed then changed else changed @ [path])
       (concat (map (\<lambda>c. cm_Added c @ cm_Modified c @ cm_Removed c) commits)) []"

definition zero_sha :: string where "zero_sha = replicate 40 (CHR ''0'')"

definition parsePushEvent :: "json_lib \<Rightarrow> GitProviderType \<Rightarrow> string \<Rightarrow> BuildRequest option" where
  "parsePushEvent J providerType body =
     (case js_Object J body of
        None \<Rightarrow> None
      | Some raw \<Rightarrow>
          if map_of raw ''pull_request'' \<noteq> None then None
          else
            (case js_Push J body of
               None \<Rightarrow> None
             | Some p \<Rightarrow>
                 if pp_Ref p = [] then None
                 else
                   let sha = (if providerType = GitProviderTypeGitLab
                              then (case map_of raw ''checkout_sha'' of
                                      None \<Rightarrow> pp_SHA p
                                    | Some v \<Rightarrow> (case js_String J v of None \<Rightarrow> pp_SHA p | Some x \<Rightarrow> x))
                              else pp_SHA p)
                   in if sha = [] \<or> sha = zero_sha then None
                      else Some \<lparr>brq_Provider = [], brq_Repo = (if pp_FullName p = [] then pp_HTMLURL p else pp_FullName p),
                                 brq_Ref = pp_Ref p, brq_SHA = sha, brq_ChangedPaths = map_option changed_paths (pp_Commits p)\<rparr>))"

definition payloadAuthorIsBot :: "prPayload \<Rightarrow> bool" where
  "payloadAuthorIsBot p \<longleftrightarrow> to_lower (prp_UserType p) = ''bot'' \<or> has_suffix (to_lower (prp_UserLogin p)) ''[bot]''"

definition normalizeAction :: "string \<Rightarrow> string" where
  "normalizeAction action =
     (if action \<in> {''opened'', ''reopened''} then ''opened''
      else if action \<in> {''synchronize'', ''synchronized''} then ''synchronize''
      else if action \<in> {''closed'', ''merged''} then ''closed''
      else [])"

definition normalizeGitLabAction :: "string \<Rightarrow> string \<Rightarrow> string" where
  "normalizeGitLabAction action state =
     (if action = ''open'' then ''opened''
      else if action = ''update'' then ''synchronize''
      else if action \<in> {''close'', ''merge''} then ''closed''
      else if state = ''opened'' then ''opened''
      else if state \<in> {''closed'', ''merged''} then ''closed''
      else [])"

definition pull_request_event :: "json_lib \<Rightarrow> string \<Rightarrow> PREvent option" where
  \<comment> \<open>the common tail of \<open>parseGitHubPREvent\<close> and \<open>parseGiteaPREvent\<close>\<close>
  "pull_request_event J body =
     (case js_PR J body of
        None \<Rightarrow> None
      | Some p \<Rightarrow>
          let action = normalizeAction (prp_Action p)
          in if action = [] then None
             else Some \<lparr>pr_Provider = [], pr_Repo = (if prp_FullName p = [] then prp_HTMLURL p else prp_FullName p),
                        pr_Number = (if prp_PRNumber p = 0 then prp_Number p else prp_PRNumber p), pr_Action = action,
                        pr_Branch = prp_HeadRef p, pr_SHA = prp_HeadSHA p, pr_AuthorIsBot = payloadAuthorIsBot p\<rparr>)"

definition parseGitHubPREvent :: "json_lib \<Rightarrow> string \<Rightarrow> (string \<Rightarrow> string) \<Rightarrow> PREvent option" where
  "parseGitHubPREvent J body header =
     (if header ''X-GitHub-Event'' \<noteq> ''pull_request'' then None else pull_request_event J body)"

definition parseGiteaPREvent :: "json_lib \<Rightarrow> string \<Rightarrow> (string \<Rightarrow> string) \<Rightarrow> PREvent option" where
  "parseGiteaPREvent J body header =
     (let eventType = header ''X-Gitea-Event'';
          eventType = (if eventType = [] then header ''X-GitHub-Event'' else eventType)
      in if eventType \<noteq> ''pull_request'' then None else pull_request_event J body)"

definition parseGitLabPREvent :: "json_lib \<Rightarrow> string \<Rightarrow> (string \<Rightarrow> string) \<Rightarrow> PREvent option" where
  "parseGitLabPREvent J body header =
     (if header ''X-Gitlab-Event'' \<noteq> ''Merge Request Hook'' then None
      else
        (case js_PR J body of
           None \<Rightarrow> None
         | Some p \<Rightarrow>
             let action = normalizeGitLabAction (prp_OAAction p) (prp_OAState p)
             in if action = [] then None
                else Some \<lparr>pr_Provider = [], pr_Repo = (if prp_FullName p = [] then prp_HTMLURL p else prp_FullName p),
                           pr_Number = prp_OAIID p, pr_Action = action, pr_Branch = prp_OASourceBranch p,
                           pr_SHA = prp_OALastCommitID p, pr_AuthorIsBot = False\<rparr>))"

fun parsePREvent :: "json_lib \<Rightarrow> GitProviderType \<Rightarrow> string \<Rightarrow> (string \<Rightarrow> string) \<Rightarrow> PREvent option" where
  "parsePREvent J GitProviderTypeGitHub body header = parseGitHubPREvent J body header"
| "parsePREvent J GitProviderTypeGitea body header = parseGiteaPREvent J body header"
| "parsePREvent J GitProviderTypeGitLab body header = parseGitLabPREvent J body header"
| "parsePREvent J (GitProviderTypeOther _) body header = None"

section \<open>Matching\<close>

definition providerMatches :: "string \<Rightarrow> string \<Rightarrow> bool \<Rightarrow> bool" where
  "providerMatches ref delivering soleProvider = (if ref \<noteq> [] then ref = delivering else soleProvider)"

definition soleProvider :: "'s hooks \<Rightarrow> 's \<Rightarrow> bool \<times> 's" where
  "soleProvider K s =
     (case countGitProviders K s of (Inl err, s1) \<Rightarrow> (False, s1) | (Inr n, s1) \<Rightarrow> (n = 1, s1))"

definition branchFromRef :: "string \<Rightarrow> string" where
  "branchFromRef ref = trim_prefix ref ''refs/heads/''"

definition ownerRepo :: "string \<Rightarrow> string" where
  "ownerRepo normalized =
     (let parts = split_on CHR ''/'' normalized
      in if length parts < 2 then [] else parts ! (length parts - 2) @ ''/'' @ parts ! (length parts - 1))"

definition normalizeRepo :: "(string \<Rightarrow> string option) \<Rightarrow> string \<Rightarrow> string" where
  "normalizeRepo url_path raw = CanonicalRepoKey url_path raw"

definition repoMatches :: "(string \<Rightarrow> string option) \<Rightarrow> string \<Rightarrow> string \<Rightarrow> bool" where
  "repoMatches url_path appRepo eventRepo =
     (if appRepo = [] \<or> eventRepo = [] then False
      else ownerRepo (normalizeRepo url_path appRepo) = ownerRepo (normalizeRepo url_path eventRepo))"

definition matchesWatchPaths :: "string list \<Rightarrow> string list option \<Rightarrow> bool" where
  "matchesWatchPaths watchPaths changedPaths =
     (if watchPaths = [] then True
      else (case changedPaths of
              None \<Rightarrow> True
            | Some changed \<Rightarrow>
                list_ex (\<lambda>wp. let wp = trim_prefix wp ''/'' in wp \<noteq> [] \<and> list_ex (\<lambda>cp. has_prefix cp wp) changed) watchPaths))"

section \<open>Dispatch\<close>

definition push_matches :: "(string \<Rightarrow> string option) \<Rightarrow> bool \<Rightarrow> BuildRequest \<Rightarrow> App \<Rightarrow> bool" where
  \<comment> \<open>the conditions of the loop of \<open>dispatchToApps\<close>, in its order\<close>
  "push_matches url_path sole br app =
     (let src = spec_Source (app_Spec app)
      in if src_Type src \<noteq> SourceTypeGit then False
         else if \<not> providerMatches (src_ProviderRef src) (brq_Provider br) sole then False
         else if \<not> repoMatches url_path (src_Repo src) (brq_Repo br) then False
         else if (if src_Branch src = [] then ''main'' else src_Branch src) \<noteq> branchFromRef (brq_Ref br) then False
         else matchesWatchPaths (src_WatchPaths src) (brq_ChangedPaths br))"

fun patch_apps :: "'s hooks \<Rightarrow> (string \<Rightarrow> string option) \<Rightarrow> bool \<Rightarrow> BuildRequest \<Rightarrow> App list \<Rightarrow> 's \<Rightarrow> 's" where
  \<comment> \<open>the loop of \<open>dispatchToApps\<close>; a failed patch is logged and the loop goes on\<close>
  "patch_apps K url_path sole br [] s = s"
| "patch_apps K url_path sole br (app # apps) s =
     (if push_matches url_path sole br app
      then patch_apps K url_path sole br apps (snd (patchAppRevision K app (brq_SHA br) s))
      else patch_apps K url_path sole br apps s)"

definition dispatchToApps :: "'s hooks \<Rightarrow> (string \<Rightarrow> string option) \<Rightarrow> BuildRequest \<Rightarrow> 's \<Rightarrow> 's" where
  "dispatchToApps K url_path br s =
     (case listGitApps K s of
        (Inl err, s1) \<Rightarrow> s1
      | (Inr apps, s1) \<Rightarrow> (case soleProvider K s1 of (sole, s2) \<Rightarrow> patch_apps K url_path sole br apps s2))"

definition repo_key :: "(string \<Rightarrow> string option) \<Rightarrow> App \<Rightarrow> string" where
  "repo_key url_path app =
     src_ProviderRef (spec_Source (app_Spec app)) @ [CHR 0x00] @ CanonicalRepoKey url_path (src_Repo (spec_Source (app_Spec app)))"

fun multiple_repos :: "(string \<Rightarrow> string option) \<Rightarrow> string \<Rightarrow> App list \<Rightarrow> string list \<Rightarrow> bool" where
  \<comment> \<open>the loop of \<open>projectHasMultipleGitRepos\<close>\<close>
  "multiple_repos url_path controlNs [] seen = False"
| "multiple_repos url_path controlNs (app # apps) seen =
     (let src = spec_Source (app_Spec app)
      in if app_Namespace app \<noteq> controlNs \<or> src_Type src \<noteq> SourceTypeGit \<or> src_Repo src = []
         then multiple_repos url_path controlNs apps seen
         else
           let seen = List.insert (repo_key url_path app) seen
           in if length seen > 1 then True else multiple_repos url_path controlNs apps seen)"

definition projectHasMultipleGitRepos :: "(string \<Rightarrow> string option) \<Rightarrow> App list \<Rightarrow> string \<Rightarrow> bool" where
  "projectHasMultipleGitRepos url_path apps projectName = multiple_repos url_path (ControlNamespace projectName) apps []"

fun first_source :: "ProjectEnvironment list \<Rightarrow> string \<Rightarrow> string" where
  \<comment> \<open>the loop of \<open>resolveSourceEnv\<close>, with \<open>firstNonProd\<close>\<close>
  "first_source [] firstNonProd = firstNonProd"
| "first_source (env # envs) firstNonProd =
     (if pe_Preview env then first_source envs firstNonProd
      else if pe_Name env = ''staging'' then ''staging''
      else if pe_Name env \<noteq> ''production'' \<and> firstNonProd = [] then first_source envs (pe_Name env)
      else first_source envs firstNonProd)"

definition resolveSourceEnv :: "Project \<Rightarrow> string" where
  "resolveSourceEnv project =
     (case ps_Preview (prj_Spec project) of
        Some preview \<Rightarrow>
          if pc_SourceEnvironment preview \<noteq> [] then pc_SourceEnvironment preview
          else first_source (ps_Environments (prj_Spec project)) []
      | None \<Rightarrow> first_source (ps_Environments (prj_Spec project)) [])"

definition previewEnvName :: "(string \<Rightarrow> string) \<Rightarrow> (string \<Rightarrow> string option) \<Rightarrow> string \<Rightarrow> int \<Rightarrow> bool \<Rightarrow> string" where
  "previewEnvName sha256 url_path repo prNumber multiRepo = PreviewEnvironmentName sha256 url_path repo prNumber multiRepo"

fun collect_projects ::
  "'s hooks \<Rightarrow> (string \<Rightarrow> string option) \<Rightarrow> bool \<Rightarrow> PREvent \<Rightarrow> App list \<Rightarrow> App list \<Rightarrow>
   Project gomap \<Rightarrow> string set \<Rightarrow> bool gomap \<Rightarrow> 's \<Rightarrow> (Project gomap \<times> bool gomap) \<times> 's" where
  \<comment> \<open>the first loop of \<open>dispatchPREvent\<close> over \<open>apps\<close>, with \<open>projectCache\<close>, \<open>projectKnown\<close> and \<open>projectMultiRepo\<close>\<close>
  "collect_projects K url_path sole pr all [] cache known multi s = ((cache, multi), s)"
| "collect_projects K url_path sole pr all (app # apps) cache known multi s =
     (let src = spec_Source (app_Spec app); go = collect_projects K url_path sole pr all apps
      in if src_Type src \<noteq> SourceTypeGit then go cache known multi s
         else if \<not> providerMatches (src_ProviderRef src) (pr_Provider pr) sole then go cache known multi s
         else if \<not> repoMatches url_path (src_Repo src) (pr_Repo pr) then go cache known multi s
         else
           (case ProjectFromControlNs (app_Namespace app) of
              (projectName, False) \<Rightarrow> go cache known multi s
            | (projectName, True) \<Rightarrow>
                let multi = AList.update projectName (projectHasMultipleGitRepos url_path all projectName) multi
                in if projectName \<in> known then go cache known multi s
                   else
                     (case hk_GetProject K s projectName of
                        (Inl err, s1) \<Rightarrow> go cache (insert projectName known) multi s1
                      | (Inr project, s1) \<Rightarrow>
                          go (AList.update projectName project cache) (insert projectName known) multi s1)))"

definition preview_spec :: "string \<Rightarrow> string \<Rightarrow> PREvent \<Rightarrow> PreviewEnvironmentSpec" where
  "preview_spec projectName sourceEnv pr =
     \<lparr>pes_ProjectRef = projectName, pes_SourceEnv = sourceEnv,
      pes_PullRequest = \<lparr>prr_Number = pr_Number pr, prr_Branch = pr_Branch pr, prr_SHA = pr_SHA pr, prr_Repo = pr_Repo pr\<rparr>\<rparr>"

definition preview_wanted :: "Project \<Rightarrow> PREvent \<Rightarrow> bool" where
  \<comment> \<open>the two guards on \<open>spec.preview\<close>\<close>
  "preview_wanted project pr =
     (case ps_Preview (prj_Spec project) of
        None \<Rightarrow> False
      | Some preview \<Rightarrow>
          if \<not> pc_Enabled preview then False
          else
            let botPR = (case pc_BotPR preview of None \<Rightarrow> True | Some b \<Rightarrow> b)
            in \<not> (\<not> botPR \<and> pr_AuthorIsBot pr))"

definition upsert_preview ::
  "'s hooks \<Rightarrow> (string \<Rightarrow> string option) \<Rightarrow> string \<Rightarrow> string \<Rightarrow> string \<Rightarrow> string \<Rightarrow> PREvent \<Rightarrow> 's \<Rightarrow> 's" where
  \<comment> \<open>the rest of the loop body of \<open>dispatchPREvent\<close>, from reading the preview environment on\<close>
  "upsert_preview K url_path controlNs peName projectName sourceEnv pr s =
     (case hk_GetPreview K s (controlNs, peName) of
        (Inl err, s1) \<Rightarrow>
          if err \<noteq> NotFound then s1
          else snd (hk_CreatePreview K s1 (new_preview controlNs peName (preview_spec projectName sourceEnv pr)))
      | (Inr existing, s1) \<Rightarrow>
          let old = pes_PullRequest (pv_Spec existing)
          in if prr_SHA old = pr_SHA pr \<and> prr_Branch old = pr_Branch pr \<and>
                CanonicalRepoKey url_path (prr_Repo old) = CanonicalRepoKey url_path (pr_Repo pr)
             then s1
             else snd (hk_UpdatePreview K s1 (existing\<lparr>pv_Spec := (pv_Spec existing)\<lparr>pes_PullRequest :=
                    old\<lparr>prr_SHA := pr_SHA pr, prr_Branch := pr_Branch pr, prr_Repo := pr_Repo pr\<rparr>\<rparr>\<rparr>)))"

definition dispatch_project ::
  "'s hooks \<Rightarrow> (string \<Rightarrow> string) \<Rightarrow> (string \<Rightarrow> string option) \<Rightarrow> PREvent \<Rightarrow> bool gomap \<Rightarrow> string \<Rightarrow> Project \<Rightarrow> 's \<Rightarrow> 's" where
  \<comment> \<open>the body of the second loop of \<open>dispatchPREvent\<close>\<close>
  "dispatch_project K sha256 url_path pr multi projectName project s =
     (let controlNs = ControlNamespace projectName;
          multiRepo = (case map_of multi projectName of None \<Rightarrow> False | Some b \<Rightarrow> b);
          peName = previewEnvName sha256 url_path (pr_Repo pr) (pr_Number pr) multiRepo
      in if pr_Action pr = ''closed'' then snd (deletePreviewEnvironment K controlNs peName s)
         else if \<not> preview_wanted project pr then s
         else
           let sourceEnv = resolveSourceEnv project
           in if sourceEnv = [] then s
              else upsert_preview K url_path controlNs peName projectName sourceEnv pr s)"

definition dispatchPREvent :: "'s hooks \<Rightarrow> (string \<Rightarrow> string) \<Rightarrow> (string \<Rightarrow> string option) \<Rightarrow> PREvent \<Rightarrow> 's \<Rightarrow> 's" where
  "dispatchPREvent K sha256 url_path pr s =
     (case listGitApps K s of
        (Inl err, s1) \<Rightarrow> s1
      | (Inr apps, s1) \<Rightarrow>
          (case soleProvider K s1 of (sole, s2) \<Rightarrow>
             (case collect_projects K url_path sole pr apps apps [] {} [] s2 of
                ((cache, multi), s3) \<Rightarrow>
                  fold (\<lambda>(projectName, project). dispatch_project K sha256 url_path pr multi projectName project) (entries cache) s3)))"

section \<open>The handler\<close>

definition signatureWriteInterval :: int where "signatureWriteInterval = 60 * 1000000000"

definition recordSignatureOutcome ::
  "'s hooks \<Rightarrow> ('s call \<Rightarrow> 's call) \<Rightarrow> cond_lib \<Rightarrow> int \<Rightarrow> string \<Rightarrow> bool \<Rightarrow> int gomap \<Rightarrow> 's \<Rightarrow> int gomap \<times> 's" where
  \<comment> \<open>the map is the handler's \<open>lastSignatureWrite\<close>\<close>
  "recordSignatureOutcome K retry L now providerName mismatch written s =
     (let key = (if mismatch then providerName @ ''/mismatch'' else providerName)
      in case map_of written key of
           Some t \<Rightarrow>
             if now - t < signatureWriteInterval then (written, s)
             else (AList.update key now written, snd (setWebhookSignatureCondition K retry L providerName mismatch now s))
         | None \<Rightarrow> (AList.update key now written, snd (setWebhookSignatureCondition K retry L providerName mismatch now s)))"

record 's webhook_env =
  we_hooks :: "'s hooks"
  we_retry :: "'s call \<Rightarrow> 's call"
  we_cond :: cond_lib
  we_json :: json_lib
  we_hmac :: "string \<Rightarrow> string \<Rightarrow> string"
  we_sha256 :: "string \<Rightarrow> string"
  we_url_path :: "string \<Rightarrow> string option"
  we_sdk_ok :: "string \<Rightarrow> bool"

definition max_body :: nat where "max_body = 10 * 2 ^ 20"

definition dispatch :: "'s webhook_env \<Rightarrow> GitProviderType \<Rightarrow> string \<Rightarrow> string \<Rightarrow> (string \<Rightarrow> string) \<Rightarrow> 's \<Rightarrow> 's" where
  \<comment> \<open>\<open>handleWebhook\<close> after the verification\<close>
  "dispatch E type providerName body header s =
     (case parsePREvent (we_json E) type body header of
        Some pr \<Rightarrow> dispatchPREvent (we_hooks E) (we_sha256 E) (we_url_path E) (pr\<lparr>pr_Provider := providerName\<rparr>) s
      | None \<Rightarrow>
          (case parsePushEvent (we_json E) type body of
             Some br \<Rightarrow> dispatchToApps (we_hooks E) (we_url_path E) (br\<lparr>brq_Provider := providerName\<rparr>) s
           | None \<Rightarrow> s))"

definition handleWebhook ::
  "'s webhook_env \<Rightarrow> int \<Rightarrow> string \<Rightarrow> string option \<Rightarrow> (string \<Rightarrow> string) \<Rightarrow> int gomap \<Rightarrow> 's \<Rightarrow> (nat \<times> string) \<times> int gomap \<times> 's" where
  \<comment> \<open>\<open>sent\<close> is the request body, \<open>None\<close> when reading it fails; the result is the status and the body of the response\<close>
  "handleWebhook E now providerName sent header written s =
     (let K = we_hooks E
      in case sent of
           None \<Rightarrow> ((400, ''read body''), written, s)
         | Some full \<Rightarrow>
             let body = take max_body full
             in case hk_GetProvider K s providerName of
                  (Inl err, s1) \<Rightarrow>
                    if err = NotFound then ((401, ''unauthorized''), written, s1) else ((500, ''internal error''), written, s1)
                | (Inr gp, s1) \<Rightarrow>
                    (case gps_WebhookSecretRef (gp_Spec gp) of
                       None \<Rightarrow> ((401, ''unauthorized''), written, s1)
                     | Some ref \<Rightarrow>
                         (case hook_secret K (sr_Namespace ref) (sr_Name ref) (sr_Key ref) s1 of
                            (Inl err, s2) \<Rightarrow> ((500, ''internal error''), written, s2)
                          | (Inr webhookSecret, s2) \<Rightarrow>
                              (case NewGitAPIFromProvider (we_sdk_ok E) gp [] webhookSecret of
                                 Inl err \<Rightarrow> ((500, ''internal error''), written, s2)
                               | Inr api \<Rightarrow>
                                   (case VerifyWebhookSignature (we_hmac E) api body header of
                                      Some err \<Rightarrow>
                                        (case recordSignatureOutcome K (we_retry E) (we_cond E) now providerName True written s2 of
                                           (written, s3) \<Rightarrow> ((401, ''unauthorized''), written, s3))
                                    | None \<Rightarrow>
                                        (case recordSignatureOutcome K (we_retry E) (we_cond E) now providerName False written s2 of
                                           (written, s3) \<Rightarrow>
                                             ((202, []), written, dispatch E (gps_Type (gp_Spec gp)) providerName body header s3)))))))"

section \<open>Matching, characterised\<close>

lemma CanonicalRepoKey_shape:
  "(\<exists>x y. CanonicalRepoKey up repo = x @ CHR ''/'' # y \<and> CHR ''/'' \<notin> set x \<and> CHR ''/'' \<notin> set y) \<or>
   CHR ''/'' \<notin> set (CanonicalRepoKey up repo)"
proof -
  define parts where "parts r = split_on CHR ''/'' r" for r
  define tail where "tail r = (if length (parts r) \<ge> 2
      then to_lower (parts r ! (length (parts r) - 2) @ ''/'' @ parts r ! (length (parts r) - 1)) else to_lower r)" for r
  have shape: "(\<exists>x y. tail r = x @ CHR ''/'' # y \<and> CHR ''/'' \<notin> set x \<and> CHR ''/'' \<notin> set y) \<or> CHR ''/'' \<notin> set (tail r)" for r
  proof (cases "length (parts r) \<ge> 2")
    case True
    define x y where "x = to_lower (parts r ! (length (parts r) - 2))" and "y = to_lower (parts r ! (length (parts r) - 1))"
    have "p < length (parts r) \<Longrightarrow> CHR ''/'' \<notin> set (parts r ! p)" for p
      unfolding parts_def by (meson nth_mem split_on_parts)
    with True have "CHR ''/'' \<notin> set x" "CHR ''/'' \<notin> set y"
      unfolding x_def y_def slash_to_lower by simp_all
    moreover have "tail r = x @ CHR ''/'' # y"
      using True by (simp add: tail_def x_def y_def lower_char_def)
    ultimately show ?thesis by blast
  next
    case False
    then have "CHR ''/'' \<notin> set r" using split_on_single [of "CHR ''/''" r] by (simp add: parts_def)
    moreover have "tail r = to_lower r" using False by (simp add: tail_def)
    ultimately show ?thesis by (simp only: slash_to_lower) simp
  qed
  have "CanonicalRepoKey up repo = [] \<or> (\<exists>r. CanonicalRepoKey up repo = tail r)"
  proof (cases "trim_space (trim_suffix repo ''.git'') = []")
    case True
    then show ?thesis by (simp add: CanonicalRepoKey_def)
  next
    case False
    have "\<exists>r. CanonicalRepoKey up repo = tail r"
      unfolding CanonicalRepoKey_def Let_def if_not_P [OF False] tail_def parts_def by (rule exI, rule refl)
    then show ?thesis ..
  qed
  with shape show ?thesis by fastforce
qed

lemma ownerRepo_canonical:
  "ownerRepo (CanonicalRepoKey up repo) =
     (if CHR ''/'' \<in> set (CanonicalRepoKey up repo) then CanonicalRepoKey up repo else [])"
proof (cases "CHR ''/'' \<in> set (CanonicalRepoKey up repo)")
  case True
  then obtain x y where "CanonicalRepoKey up repo = x @ CHR ''/'' # y" "CHR ''/'' \<notin> set x" "CHR ''/'' \<notin> set y"
    using CanonicalRepoKey_shape by blast
  then show ?thesis by (simp add: ownerRepo_def split_on_append_sep split_on_no_sep)
qed (simp add: ownerRepo_def split_on_no_sep)

definition same_repo :: "(string \<Rightarrow> string option) \<Rightarrow> string \<Rightarrow> string \<Rightarrow> bool" where
  \<comment> \<open>equal canonical keys, or both without an owner\<close>
  "same_repo up a b \<longleftrightarrow> a \<noteq> [] \<and> b \<noteq> [] \<and>
     (CanonicalRepoKey up a = CanonicalRepoKey up b \<or>
      CHR ''/'' \<notin> set (CanonicalRepoKey up a) \<and> CHR ''/'' \<notin> set (CanonicalRepoKey up b))"

lemma repoMatches_iff: "repoMatches up a b \<longleftrightarrow> same_repo up a b"
  by (auto simp: repoMatches_def normalizeRepo_def ownerRepo_canonical same_repo_def)

text \<open>
  The comment on \<open>ownerRepo\<close> says both components are required for a match; two names without an
  owner do match, whatever they are.
\<close>

lemma repoMatches_ignores_bare_names: "repoMatches (\<lambda>_. None) ''alpha'' ''beta''"
  by (simp add: repoMatches_def normalizeRepo_def ownerRepo_def CanonicalRepoKey_def Let_def trim_suffix_def
      has_suffix_def trim_space_def trim_id white_space_def contains_def has_prefix_def)

definition touched :: "string list \<Rightarrow> string list option \<Rightarrow> bool" where
  "touched watch changed \<longleftrightarrow> watch = [] \<or> changed = None \<or>
     (\<exists>wp \<in> set watch. \<exists>path \<in> set (the changed). trim_prefix wp ''/'' \<noteq> [] \<and> (\<exists>rest. path = trim_prefix wp ''/'' @ rest))"

lemma matchesWatchPaths_iff: "matchesWatchPaths watch changed \<longleftrightarrow> touched watch changed"
  by (auto simp: matchesWatchPaths_def touched_def list_ex_iff Let_def has_prefix_conv split: option.splits)

definition rebuilds :: "(string \<Rightarrow> string option) \<Rightarrow> bool \<Rightarrow> BuildRequest \<Rightarrow> App \<Rightarrow> bool" where
  \<comment> \<open>what a push is meant to rebuild\<close>
  "rebuilds up sole br app \<longleftrightarrow>
     (let src = spec_Source (app_Spec app) in
        src_Type src = SourceTypeGit \<and>
        (src_ProviderRef src = brq_Provider br \<and> src_ProviderRef src \<noteq> [] \<or> src_ProviderRef src = [] \<and> sole) \<and>
        same_repo up (src_Repo src) (brq_Repo br) \<and>
        trim_prefix (brq_Ref br) ''refs/heads/'' = (if src_Branch src = [] then ''main'' else src_Branch src) \<and>
        touched (src_WatchPaths src) (brq_ChangedPaths br))"

lemma push_matches_iff: "push_matches up sole br app \<longleftrightarrow> rebuilds up sole br app"
  by (auto simp: push_matches_def rebuilds_def Let_def providerMatches_def repoMatches_iff matchesWatchPaths_iff branchFromRef_def)

lemma patch_apps_fold:
  "patch_apps K up sole br apps s =
     fold (\<lambda>app s. snd (hk_PatchAnnotation K s app ''mortise.dev/revision'' (brq_SHA br))) (filter (rebuilds up sole br) apps) s"
  by (induction apps arbitrary: s) (auto simp: push_matches_iff patchAppRevision_def)

section \<open>What an unverified delivery can touch\<close>

definition reads_keep :: "'s hooks \<Rightarrow> ('s \<Rightarrow> bool) \<Rightarrow> bool" where
  \<comment> \<open>reading, and writing the status of a provider, does not affect \<open>P\<close>\<close>
  "reads_keep K P \<longleftrightarrow> (\<forall>s. P s \<longrightarrow>
     (\<forall>n. P (snd (hk_GetProvider K s n))) \<and> (\<forall>k. P (snd (hk_GetSecret K s k))) \<and>
     (\<forall>gp. P (snd (hk_UpdateProviderStatus K s gp))))"

lemma reads_keepD:
  "reads_keep K P \<Longrightarrow> P s \<Longrightarrow> hk_GetProvider K s n = (r1, s') \<Longrightarrow> P s'"
  "reads_keep K P \<Longrightarrow> P s \<Longrightarrow> hk_GetSecret K s k = (r2, s') \<Longrightarrow> P s'"
  "reads_keep K P \<Longrightarrow> P s \<Longrightarrow> hk_UpdateProviderStatus K s gp = (r3, s') \<Longrightarrow> P s'"
  unfolding reads_keep_def by (metis snd_conv)+

lemma hook_secret_keeps: "reads_keep K P \<Longrightarrow> P s \<Longrightarrow> hook_secret K ns n k s = (r, s') \<Longrightarrow> P s'"
  by (auto simp: hook_secret_def dest: reads_keepD split: prod.splits sum.splits option.splits)

lemma signature_attempt_keeps: "reads_keep K P \<Longrightarrow> P s \<Longrightarrow> signature_attempt K L n m now s = (r, s') \<Longrightarrow> P s'"
  by (auto simp: signature_attempt_def Let_def dest: reads_keepD split: prod.splits sum.splits if_splits)

lemma recordSignatureOutcome_keeps:
  assumes "reads_keep K P" "retries retry" "P s" "recordSignatureOutcome K retry L now n m w s = (w', s')"
  shows "P s'"
proof -
  have "P (snd (setWebhookSignatureCondition K retry L n m now s))"
    unfolding setWebhookSignatureCondition_def
    using assms(2,3) signature_attempt_keeps [OF assms(1)] by (rule retry_keeps)
  with assms(3,4) show ?thesis
    by (auto simp: recordSignatureOutcome_def Let_def split: option.splits if_splits)
qed

definition authentic :: "'s webhook_env \<Rightarrow> string \<Rightarrow> string option \<Rightarrow> (string \<Rightarrow> string) \<Rightarrow> bool" where
  \<comment> \<open>the sender knows the secret that some read of the provider and of its secret returned\<close>
  "authentic E providerName sent header \<longleftrightarrow>
     (\<exists>full gp ref secret s0 s1 s2. sent = Some full \<and> hk_GetProvider (we_hooks E) s0 providerName = (Inr gp, s1) \<and>
        gps_WebhookSecretRef (gp_Spec gp) = Some ref \<and>
        fst (hook_secret (we_hooks E) (sr_Namespace ref) (sr_Name ref) (sr_Key ref) s2) = Inr secret \<and>
        knows_secret (we_hmac E) (gps_Type (gp_Spec gp)) secret (take max_body full) header)"

section \<open>Properties\<close>


definition ex_git_app :: "string \<Rightarrow> string \<Rightarrow> string list \<Rightarrow> App" where
  "ex_git_app name repo watch =
     \<lparr>app_Namespace = ''pj-web'', app_Name = name, app_Labels = [], app_Annotations = [], app_Generation = 1,
      app_DeletionTimestamp = None, app_Finalizers = [],
      app_Spec = \<lparr>spec_Kind = AppKindUnset,
        spec_Source = \<lparr>src_Type = SourceTypeGit, src_Repo = repo, src_Branch = [], src_Path = [], src_WatchPaths = watch,
          src_Build = None, src_ProviderRef = ''gh'', src_Image = [], src_PullSecretRef = [], src_External = None\<rparr>,
        spec_Network = \<lparr>net_Public = False, net_Port = 0\<rparr>, spec_Storage = [], spec_SecurityProfile = [],
        spec_ConfigFiles = [], spec_Credentials = [], spec_SharedVars = [], spec_Environments = []\<rparr>,
      app_Status = \<lparr>st_Phase = AppPhaseUnset, st_Environments = [], st_CurrentBuildRunName = [], st_LastBuildRunName = [],
        st_LastBuiltSHA = [], st_LastBuiltImage = [], st_DetectedPort = 0, st_DetectedPortImage = [], st_Conditions = []\<rparr>\<rparr>"

definition ex_hooks :: "string list hooks" where
  \<comment> \<open>one provider whose secret is \<open>key\<close> and two applications; the state logs the writes\<close>
  "ex_hooks = \<lparr>
     hk_GetProvider = (\<lambda>s n. if n = ''gh'' then (Inr \<lparr>gp_Name = ''gh'', gp_Generation = 1,
         gp_Spec = \<lparr>gps_Type = GitProviderTypeGitLab, gps_Host = [], gps_ClientID = [], gps_ClientSecretRef = None,
           gps_WebhookSecretRef = Some \<lparr>sr_Namespace = ''ns'', sr_Name = ''hook'', sr_Key = ''k''\<rparr>\<rparr>,
         gp_Status = \<lparr>gpst_Phase = GitProviderPhaseReady, gpst_Conditions = []\<rparr>\<rparr>, s) else (Inl NotFound, s)),
     hk_ListProviders = (\<lambda>s. (Inr [], s)),
     hk_UpdateProviderStatus = (\<lambda>s gp. (None, s)),
     hk_GetProject = (\<lambda>s n. (Inl NotFound, s)),
     hk_GetSecret = (\<lambda>s k. (Inr \<lparr>Sec_Namespace = ''ns'', Sec_Name = ''hook'', Sec_Labels = [], Sec_Annotations = [],
         Sec_Data = [(''k'', ''key'')], Sec_RV = []\<rparr>, s)),
     hk_ListApps = (\<lambda>s. (Inr [ex_git_app ''api'' ''O/R.git'' [''/api''], ex_git_app ''ui'' ''o/r'' [''ui'']], s)),
     hk_PatchAnnotation = (\<lambda>s app k v. (None, (app_Name app @ CHR ''='' # v) # s)),
     hk_GetPreview = (\<lambda>s k. (Inl NotFound, s)),
     hk_CreatePreview = (\<lambda>s pv. (None, (''create '' @ pv_Name pv) # s)),
     hk_UpdatePreview = (\<lambda>s pv. (None, (''update '' @ pv_Name pv) # s)),
     hk_DeletePreview = (\<lambda>s k. (None, (''delete '' @ snd k) # s))\<rparr>"

definition ex_webhook :: "string list webhook_env" where
  "ex_webhook = \<lparr>we_hooks = ex_hooks, we_retry = mem_retry,
     we_cond = \<lparr>cl_Find = (\<lambda>cs t. None), cl_Set = (\<lambda>c cs. c # cs), cl_Remove = (\<lambda>t cs. cs), cl_RFC3339 = (\<lambda>_. [])\<rparr>,
     we_json = \<lparr>js_Object = (\<lambda>_. None), js_Push = (\<lambda>_. None), js_PR = (\<lambda>_. None), js_String = (\<lambda>_. None)\<rparr>,
     we_hmac = (\<lambda>k m. k @ m), we_sha256 = (\<lambda>_. []), we_url_path = (\<lambda>_. None), we_sdk_ok = (\<lambda>_. True)\<rparr>"




end
