(* ===== verification/Preview.thy ===== *)
theory Preview
  imports AppGC Webhook
begin

text \<open>
  \<open>internal/controller/previewenvironment_controller.go\<close>, \<open>preview_repo_match.go\<close>, \<open>forbidden.go\<close>
  and the token lookup of \<open>internal/git/tokens.go\<close>: the life of a preview environment. A reconcile adds an
  environment \<open>pr-N\<close> to the project, clones the overrides of the source environment on every application
  and copies its secrets; deleting the preview takes these away again; a periodic convergence
  compares the previews with the open pull requests.

  Parameters: the API client \<open>preview_api\<close>, the conflict retry, the condition helpers, the forge's
  list of open pull requests (\<open>pa_OpenPRs\<close>) and the functions of the other theories. The clock reads within one
  call return the same \<open>now\<close>, and the forge client factory is set, as \<open>main\<close> sets it.
\<close>

section \<open>The API as the controller uses it\<close>

record PullRequestSnapshot =
  prs_Number :: int
  prs_Branch :: string
  prs_SHA :: string
  prs_AuthorIsBot :: bool

record 's preview_api =
  pa_GetPreview :: "'s \<Rightarrow> nn \<Rightarrow> (kerr + PreviewEnvironment) \<times> 's"
  pa_UpdatePreview :: "'s \<Rightarrow> PreviewEnvironment \<Rightarrow> kerr option \<times> 's"
  pa_UpdatePreviewStatus :: "'s \<Rightarrow> PreviewEnvironment \<Rightarrow> kerr option \<times> 's"
  pa_CreatePreview :: "'s \<Rightarrow> PreviewEnvironment \<Rightarrow> kerr option \<times> 's"
  pa_DeletePreview :: "'s \<Rightarrow> PreviewEnvironment \<Rightarrow> kerr option \<times> 's"
  pa_ListPreviews :: "'s \<Rightarrow> string \<Rightarrow> (kerr + PreviewEnvironment list) \<times> 's"
  pa_GetProject :: "'s \<Rightarrow> string \<Rightarrow> (kerr + Project) \<times> 's"
  pa_UpdateProject :: "'s \<Rightarrow> Project \<Rightarrow> kerr option \<times> 's"
  pa_GetApp :: "'s \<Rightarrow> nn \<Rightarrow> (kerr + App) \<times> 's"
  pa_UpdateApp :: "'s \<Rightarrow> App \<Rightarrow> kerr option \<times> 's"
  pa_ListApps :: "'s \<Rightarrow> string \<Rightarrow> (kerr + App list) \<times> 's"
  pa_GetNamespace :: "'s \<Rightarrow> string \<Rightarrow> (kerr + nsobj) \<times> 's"
  pa_DeleteNamespace :: "'s \<Rightarrow> nsobj \<Rightarrow> kerr option \<times> 's"
  pa_GetBuildRun :: "'s \<Rightarrow> nn \<Rightarrow> (kerr + BuildRun) \<times> 's"
  pa_Secrets :: "'s client"
  pa_GetProvider :: "'s \<Rightarrow> string \<Rightarrow> (kerr + GitProvider) \<times> 's"
  pa_ListMembers :: "'s \<Rightarrow> string \<Rightarrow> (kerr + ProjectMember list) \<times> 's"
  pa_OpenPRs :: "'s \<Rightarrow> GitAPI \<Rightarrow> string \<Rightarrow> (kerr + PullRequestSnapshot list) \<times> 's"

definition previewFinalizer :: string where "previewFinalizer = ''mortise.dev/preview-finalizer''"
definition convergenceGracePeriod :: int where "convergenceGracePeriod = 15 * 60 * 1000000000"
definition previewNamespaceReadyRequeue :: int where "previewNamespaceReadyRequeue = 2 * 1000000000"
definition rbacPropagationWindow :: int where "rbacPropagationWindow = 2 * 60 * 1000000000"
definition rbacPropagationRequeue :: int where "rbacPropagationRequeue = 2 * 1000000000"

section \<open>Git tokens\<close>

definition TokenSecretNamespace :: string where "TokenSecretNamespace = ''mortise-system''"

definition UserTokenSecretName :: "string \<Rightarrow> string \<Rightarrow> string" where
  "UserTokenSecretName providerName email = ''user-'' @ providerName @ ''-token-'' @ hex_encode email"

definition ResolveGitToken :: "'s client \<Rightarrow> string \<Rightarrow> string \<Rightarrow> 's \<Rightarrow> (gerr + string) \<times> 's" where
  "ResolveGitToken C providerName userEmail s =
     (if providerName = [] then (Inl (Msg ''provider name is required''), s)
      else if userEmail = [] then (Inl (Msg ''user email is required for git token resolution''), s)
      else
        (case kGet C s (TokenSecretNamespace, UserTokenSecretName providerName userEmail) of
           (Inl err, s1) \<Rightarrow> (Inl (Api (''git token not found for provider '' @ quoted providerName @ '', user '' @ quoted userEmail) err), s1)
         | (Inr sec, s1) \<Rightarrow>
             let v = lookup_str (Sec_Data sec) ''token''
             in if v = [] then (Inl (Msg (''git token secret '' @ UserTokenSecretName providerName userEmail @ '' has no token key'')), s1)
                else (Inr v, s1)))"

fun member_tokens :: "'s client \<Rightarrow> string \<Rightarrow> string \<Rightarrow> string \<Rightarrow> ProjectMember list \<Rightarrow> 's \<Rightarrow> (gerr + string \<times> string) \<times> 's" where
  \<comment> \<open>the last loop of \<open>ResolveGitTokenForApp\<close>; the result is the token and its owner\<close>
  "member_tokens C providerName createdBy cachedOwner [] s =
     (Inl (Msg (''no project member has a valid git token for provider '' @ quoted providerName)), s)"
| "member_tokens C providerName createdBy cachedOwner (mem # ms) s =
     (let email = pm_Email (member_Spec mem)
      in if email = createdBy \<or> email = cachedOwner then member_tokens C providerName createdBy cachedOwner ms s
         else
           (case ResolveGitToken C providerName email s of
              (Inr token, s1) \<Rightarrow> (Inr (token, email), s1)
            | (Inl err, s1) \<Rightarrow> member_tokens C providerName createdBy cachedOwner ms s1))"

fun first_token :: "'s client \<Rightarrow> string \<Rightarrow> string list \<Rightarrow> 's \<Rightarrow> (string \<times> string) option \<times> 's" where
  \<comment> \<open>the two attempts of \<open>ResolveGitTokenForApp\<close> before it lists the members\<close>
  "first_token C providerName [] s = (None, s)"
| "first_token C providerName (email # emails) s =
     (if email = [] then first_token C providerName emails s
      else
        (case ResolveGitToken C providerName email s of
           (Inr token, s1) \<Rightarrow> (Some (token, email), s1)
         | (Inl err, s1) \<Rightarrow> first_token C providerName emails s1))"

definition ResolveGitTokenForApp ::
  "'s preview_api \<Rightarrow> string \<Rightarrow> string \<Rightarrow> string \<Rightarrow> string \<Rightarrow> 's \<Rightarrow> (gerr + string \<times> string) \<times> 's" where
  "ResolveGitTokenForApp A providerName controlNamespace createdBy cachedOwner s =
     (if providerName = [] then (Inl (Msg ''provider name is required''), s)
      else
        (case first_token (pa_Secrets A) providerName [cachedOwner, createdBy] s of
           (Some res, s1) \<Rightarrow> (Inr res, s1)
         | (None, s1) \<Rightarrow>
             (case pa_ListMembers A s1 controlNamespace of
                (Inl err, s2) \<Rightarrow> (Inl (Api (''failed to list project members in '' @ controlNamespace) err), s2)
              | (Inr ms, s2) \<Rightarrow> member_tokens (pa_Secrets A) providerName createdBy cachedOwner ms s2)))"

section \<open>Overrides and secrets\<close>

definition preview_env :: "PreviewEnvironment \<Rightarrow> string" where
  \<comment> \<open>\<open>fmt.Sprintf("pr-%d", pe.Spec.PullRequest.Number)\<close>\<close>
  "preview_env pe = ''pr-'' @ show_int (prr_Number (pes_PullRequest (pv_Spec pe)))"

definition previewTargetsAppRepo ::
  "(string \<Rightarrow> string) \<Rightarrow> (string \<Rightarrow> string option) \<Rightarrow> PreviewEnvironment \<Rightarrow> App \<Rightarrow> bool" where
  "previewTargetsAppRepo sha256 url_path pe app =
     (let src = spec_Source (app_Spec app); pr = pes_PullRequest (pv_Spec pe)
      in if src_Type src \<noteq> SourceTypeGit \<or> src_Repo src = [] then False
         else
           let appRepo = CanonicalRepoKey url_path (src_Repo src);
               prRepo = CanonicalRepoKey url_path (prr_Repo pr)
           in if prRepo \<noteq> [] then prRepo = appRepo
              else if pv_Name pe = ''preview-pr-'' @ show_int (prr_Number pr) then True
              else if has_prefix (pv_Name pe) ''preview-'' \<and> contains (pv_Name pe) ''-pr-''
              then has_prefix (pv_Name pe) (PreviewEnvironmentPrefix sha256 url_path (src_Repo src) True)
              else True)"

fun mark_preview :: "string \<Rightarrow> ProjectEnvironment list \<Rightarrow> ProjectEnvironment list" where
  \<comment> \<open>the assignment to the first environment of the name\<close>
  "mark_preview envName [] = []"
| "mark_preview envName (env # envs) =
     (if pe_Name env = envName then env\<lparr>pe_Preview := True\<rparr> # envs else env # mark_preview envName envs)"

definition new_ProjectEnvironment :: "string \<Rightarrow> bool \<Rightarrow> ProjectEnvironment" where
  "new_ProjectEnvironment name preview = \<lparr>pe_Name = name, pe_DisplayOrder = 0, pe_Restricted = False, pe_Preview = preview\<rparr>"

definition set_project_envs :: "ProjectEnvironment list \<Rightarrow> Project \<Rightarrow> Project" where
  "set_project_envs envs project = project\<lparr>prj_Spec := (prj_Spec project)\<lparr>ps_Environments := envs\<rparr>\<rparr>"

definition ensure_env_attempt :: "'s preview_api \<Rightarrow> string \<Rightarrow> string \<Rightarrow> 's call" where
  "ensure_env_attempt A projectName envName s =
     (case pa_GetProject A s projectName of
        (Inl err, s1) \<Rightarrow> (Some (Api [] err), s1)
      | (Inr project, s1) \<Rightarrow>
          let envs = ps_Environments (prj_Spec project);
              update = (\<lambda>envs'. case pa_UpdateProject A s1 (set_project_envs envs' project) of (r, s2) \<Rightarrow> (map_option (Api []) r, s2))
          in case find (\<lambda>env. pe_Name env = envName) envs of
               Some env \<Rightarrow> if pe_Preview env then (None, s1) else update (mark_preview envName envs)
             | None \<Rightarrow> update (envs @ [new_ProjectEnvironment envName True]))"

definition ensureProjectEnv :: "'s preview_api \<Rightarrow> ('s call \<Rightarrow> 's call) \<Rightarrow> string \<Rightarrow> string \<Rightarrow> 's call" where
  "ensureProjectEnv A retry projectName envName = retry (ensure_env_attempt A projectName envName)"

definition cloneEnvironment :: "string \<Rightarrow> string \<Rightarrow> App \<Rightarrow> Environment" where
  "cloneEnvironment sourceName targetName app =
     (case find (\<lambda>e. env_Name e = sourceName) (spec_Environments (app_Spec app)) of
        None \<Rightarrow> new_Environment targetName
      | Some source \<Rightarrow>
          (new_Environment targetName)\<lparr>env_Replicas := env_Replicas source, env_Resources := env_Resources source,
             env_LivenessProbe := env_LivenessProbe source, env_ReadinessProbe := env_ReadinessProbe source,
             env_StartupProbe := env_StartupProbe source, env_Schedule := env_Schedule source,
             env_ConcurrencyPolicy := env_ConcurrencyPolicy source, env_Bindings := env_Bindings source,
             env_Annotations := put_all (entries (env_Annotations source)) [],
             env_BuildArgs := put_all (entries (env_BuildArgs source)) [], env_Env := env_Env source\<rparr>)"

definition set_app_envs :: "Environment list \<Rightarrow> App \<Rightarrow> App" where
  "set_app_envs envs app = app\<lparr>app_Spec := (app_Spec app)\<lparr>spec_Environments := envs\<rparr>\<rparr>"

fun set_branch :: "string \<Rightarrow> string \<Rightarrow> Environment list \<Rightarrow> Environment list" where
  \<comment> \<open>the assignment to the first override of the name\<close>
  "set_branch envName branch [] = []"
| "set_branch envName branch (env # envs) =
     (if env_Name env = envName then env\<lparr>env_Branch := branch\<rparr> # envs else env # set_branch envName branch envs)"

definition override_of ::
  "(string \<Rightarrow> string) \<Rightarrow> (string \<Rightarrow> string option) \<Rightarrow> string \<Rightarrow> string \<Rightarrow> PreviewEnvironment \<Rightarrow> App \<Rightarrow> App option" where
  \<comment> \<open>what the closure of \<open>ensureAppEnvOverride\<close> does with the application it read: \<open>None\<close> when it returns without a write\<close>
  "override_of sha256 url_path sourceEnv envName pe fresh =
     (let branch = prr_Branch (pes_PullRequest (pv_Spec pe)); envs = spec_Environments (app_Spec fresh)
      in case find (\<lambda>e. env_Name e = envName) envs of
           Some env \<Rightarrow>
             if \<not> previewTargetsAppRepo sha256 url_path pe fresh then None
             else if env_Branch env \<noteq> branch then Some (set_app_envs (set_branch envName branch envs) fresh)
             else None
         | None \<Rightarrow>
             let cloned = cloneEnvironment sourceEnv envName fresh;
                 cloned = (if src_Type (spec_Source (app_Spec fresh)) = SourceTypeGit \<and> previewTargetsAppRepo sha256 url_path pe fresh
                           then cloned\<lparr>env_Branch := branch\<rparr> else cloned)
             in Some (set_app_envs (envs @ [cloned]) fresh))"

definition override_attempt ::
  "'s preview_api \<Rightarrow> (string \<Rightarrow> string) \<Rightarrow> (string \<Rightarrow> string option) \<Rightarrow> App \<Rightarrow> string \<Rightarrow> string \<Rightarrow> PreviewEnvironment \<Rightarrow> 's call" where
  "override_attempt A sha256 url_path app sourceEnv envName pe s =
     (case pa_GetApp A s (app_Namespace app, app_Name app) of
        (Inl err, s1) \<Rightarrow> (Some (Api [] err), s1)
      | (Inr fresh, s1) \<Rightarrow>
          (case override_of sha256 url_path sourceEnv envName pe fresh of
             None \<Rightarrow> (None, s1)
           | Some updated \<Rightarrow> (case pa_UpdateApp A s1 updated of (r, s2) \<Rightarrow> (map_option (Api []) r, s2))))"

definition ensureAppEnvOverride ::
  "'s preview_api \<Rightarrow> ('s call \<Rightarrow> 's call) \<Rightarrow> (string \<Rightarrow> string) \<Rightarrow> (string \<Rightarrow> string option) \<Rightarrow> App \<Rightarrow> string \<Rightarrow> string \<Rightarrow>
   PreviewEnvironment \<Rightarrow> 's call" where
  "ensureAppEnvOverride A retry sha256 url_path app sourceEnv envName pe =
     retry (override_attempt A sha256 url_path app sourceEnv envName pe)"

datatype preview_err = NamespaceNotReady string string | Failed gerr

definition copySourceAnnotations :: "string gomap \<Rightarrow> string gomap" where
  "copySourceAnnotations src =
     fold (\<lambda>k out. case map_of src k of None \<Rightarrow> out | Some v \<Rightarrow> AList.update k v out)
       [AnnotationBindingKeys, AnnotationGeneratedKeys, AnnotationSharedKeys] []"

definition ensurePreviewNamespaceReady :: "'s preview_api \<Rightarrow> string \<Rightarrow> string \<Rightarrow> string \<Rightarrow> 's \<Rightarrow> preview_err option \<times> 's" where
  "ensurePreviewNamespaceReady A targetNs projectName envName s =
     (case pa_GetNamespace A s targetNs of
        (Inl err, s1) \<Rightarrow> (Some (if err = NotFound then NamespaceNotReady projectName envName else Failed (Api [] err)), s1)
      | (Inr ns, s1) \<Rightarrow> (None, s1))"

definition copied_secret :: "string \<Rightarrow> string \<Rightarrow> string gomap \<Rightarrow> secret \<Rightarrow> secret" where
  "copied_secret ns name labels source =
     \<lparr>Sec_Namespace = ns, Sec_Name = name, Sec_Labels = labels,
      Sec_Annotations = copySourceAnnotations (Sec_Annotations source), Sec_Data = Sec_Data source, Sec_RV = []\<rparr>"

definition shared_copy_labels :: "string \<Rightarrow> string \<Rightarrow> string gomap" where
  "shared_copy_labels projectName envName =
     [(ProjectLabel, projectName), (EnvironmentLabel, envName), (''app.kubernetes.io/managed-by'', ''mortise'')]"

definition app_copy_labels :: "string \<Rightarrow> string \<Rightarrow> string \<Rightarrow> string gomap" where
  "app_copy_labels projectName appName envName =
     [(ProjectLabel, projectName), (AppNameLabel, appName), (EnvironmentLabel, envName),
      (''app.kubernetes.io/managed-by'', ''mortise'')]"

definition create_copy :: "'s preview_api \<Rightarrow> secret \<Rightarrow> 's \<Rightarrow> preview_err option \<times> 's" where
  "create_copy A copied s =
     (case kCreate (pa_Secrets A) s copied of
        (Some err, s1) \<Rightarrow> (if err = AlreadyExists then None else Some (Failed (Api [] err)), s1)
      | (None, s1) \<Rightarrow> (None, s1))"

definition copySharedEnvSecret :: "'s preview_api \<Rightarrow> string \<Rightarrow> string \<Rightarrow> string \<Rightarrow> 's \<Rightarrow> preview_err option \<times> 's" where
  "copySharedEnvSecret A projectName sourceEnv envName s =
     (let sourceNs = EnvNamespace projectName sourceEnv; targetNs = EnvNamespace projectName envName
      in case kGet (pa_Secrets A) s (sourceNs, SharedEnvName) of
           (Inl err, s1) \<Rightarrow> (if err = NotFound then None else Some (Failed (Api [] err)), s1)
         | (Inr source, s1) \<Rightarrow>
             (case ensurePreviewNamespaceReady A targetNs projectName envName s1 of
                (Some err, s2) \<Rightarrow> (Some err, s2)
              | (None, s2) \<Rightarrow>
                  (case kGet (pa_Secrets A) s2 (targetNs, SharedEnvName) of
                     (Inr existing, s3) \<Rightarrow> (None, s3)
                   | (Inl err, s3) \<Rightarrow>
                       if err \<noteq> NotFound then (Some (Failed (Api [] err)), s3)
                       else create_copy A (copied_secret targetNs SharedEnvName (shared_copy_labels projectName envName) source) s3)))"

definition copyAppEnvSecret :: "'s preview_api \<Rightarrow> string \<Rightarrow> string \<Rightarrow> string \<Rightarrow> string \<Rightarrow> 's \<Rightarrow> preview_err option \<times> 's" where
  "copyAppEnvSecret A projectName sourceEnv envName appName s =
     (let sourceNs = EnvNamespace projectName sourceEnv; targetNs = EnvNamespace projectName envName;
          secretName = AppEnvSecretName appName; labels = app_copy_labels projectName appName envName
      in case kGet (pa_Secrets A) s (sourceNs, secretName) of
           (Inl err, s1) \<Rightarrow> (if err = NotFound then None else Some (Failed (Api [] err)), s1)
         | (Inr source, s1) \<Rightarrow>
             (case ensurePreviewNamespaceReady A targetNs projectName envName s1 of
                (Some err, s2) \<Rightarrow> (Some err, s2)
              | (None, s2) \<Rightarrow>
                  (case kGet (pa_Secrets A) s2 (targetNs, secretName) of
                     (Inr existing, s3) \<Rightarrow>
                       if Sec_Data existing \<noteq> [] then (None, s3)
                       else (case kUpdate (pa_Secrets A) s3 (existing\<lparr>Sec_Labels := labels, Sec_Data := Sec_Data source,
                                     Sec_Annotations := copySourceAnnotations (Sec_Annotations source)\<rparr>) of
                               (r, s4) \<Rightarrow> (map_option (\<lambda>e. Failed (Api [] e)) r, s4))
                   | (Inl err, s3) \<Rightarrow>
                       if err \<noteq> NotFound then (Some (Failed (Api [] err)), s3)
                       else create_copy A (copied_secret targetNs secretName labels source) s3)))"

section \<open>Reconciling a preview\<close>

definition forbiddenFastRequeue ::
  "('s \<Rightarrow> string \<Rightarrow> (kerr + nsobj) \<times> 's) \<Rightarrow> int \<Rightarrow> string \<Rightarrow> gerr \<Rightarrow> 's \<Rightarrow> int option \<times> 's" where
  \<comment> \<open>\<open>Some\<close> delay when the second result is true\<close>
  "forbiddenFastRequeue getNamespace now nsName err s =
     (case err of
        Api _ Forbidden \<Rightarrow>
          (case getNamespace s nsName of
             (Inl getErr, s1) \<Rightarrow> (if getErr = NotFound then Some rbacPropagationRequeue else None, s1)
           | (Inr ns, s1) \<Rightarrow> (if now - ns_CreationTimestamp ns \<ge> rbacPropagationWindow then None else Some rbacPropagationRequeue, s1))
      | _ \<Rightarrow> (None, s))"

definition envStatusFor :: "App \<Rightarrow> string \<Rightarrow> EnvironmentStatus option" where
  "envStatusFor app envName = find (\<lambda>es. es_Name es = envName) (st_Environments (app_Status app))"

definition firstNonEmpty :: "string \<Rightarrow> string \<Rightarrow> string" where
  "firstNonEmpty a b = (if a \<noteq> [] then a else b)"

fun previewBuildFailure :: "'s preview_api \<Rightarrow> string \<Rightarrow> App list \<Rightarrow> 's \<Rightarrow> (gerr + (string \<times> string) option) \<times> 's" where
  "previewBuildFailure A envName [] s = (Inr None, s)"
| "previewBuildFailure A envName (app # apps) s =
     (case (case envStatusFor app envName of None \<Rightarrow> None | Some es \<Rightarrow> es_CurrentBuildRunRef es) of
        None \<Rightarrow> previewBuildFailure A envName apps s
      | Some ref \<Rightarrow>
          if brr_Phase ref \<noteq> BuildRunPhaseFailed then previewBuildFailure A envName apps s
          else
            let reason = ''BuildFailed''; msg = ''preview build failed for app '' @ quoted (app_Name app)
            in if brr_Name ref = [] then (Inr (Some (reason, msg)), s)
               else
                 (case pa_GetBuildRun A s (app_Namespace app, brr_Name ref) of
                    (Inl err, s1) \<Rightarrow> (if err = NotFound then Inr (Some (reason, msg)) else Inl (Api [] err), s1)
                  | (Inr run, s1) \<Rightarrow>
                      if brst_FailureReason (br_Status run) = ''BuildInterrupted'' then previewBuildFailure A envName apps s1
                      else (Inr (Some (firstNonEmpty (brst_FailureReason (br_Status run)) reason,
                                       firstNonEmpty (brst_FailureMessage (br_Status run)) msg)), s1)))"

definition preview_status_attempt ::
  "'s preview_api \<Rightarrow> PreviewEnvironment \<Rightarrow> (PreviewEnvironmentStatus \<Rightarrow> PreviewEnvironmentStatus) \<Rightarrow> 's call" where
  "preview_status_attempt A pe mutate s =
     (case pa_GetPreview A s (pv_Namespace pe, pv_Name pe) of
        (Inl err, s1) \<Rightarrow> (Some (Api [] err), s1)
      | (Inr fresh, s1) \<Rightarrow>
          (case pa_UpdatePreviewStatus A s1 (fresh\<lparr>pv_Status := mutate (pv_Status fresh)\<rparr>) of (r, s2) \<Rightarrow> (map_option (Api []) r, s2)))"

definition updateStatus ::
  "'s preview_api \<Rightarrow> ('s call \<Rightarrow> 's call) \<Rightarrow> PreviewEnvironment \<Rightarrow> (PreviewEnvironmentStatus \<Rightarrow> PreviewEnvironmentStatus) \<Rightarrow> 's call" where
  "updateStatus A retry pe mutate = retry (preview_status_attempt A pe mutate)"

definition ready_condition :: "int \<Rightarrow> bool \<Rightarrow> string \<Rightarrow> string \<Rightarrow> Condition" where
  "ready_condition now ok reason msg =
     \<lparr>cond_Type = ''Ready'', cond_Status = (if ok then ''True'' else ''False''), cond_ObservedGeneration = 0,
      cond_LastTransitionTime = now, cond_Reason = reason, cond_Message = msg\<rparr>"

definition setFailedPreview ::
  "'s preview_api \<Rightarrow> ('s call \<Rightarrow> 's call) \<Rightarrow> cond_lib \<Rightarrow> int \<Rightarrow> PreviewEnvironment \<Rightarrow> string \<Rightarrow> string \<Rightarrow> 's call" where
  "setFailedPreview A retry L now pe reason msg =
     updateStatus A retry pe (\<lambda>st. st\<lparr>pest_Phase := PreviewPhaseFailed,
       pest_Conditions := cl_Set L (ready_condition now False reason msg) (pest_Conditions st)\<rparr>)"

definition set_ready ::
  "'s preview_api \<Rightarrow> ('s call \<Rightarrow> 's call) \<Rightarrow> cond_lib \<Rightarrow> int \<Rightarrow> PreviewEnvironment \<Rightarrow> string \<Rightarrow> 's call" where
  "set_ready A retry L now pe envName =
     updateStatus A retry pe (\<lambda>st. st\<lparr>pest_Phase := PreviewPhaseReady, pest_EnvironmentName := envName,
       pest_Conditions := cl_Set L (ready_condition now True ''EnvironmentReady'' ''preview environment created'') (pest_Conditions st)\<rparr>)"

fun each :: "('a \<Rightarrow> 's \<Rightarrow> 'e option \<times> 's) \<Rightarrow> 'a list \<Rightarrow> 's \<Rightarrow> 'e option \<times> 's" where
  \<comment> \<open>\<open>for _, x := range xs { if err := f(x); err != nil { return err } }\<close>\<close>
  "each f [] s = (None, s)"
| "each f (x # xs) s = (case f x s of (Some err, s1) \<Rightarrow> (Some err, s1) | (None, s1) \<Rightarrow> each f xs s1)"

section \<open>Taking a preview away\<close>

definition envInUseByAnotherPreview :: "'s preview_api \<Rightarrow> PreviewEnvironment \<Rightarrow> string \<Rightarrow> 's \<Rightarrow> (kerr + bool) \<times> 's" where
  "envInUseByAnotherPreview A pe envName s =
     (case pa_ListPreviews A s (pv_Namespace pe) of
        (Inl err, s1) \<Rightarrow> (Inl err, s1)
      | (Inr items, s1) \<Rightarrow>
          (Inr (list_ex (\<lambda>other. \<not> (pv_Name other = pv_Name pe \<or> pv_DeletionTimestamp other \<noteq> None) \<and> preview_env other = envName) items), s1))"

definition previewNamespaceOwnedByProject :: "nsobj \<Rightarrow> string \<Rightarrow> bool" where
  "previewNamespaceOwnedByProject ns projectName =
     (if lookup_str (ns_Labels ns) ''app.kubernetes.io/managed-by'' = ''mortise'' \<and>
         lookup_str (ns_Labels ns) ProjectLabel = projectName then True
      else list_ex (\<lambda>ref. or_APIVersion ref = ''mortise.mortise.dev/v1alpha1'' \<and> or_Kind ref = ''Project'' \<and> or_Name ref = projectName)
             (ns_OwnerReferences ns))"

definition deletePreviewNamespace :: "'s preview_api \<Rightarrow> string \<Rightarrow> string \<Rightarrow> 's call" where
  "deletePreviewNamespace A projectName envName s =
     (let name = EnvNamespace projectName envName
      in case pa_GetNamespace A s name of
           (Inl err, s1) \<Rightarrow> (if err = NotFound then None else Some (Api [] err), s1)
         | (Inr ns, s1) \<Rightarrow>
             if \<not> previewNamespaceOwnedByProject ns projectName
             then (Some (Msg (''refusing to delete namespace '' @ quoted name @ '': not clearly managed by project '' @ quoted projectName)), s1)
             else if ns_DeletionTimestamp ns \<noteq> None then (None, s1)
             else (case pa_DeleteNamespace A s1 ns of
                     (None, s2) \<Rightarrow> (None, s2)
                   | (Some err, s2) \<Rightarrow> (if err = NotFound then None else Some (Api [] err), s2)))"

fun remove_first :: "('a \<Rightarrow> bool) \<Rightarrow> 'a list \<Rightarrow> 'a list" where
  \<comment> \<open>the search for \<open>idx\<close> and \<open>append(xs[:idx], xs[idx+1:]...)\<close>\<close>
  "remove_first p [] = []"
| "remove_first p (x # xs) = (if p x then xs else x # remove_first p xs)"

definition remove_env_attempt :: "'s preview_api \<Rightarrow> string \<Rightarrow> string \<Rightarrow> 's call" where
  "remove_env_attempt A projectName envName s =
     (case pa_GetProject A s projectName of
        (Inl err, s1) \<Rightarrow> (if err = NotFound then None else Some (Api [] err), s1)
      | (Inr project, s1) \<Rightarrow>
          let envs = ps_Environments (prj_Spec project)
          in if \<not> list_ex (\<lambda>env. pe_Name env = envName) envs then (None, s1)
             else (case pa_UpdateProject A s1 (set_project_envs (remove_first (\<lambda>env. pe_Name env = envName) envs) project) of
                     (r, s2) \<Rightarrow> (map_option (Api []) r, s2)))"

definition removeProjectEnv :: "'s preview_api \<Rightarrow> ('s call \<Rightarrow> 's call) \<Rightarrow> string \<Rightarrow> string \<Rightarrow> 's call" where
  "removeProjectEnv A retry projectName envName = retry (remove_env_attempt A projectName envName)"

definition remove_override_attempt :: "'s preview_api \<Rightarrow> App \<Rightarrow> string \<Rightarrow> 's call" where
  "remove_override_attempt A app envName s =
     (case pa_GetApp A s (app_Namespace app, app_Name app) of
        (Inl err, s1) \<Rightarrow> (if err = NotFound then None else Some (Api [] err), s1)
      | (Inr fresh, s1) \<Rightarrow>
          let envs = spec_Environments (app_Spec fresh)
          in if \<not> list_ex (\<lambda>env. env_Name env = envName) envs then (None, s1)
             else (case pa_UpdateApp A s1 (set_app_envs (remove_first (\<lambda>env. env_Name env = envName) envs) fresh) of
                     (r, s2) \<Rightarrow> (map_option (Api []) r, s2)))"

definition removeAppEnvOverride :: "'s preview_api \<Rightarrow> ('s call \<Rightarrow> 's call) \<Rightarrow> string \<Rightarrow> App \<Rightarrow> 's call" where
  "removeAppEnvOverride A retry envName app = retry (remove_override_attempt A app envName)"

definition tear_down :: "'s preview_api \<Rightarrow> ('s call \<Rightarrow> 's call) \<Rightarrow> string \<Rightarrow> string \<Rightarrow> 's call" where
  \<comment> \<open>\<open>cleanupPreview\<close> once no other preview uses the environment\<close>
  "tear_down A retry projectName envName s =
     (case removeProjectEnv A retry projectName envName s of
        (Some err, s1) \<Rightarrow> (Some err, s1)
      | (None, s1) \<Rightarrow>
          (case pa_ListApps A s1 (ControlNamespace projectName) of
             (Inl err, s2) \<Rightarrow> (Some (Api [] err), s2)
           | (Inr apps, s2) \<Rightarrow>
               (case each (removeAppEnvOverride A retry envName) apps s2 of
                  (Some err, s3) \<Rightarrow> (Some err, s3)
                | (None, s3) \<Rightarrow> deletePreviewNamespace A projectName envName s3)))"

definition cleanupPreview :: "'s preview_api \<Rightarrow> ('s call \<Rightarrow> 's call) \<Rightarrow> PreviewEnvironment \<Rightarrow> string \<Rightarrow> string \<Rightarrow> 's call" where
  "cleanupPreview A retry pe projectName envName s =
     (case envInUseByAnotherPreview A pe envName s of
        (Inl err, s1) \<Rightarrow> (Some (Api [] err), s1)
      | (Inr True, s1) \<Rightarrow> (None, s1)
      | (Inr False, s1) \<Rightarrow> tear_down A retry projectName envName s1)"

section \<open>The reconciler\<close>

record 's preview_cfg =
  cfg_api :: "'s preview_api"
  cfg_retry :: "'s call \<Rightarrow> 's call"
  cfg_cond :: cond_lib
  cfg_sha256 :: "string \<Rightarrow> string"
  cfg_url_path :: "string \<Rightarrow> string option"
  cfg_sdk_ok :: "string \<Rightarrow> bool"

type_synonym outcome = "int \<times> gerr option"
  \<comment> \<open>\<open>ctrl.Result.RequeueAfter\<close> and the error\<close>

definition finish_copy :: "'s preview_cfg \<Rightarrow> int \<Rightarrow> string \<Rightarrow> preview_err \<Rightarrow> 's \<Rightarrow> outcome \<times> 's" where
  \<comment> \<open>how \<open>Reconcile\<close> answers an error of the copies\<close>
  "finish_copy R now previewNs err s =
     (case err of
        NamespaceNotReady _ _ \<Rightarrow> ((previewNamespaceReadyRequeue, None), s)
      | Failed e \<Rightarrow>
          (case forbiddenFastRequeue (pa_GetNamespace (cfg_api R)) now previewNs e s of
             (Some delay, s1) \<Rightarrow> ((delay, None), s1)
           | (None, s1) \<Rightarrow> ((0, Some e), s1)))"

definition copy_secrets :: "'s preview_cfg \<Rightarrow> string \<Rightarrow> string \<Rightarrow> string \<Rightarrow> App list \<Rightarrow> 's \<Rightarrow> preview_err option \<times> 's" where
  "copy_secrets R projectName sourceEnv envName apps s =
     (case copySharedEnvSecret (cfg_api R) projectName sourceEnv envName s of
        (Some err, s1) \<Rightarrow> (Some err, s1)
      | (None, s1) \<Rightarrow> each (\<lambda>app. copyAppEnvSecret (cfg_api R) projectName sourceEnv envName (app_Name app)) apps s1)"

definition settle :: "'s preview_cfg \<Rightarrow> int \<Rightarrow> PreviewEnvironment \<Rightarrow> string \<Rightarrow> App list \<Rightarrow> 's \<Rightarrow> outcome \<times> 's" where
  \<comment> \<open>the end of \<open>Reconcile\<close>: the status of the preview\<close>
  "settle R now pe envName apps s =
     (case previewBuildFailure (cfg_api R) envName apps s of
        (Inl err, s1) \<Rightarrow> ((0, Some (Msg ''detect preview build failure'')), s1)
      | (Inr (Some (reason, msg)), s1) \<Rightarrow>
          (case setFailedPreview (cfg_api R) (cfg_retry R) (cfg_cond R) now pe reason msg s1 of (r, s2) \<Rightarrow> ((0, r), s2))
      | (Inr None, s1) \<Rightarrow>
          (case set_ready (cfg_api R) (cfg_retry R) (cfg_cond R) now pe envName s1 of (r, s2) \<Rightarrow> ((0, r), s2)))"

definition provision :: "'s preview_cfg \<Rightarrow> int \<Rightarrow> PreviewEnvironment \<Rightarrow> string \<Rightarrow> string \<Rightarrow> 's \<Rightarrow> outcome \<times> 's" where
  \<comment> \<open>\<open>Reconcile\<close> after its guards\<close>
  "provision R now pe projectName envName s =
     (let A = cfg_api R; sourceEnv = pes_SourceEnv (pv_Spec pe)
      in case ensureProjectEnv A (cfg_retry R) projectName envName s of
           (Some err, s1) \<Rightarrow> ((0, Some err), s1)
         | (None, s1) \<Rightarrow>
             (case pa_ListApps A s1 (ControlNamespace projectName) of
                (Inl err, s2) \<Rightarrow> ((0, Some (Api ''list apps'' err)), s2)
              | (Inr apps, s2) \<Rightarrow>
                  (case each (\<lambda>app. ensureAppEnvOverride A (cfg_retry R) (cfg_sha256 R) (cfg_url_path R) app sourceEnv envName pe) apps s2 of
                     (Some err, s3) \<Rightarrow> ((0, Some err), s3)
                   | (None, s3) \<Rightarrow>
                       (case copy_secrets R projectName sourceEnv envName apps s3 of
                          (Some err, s4) \<Rightarrow> finish_copy R now (EnvNamespace projectName envName) err s4
                        | (None, s4) \<Rightarrow> settle R now pe envName apps s4))))"

definition guarded :: "'s preview_cfg \<Rightarrow> int \<Rightarrow> PreviewEnvironment \<Rightarrow> 's \<Rightarrow> outcome \<times> 's" where
  \<comment> \<open>\<open>Reconcile\<close> from reading the project on\<close>
  "guarded R now pe s =
     (let A = cfg_api R; projectName = pes_ProjectRef (pv_Spec pe); sourceEnv = pes_SourceEnv (pv_Spec pe);
          fail = (\<lambda>reason msg s. case setFailedPreview A (cfg_retry R) (cfg_cond R) now pe reason msg s of (r, s') \<Rightarrow> ((0, r), s'))
      in case pa_GetProject A s projectName of
           (Inl err, s1) \<Rightarrow>
             if err = NotFound then fail ''ProjectNotFound'' (''project '' @ quoted projectName @ '' not found'') s1
             else ((0, Some (Api [] err)), s1)
         | (Inr project, s1) \<Rightarrow>
             if (case ps_Preview (prj_Spec project) of None \<Rightarrow> True | Some pc \<Rightarrow> \<not> pc_Enabled pc)
             then fail ''PreviewDisabled'' (''previews not enabled on project '' @ quoted projectName) s1
             else if list_ex (\<lambda>env. pe_Name env = sourceEnv \<and> pe_Restricted env) (ps_Environments (prj_Spec project))
             then fail ''RestrictedSourceEnv'' (''source environment '' @ quoted sourceEnv @ '' is restricted'') s1
             else provision R now pe projectName (preview_env pe) s1)"

definition reconcile_preview :: "'s preview_cfg \<Rightarrow> int \<Rightarrow> nn \<Rightarrow> 's \<Rightarrow> outcome \<times> 's" where
  "reconcile_preview R now key s =
     (let A = cfg_api R
      in case pa_GetPreview A s key of
           (Inl err, s1) \<Rightarrow> ((0, if err = NotFound then None else Some (Api [] err)), s1)
         | (Inr pe, s1) \<Rightarrow>
             if pv_DeletionTimestamp pe \<noteq> None then
               (if previewFinalizer \<in> set (pv_Finalizers pe) then
                  (case cleanupPreview A (cfg_retry R) pe (pes_ProjectRef (pv_Spec pe)) (preview_env pe) s1 of
                     (Some err, s2) \<Rightarrow> ((0, Some err), s2)
                   | (None, s2) \<Rightarrow>
                       (case pa_UpdatePreview A s2 (pe\<lparr>pv_Finalizers := filter (\<lambda>f. f \<noteq> previewFinalizer) (pv_Finalizers pe)\<rparr>) of
                          (r, s3) \<Rightarrow> ((0, map_option (Api []) r), s3)))
                else ((0, None), s1))
             else if previewFinalizer \<notin> set (pv_Finalizers pe) then
               (let pe = pe\<lparr>pv_Finalizers := pv_Finalizers pe @ [previewFinalizer]\<rparr>
                in case pa_UpdatePreview A s1 pe of
                     (Some err, s2) \<Rightarrow> ((0, Some (Api [] err)), s2)
                   | (None, s2) \<Rightarrow> guarded R now pe s2)
             else guarded R now pe s1)"

section \<open>Convergence\<close>

definition resolveSourceEnvFromProject :: "Project \<Rightarrow> string" where
  "resolveSourceEnvFromProject project =
     (case ps_Preview (prj_Spec project) of
        Some preview \<Rightarrow>
          if pc_SourceEnvironment preview \<noteq> [] then pc_SourceEnvironment preview
          else first_source (ps_Environments (prj_Spec project)) []
      | None \<Rightarrow> first_source (ps_Environments (prj_Spec project)) [])"

definition convergencePEName :: "(string \<Rightarrow> string) \<Rightarrow> (string \<Rightarrow> string option) \<Rightarrow> string \<Rightarrow> int \<Rightarrow> bool \<Rightarrow> string" where
  "convergencePEName sha256 url_path repo number multiRepo = PreviewEnvironmentName sha256 url_path repo number multiRepo"

definition convergencePEPrefix :: "(string \<Rightarrow> string) \<Rightarrow> (string \<Rightarrow> string option) \<Rightarrow> string \<Rightarrow> bool \<Rightarrow> string" where
  "convergencePEPrefix sha256 url_path repo multiRepo = PreviewEnvironmentPrefix sha256 url_path repo multiRepo"

definition protected_names ::
  "(string \<Rightarrow> string) \<Rightarrow> (string \<Rightarrow> string option) \<Rightarrow> string \<Rightarrow> bool \<Rightarrow> string \<Rightarrow> bool" where
  \<comment> \<open>the existing names that \<open>protectRepoPreviewEnvironments\<close> adds\<close>
  "protected_names sha256 url_path repo multiRepo peName =
     (if \<not> multiRepo then True else has_prefix peName (convergencePEPrefix sha256 url_path repo True))"

definition protectRepoPreviewEnvironments ::
  "(string \<Rightarrow> string) \<Rightarrow> (string \<Rightarrow> string option) \<Rightarrow> string list \<Rightarrow> PreviewEnvironment gomap \<Rightarrow> string \<Rightarrow> bool \<Rightarrow> string list" where
  "protectRepoPreviewEnvironments sha256 url_path protected existing repo multiRepo =
     filter (protected_names sha256 url_path repo multiRepo) (map fst (entries existing)) @ protected"

fun unique_repos :: "(string \<Rightarrow> string option) \<Rightarrow> App list \<Rightarrow> (string \<times> string) list \<Rightarrow> (string \<times> string) list \<Rightarrow> (string \<times> string) list" where
  \<comment> \<open>the first loop of \<open>ConvergeProjectPreviews\<close>, with \<open>seen\<close> and \<open>repos\<close>; a pair is a repository and a provider\<close>
  "unique_repos url_path [] seen repos = repos"
| "unique_repos url_path (app # apps) seen repos =
     (let src = spec_Source (app_Spec app)
      in if src_Type src \<noteq> SourceTypeGit \<or> src_Repo src = [] then unique_repos url_path apps seen repos
         else
           let k = (CanonicalRepoKey url_path (src_Repo src), src_ProviderRef src)
           in if k \<in> set seen then unique_repos url_path apps seen repos
              else unique_repos url_path apps (k # seen) (repos @ [(src_Repo src, src_ProviderRef src)]))"

definition open_preview :: "string \<Rightarrow> string \<Rightarrow> string \<Rightarrow> string \<Rightarrow> PullRequestSnapshot \<Rightarrow> PreviewEnvironment" where
  "open_preview projectName peName sourceEnv repo pr =
     new_preview (ControlNamespace projectName) peName
       \<lparr>pes_ProjectRef = projectName, pes_SourceEnv = sourceEnv,
        pes_PullRequest = \<lparr>prr_Number = prs_Number pr, prr_Branch = prs_Branch pr, prr_SHA = prs_SHA pr, prr_Repo = repo\<rparr>\<rparr>"

fun converge_prs ::
  "'s preview_cfg \<Rightarrow> string \<Rightarrow> bool \<Rightarrow> string \<Rightarrow> bool \<Rightarrow> string \<Rightarrow> PreviewEnvironment gomap \<Rightarrow> PullRequestSnapshot list \<Rightarrow>
   string list \<Rightarrow> 's \<Rightarrow> (gerr + string list) \<times> 's" where
  \<comment> \<open>the loop over the open pull requests of one repository, with \<open>openPEs\<close>\<close>
  "converge_prs R projectName botPR sourceEnv multiRepo repo existing [] opens s = (Inr opens, s)"
| "converge_prs R projectName botPR sourceEnv multiRepo repo existing (pr # prs) opens s =
     (let go = converge_prs R projectName botPR sourceEnv multiRepo repo existing prs
      in if \<not> botPR \<and> prs_AuthorIsBot pr then go opens s
         else
           let peName = convergencePEName (cfg_sha256 R) (cfg_url_path R) repo (prs_Number pr) multiRepo;
               opens = peName # opens
           in if map_of existing peName \<noteq> None then go opens s
              else if sourceEnv = [] then go opens s
              else
                (case pa_CreatePreview (cfg_api R) s (open_preview projectName peName sourceEnv repo pr) of
                   (None, s1) \<Rightarrow> go opens s1
                 | (Some err, s1) \<Rightarrow>
                     if err = AlreadyExists then go opens s1
                     else (Inl (Api (''create PE for PR #'' @ show_int (prs_Number pr) @ '' ('' @ repo @ '')'') err), s1)))"

fun converge_repos ::
  "'s preview_cfg \<Rightarrow> string \<Rightarrow> bool \<Rightarrow> string \<Rightarrow> bool \<Rightarrow> PreviewEnvironment gomap \<Rightarrow> (string \<times> string) list \<Rightarrow>
   string list \<Rightarrow> string list \<Rightarrow> 's \<Rightarrow> (gerr + string list \<times> string list) \<times> 's" where
  \<comment> \<open>the loop over the repositories, with \<open>openPEs\<close> and \<open>protectedPEs\<close>\<close>
  "converge_repos R projectName botPR sourceEnv multiRepo existing [] opens prot s = (Inr (opens, prot), s)"
| "converge_repos R projectName botPR sourceEnv multiRepo existing ((repo, providerRef) # repos) opens prot s =
     (let A = cfg_api R; go = converge_repos R projectName botPR sourceEnv multiRepo existing repos;
          protect = protectRepoPreviewEnvironments (cfg_sha256 R) (cfg_url_path R) prot existing repo multiRepo
      in if providerRef = [] then go opens protect s
         else
           (case pa_GetProvider A s providerRef of
              (Inl err, s1) \<Rightarrow>
                if err = NotFound then go opens protect s1
                else (Inl (Api (''get GitProvider '' @ quoted providerRef) err), s1)
            | (Inr gp, s1) \<Rightarrow>
                (case ResolveGitTokenForApp A providerRef (ControlNamespace projectName) [] [] s1 of
                   (Inl err, s2) \<Rightarrow> go opens protect s2
                 | (Inr (token, _), s2) \<Rightarrow>
                     (case NewGitAPIFromProvider (cfg_sdk_ok R) gp token [] of
                        Inl err \<Rightarrow> go opens protect s2
                      | Inr gitAPI \<Rightarrow>
                          (case pa_OpenPRs A s2 gitAPI repo of
                             (Inl err, s3) \<Rightarrow> go opens protect s3
                           | (Inr prs, s3) \<Rightarrow>
                               (case converge_prs R projectName botPR sourceEnv multiRepo repo existing prs opens s3 of
                                  (Inl err, s4) \<Rightarrow> (Inl err, s4)
                                | (Inr opens, s4) \<Rightarrow> go opens prot s4))))))"

fun delete_stale ::
  "'s preview_api \<Rightarrow> int \<Rightarrow> string list \<Rightarrow> string list \<Rightarrow> (string \<times> PreviewEnvironment) list \<Rightarrow> gerr option \<Rightarrow> 's call" where
  \<comment> \<open>the loop of \<open>deleteStalePreviews\<close>, with \<open>deleteErr\<close>\<close>
  "delete_stale A now opens prot [] deleteErr s = (deleteErr, s)"
| "delete_stale A now opens prot ((peName, pe) # pes) deleteErr s =
     (if peName \<in> set opens then delete_stale A now opens prot pes deleteErr s
      else if peName \<in> set prot then delete_stale A now opens prot pes deleteErr s
      else if now - pv_CreationTimestamp pe < convergenceGracePeriod then delete_stale A now opens prot pes deleteErr s
      else
        (case pa_DeletePreview A s pe of
           (None, s1) \<Rightarrow> delete_stale A now opens prot pes deleteErr s1
         | (Some err, s1) \<Rightarrow>
             if err = NotFound then delete_stale A now opens prot pes deleteErr s1
             else delete_stale A now opens prot pes
                    (if deleteErr = None then Some (Api (''delete stale PE '' @ quoted peName) err) else deleteErr) s1))"

definition deleteStalePreviews ::
  "'s preview_api \<Rightarrow> int \<Rightarrow> PreviewEnvironment gomap \<Rightarrow> string list \<Rightarrow> string list \<Rightarrow> 's call" where
  "deleteStalePreviews A now existing opens prot = delete_stale A now opens prot (entries existing) None"

definition listProjectPreviews :: "'s preview_api \<Rightarrow> string \<Rightarrow> 's \<Rightarrow> (gerr + PreviewEnvironment gomap) \<times> 's" where
  "listProjectPreviews A controlNs s =
     (case pa_ListPreviews A s controlNs of
        (Inl err, s1) \<Rightarrow> (Inl (Api ''list preview environments'' err), s1)
      | (Inr items, s1) \<Rightarrow> (Inr (put_all (map (\<lambda>pe. (pv_Name pe, pe)) items) []), s1))"

definition previews_enabled :: "Project \<Rightarrow> bool" where
  "previews_enabled project = (case ps_Preview (prj_Spec project) of None \<Rightarrow> False | Some pc \<Rightarrow> pc_Enabled pc)"

definition ConvergeProjectPreviews :: "'s preview_cfg \<Rightarrow> int \<Rightarrow> Project \<Rightarrow> 's call" where
  "ConvergeProjectPreviews R now project s =
     (let A = cfg_api R; controlNs = ControlNamespace (prj_Name project)
      in if \<not> previews_enabled project then
           (case listProjectPreviews A controlNs s of
              (Inl err, s1) \<Rightarrow> (Some err, s1)
            | (Inr existing, s1) \<Rightarrow> deleteStalePreviews A now existing [] [] s1)
         else
           (case pa_ListApps A s controlNs of
              (Inl err, s1) \<Rightarrow> (Some (Api ''list apps'' err), s1)
            | (Inr apps, s1) \<Rightarrow>
                let repos = unique_repos (cfg_url_path R) apps [] []
                in case listProjectPreviews A controlNs s1 of
                     (Inl err, s2) \<Rightarrow> (Some err, s2)
                   | (Inr existing, s2) \<Rightarrow>
                       let botPR = (case ps_Preview (prj_Spec project) of None \<Rightarrow> True
                                    | Some pc \<Rightarrow> (case pc_BotPR pc of None \<Rightarrow> True | Some b \<Rightarrow> b));
                           sourceEnv = resolveSourceEnvFromProject project
                       in case converge_repos R (prj_Name project) botPR sourceEnv (length repos > 1) existing repos [] [] s2 of
                            (Inl err, s3) \<Rightarrow> (Some err, s3)
                          | (Inr (opens, prot), s3) \<Rightarrow> deleteStalePreviews A now existing opens prot s3))"

definition reconcileProjectConvergence :: "'s preview_cfg \<Rightarrow> int \<Rightarrow> string \<Rightarrow> 's \<Rightarrow> outcome \<times> 's" where
  "reconcileProjectConvergence R now name s =
     (case pa_GetProject (cfg_api R) s name of
        (Inl err, s1) \<Rightarrow> ((0, if err = NotFound then None else Some (Api [] err)), s1)
      | (Inr project, s1) \<Rightarrow>
          (case ConvergeProjectPreviews R now project s1 of
             (Some err, s2) \<Rightarrow> ((0, Some err), s2)
           | (None, s2) \<Rightarrow> ((10 * 60 * 1000000000, None), s2)))"

end
