(* ===== verification/PreviewSafety.thy ===== *)
theory PreviewSafety
  imports Preview
begin

text \<open>
  What holds of the life of preview environments (theory \<open>Preview\<close>): the two places that create them agree, and
  the convergence and the clean-up never take away a preview that is still wanted.
\<close>

section \<open>Counting repositories\<close>

abbreviation git_app :: "App \<Rightarrow> bool" where
  "git_app app \<equiv> src_Type (spec_Source (app_Spec app)) = SourceTypeGit \<and> src_Repo (spec_Source (app_Spec app)) \<noteq> []"

abbreviation repo_pair :: "(string \<Rightarrow> string option) \<Rightarrow> App \<Rightarrow> string \<times> string" where
  "repo_pair up app \<equiv> (CanonicalRepoKey up (src_Repo (spec_Source (app_Spec app))), src_ProviderRef (spec_Source (app_Spec app)))"

lemma multiple_repos_card:
  "distinct seen \<Longrightarrow> length seen \<le> 1 \<Longrightarrow>
   multiple_repos up ns apps seen \<longleftrightarrow> 1 < card (set seen \<union> repo_key up ` {a \<in> set apps. app_Namespace a = ns \<and> git_app a})"
proof (induction apps arbitrary: seen)
  case Nil
  then show ?case by (simp add: distinct_card)
next
  case (Cons app apps)
  show ?case
  proof (cases "app_Namespace app = ns \<and> git_app app")
    case False
    then have "{a \<in> set (app # apps). app_Namespace a = ns \<and> git_app a} = {a \<in> set apps. app_Namespace a = ns \<and> git_app a}" by auto
    with False Cons show ?thesis by (auto simp: Let_def)
  next
    case True
    define seen' where "seen' = List.insert (repo_key up app) seen"
    have set_eq: "set seen \<union> repo_key up ` {a \<in> set (app # apps). app_Namespace a = ns \<and> git_app a} =
        set seen' \<union> repo_key up ` {a \<in> set apps. app_Namespace a = ns \<and> git_app a}"
      using True by (auto simp: seen'_def)
    have d: "distinct seen'" using Cons.prems by (simp add: seen'_def)
    show ?thesis
    proof (cases "length seen' > 1")
      case True
      then have "1 < card (set seen')" using d by (simp add: distinct_card)
      then have "1 < card (set seen' \<union> repo_key up ` {a \<in> set apps. app_Namespace a = ns \<and> git_app a})"
        by (rule less_le_trans) (auto intro: card_mono)
      with True \<open>app_Namespace app = ns \<and> git_app app\<close> show ?thesis
        unfolding set_eq by (simp add: seen'_def Let_def)
    next
      case False
      then have "multiple_repos up ns (app # apps) seen = multiple_repos up ns apps seen'"
        using True by (simp add: seen'_def Let_def)
      also have "\<dots> \<longleftrightarrow> 1 < card (set seen' \<union> repo_key up ` {a \<in> set apps. app_Namespace a = ns \<and> git_app a})"
        using d False by (intro Cons.IH) simp_all
      finally show ?thesis unfolding set_eq .
    qed
  qed
qed

lemma unique_repos_step:
  "unique_repos up (app # apps) seen repos =
     (if git_app app \<and> repo_pair up app \<notin> set seen
      then unique_repos up apps (repo_pair up app # seen) (repos @ [(src_Repo (spec_Source (app_Spec app)), src_ProviderRef (spec_Source (app_Spec app)))])
      else unique_repos up apps seen repos)"
  by (simp add: Let_def)

lemma unique_repos_length:
  "length (unique_repos up apps seen repos) = length repos + card (repo_pair up ` {a \<in> set apps. git_app a} - set seen)"
proof (induction apps arbitrary: seen repos)
  case (Cons app apps)
  let ?S = "{a \<in> set apps. git_app a}"
  have all: "{a \<in> set (app # apps). git_app a} = (if git_app app then insert app ?S else ?S)" by auto
  show ?case
  proof (cases "git_app app \<and> repo_pair up app \<notin> set seen")
    case True
    then have "repo_pair up ` {a \<in> set (app # apps). git_app a} - set seen =
        insert (repo_pair up app) (repo_pair up ` ?S - set (repo_pair up app # seen))"
      unfolding all by auto
    with True show ?thesis by (simp del: unique_repos.simps add: unique_repos_step Cons.IH)
  next
    case False
    then have "repo_pair up ` {a \<in> set (app # apps). git_app a} - set seen = repo_pair up ` ?S - set seen"
      unfolding all by auto
    with False show ?thesis by (simp only: unique_repos_step if_False Cons.IH)
  qed
qed simp

lemma split_at_nul:
  assumes "c \<notin> set x" "c \<notin> set y" "x @ c # u = y @ c # v"
  shows "x = y \<and> u = v"
proof -
  have "takeWhile (\<lambda>d. d \<noteq> c) (x @ c # u) = x" "takeWhile (\<lambda>d. d \<noteq> c) (y @ c # v) = y"
    using assms(1,2) by (induction x) (auto, induction y, auto)
  with assms(3) show ?thesis by auto
qed

lemma card_repo_keys:
  assumes "\<forall>app \<in> S. CHR 0x00 \<notin> set (src_ProviderRef (spec_Source (app_Spec app)))"
  shows "card (repo_key up ` S) = card (repo_pair up ` S)"
proof -
  define k where "k p = snd p @ CHR 0x00 # fst p" for p :: "string \<times> string"
  have "inj_on k (repo_pair up ` S)"
  proof (rule inj_onI)
    fix p q assume "p \<in> repo_pair up ` S" "q \<in> repo_pair up ` S" "k p = k q"
    with assms have "snd p = snd q \<and> fst p = fst q"
      unfolding k_def by (intro split_at_nul) auto
    then show "p = q" by (simp add: prod_eq_iff)
  qed
  moreover have "repo_key up ` S = k ` repo_pair up ` S"
    unfolding image_image by (intro image_cong) (simp_all add: k_def repo_key_def)
  ultimately show ?thesis by (simp add: card_image)
qed

lemma PreviewEnvironmentName_canonical:
  "CanonicalRepoKey up a = CanonicalRepoKey up b \<Longrightarrow>
   PreviewEnvironmentName sha up a n m = PreviewEnvironmentName sha up b n m"
  by (simp add: PreviewEnvironmentName_def PreviewEnvironmentPrefix_def)

lemma has_prefix_preview_name:
  "CanonicalRepoKey up a = CanonicalRepoKey up b \<Longrightarrow>
   has_prefix (PreviewEnvironmentName sha up a n True) (PreviewEnvironmentPrefix sha up b True)"
  by (simp add: PreviewEnvironmentName_def PreviewEnvironmentPrefix_def has_prefix_conv)

lemma unique_repos_covers:
  assumes "\<exists>app \<in> set apps. git_app app \<and> CanonicalRepoKey up (src_Repo (spec_Source (app_Spec app))) = key"
  shows "\<exists>(r, ref) \<in> set (unique_repos up apps [] []). CanonicalRepoKey up r = key"
proof -
  have "(\<forall>app \<in> set apps. git_app app \<longrightarrow> (\<exists>(r, ref) \<in> set (unique_repos up apps seen repos).
      CanonicalRepoKey up r = CanonicalRepoKey up (src_Repo (spec_Source (app_Spec app))))) \<and> set repos \<subseteq> set (unique_repos up apps seen repos)"
    if "\<forall>k \<in> set seen. \<exists>(r, ref) \<in> set repos. CanonicalRepoKey up r = fst k" for seen repos
    using that
  proof (induction apps arbitrary: seen repos)
    case (Cons app apps)
    let ?src = "spec_Source (app_Spec app)"
    show ?case
    proof (cases "git_app app \<and> repo_pair up app \<notin> set seen")
      case True
      have "\<forall>k \<in> set (repo_pair up app # seen). \<exists>(r, ref) \<in> set (repos @ [(src_Repo ?src, src_ProviderRef ?src)]). CanonicalRepoKey up r = fst k"
        using Cons.prems by fastforce
      from Cons.IH [OF this] True show ?thesis
        by (simp del: unique_repos.simps add: unique_repos_step) fastforce
    next
      case False
      have "git_app app \<Longrightarrow> \<exists>(r, ref) \<in> set repos. CanonicalRepoKey up r = CanonicalRepoKey up (src_Repo ?src)"
        using False Cons.prems by fastforce
      with Cons.IH [OF Cons.prems] False show ?thesis
        by (simp only: unique_repos_step if_False) fastforce
    qed
  qed simp
  from this [of "[]" "[]"] assms show ?thesis by fastforce
qed

section \<open>What convergence leaves alone\<close>

definition spares :: "'s preview_api \<Rightarrow> string \<Rightarrow> ('s \<Rightarrow> bool) \<Rightarrow> bool" where
  \<comment> \<open>only deleting a preview of the name \<open>n\<close> can affect \<open>P\<close>\<close>
  "spares A n P \<longleftrightarrow> (\<forall>s. P s \<longrightarrow>
     (\<forall>ns. P (snd (pa_ListApps A s ns)) \<and> P (snd (pa_ListPreviews A s ns)) \<and> P (snd (pa_ListMembers A s ns)) \<and> P (snd (pa_GetProvider A s ns))) \<and>
     (\<forall>k. P (snd (kGet (pa_Secrets A) s k))) \<and> (\<forall>api repo. P (snd (pa_OpenPRs A s api repo))) \<and>
     (\<forall>pe. P (snd (pa_CreatePreview A s pe)) \<and> (pv_Name pe \<noteq> n \<longrightarrow> P (snd (pa_DeletePreview A s pe)))))"

lemma sparesD:
  assumes "spares A n P" "P s"
  shows "pa_ListApps A s ns = (r1, s') \<Longrightarrow> P s'" "pa_ListPreviews A s ns = (r2, s') \<Longrightarrow> P s'"
    "pa_ListMembers A s ns = (r3, s') \<Longrightarrow> P s'" "pa_GetProvider A s ns = (r4, s') \<Longrightarrow> P s'"
    "kGet (pa_Secrets A) s k = (r5, s') \<Longrightarrow> P s'" "pa_OpenPRs A s api repo = (r6, s') \<Longrightarrow> P s'"
    "pa_CreatePreview A s pe = (r7, s') \<Longrightarrow> P s'" "pv_Name pe \<noteq> n \<Longrightarrow> pa_DeletePreview A s pe = (r8, s') \<Longrightarrow> P s'"
  using assms unfolding spares_def by (metis snd_conv)+

lemma ResolveGitToken_keeps:
  assumes "spares A n P" "P s" "ResolveGitToken (pa_Secrets A) pn e s = (r, s')"
  shows "P s'"
proof (cases "pn = [] \<or> e = []")
  case True
  with assms(2,3) show ?thesis by (auto simp: ResolveGitToken_def split: if_splits)
next
  case False
  obtain got s1 where get: "kGet (pa_Secrets A) s (TokenSecretNamespace, UserTokenSecretName pn e) = (got, s1)" by force
  with False assms(3) have "s' = s1" by (auto simp: ResolveGitToken_def Let_def split: sum.splits if_splits)
  with sparesD(5) [OF assms(1,2) get] show ?thesis by simp
qed

lemma first_token_keeps:
  "spares A n P \<Longrightarrow> P s \<Longrightarrow> first_token (pa_Secrets A) pn es s = (r, s') \<Longrightarrow> P s'"
  by (induction es arbitrary: s) (auto dest: ResolveGitToken_keeps split: if_splits prod.splits sum.splits)

lemma member_tokens_keeps:
  "spares A n P \<Longrightarrow> P s \<Longrightarrow> member_tokens (pa_Secrets A) pn c o1 ms s = (r, s') \<Longrightarrow> P s'"
  by (induction ms arbitrary: s) (auto simp: Let_def dest: ResolveGitToken_keeps split: if_splits prod.splits sum.splits)

lemma ResolveGitTokenForApp_keeps:
  assumes "spares A n P" "P s" "ResolveGitTokenForApp A pn ns c o1 s = (r, s')"
  shows "P s'"
proof (cases "pn = []")
  case True
  with assms(2,3) show ?thesis by (simp add: ResolveGitTokenForApp_def)
next
  case False
  obtain tok s1 where tok: "first_token (pa_Secrets A) pn [o1, c] s = (tok, s1)" by force
  note P1 = first_token_keeps [OF assms(1,2) tok]
  obtain ms s2 where ms: "pa_ListMembers A s1 ns = (ms, s2)" by force
  note P2 = sparesD(3) [OF assms(1) P1 ms]
  show ?thesis
    using assms(3) False tok ms P1 P2
    by (auto simp: ResolveGitTokenForApp_def simp del: first_token.simps dest: member_tokens_keeps [OF assms(1) P2] split: option.splits sum.splits)
qed

text \<open>The loop over one repository's pull requests marks each that may have a preview.\<close>

lemma converge_prs_marks:
  assumes "spares (cfg_api R) n P"
  shows "P s \<Longrightarrow> converge_prs R pn bots src multi repo ex prs opens s = (r, s') \<Longrightarrow>
    P s' \<and> (\<forall>opens'. r = Inr opens' \<longrightarrow> set opens \<subseteq> set opens' \<and>
      (\<forall>pr \<in> set prs. bots \<or> \<not> prs_AuthorIsBot pr \<longrightarrow>
         convergencePEName (cfg_sha256 R) (cfg_url_path R) repo (prs_Number pr) multi \<in> set opens'))"
proof (induction prs arbitrary: opens s)
  case (Cons pr prs)
  let ?n = "convergencePEName (cfg_sha256 R) (cfg_url_path R) repo (prs_Number pr) multi"
  show ?case
  proof (cases "\<not> bots \<and> prs_AuthorIsBot pr")
    case True
    with Cons.prems have "converge_prs R pn bots src multi repo ex prs opens s = (r, s')" by (simp add: Let_def)
    from Cons.IH [OF Cons.prems(1) this] True show ?thesis by auto
  next
    case False
    have "(\<exists>s1. P s1 \<and> converge_prs R pn bots src multi repo ex prs (?n # opens) s1 = (r, s')) \<or> (\<exists>e. r = Inl e) \<and> P s'"
      using Cons.prems False sparesD(7) [OF assms Cons.prems(1)]
      by (fastforce simp: Let_def split: if_splits prod.splits option.splits)
    with Cons.IH [of _ "?n # opens"] show ?thesis by fastforce
  qed
qed auto

lemma protect_covers:
  "map_of ex n \<noteq> None \<Longrightarrow> \<not> multi \<or> has_prefix n (convergencePEPrefix sha up repo True) \<Longrightarrow>
   n \<in> set (protectRepoPreviewEnvironments sha up prot ex repo multi)"
  by (auto simp: protectRepoPreviewEnvironments_def protected_names_def set_entries image_iff)

lemma protect_mono: "set prot \<subseteq> set (protectRepoPreviewEnvironments sha up prot ex repo multi)"
  by (auto simp: protectRepoPreviewEnvironments_def)

definition marked :: "PreviewEnvironment gomap \<Rightarrow> string \<Rightarrow> string list \<Rightarrow> string list \<Rightarrow> bool" where
  "marked ex n opens prot \<longleftrightarrow> n \<in> set opens \<or> map_of ex n = None \<or> n \<in> set prot"

lemma converge_repos_marks:
  assumes sp: "spares (cfg_api R) n P"
    and listed: "\<And>s api repo prs s'. P s \<Longrightarrow> CanonicalRepoKey (cfg_url_path R) repo = key \<Longrightarrow> pa_OpenPRs (cfg_api R) s api repo = (Inr prs, s') \<Longrightarrow>
        \<exists>pr \<in> set prs. prs_Number pr = num \<and> (bots \<or> \<not> prs_AuthorIsBot pr)"
    and name: "\<And>repo. CanonicalRepoKey (cfg_url_path R) repo = key \<Longrightarrow>
        n = convergencePEName (cfg_sha256 R) (cfg_url_path R) repo num multi"
  shows "P s \<Longrightarrow> converge_repos R pn bots src multi ex repos opens prot s = (r, s') \<Longrightarrow>
    P s' \<and> (\<forall>opens' prot'. r = Inr (opens', prot') \<longrightarrow> set opens \<subseteq> set opens' \<and> set prot \<subseteq> set prot' \<and>
      ((\<exists>(repo, ref) \<in> set repos. CanonicalRepoKey (cfg_url_path R) repo = key) \<longrightarrow> marked ex n opens' prot'))"
proof (induction repos arbitrary: opens prot s)
  case (Cons rr repos)
  obtain repo ref where rr: "rr = (repo, ref)" by (cases rr)
  let ?A = "cfg_api R" and ?up = "cfg_url_path R" and ?sha = "cfg_sha256 R"
  define protect where "protect = protectRepoPreviewEnvironments ?sha ?up prot ex repo multi"
  have pre: "CanonicalRepoKey ?up repo = key \<Longrightarrow> \<not> multi \<or> has_prefix n (convergencePEPrefix ?sha ?up repo True)"
    using name has_prefix_preview_name by (auto simp: convergencePEName_def convergencePEPrefix_def)
  define rest where "rest opens0 prot0 s0 \<longleftrightarrow> P s0 \<and> converge_repos R pn bots src multi ex repos opens0 prot0 s0 = (r, s')" for opens0 prot0 s0
  have failing: ?case if "rest opens protect s1" for s1
  proof -
    have "CanonicalRepoKey ?up repo = key \<Longrightarrow> marked ex n opens protect"
      using protect_covers [OF _ pre] unfolding marked_def protect_def by blast
    with that Cons.IH [of s1 opens protect] protect_mono [of prot ?sha ?up ex repo multi] show ?case
      by (fastforce simp: rest_def rr marked_def protect_def)
  qed
  have listing: ?case if "P s2" "pa_OpenPRs ?A s2 api repo = (Inr prs, s3)" "P s3"
    "converge_prs R pn bots src multi repo ex prs opens s3 = (Inr opens1, s4)" "rest opens1 prot s4" for s2 api prs s3 opens1 s4
  proof -
    from converge_prs_marks [OF sp that(3,4)] have o: "set opens \<subseteq> set opens1"
      "\<forall>pr \<in> set prs. bots \<or> \<not> prs_AuthorIsBot pr \<longrightarrow> convergencePEName ?sha ?up repo (prs_Number pr) multi \<in> set opens1" by auto
    then have "CanonicalRepoKey ?up repo = key \<Longrightarrow> n \<in> set opens1"
      using listed [OF that(1) _ that(2)] name by blast
    with that(5) Cons.IH [of s4 opens1 prot] o(1) show ?case by (fastforce simp: rest_def rr marked_def)
  qed
  note run = Cons.prems(2) [unfolded rr converge_repos.simps Let_def, folded protect_def]
  show ?case
  proof (cases "ref = []")
    case True
    with run Cons.prems(1) show ?thesis by (intro failing) (simp add: rest_def)
  next
    case False
    obtain gp s1 where gp: "pa_GetProvider ?A s ref = (gp, s1)" by force
    note P1 = sparesD(4) [OF sp Cons.prems(1) gp]
    show ?thesis
    proof (cases gp)
      case (Inl err)
      show ?thesis
      proof (cases "err = NotFound")
        case True
        with Inl run False gp P1 show ?thesis by (intro failing) (simp add: rest_def)
      next
        case False
        with Inl run \<open>ref \<noteq> []\<close> gp P1 show ?thesis by auto
      qed
    next
      case gpr: (Inr g)
      obtain tok s2 where tok: "ResolveGitTokenForApp ?A ref (ControlNamespace pn) [] [] s1 = (tok, s2)" by force
      note P2 = ResolveGitTokenForApp_keeps [OF sp P1 tok]
      show ?thesis
      proof (cases tok)
        case Inl
        with run False gp gpr tok P2 show ?thesis by (intro failing) (simp add: rest_def)
      next
        case tokr: (Inr to)
        obtain token own where to: "to = (token, own)" by (cases to)
        show ?thesis
        proof (cases "NewGitAPIFromProvider (cfg_sdk_ok R) g token []")
          case Inl
          with run False gp gpr tok tokr to P2 show ?thesis by (intro failing) (simp add: rest_def)
        next
          case api: (Inr api)
          obtain prs s3 where prs: "pa_OpenPRs ?A s2 api repo = (prs, s3)" by force
          note P3 = sparesD(6) [OF sp P2 prs]
          show ?thesis
          proof (cases prs)
            case Inl
            with run False gp gpr tok tokr to api prs P3 show ?thesis by (intro failing) (simp add: rest_def)
          next
            case prsr: (Inr ps)
            obtain res s4 where res: "converge_prs R pn bots src multi repo ex ps opens s3 = (res, s4)" by force
            note P4 = converge_prs_marks [OF sp P3 res, THEN conjunct1]
            note facts = run False gp gpr tok tokr to api prs prsr res P4
            show ?thesis
            proof (cases res)
              case Inl
              with facts show ?thesis by auto
            next
              case (Inr opens1)
              with facts show ?thesis by (intro listing [OF P2 _ P3]) (simp_all add: rest_def)
            qed
          qed
        qed
      qed
    qed
  qed
qed auto

lemma delete_stale_keeps:
  assumes "spares A n P" "\<And>k pe. (k, pe) \<in> set pes \<Longrightarrow> pv_Name pe = k" "n \<in> fst ` set pes \<Longrightarrow> n \<in> set opens \<or> n \<in> set prot"
  shows "P s \<Longrightarrow> delete_stale A now opens prot pes e s = (r, s') \<Longrightarrow> P s'"
  using assms(2,3)
proof (induction pes arbitrary: e s)
  case (Cons kp pes)
  obtain k pe where kp: "kp = (k, pe)" by (cases kp)
  with Cons.prems(3) have k: "pv_Name pe = k" by simp
  show ?case
  proof (cases "k \<in> set opens \<or> k \<in> set prot \<or> now - pv_CreationTimestamp pe < convergenceGracePeriod")
    case True
    with Cons kp show ?thesis by (auto split: if_splits)
  next
    case False
    obtain d s1 where d: "pa_DeletePreview A s pe = (d, s1)" by force
    from False Cons.prems(4) kp k have "pv_Name pe \<noteq> n" by force
    from sparesD(8) [OF assms(1) Cons.prems(1) this d] have "P s1" .
    moreover obtain e' where "delete_stale A now opens prot pes e' s1 = (r, s')"
      using Cons.prems(2) False d kp by (auto split: option.splits if_splits)
    ultimately show ?thesis using Cons.IH [of s1] Cons.prems(3,4) by fastforce
  qed
qed simp

section \<open>What a reconcile can touch\<close>

definition status_only :: "'s preview_api \<Rightarrow> ('s \<Rightarrow> bool) \<Rightarrow> bool" where
  \<comment> \<open>reading, and writing previews and their status, does not affect \<open>P\<close>\<close>
  "status_only A P \<longleftrightarrow> (\<forall>s. P s \<longrightarrow>
     (\<forall>k. P (snd (pa_GetPreview A s k))) \<and> (\<forall>name. P (snd (pa_GetProject A s name))) \<and>
     (\<forall>pe. P (snd (pa_UpdatePreview A s pe)) \<and> P (snd (pa_UpdatePreviewStatus A s pe))))"

definition spares_namespaces :: "'s preview_api \<Rightarrow> ('s \<Rightarrow> bool) \<Rightarrow> bool" where
  \<comment> \<open>only deleting a namespace can affect \<open>P\<close>\<close>
  "spares_namespaces A P \<longleftrightarrow> status_only A P \<and> (\<forall>s. P s \<longrightarrow>
     (\<forall>name. P (snd (pa_ListPreviews A s name)) \<and> P (snd (pa_ListApps A s name)) \<and> P (snd (pa_GetNamespace A s name))) \<and>
     (\<forall>k. P (snd (pa_GetApp A s k)) \<and> P (snd (pa_GetBuildRun A s k)) \<and> P (snd (kGet (pa_Secrets A) s k))) \<and>
     (\<forall>project. P (snd (pa_UpdateProject A s project))) \<and> (\<forall>app. P (snd (pa_UpdateApp A s app))) \<and>
     (\<forall>sec. P (snd (kCreate (pa_Secrets A) s sec)) \<and> P (snd (kUpdate (pa_Secrets A) s sec))))"

lemma status_onlyD:
  assumes "status_only A P" "P s"
  shows "pa_GetPreview A s k = (r1, s') \<Longrightarrow> P s'" "pa_GetProject A s name = (r2, s') \<Longrightarrow> P s'"
    "pa_UpdatePreview A s pe = (r3, s') \<Longrightarrow> P s'" "pa_UpdatePreviewStatus A s pe = (r4, s') \<Longrightarrow> P s'"
  using assms unfolding status_only_def by (metis snd_conv)+

lemma spares_status: "spares_namespaces A P \<Longrightarrow> status_only A P"
  by (simp add: spares_namespaces_def)

lemma spares_namespacesD:
  assumes "spares_namespaces A P" "P s"
  shows "pa_ListPreviews A s name = (r1, s') \<Longrightarrow> P s'" "pa_ListApps A s name = (r2, s') \<Longrightarrow> P s'"
    "pa_GetNamespace A s name = (r3, s') \<Longrightarrow> P s'" "pa_GetApp A s k = (r4, s') \<Longrightarrow> P s'"
    "pa_GetBuildRun A s k = (r5, s') \<Longrightarrow> P s'" "kGet (pa_Secrets A) s k = (r6, s') \<Longrightarrow> P s'"
    "pa_UpdateProject A s project = (r7, s') \<Longrightarrow> P s'" "pa_UpdateApp A s app = (r8, s') \<Longrightarrow> P s'"
    "kCreate (pa_Secrets A) s sec = (r9, s') \<Longrightarrow> P s'" "kUpdate (pa_Secrets A) s sec = (r10, s') \<Longrightarrow> P s'"
  using assms unfolding spares_namespaces_def by (metis snd_conv)+

lemma each_keeps:
  assumes "\<And>x s r s'. P s \<Longrightarrow> f x s = (r, s') \<Longrightarrow> P s'"
  shows "P s \<Longrightarrow> each f xs s = (r, s') \<Longrightarrow> P s'"
proof (induction xs arbitrary: s)
  case (Cons x xs)
  obtain e s1 where e: "f x s = (e, s1)" by force
  with assms Cons.prems(1) have "P s1" by blast
  with Cons e show ?case by (cases e) auto
qed simp

lemma retry_keeps_eq:
  "retries retry \<Longrightarrow> P s \<Longrightarrow> retry f s = (r, s') \<Longrightarrow> (\<And>s r s1. P s \<Longrightarrow> f s = (r, s1) \<Longrightarrow> P s1) \<Longrightarrow> P s'"
  using retry_keeps [of retry P s f] by simp

lemma status_attempt_keeps: "status_only A P \<Longrightarrow> P s \<Longrightarrow> preview_status_attempt A pe m s = (r, s') \<Longrightarrow> P s'"
  by (auto simp: preview_status_attempt_def dest: status_onlyD split: prod.splits sum.splits)

lemma updateStatus_keeps:
  assumes "retries retry" "status_only A P" "P s" "updateStatus A retry pe m s = (r, s')"
  shows "P s'"
  using retry_keeps_eq [where P = P, OF assms(1,3) assms(4)[unfolded updateStatus_def] status_attempt_keeps [OF assms(2)]] .

lemma setFailedPreview_keeps:
  "retries retry \<Longrightarrow> status_only A P \<Longrightarrow> P s \<Longrightarrow> setFailedPreview A retry L now pe reason msg s = (r, s') \<Longrightarrow> P s'"
  unfolding setFailedPreview_def by (rule updateStatus_keeps)

lemma set_ready_keeps:
  "retries retry \<Longrightarrow> status_only A P \<Longrightarrow> P s \<Longrightarrow> set_ready A retry L now pe e s = (r, s') \<Longrightarrow> P s'"
  unfolding set_ready_def by (rule updateStatus_keeps)

text \<open>Everything a reconcile does to provision a preview spares namespaces.\<close>

lemma ensureProjectEnv_keeps:
  assumes "spares_namespaces A P" "retries retry" "P s" "ensureProjectEnv A retry pn e s = (r, s')"
  shows "P s'"
proof -
  have "ensure_env_attempt A pn e s = (r, s1) \<Longrightarrow> P s \<Longrightarrow> P s1" for s r s1
    by (auto simp: ensure_env_attempt_def Let_def dest: status_onlyD(2) [OF spares_status [OF assms(1)]] spares_namespacesD(7) [OF assms(1)]
        split: prod.splits sum.splits option.splits if_splits)
  with retry_keeps_eq [where P = P, OF assms(2,3) assms(4)[unfolded ensureProjectEnv_def]] show ?thesis by blast
qed

lemma ensureAppEnvOverride_keeps:
  assumes "spares_namespaces A P" "retries retry" "P s" "ensureAppEnvOverride A retry sha up app src e pe s = (r, s')"
  shows "P s'"
proof -
  have "override_attempt A sha up app src e pe s = (r, s1) \<Longrightarrow> P s \<Longrightarrow> P s1" for s r s1
    by (auto simp: override_attempt_def dest: spares_namespacesD(4,8) [OF assms(1)] split: prod.splits sum.splits option.splits)
  with retry_keeps_eq [where P = P, OF assms(2,3) assms(4)[unfolded ensureAppEnvOverride_def]] show ?thesis by blast
qed

lemma removeProjectEnv_keeps:
  assumes "spares_namespaces A P" "retries retry" "P s" "removeProjectEnv A retry pn e s = (r, s')"
  shows "P s'"
proof -
  have "remove_env_attempt A pn e s = (r, s1) \<Longrightarrow> P s \<Longrightarrow> P s1" for s r s1
    by (auto simp: remove_env_attempt_def Let_def dest: status_onlyD(2) [OF spares_status [OF assms(1)]] spares_namespacesD(7) [OF assms(1)]
        split: prod.splits sum.splits if_splits)
  with retry_keeps_eq [where P = P, OF assms(2,3) assms(4)[unfolded removeProjectEnv_def]] show ?thesis by blast
qed

lemma removeAppEnvOverride_keeps:
  assumes "spares_namespaces A P" "retries retry" "P s" "removeAppEnvOverride A retry e app s = (r, s')"
  shows "P s'"
proof -
  have "remove_override_attempt A app e s = (r, s1) \<Longrightarrow> P s \<Longrightarrow> P s1" for s r s1
    by (auto simp: remove_override_attempt_def Let_def dest: spares_namespacesD(4,8) [OF assms(1)] split: prod.splits sum.splits if_splits)
  with retry_keeps_eq [where P = P, OF assms(2,3) assms(4)[unfolded removeAppEnvOverride_def]] show ?thesis by blast
qed

lemma ready_check_keeps:
  assumes "spares_namespaces A P" "P s" "ensurePreviewNamespaceReady A ns pn e s = (r, s')"
  shows "P s'"
  using assms(2,3) by (auto simp: ensurePreviewNamespaceReady_def dest: spares_namespacesD(3) [OF assms(1)] split: prod.splits sum.splits)

lemma create_copy_keeps:
  assumes "spares_namespaces A P" "P s" "create_copy A sec s = (r, s')"
  shows "P s'"
  using assms(2,3) by (auto simp: create_copy_def dest: spares_namespacesD(9) [OF assms(1)] split: prod.splits option.splits)

lemma copySharedEnvSecret_keeps:
  assumes "spares_namespaces A P" "P s" "copySharedEnvSecret A pn src e s = (r, s')"
  shows "P s'"
  using assms(2,3)
  by (auto simp: copySharedEnvSecret_def Let_def split: prod.splits sum.splits option.splits if_splits)
    (blast dest: spares_namespacesD(6) [OF assms(1)] ready_check_keeps [OF assms(1)] create_copy_keeps [OF assms(1)])+

lemma copyAppEnvSecret_keeps:
  assumes "spares_namespaces A P" "P s" "copyAppEnvSecret A pn src e app s = (r, s')"
  shows "P s'"
  using assms(2,3)
  by (auto simp: copyAppEnvSecret_def Let_def split: prod.splits sum.splits option.splits if_splits)
    (blast dest: spares_namespacesD(6,10) [OF assms(1)] ready_check_keeps [OF assms(1)] create_copy_keeps [OF assms(1)])+

lemma copy_secrets_keeps:
  assumes "spares_namespaces (cfg_api R) P" "P s" "copy_secrets R pn src e apps s = (r, s')"
  shows "P s'"
proof -
  obtain r1 s1 where sh: "copySharedEnvSecret (cfg_api R) pn src e s = (r1, s1)" by force
  note P1 = copySharedEnvSecret_keeps [OF assms(1,2) sh]
  show ?thesis
  proof (cases r1)
    case Some
    with sh assms(3) P1 show ?thesis by (simp add: copy_secrets_def)
  next
    case None
    with sh assms(3) have "each (\<lambda>app. copyAppEnvSecret (cfg_api R) pn src e (app_Name app)) apps s1 = (r, s')"
      by (simp add: copy_secrets_def)
    note loop = this
    show ?thesis
      by (rule each_keeps [where P = P, OF _ P1 loop]) (rule copyAppEnvSecret_keeps [OF assms(1)])
  qed
qed

lemma previewBuildFailure_keeps:
  "spares_namespaces A P \<Longrightarrow> P s \<Longrightarrow> previewBuildFailure A e apps s = (r, s') \<Longrightarrow> P s'"
proof (induction apps arbitrary: s)
  case (Cons app apps)
  show ?case
  proof (cases "\<exists>ref. (case envStatusFor app e of None \<Rightarrow> None | Some es \<Rightarrow> es_CurrentBuildRunRef es) = Some ref \<and>
      brr_Phase ref = BuildRunPhaseFailed \<and> brr_Name ref \<noteq> []")
    case False
    with Cons show ?thesis by (auto simp: Let_def split: option.splits if_splits)
  next
    case True
    then obtain ref where ref: "(case envStatusFor app e of None \<Rightarrow> None | Some es \<Rightarrow> es_CurrentBuildRunRef es) = Some ref"
      "brr_Phase ref = BuildRunPhaseFailed" "brr_Name ref \<noteq> []" by blast
    obtain run s1 where run: "pa_GetBuildRun A s (app_Namespace app, brr_Name ref) = (run, s1)" by force
    note P1 = spares_namespacesD(5) [OF Cons.prems(1,2) run]
    have "r \<noteq> r \<or> s' = s1 \<or> previewBuildFailure A e apps s1 = (r, s')"
      using Cons.prems(3) ref run by (auto simp: Let_def split: sum.splits if_splits)
    with P1 Cons.IH [OF Cons.prems(1) P1] show ?thesis by blast
  qed
qed simp

lemma settle_keeps:
  assumes "spares_namespaces (cfg_api R) P" "retries (cfg_retry R)" "P s" "settle R now pe e apps s = (r, s')"
  shows "P s'"
proof -
  obtain f s1 where f: "previewBuildFailure (cfg_api R) e apps s = (f, s1)" by force
  note P1 = previewBuildFailure_keeps [OF assms(1,3) f]
  note st = setFailedPreview_keeps [OF assms(2) spares_status [OF assms(1)] P1] set_ready_keeps [OF assms(2) spares_status [OF assms(1)] P1]
  from assms(4) f P1 show ?thesis by (auto simp: settle_def split: sum.splits option.splits prod.splits dest: st)
qed

lemma finish_copy_keeps:
  assumes "spares_namespaces (cfg_api R) P" "P s" "finish_copy R now ns err s = (r, s')"
  shows "P s'"
  using assms(2,3)
  by (auto simp: finish_copy_def forbiddenFastRequeue_def dest: spares_namespacesD(3) [OF assms(1)]
      split: preview_err.splits gerr.splits kerr.splits prod.splits sum.splits option.splits if_splits)

lemma provision_keeps:
  assumes "spares_namespaces (cfg_api R) P" "retries (cfg_retry R)" "P s" "provision R now pe pn e s = (r, s')"
  shows "P s'"
proof -
  let ?A = "cfg_api R"
  obtain r1 s1 where s1: "ensureProjectEnv ?A (cfg_retry R) pn e s = (r1, s1)" by force
  note P1 = ensureProjectEnv_keeps [OF assms(1-3) s1]
  obtain r2 s2 where s2: "pa_ListApps ?A s1 (ControlNamespace pn) = (r2, s2)" by force
  note P2 = spares_namespacesD(2) [OF assms(1) P1 s2]
  define over where "over app = ensureAppEnvOverride ?A (cfg_retry R) (cfg_sha256 R) (cfg_url_path R) app (pes_SourceEnv (pv_Spec pe)) e pe" for app
  have over: "P s \<Longrightarrow> over app s = (r, s') \<Longrightarrow> P s'" for app s r s'
    unfolding over_def by (rule ensureAppEnvOverride_keeps [OF assms(1,2)])
  obtain apps r3 s3 where apps: "(\<exists>err. r2 = Inl err) \<or> r2 = Inr apps" and s3: "each over apps s2 = (r3, s3)"
    by (cases r2) force+
  have P3: "P s3"
    by (rule each_keeps [where P = P, OF _ P2 s3]) (rule over)
  obtain r4 s4 where s4: "copy_secrets R pn (pes_SourceEnv (pv_Spec pe)) e apps s3 = (r4, s4)" by force
  note P4 = copy_secrets_keeps [OF assms(1) P3 s4]
  from assms(4) s1 s2 apps s3 s4 P1 P2 P3 show ?thesis
    by (auto simp: provision_def Let_def over_def [symmetric] split: option.splits
        dest: finish_copy_keeps [OF assms(1) P4] settle_keeps [OF assms(1,2) P4])
qed

lemma guarded_keeps:
  assumes "spares_namespaces (cfg_api R) P" "retries (cfg_retry R)" "P s" "guarded R now pe s = (r, s')"
  shows "P s'"
proof -
  obtain g s1 where g: "pa_GetProject (cfg_api R) s (pes_ProjectRef (pv_Spec pe)) = (g, s1)" by force
  note P1 = status_onlyD(2) [OF spares_status [OF assms(1)] assms(3) g]
  from assms(4) g P1 show ?thesis
    by (auto simp: guarded_def Let_def split: sum.splits if_splits prod.splits option.splits
        dest: setFailedPreview_keeps [OF assms(2) spares_status [OF assms(1)] P1] provision_keeps [OF assms(1,2) P1])
qed

text \<open>
  A copied secret loses the mark of retained variables: \<open>copySourceAnnotations\<close> copies three of the four
  annotations that \<open>internal/envstore\<close> tracks sources with.
\<close>

lemma copied_secret_forgets_retained:
  assumes "source_of sec k = ''retained''"
  shows "source_of (copied_secret ns name labels sec) k = ''user''"
proof -
  have "lookup_str (copySourceAnnotations a) x =
      (if x \<in> {AnnotationBindingKeys, AnnotationGeneratedKeys, AnnotationSharedKeys} then lookup_str a x else [])" for a x
    by (auto simp: copySourceAnnotations_def lookup_str_def update_conv' split: option.splits)
  with assms show ?thesis
    by (auto simp: source_of_def copied_secret_def annotation_defs parseKeySet_def split: if_splits)
qed

section \<open>An example cluster\<close>

definition ex_preview :: "string \<Rightarrow> int \<Rightarrow> PreviewEnvironment" where
  "ex_preview name num = \<lparr>pv_Namespace = ''pj-web'', pv_Name = name, pv_Finalizers = [previewFinalizer], pv_CreationTimestamp = 0,
     pv_DeletionTimestamp = None,
     pv_Spec = \<lparr>pes_ProjectRef = ''web'', pes_SourceEnv = ''staging'',
       pes_PullRequest = \<lparr>prr_Number = num, prr_Branch = ''fix'', prr_SHA = ''abc'', prr_Repo = ''o/r''\<rparr>\<rparr>,
     pv_Status = no_preview_status\<rparr>"

definition ex_preview_project :: Project where
  "ex_preview_project = \<lparr>prj_Name = ''web'', prj_UID = ''u'', prj_Labels = [], prj_Annotations = [], prj_Generation = 1, prj_CreationTimestamp = None,
     prj_DeletionTimestamp = None, prj_Finalizers = [],
     prj_Spec = \<lparr>ps_Description = [],
       ps_Environments = [\<lparr>pe_Name = ''staging'', pe_DisplayOrder = 0, pe_Restricted = True, pe_Preview = False\<rparr>],
       ps_Preview = Some \<lparr>pc_Enabled = True, pc_SourceEnvironment = [], pc_BotPR = None\<rparr>, ps_AutoRedeploy = False\<rparr>,
     prj_Status = \<lparr>pst_Phase = ProjectPhaseReady, pst_Namespace = ''pj-web'', pst_EnvNamespaces = [], pst_AppCount = 0,
       pst_Environments = [], pst_Conditions = []\<rparr>\<rparr>"

record ex_cluster =
  xc_previews :: "PreviewEnvironment list"
  xc_project :: Project
  xc_namespaces :: "string list"

definition ex_preview_api :: "ex_cluster preview_api" where
  \<comment> \<open>a cluster with one project, one git application of an unregistered provider, and an open pull request 7\<close>
  "ex_preview_api = \<lparr>
     pa_GetPreview = (\<lambda>s k. (case find (\<lambda>p. pv_Name p = snd k) (xc_previews s) of None \<Rightarrow> Inl NotFound | Some p \<Rightarrow> Inr p, s)),
     pa_UpdatePreview = (\<lambda>s p. (None, s)), pa_UpdatePreviewStatus = (\<lambda>s p. (None, s)),
     pa_CreatePreview = (\<lambda>s p. (None, s\<lparr>xc_previews := p # xc_previews s\<rparr>)),
     pa_DeletePreview = (\<lambda>s p. (None, s\<lparr>xc_previews := filter (\<lambda>q. pv_Name q \<noteq> pv_Name p) (xc_previews s)\<rparr>)),
     pa_ListPreviews = (\<lambda>s ns. (Inr (xc_previews s), s)),
     pa_GetProject = (\<lambda>s name. (Inr ex_preview_project, s)), pa_UpdateProject = (\<lambda>s p. (None, s\<lparr>xc_project := p\<rparr>)),
     pa_GetApp = (\<lambda>s k. (Inr (ex_git_app ''api'' ''o/r'' []), s)), pa_UpdateApp = (\<lambda>s a. (None, s)),
     pa_ListApps = (\<lambda>s ns. (Inr [ex_git_app ''api'' ''o/r'' []], s)),
     pa_GetNamespace = (\<lambda>s name. (Inr \<lparr>ns_Name = name, ns_Labels = [(''app.kubernetes.io/managed-by'', ''mortise''), (ProjectLabel, ''web'')],
         ns_Annotations = [], ns_CreationTimestamp = 0, ns_DeletionTimestamp = None, ns_OwnerReferences = []\<rparr>, s)),
     pa_DeleteNamespace = (\<lambda>s ns. (None, s\<lparr>xc_namespaces := filter (\<lambda>x. x \<noteq> ns_Name ns) (xc_namespaces s)\<rparr>)),
     pa_GetBuildRun = (\<lambda>s k. (Inl NotFound, s)),
     pa_Secrets = \<lparr>kGet = (\<lambda>s k. (Inl NotFound, s)), kCreate = (\<lambda>s o1. (None, s)), kUpdate = (\<lambda>s o1. (None, s))\<rparr>,
     pa_GetProvider = (\<lambda>s name. (Inl NotFound, s)), pa_ListMembers = (\<lambda>s ns. (Inr [], s)),
     pa_OpenPRs = (\<lambda>s api repo. (Inr [\<lparr>prs_Number = 7, prs_Branch = ''fix'', prs_SHA = ''abc'', prs_AuthorIsBot = False\<rparr>], s))\<rparr>"

definition ex_preview_cfg :: "ex_cluster preview_cfg" where
  "ex_preview_cfg = \<lparr>cfg_api = ex_preview_api, cfg_retry = mem_retry, cfg_cond = we_cond ex_webhook, cfg_sha256 = (\<lambda>_. []),
     cfg_url_path = (\<lambda>_. None), cfg_sdk_ok = (\<lambda>_. True)\<rparr>"

definition ex_cluster_state :: ex_cluster where
  "ex_cluster_state = \<lparr>xc_previews = [ex_preview ''preview-pr-7'' 7, (ex_preview ''gone'' 8)\<lparr>pv_DeletionTimestamp := Some 5\<rparr>],
     xc_project = ex_preview_project, xc_namespaces = [''pj-web-pr-8'', ''pj-web-pr-7'']\<rparr>"

lemma ex_numbers: "show_int 7 = ''7''" "show_int 8 = ''8''"
  by code_simp+

section \<open>Properties\<close>

text \<open>
  C21: The two writers of preview environments agree. The webhook, which looks at all git applications of the
  cluster, and the convergence, which looks at the applications of the project, come to the same answer whether the
  project has several repositories, give the preview of a pull request the same name for any two
  spellings of its repository, and clone the same source environment. So a preview the webhook made
  is one the convergence recognises.
\<close>

theorem preview_writers_agree:
  assumes "\<forall>app \<in> set apps. CHR 0x00 \<notin> set (src_ProviderRef (spec_Source (app_Spec app)))"
    and "CanonicalRepoKey up eventRepo = CanonicalRepoKey up appRepo"
  shows "previewEnvName sha up eventRepo n
       (projectHasMultipleGitRepos up (filter (\<lambda>a. src_Type (spec_Source (app_Spec a)) = SourceTypeGit) apps) projectName) =
     convergencePEName sha up appRepo n
       (1 < length (unique_repos up (filter (\<lambda>a. app_Namespace a = ControlNamespace projectName) apps) [] [])) \<and>
     resolveSourceEnv project = resolveSourceEnvFromProject project"
proof (rule conjI)
  let ?S = "{a \<in> set apps. app_Namespace a = ControlNamespace projectName \<and> git_app a}"
  let ?git = "filter (\<lambda>a. src_Type (spec_Source (app_Spec a)) = SourceTypeGit) apps"
  let ?own = "filter (\<lambda>a. app_Namespace a = ControlNamespace projectName) apps"
  have S: "{a \<in> set ?git. app_Namespace a = ControlNamespace projectName \<and> git_app a} = ?S" "{a \<in> set ?own. git_app a} = ?S" by auto
  have "card (repo_key up ` ?S) = card (repo_pair up ` ?S)"
    using assms(1) by (intro card_repo_keys) auto
  then have "projectHasMultipleGitRepos up ?git projectName = (1 < length (unique_repos up ?own [] []))"
    unfolding projectHasMultipleGitRepos_def unique_repos_length
      multiple_repos_card [of "[]" up "ControlNamespace projectName" ?git, simplified] S(2)
    using S(1) by simp
  then show "previewEnvName sha up eventRepo n
       (projectHasMultipleGitRepos up (filter (\<lambda>a. src_Type (spec_Source (app_Spec a)) = SourceTypeGit) apps) projectName) =
     convergencePEName sha up appRepo n
       (1 < length (unique_repos up (filter (\<lambda>a. app_Namespace a = ControlNamespace projectName) apps) [] []))"
    using PreviewEnvironmentName_canonical [OF assms(2)] by (simp add: previewEnvName_def convergencePEName_def)
  show "resolveSourceEnv project = resolveSourceEnvFromProject project"
    by (simp add: resolveSourceEnv_def resolveSourceEnvFromProject_def)
qed

theorem preview_writers_agree_witness:
  "previewEnvName (\<lambda>_. ''h'') (\<lambda>_. None) ''o/r'' 7
     (projectHasMultipleGitRepos (\<lambda>_. None) (filter (\<lambda>a. src_Type (spec_Source (app_Spec a)) = SourceTypeGit) [ex_git_app ''api'' ''o/r'' []]) ''web'') =
   convergencePEName (\<lambda>_. ''h'') (\<lambda>_. None) ''o/r'' 7
     (1 < length (unique_repos (\<lambda>_. None) (filter (\<lambda>a. app_Namespace a = ControlNamespace ''web'') [ex_git_app ''api'' ''o/r'' []]) [] [])) \<and>
   resolveSourceEnv ex_preview_project = ''staging''"
  using preview_writers_agree [of "[ex_git_app ''api'' ''o/r'' []]" "\<lambda>_. None" "''o/r''" "''o/r''" "\<lambda>_. ''h''" 7 "''web''" ex_preview_project]
  by (simp add: ex_git_app_def ex_preview_project_def resolveSourceEnvFromProject_def)



text \<open>
  C23: A preview never exposes an environment it must not copy. When the project has previews disabled or
  marks the source environment as restricted, reconciling a preview does nothing but record a failure: whatever reads
  and writes of the preview object itself leave alone is unchanged, so no environment is added, no
  override cloned and no secret copied.
\<close>

theorem restricted_source_never_cloned:
  assumes "status_only (cfg_api R) P" "retries (cfg_retry R)" "P s"
    and live: "\<And>s pe s'. P s \<Longrightarrow> pa_GetPreview (cfg_api R) s key = (Inr pe, s') \<Longrightarrow>
        pv_DeletionTimestamp pe = None \<and> pes_ProjectRef (pv_Spec pe) = projectName \<and> pes_SourceEnv (pv_Spec pe) = sourceEnv"
    and blocked: "\<And>s project s'. P s \<Longrightarrow> pa_GetProject (cfg_api R) s projectName = (Inr project, s') \<Longrightarrow>
        \<not> previews_enabled project \<or> (\<exists>env \<in> set (ps_Environments (prj_Spec project)). pe_Name env = sourceEnv \<and> pe_Restricted env)"
  shows "P (snd (reconcile_preview R now key s))"
proof -
  let ?A = "cfg_api R"
  have guarded: "P s2" if "P s1" "guarded R now pe s1 = (r, s2)" "pes_ProjectRef (pv_Spec pe) = projectName"
    "pes_SourceEnv (pv_Spec pe) = sourceEnv" for pe s1 s2 r
  proof -
    obtain g s3 where g: "pa_GetProject ?A s1 projectName = (g, s3)" by force
    note P3 = status_onlyD(2) [OF assms(1) that(1) g]
    have "\<not> (\<exists>project. g = Inr project \<and> (case ps_Preview (prj_Spec project) of None \<Rightarrow> False | Some pc \<Rightarrow> pc_Enabled pc) \<and>
        \<not> list_ex (\<lambda>env. pe_Name env = sourceEnv \<and> pe_Restricted env) (ps_Environments (prj_Spec project)))"
      using blocked [OF that(1)] g by (fastforce simp: previews_enabled_def list_ex_iff)
    with that(2-4) g P3 show ?thesis
      by (auto simp: guarded_def Let_def split: sum.splits if_splits prod.splits option.splits
          dest: setFailedPreview_keeps [OF assms(2,1) P3])
  qed
  obtain r s' where run: "reconcile_preview R now key s = (r, s')" by (metis surj_pair)
  obtain got s1 where got: "pa_GetPreview ?A s key = (got, s1)" by force
  note P1 = status_onlyD(1) [OF assms(1,3) got]
  have "P s'"
  proof (cases got)
    case Inl
    with run got P1 show ?thesis by (auto simp: reconcile_preview_def Let_def)
  next
    case (Inr pe)
    with live [OF assms(3)] got have pe: "pv_DeletionTimestamp pe = None" "pes_ProjectRef (pv_Spec pe) = projectName" "pes_SourceEnv (pv_Spec pe) = sourceEnv"
      by blast+
    show ?thesis
    proof (cases "previewFinalizer \<in> set (pv_Finalizers pe)")
      case True
      with run got Inr pe have "guarded R now pe s1 = (r, s')" by (simp add: reconcile_preview_def Let_def)
      with guarded P1 pe show ?thesis by blast
    next
      case False
      define pe1 where "pe1 = pe\<lparr>pv_Finalizers := pv_Finalizers pe @ [previewFinalizer]\<rparr>"
      obtain u s2 where u: "pa_UpdatePreview ?A s1 pe1 = (u, s2)" by force
      note P2 = status_onlyD(3) [OF assms(1) P1 u]
      have "s' = s2 \<or> guarded R now pe1 s2 = (r, s')"
        using run got Inr pe False u by (auto simp: reconcile_preview_def Let_def pe1_def split: option.splits)
      moreover have "pes_ProjectRef (pv_Spec pe1) = projectName" "pes_SourceEnv (pv_Spec pe1) = sourceEnv"
        using pe by (simp_all add: pe1_def)
      ultimately show ?thesis using P2 guarded by blast
    qed
  qed
  with run show ?thesis by simp
qed

theorem restricted_source_never_cloned_witness:
  "xc_project (snd (reconcile_preview ex_preview_cfg 0 (''pj-web'', ''preview-pr-7'') ex_cluster_state)) = ex_preview_project"
proof (rule conjunct1, rule restricted_source_never_cloned [where projectName = "''web''" and sourceEnv = "''staging''"
      and P = "\<lambda>s. xc_project s = ex_preview_project \<and> xc_previews s = xc_previews ex_cluster_state"])
  show "status_only (cfg_api ex_preview_cfg) (\<lambda>s. xc_project s = ex_preview_project \<and> xc_previews s = xc_previews ex_cluster_state)"
    by (simp add: status_only_def ex_preview_cfg_def ex_preview_api_def)
  show "retries (cfg_retry ex_preview_cfg)" by (simp add: ex_preview_cfg_def mem_retries)
  have "\<exists>env \<in> set (ps_Environments (prj_Spec ex_preview_project)). pe_Name env = ''staging'' \<and> pe_Restricted env"
    by (simp add: ex_preview_project_def)
  then show "\<not> previews_enabled project \<or> (\<exists>env \<in> set (ps_Environments (prj_Spec project)). pe_Name env = ''staging'' \<and> pe_Restricted env)"
    if "pa_GetProject (cfg_api ex_preview_cfg) s ''web'' = (Inr project, s')" for s project s'
    using that by (simp add: ex_preview_cfg_def ex_preview_api_def)
qed (auto simp: ex_preview_cfg_def ex_preview_api_def ex_cluster_state_def ex_preview_def split: if_splits option.splits)



end
