(* ===== verification/Cluster.thy ===== *)
theory Cluster
  imports Authz
begin

text \<open>
  What the HTTP handlers and the reconcilers are written in: calls that change the state outside the
  program and may end the handler early, composed in order, and typed access to the objects of
  one kind through the API client.

  An \<open>act\<close> returns \<open>Inl\<close> of the value an early \<open>return\<close> gives back or \<open>Inr\<close> of the value the next
  statement uses. \<open>wp\<close> is its weakest precondition; the rules in \<open>wp_simps\<close> push a postcondition
  through the statements of a handler. \<open>quiet\<close> is a server without other writers, on which the
  effect of a handler can be computed; results that hold with other writers do not assume it.
\<close>

named_theorems wp_simps \<open>weakest preconditions of the statement forms\<close>

section \<open>Statements\<close>

type_synonym ('s, 'e, 'a) act = "'s \<Rightarrow> ('e + 'a) \<times> 's"

definition give :: "'a \<Rightarrow> ('s, 'e, 'a) act" where "give a s = (Inr a, s)"
definition stop :: "'e \<Rightarrow> ('s, 'e, 'a) act" where "stop e s = (Inl e, s)"
definition look :: "('s \<Rightarrow> 'a) \<Rightarrow> ('s, 'e, 'a) act" where "look f s = (Inr (f s), s)"
definition effect :: "('s \<Rightarrow> 's) \<Rightarrow> ('s, 'e, unit) act" where "effect f s = (Inr (), f s)"

definition andthen :: "('s, 'e, 'a) act \<Rightarrow> ('a \<Rightarrow> ('s, 'e, 'b) act) \<Rightarrow> ('s, 'e, 'b) act" where
  \<comment> \<open>go on with the value, or return early\<close>
  "andthen m k s = (case m s of (Inl e, s1) \<Rightarrow> (Inl e, s1) | (Inr a, s1) \<Rightarrow> k a s1)"

definition outcome :: "('s, 'd, 'a) act \<Rightarrow> ('d + 'a \<Rightarrow> ('s, 'e, 'b) act) \<Rightarrow> ('s, 'e, 'b) act" where
  \<comment> \<open>look at the error of a call\<close>
  "outcome m k s = (case m s of (r, s1) \<Rightarrow> k r s1)"

definition on_err :: "('d \<Rightarrow> 'e) \<Rightarrow> ('s, 'd, 'a) act \<Rightarrow> ('s, 'e, 'a) act" where
  "on_err f m s = (case m s of (Inl e, s1) \<Rightarrow> (Inl (f e), s1) | (Inr a, s1) \<Rightarrow> (Inr a, s1))"

definition check :: "bool \<Rightarrow> 'e \<Rightarrow> ('s, 'e, unit) act" where
  \<comment> \<open>\<open>if !b { return e }\<close>\<close>
  "check b e = (if b then give () else stop e)"

fun for_each :: "('a \<Rightarrow> ('s, 'e, unit) act) \<Rightarrow> 'a list \<Rightarrow> ('s, 'e, unit) act" where
  "for_each f [] = give ()"
| "for_each f (x # xs) = andthen (f x) (\<lambda>_. for_each f xs)"

section \<open>Weakest preconditions\<close>

definition wp :: "('s, 'e, 'a) act \<Rightarrow> ('e + 'a \<Rightarrow> 's \<Rightarrow> bool) \<Rightarrow> 's \<Rightarrow> bool" where
  "wp m Q s \<longleftrightarrow> (case m s of (r, s1) \<Rightarrow> Q r s1)"

definition on_value :: "('a \<Rightarrow> 's \<Rightarrow> bool) \<Rightarrow> ('e + 'b \<Rightarrow> 's \<Rightarrow> bool) \<Rightarrow> 'e + 'a \<Rightarrow> 's \<Rightarrow> bool" where
  "on_value V Q r s = (case r of Inl e \<Rightarrow> Q (Inl e) s | Inr a \<Rightarrow> V a s)"

lemma on_value_simps [wp_simps]: "on_value V Q (Inl e) s = Q (Inl e) s" "on_value V Q (Inr a) s = V a s"
  by (simp_all add: on_value_def)

lemma wp_give [wp_simps]: "wp (give a) Q s = Q (Inr a) s" by (simp add: wp_def give_def)
lemma wp_stop [wp_simps]: "wp (stop e) Q s = Q (Inl e) s" by (simp add: wp_def stop_def)
lemma wp_look [wp_simps]: "wp (look f) Q s = Q (Inr (f s)) s" by (simp add: wp_def look_def)
lemma wp_effect [wp_simps]: "wp (effect f) Q s = Q (Inr ()) (f s)" by (simp add: wp_def effect_def)

lemma wp_andthen [wp_simps]: "wp (andthen m k) Q s = wp m (on_value (\<lambda>a. wp (k a) Q) Q) s"
  by (simp add: wp_def andthen_def on_value_def split: prod.splits sum.splits)

lemma wp_outcome [wp_simps]: "wp (outcome m k) Q s = wp m (\<lambda>r. wp (k r) Q) s"
  by (simp add: wp_def outcome_def split: prod.splits)

lemma wp_on_err [wp_simps]: "wp (on_err f m) Q s = wp m (\<lambda>r. Q (map_sum f id r)) s"
  by (simp add: wp_def on_err_def split: prod.splits sum.splits)

lemma wp_check [wp_simps]: "wp (check b e) Q s = (if b then Q (Inr ()) s else Q (Inl e) s)"
  by (simp add: check_def wp_simps)

lemma map_sum_eq_simps [simp]:
  "map_sum f g r = Inr y \<longleftrightarrow> (\<exists>x. r = Inr x \<and> y = g x)" "map_sum f g r = Inl z \<longleftrightarrow> (\<exists>x. r = Inl x \<and> z = f x)"
  by (cases r; auto)+

lemma wp_if [wp_simps]: "wp (if b then m1 else m2) Q s = (if b then wp m1 Q s else wp m2 Q s)"
  by simp

lemma wp_mono: "wp m Q s \<Longrightarrow> (\<And>r s1. Q r s1 \<Longrightarrow> Q' r s1) \<Longrightarrow> wp m Q' s"
  by (auto simp: wp_def)

lemma wp_conj: "wp m (\<lambda>r s1. Q r s1 \<and> Q' r s1) s \<longleftrightarrow> wp m Q s \<and> wp m Q' s"
  by (auto simp: wp_def)

lemma wpI: "(\<And>r s1. m s = (r, s1) \<Longrightarrow> Q r s1) \<Longrightarrow> wp m Q s"
  by (auto simp: wp_def split: prod.splits)

lemma wpD: "wp m Q s \<Longrightarrow> m s = (r, s1) \<Longrightarrow> Q r s1"
  by (simp add: wp_def)

text \<open>An act keeps \<open>P\<close> when it holds afterwards however the act ends.\<close>

definition keeps :: "('s \<Rightarrow> bool) \<Rightarrow> ('s, 'e, 'a) act \<Rightarrow> bool" where
  "keeps P m \<longleftrightarrow> (\<forall>s. P s \<longrightarrow> P (snd (m s)))"

named_theorems keeps_intros \<open>statement forms that keep what their parts keep\<close>

lemma keepsD: "keeps P m \<Longrightarrow> P s \<Longrightarrow> m s = (r, s1) \<Longrightarrow> P s1"
  unfolding keeps_def by (metis snd_conv)

lemma keepsI: "(\<And>s r s1. P s \<Longrightarrow> m s = (r, s1) \<Longrightarrow> P s1) \<Longrightarrow> keeps P m"
  unfolding keeps_def by (metis surj_pair snd_conv)

lemma keeps_wp: "keeps P m \<Longrightarrow> P s \<Longrightarrow> wp m (\<lambda>_. P) s"
  by (auto intro: wpI dest: keepsD)

lemma keepsI_wp: "(\<And>s. P s \<Longrightarrow> wp m (\<lambda>_. P) s) \<Longrightarrow> keeps P m"
  by (simp add: keeps_def wp_def split_beta)

lemma keeps_plain [keeps_intros]: "keeps P (give a)" "keeps P (stop e)" "keeps P (look f)" "keeps P (check b e)"
  by (auto simp: keeps_def give_def stop_def look_def check_def)

lemma keeps_andthen [keeps_intros]: "keeps P m \<Longrightarrow> (\<And>a. keeps P (k a)) \<Longrightarrow> keeps P (andthen m k)"
  by (auto simp: keeps_def andthen_def split: prod.splits sum.splits)

lemma keeps_outcome [keeps_intros]: "keeps P m \<Longrightarrow> (\<And>r. keeps P (k r)) \<Longrightarrow> keeps P (outcome m k)"
  by (auto simp: keeps_def outcome_def split: prod.splits)

lemma keeps_on_err [keeps_intros]: "keeps P m \<Longrightarrow> keeps P (on_err f m)"
  by (auto simp: keeps_def on_err_def split: prod.splits sum.splits)

lemma keeps_if [keeps_intros]: "(b \<Longrightarrow> keeps P m1) \<Longrightarrow> (\<not> b \<Longrightarrow> keeps P m2) \<Longrightarrow> keeps P (if b then m1 else m2)"
  by simp

lemma keeps_effect [keeps_intros]: "(\<And>s. P s \<Longrightarrow> P (f s)) \<Longrightarrow> keeps P (effect f)"
  by (simp add: keeps_def effect_def)

lemma keeps_for_each [keeps_intros]: "(\<And>x. x \<in> set xs \<Longrightarrow> keeps P (f x)) \<Longrightarrow> keeps P (for_each f xs)"
  by (induction xs) (auto intro: keeps_intros)

text \<open>A statement that keeps \<open>P\<close>, in front of the rest of a handler.\<close>

lemma wp_after:
  assumes "keeps P m" "P s" "\<And>a s1. P s1 \<Longrightarrow> V a s1" "\<And>e s1. P s1 \<Longrightarrow> Q (Inl e) s1"
  shows "wp m (on_value V Q) s"
  by (rule wp_mono [OF keeps_wp [OF assms(1,2)]]) (use assms(3,4) in \<open>auto simp: on_value_def split: sum.splits\<close>)

lemma wp_keep:
  assumes "keeps P m" "P s" "\<And>a s1. P s1 \<Longrightarrow> wp (k a) Q s1" "\<And>e s1. P s1 \<Longrightarrow> Q (Inl e) s1"
  shows "wp (andthen m k) Q s"
  unfolding wp_andthen by (rule wp_after) (fact assms)+

lemma wp_checkI: "P s \<Longrightarrow> (b \<Longrightarrow> wp (k ()) Q s) \<Longrightarrow> (\<And>e s1. P s1 \<Longrightarrow> Q (Inl e) s1) \<Longrightarrow> wp (andthen (check b e) k) Q s"
  by (simp add: wp_simps)

lemma keeps_sum [keeps_intros]:
  "(\<And>e. keeps P (f e)) \<Longrightarrow> (\<And>a. keeps P (g a)) \<Longrightarrow> keeps P (case r of Inl e \<Rightarrow> f e | Inr a \<Rightarrow> g a)"
  by (cases r) auto

lemma keeps_option [keeps_intros]:
  "keeps P f \<Longrightarrow> (\<And>a. keeps P (g a)) \<Longrightarrow> keeps P (case r of None \<Rightarrow> f | Some a \<Rightarrow> g a)"
  by (cases r) auto

lemma keeps_pair [keeps_intros]: "(\<And>a b. keeps P (f a b)) \<Longrightarrow> keeps P (case r of (a, b) \<Rightarrow> f a b)"
  by (cases r) auto

section \<open>What the calls return\<close>

text \<open>What holds after a statement that did not return early.\<close>

definition upon :: "('s, 'e, 'a) act \<Rightarrow> ('a \<Rightarrow> 's \<Rightarrow> bool) \<Rightarrow> 's \<Rightarrow> bool" where
  "upon m V s \<longleftrightarrow> wp m (\<lambda>r s1. \<forall>a. r = Inr a \<longrightarrow> V a s1) s"

lemma upon_check [wp_simps]: "upon (check b e) V s = (b \<longrightarrow> V () s)"
  by (auto simp: upon_def wp_simps)

lemma upon_plain [wp_simps]: "upon (give a) V s = V a s" "upon (stop e) V s"
  by (auto simp: upon_def wp_simps)

lemma upon_on_err [wp_simps]: "upon (on_err f m) V s = upon m V s"
  by (auto simp: upon_def wp_simps)

lemma upon_if [wp_simps]: "upon (if b then m1 else m2) V s = (if b then upon m1 V s else upon m2 V s)"
  by simp

lemma upon_look [wp_simps]: "upon (look f) V s = V (f s) s"
  by (simp add: upon_def wp_simps)

lemma upon_andthen [wp_simps]: "upon (andthen m k) V s = upon m (\<lambda>a. upon (k a) V) s"
  by (auto simp: upon_def wp_def andthen_def split: prod.splits sum.splits)

lemma upon_mono: "upon m V s \<Longrightarrow> (\<And>a s1. V a s1 \<Longrightarrow> V' a s1) \<Longrightarrow> upon m V' s"
  unfolding upon_def by (erule wp_mono) blast

lemma upon_keeps: "keeps P m \<Longrightarrow> P s \<Longrightarrow> (\<And>a s1. P s1 \<Longrightarrow> V a s1) \<Longrightarrow> upon m V s"
  unfolding upon_def by (rule wp_mono [where Q = "\<lambda>_. P"], rule keeps_wp) auto

text \<open>The values, when some condition on the state is kept.\<close>

definition yields :: "('s \<Rightarrow> bool) \<Rightarrow> ('s, 'e, 'a) act \<Rightarrow> ('a \<Rightarrow> bool) \<Rightarrow> bool" where
  \<comment> \<open>from states with \<open>P\<close> the values of the call are in \<open>V\<close>\<close>
  "yields P m V \<longleftrightarrow> (\<forall>s. P s \<longrightarrow> wp m (\<lambda>r _. \<forall>a. r = Inr a \<longrightarrow> V a) s)"

lemma keeps_yields_outcome:
  assumes "keeps P m" "yields P m V" "\<And>a. V a \<Longrightarrow> keeps P (k (Inr a))" "\<And>e. keeps P (k (Inl e))"
  shows "keeps P (outcome m k)"
proof (rule keepsI)
  fix s r s1 assume P: "P s" and run: "outcome m k s = (r, s1)"
  obtain r1 s2 where m: "m s = (r1, s2)" by (cases "m s")
  then have "P s2" "\<And>a. r1 = Inr a \<Longrightarrow> V a"
    using P assms(1,2) by (auto simp: yields_def wp_def dest: keepsD)
  moreover have "k r1 s2 = (r, s1)" using run m by (simp add: outcome_def)
  ultimately show "P s1" using assms(3,4) by (cases r1) (auto dest: keepsD)
qed

lemma keeps_yields:
  assumes "keeps P m" "yields P m V" "\<And>a. V a \<Longrightarrow> keeps P (k a)"
  shows "keeps P (andthen m k)"
proof -
  have "andthen m k = outcome m (\<lambda>r. case r of Inl e \<Rightarrow> stop e | Inr a \<Rightarrow> k a)"
    by (auto simp: andthen_def outcome_def stop_def fun_eq_iff split: prod.split sum.split)
  then show ?thesis
    using keeps_yields_outcome [OF assms(1,2), where k = "\<lambda>r. case r of Inl e \<Rightarrow> stop e | Inr a \<Rightarrow> k a"] assms(3)
    by (simp add: keeps_plain)
qed

lemma yields_on_err [simp]: "yields P (on_err f m) V = yields P m V"
  by (auto simp: yields_def wp_def on_err_def split: prod.splits sum.splits)

definition finds :: "('s \<Rightarrow> bool) \<Rightarrow> ('s, 'e, 'a) act \<Rightarrow> ('a \<Rightarrow> bool) \<Rightarrow> bool" where
  \<comment> \<open>from states with \<open>P\<close> the act keeps \<open>P\<close> and its values are in \<open>V\<close>\<close>
  "finds P m V \<longleftrightarrow> (\<forall>s. P s \<longrightarrow> wp m (\<lambda>r s1. P s1 \<and> (\<forall>a. r = Inr a \<longrightarrow> V a)) s)"

lemma findsI: "(\<And>s. P s \<Longrightarrow> wp m (\<lambda>r s1. P s1 \<and> (\<forall>a. r = Inr a \<longrightarrow> V a)) s) \<Longrightarrow> finds P m V"
  by (simp add: finds_def)

lemma finds_keeps: "finds P m V \<Longrightarrow> keeps P m"
  by (auto simp: finds_def intro!: keepsI_wp elim: wp_mono)

lemma finds_any: "keeps P m \<Longrightarrow> finds P m (\<lambda>_. True)"
  by (simp add: finds_def keeps_wp)

lemma finds_mono: "finds P m V \<Longrightarrow> (\<And>a. V a \<Longrightarrow> W a) \<Longrightarrow> finds P m W"
  unfolding finds_def by (blast intro: wp_mono)

lemma finds_plain: "V a \<Longrightarrow> finds P (give a) V" "finds P (stop e) V" "finds P (check b e) (\<lambda>_. b)"
  by (simp_all add: finds_def wp_simps)

lemma finds_andthen: "finds P m V \<Longrightarrow> (\<And>a. V a \<Longrightarrow> finds P (k a) W) \<Longrightarrow> finds P (andthen m k) W"
  unfolding finds_def wp_andthen
  by (intro allI impI, rule wp_mono [of m], blast) (auto simp: on_value_def split: sum.split)

lemma finds_outcome:
  fixes m :: "('s, 'd, 'a) act"
  assumes "finds P m V" "\<And>a. V a \<Longrightarrow> finds P (k (Inr a)) W" "\<And>e. finds P (k (Inl e)) W"
  shows "finds P (outcome m k) W"
  unfolding finds_def wp_outcome
proof (intro allI impI)
  fix s assume "P s"
  then have "wp m (\<lambda>r s1. P s1 \<and> (\<forall>a. r = Inr a \<longrightarrow> V a)) s" using assms(1) by (simp add: finds_def)
  then show "wp m (\<lambda>r. wp (k r) (\<lambda>r s1. P s1 \<and> (\<forall>a. r = Inr a \<longrightarrow> W a))) s"
  proof (rule wp_mono)
    fix r :: "'d + 'a" and s1 assume "P s1 \<and> (\<forall>a. r = Inr a \<longrightarrow> V a)"
    then show "wp (k r) (\<lambda>r s1. P s1 \<and> (\<forall>a. r = Inr a \<longrightarrow> W a)) s1"
      using assms(2,3) by (cases r) (auto simp: finds_def)
  qed
qed

lemma finds_on_err [simp]: "finds P (on_err f m) V = finds P m V"
  by (auto simp: finds_def wp_simps)

lemma finds_if: "(b \<Longrightarrow> finds P m1 V) \<Longrightarrow> (\<not> b \<Longrightarrow> finds P m2 V) \<Longrightarrow> finds P (if b then m1 else m2) V"
  by simp

lemma finds_for_each: "(\<And>x. x \<in> set xs \<Longrightarrow> finds P (f x) (\<lambda>_. V x)) \<Longrightarrow> finds P (for_each f xs) (\<lambda>_. \<forall>x \<in> set xs. V x)"
proof (induction xs)
  case (Cons x xs)
  have "finds P (andthen (f x) (\<lambda>_. for_each f xs)) (\<lambda>_. V x \<and> (\<forall>x \<in> set xs. V x))"
    by (rule finds_andthen [where V = "\<lambda>_. V x"]) (use Cons in \<open>auto intro: finds_mono\<close>)
  then show ?case by simp
qed (simp add: finds_plain)

text \<open>A statement of that form in front of the rest of a handler.\<close>

lemma wp_finds:
  assumes "finds P m V" "P s" "\<And>a s1. P s1 \<Longrightarrow> V a \<Longrightarrow> wp (k a) Q s1" "\<And>e s1. P s1 \<Longrightarrow> Q (Inl e) s1"
  shows "wp (andthen m k) Q s"
proof -
  have "wp m (\<lambda>r s1. P s1 \<and> (\<forall>a. r = Inr a \<longrightarrow> V a)) s" using assms(1,2) by (simp add: finds_def)
  then show ?thesis
    unfolding wp_andthen by (rule wp_mono) (use assms(3,4) in \<open>auto simp: on_value_def split: sum.split\<close>)
qed

section \<open>Retrying on conflicts\<close>

text \<open>
  \<open>retry.RetryOnConflict\<close> around a closure that also sets variables of the handler: the variables
  are read only after a nil error, so they are the value of the closure's last run. \<open>v\<close> is their
  value before the call.
\<close>

definition RetryOnConflict :: "(('s \<times> 'v) call \<Rightarrow> ('s \<times> 'v) call) \<Rightarrow> 'v \<Rightarrow> ('s, gerr, 'v) act \<Rightarrow> ('s, gerr, 'v) act" where
  "RetryOnConflict retry v m s =
     (case retry (\<lambda>(s, v). case m s of (Inl e, s1) \<Rightarrow> (Some e, s1, v) | (Inr v1, s1) \<Rightarrow> (None, s1, v1)) (s, v) of
        (Some e, s1, _) \<Rightarrow> (Inl e, s1)
      | (None, s1, v1) \<Rightarrow> (Inr v1, s1))"

lemma wp_RetryOnConflict:
  assumes "retries retry" "P s"
    and "\<And>s. P s \<Longrightarrow> wp m (\<lambda>r s1. Q r s1 \<and> (\<forall>e. r = Inl e \<longrightarrow> P s1)) s"
  shows "wp (RetryOnConflict retry v m) Q s"
proof -
  define f where "f = (\<lambda>(s, v). case m s of (Inl e, s1) \<Rightarrow> (Some e, s1, v) | (Inr v1, s1) \<Rightarrow> (None, s1, v1))"
  obtain r s1 v1 where r: "retry f (s, v) = (r, s1, v1)" by (metis surj_pair)
  then have "retry_run f (s, v) r (s1, v1)" using assms(1) by (auto simp: retries_def)
  moreover have step: "(case x1 of (s1, _) \<Rightarrow> P s1)" if "case x of (s, _) \<Rightarrow> P s" "f x = (Some e, x1)" for x e x1
    using that assms(3) [of "fst x"] by (auto simp: f_def wp_def split: prod.splits sum.splits)
  ultimately obtain s0 v0 where "P s0" "f (s0, v0) = (r, s1, v1)"
    using retry_run_last [where P = "\<lambda>(s, _). P s", of f "(s, v)" r "(s1, v1)"] assms(2) by (auto split: prod.splits)
  then have "(case r of Some e \<Rightarrow> Q (Inl e) s1 | None \<Rightarrow> Q (Inr v1) s1)"
    using assms(3) [of s0] by (auto simp: f_def wp_def split: prod.splits sum.splits)
  with r show ?thesis
    by (auto simp: wp_def RetryOnConflict_def f_def [symmetric] split: option.splits)
qed

lemma keeps_RetryOnConflict [keeps_intros]:
  assumes "retries retry" "keeps P m"
  shows "keeps P (RetryOnConflict retry v m)"
proof (rule keepsI)
  fix s r s1 assume "P s" "RetryOnConflict retry v m s = (r, s1)"
  moreover from \<open>P s\<close> have "wp (RetryOnConflict retry v m) (\<lambda>_. P) s"
    by (intro wp_RetryOnConflict [OF assms(1), where P = P]) (use keeps_wp [OF assms(2)] in \<open>auto intro: wp_mono\<close>)
  ultimately show "P s1" by (auto dest: wpD)
qed

section \<open>Objects of one kind\<close>

record ('s, 'k, 'o) resource =
  r_Get :: "'k \<Rightarrow> ('s, kerr, 'o) act"
  r_List :: "string \<Rightarrow> string gomap \<Rightarrow> ('s, kerr, 'o list) act"
    \<comment> \<open>of a namespace (all of them for the empty string), with the given labels\<close>
  r_Create :: "'o \<Rightarrow> ('s, kerr, 'o) act"
  r_Update :: "'o \<Rightarrow> ('s, kerr, 'o) act"
  r_UpdateStatus :: "'o \<Rightarrow> ('s, kerr, 'o) act"
  r_Delete :: "'o \<Rightarrow> ('s, kerr, unit) act"

definition leaves :: "('s, 'k, 'o) resource \<Rightarrow> ('s \<Rightarrow> bool) \<Rightarrow> bool" where
  \<comment> \<open>no call of this kind affects \<open>P\<close>\<close>
  "leaves R P \<longleftrightarrow> (\<forall>k. keeps P (r_Get R k)) \<and> (\<forall>ns ls. keeps P (r_List R ns ls)) \<and> (\<forall>ob. keeps P (r_Create R ob)) \<and>
     (\<forall>ob. keeps P (r_Update R ob)) \<and> (\<forall>ob. keeps P (r_UpdateStatus R ob)) \<and> (\<forall>ob. keeps P (r_Delete R ob))"

lemma leaves_calls [keeps_intros]:
  assumes "leaves R P"
  shows "keeps P (r_Get R k)" "keeps P (r_List R ns ls)" "keeps P (r_Create R ob)"
    "keeps P (r_Update R ob)" "keeps P (r_UpdateStatus R ob)" "keeps P (r_Delete R ob)"
  using assms by (auto simp: leaves_def)

text \<open>What is kept for each value of a view is kept for every predicate on it.\<close>

lemma keeps_lift: "(\<And>v. keeps (\<lambda>s. ok s \<and> view s = v) m) \<Longrightarrow> keeps (\<lambda>s. ok s \<and> N (view s)) m"
  unfolding keeps_def by metis

lemma leaves_lift:
  assumes "\<And>v. leaves R (\<lambda>s. ok s \<and> view s = v)"
  shows "leaves R (\<lambda>s. ok s \<and> N (view s))"
  unfolding leaves_def by (intro conjI allI; rule keeps_lift, rule leaves_calls, rule assms)

definition has_labels :: "string gomap \<Rightarrow> string gomap \<Rightarrow> bool" where
  \<comment> \<open>\<open>client.MatchingLabels\<close>\<close>
  "has_labels ls have \<longleftrightarrow> list_all (\<lambda>(k, v). map_of have k = Some v) ls"

record ('k, 'o) kind =
  kd_key :: "'o \<Rightarrow> 'k"
  kd_namespace :: "'o \<Rightarrow> string"
  kd_labels :: "'o \<Rightarrow> string gomap"
  kd_same :: "'o \<Rightarrow> 'o \<Rightarrow> bool"
    \<comment> \<open>equal but for what the server owns (status, resource version)\<close>

definition listed :: "('k, 'o) kind \<Rightarrow> ('k \<rightharpoonup> 'o) \<Rightarrow> string \<Rightarrow> string gomap \<Rightarrow> 'o set" where
  "listed K m ns ls = {ob \<in> ran m. (ns = [] \<or> kd_namespace K ob = ns) \<and> has_labels ls (kd_labels K ob)}"

definition quiet :: "('k, 'o) kind \<Rightarrow> ('s, 'k, 'o) resource \<Rightarrow> ('s \<Rightarrow> bool) \<Rightarrow> ('s \<Rightarrow> 'k \<rightharpoonup> 'o) \<Rightarrow> bool" where
  \<comment> \<open>no other writer acts during a call; any call may still fail, and then it changed nothing\<close>
  "quiet K R ok view \<longleftrightarrow> (\<forall>s. ok s \<longrightarrow>
     (\<forall>k ob. view s k = Some ob \<longrightarrow> kd_key K ob = k) \<and>
     (\<forall>k. wp (r_Get R k) (\<lambda>r s1. ok s1 \<and> view s1 = view s \<and> (\<forall>ob. r = Inr ob \<longrightarrow> view s k = Some ob)) s) \<and>
     (\<forall>ns ls. wp (r_List R ns ls) (\<lambda>r s1. ok s1 \<and> view s1 = view s \<and>
        (\<forall>obs. r = Inr obs \<longrightarrow> distinct obs \<and> set obs = listed K (view s) ns ls)) s) \<and>
     (\<forall>ob. wp (r_Create R ob) (\<lambda>r s1. ok s1 \<and> (case r of Inl _ \<Rightarrow> view s1 = view s
        | Inr ob1 \<Rightarrow> view s (kd_key K ob) = None \<and> kd_same K ob ob1 \<and> view s1 = (view s)(kd_key K ob \<mapsto> ob1))) s) \<and>
     (\<forall>ob. wp (r_Update R ob) (\<lambda>r s1. ok s1 \<and> (case r of Inl _ \<Rightarrow> view s1 = view s
        | Inr ob1 \<Rightarrow> view s (kd_key K ob) \<noteq> None \<and> kd_same K ob ob1 \<and> view s1 = (view s)(kd_key K ob \<mapsto> ob1))) s) \<and>
     (\<forall>ob. wp (r_UpdateStatus R ob) (\<lambda>r s1. ok s1 \<and> (case r of Inl _ \<Rightarrow> view s1 = view s
        | Inr ob1 \<Rightarrow> \<exists>cur. view s (kd_key K ob) = Some cur \<and> kd_same K cur ob1 \<and> view s1 = (view s)(kd_key K ob \<mapsto> ob1))) s) \<and>
     (\<forall>ob. wp (r_Delete R ob) (\<lambda>r s1. ok s1 \<and> (case r of Inl _ \<Rightarrow> view s1 = view s
        | Inr _ \<Rightarrow> view s (kd_key K ob) \<noteq> None \<and> view s1 = (view s)(kd_key K ob := None))) s))"

text \<open>The clauses of \<open>quiet\<close>, as preconditions of the calls.\<close>

lemma quiet_key: "quiet K R ok view \<Longrightarrow> ok s \<Longrightarrow> view s k = Some ob \<Longrightarrow> kd_key K ob = k"
  unfolding quiet_def by blast

lemma quiet_get:
  assumes "quiet K R ok view" "ok s"
    and "\<And>e s1. ok s1 \<Longrightarrow> view s1 = view s \<Longrightarrow> Q (Inl e) s1"
    and "\<And>ob s1. ok s1 \<Longrightarrow> view s1 = view s \<Longrightarrow> view s k = Some ob \<Longrightarrow> Q (Inr ob) s1"
  shows "wp (r_Get R k) Q s"
proof -
  have "wp (r_Get R k) (\<lambda>r s1. ok s1 \<and> view s1 = view s \<and> (\<forall>ob. r = Inr ob \<longrightarrow> view s k = Some ob)) s"
    using assms(1,2) unfolding quiet_def by blast
  then show ?thesis by (rule wp_mono) (use assms(3,4) in \<open>auto split: sum.splits, (metis sum.exhaust)+\<close>)
qed

lemma quiet_list:
  assumes "quiet K R ok view" "ok s"
    and "\<And>e s1. ok s1 \<Longrightarrow> view s1 = view s \<Longrightarrow> Q (Inl e) s1"
    and "\<And>obs s1. ok s1 \<Longrightarrow> view s1 = view s \<Longrightarrow> distinct obs \<Longrightarrow> set obs = listed K (view s) ns ls \<Longrightarrow> Q (Inr obs) s1"
  shows "wp (r_List R ns ls) Q s"
proof -
  have "wp (r_List R ns ls) (\<lambda>r s1. ok s1 \<and> view s1 = view s \<and>
      (\<forall>obs. r = Inr obs \<longrightarrow> distinct obs \<and> set obs = listed K (view s) ns ls)) s"
    using assms(1,2) unfolding quiet_def by blast
  then show ?thesis by (rule wp_mono) (use assms(3,4) in \<open>auto split: sum.splits, (metis sum.exhaust)+\<close>)
qed

lemma quiet_create:
  assumes "quiet K R ok view" "ok s"
    and "\<And>e s1. ok s1 \<Longrightarrow> view s1 = view s \<Longrightarrow> Q (Inl e) s1"
    and "\<And>ob1 s1. ok s1 \<Longrightarrow> view s (kd_key K ob) = None \<Longrightarrow> kd_same K ob ob1 \<Longrightarrow>
      view s1 = (view s)(kd_key K ob \<mapsto> ob1) \<Longrightarrow> Q (Inr ob1) s1"
  shows "wp (r_Create R ob) Q s"
proof -
  have "wp (r_Create R ob) (\<lambda>r s1. ok s1 \<and> (case r of Inl _ \<Rightarrow> view s1 = view s
      | Inr ob1 \<Rightarrow> view s (kd_key K ob) = None \<and> kd_same K ob ob1 \<and> view s1 = (view s)(kd_key K ob \<mapsto> ob1))) s"
    using assms(1,2) unfolding quiet_def by blast
  then show ?thesis by (rule wp_mono) (use assms(3,4) in \<open>auto split: sum.splits\<close>)
qed

lemma quiet_update:
  assumes "quiet K R ok view" "ok s"
    and "\<And>e s1. ok s1 \<Longrightarrow> view s1 = view s \<Longrightarrow> Q (Inl e) s1"
    and "\<And>ob1 s1. ok s1 \<Longrightarrow> view s (kd_key K ob) \<noteq> None \<Longrightarrow> kd_same K ob ob1 \<Longrightarrow>
      view s1 = (view s)(kd_key K ob \<mapsto> ob1) \<Longrightarrow> Q (Inr ob1) s1"
  shows "wp (r_Update R ob) Q s"
proof -
  have "wp (r_Update R ob) (\<lambda>r s1. ok s1 \<and> (case r of Inl _ \<Rightarrow> view s1 = view s
      | Inr ob1 \<Rightarrow> view s (kd_key K ob) \<noteq> None \<and> kd_same K ob ob1 \<and> view s1 = (view s)(kd_key K ob \<mapsto> ob1))) s"
    using assms(1,2) unfolding quiet_def by blast
  then show ?thesis by (rule wp_mono) (use assms(3,4) in \<open>auto split: sum.splits\<close>)
qed

lemma quiet_status:
  assumes "quiet K R ok view" "ok s"
    and "\<And>e s1. ok s1 \<Longrightarrow> view s1 = view s \<Longrightarrow> Q (Inl e) s1"
    and "\<And>ob1 cur s1. ok s1 \<Longrightarrow> view s (kd_key K ob) = Some cur \<Longrightarrow> kd_same K cur ob1 \<Longrightarrow>
      view s1 = (view s)(kd_key K ob \<mapsto> ob1) \<Longrightarrow> Q (Inr ob1) s1"
  shows "wp (r_UpdateStatus R ob) Q s"
proof -
  have "wp (r_UpdateStatus R ob) (\<lambda>r s1. ok s1 \<and> (case r of Inl _ \<Rightarrow> view s1 = view s
      | Inr ob1 \<Rightarrow> \<exists>cur. view s (kd_key K ob) = Some cur \<and> kd_same K cur ob1 \<and> view s1 = (view s)(kd_key K ob \<mapsto> ob1))) s"
    using assms(1,2) unfolding quiet_def by blast
  then show ?thesis by (rule wp_mono) (use assms(3,4) in \<open>auto split: sum.splits\<close>)
qed

lemma quiet_delete:
  assumes "quiet K R ok view" "ok s"
    and "\<And>e s1. ok s1 \<Longrightarrow> view s1 = view s \<Longrightarrow> Q (Inl e) s1"
    and "\<And>s1. ok s1 \<Longrightarrow> view s (kd_key K ob) \<noteq> None \<Longrightarrow> view s1 = (view s)(kd_key K ob := None) \<Longrightarrow> Q (Inr ()) s1"
  shows "wp (r_Delete R ob) Q s"
proof -
  have "wp (r_Delete R ob) (\<lambda>r s1. ok s1 \<and> (case r of Inl _ \<Rightarrow> view s1 = view s
      | Inr _ \<Rightarrow> view s (kd_key K ob) \<noteq> None \<and> view s1 = (view s)(kd_key K ob := None))) s"
    using assms(1,2) unfolding quiet_def by blast
  then show ?thesis by (rule wp_mono) (use assms(3,4) in \<open>auto split: sum.splits\<close>)
qed

text \<open>More may be required of the states, if the calls keep it.\<close>

lemma quiet_and:
  fixes ok ok' :: "'s \<Rightarrow> bool"
  assumes q: "quiet K R ok view" and l: "leaves R ok'"
  shows "quiet K R (\<lambda>s. ok s \<and> ok' s) view"
proof -
  have both: "wp m (\<lambda>r s1. (ok s1 \<and> ok' s1) \<and> Q r s1) s"
    if "wp m (\<lambda>r s1. ok s1 \<and> Q r s1) s" "keeps ok' m" "ok' s" for m :: "('s, 'd, 'e) act" and Q s
    using that by (auto simp: wp_def dest: keepsD split: prod.splits)
  show ?thesis
    unfolding quiet_def
    by (intro allI impI conjI both leaves_calls [OF l])
       (auto intro!: quiet_get [OF q] quiet_list [OF q] quiet_create [OF q] quiet_update [OF q]
          quiet_status [OF q] quiet_delete [OF q] dest: quiet_key [OF q])
qed

lemma quiet_leaves:
  assumes q: "quiet K T (\<lambda>s. ok s \<and> view s = v) other"
  shows "leaves T (\<lambda>s. ok s \<and> view s = v)"
  unfolding leaves_def
  by (intro conjI allI keepsI_wp quiet_get [OF q] quiet_list [OF q] quiet_create [OF q] quiet_update [OF q]
    quiet_status [OF q] quiet_delete [OF q]) auto

lemma keeps_lift2:
  "(\<And>v w. keeps (\<lambda>s. ok s \<and> pv s = v \<and> nv s = w) m) \<Longrightarrow> keeps (\<lambda>s. ok s \<and> X (pv s) (nv s)) m"
  unfolding keeps_def by metis

lemma leaves_lift2:
  assumes "\<And>v w. leaves T (\<lambda>s. ok s \<and> pv s = v \<and> nv s = w)"
  shows "leaves T (\<lambda>s. ok s \<and> X (pv s) (nv s))"
  unfolding leaves_def by (intro conjI allI; rule keeps_lift2, rule leaves_calls, rule assms)

section \<open>A server in memory\<close>

definition mem_resource ::
  "('k, 'o) kind \<Rightarrow> ('o \<Rightarrow> 'o \<Rightarrow> 'o) \<Rightarrow> ('s \<Rightarrow> ('k \<times> 'o) list) \<Rightarrow> (('k \<times> 'o) list \<Rightarrow> 's \<Rightarrow> 's) \<Rightarrow> ('s, 'k, 'o) resource" where
  \<comment> \<open>\<open>st cur ob\<close> is \<open>cur\<close> with the status of \<open>ob\<close>\<close>
  "mem_resource K st get put = \<lparr>
     r_Get = (\<lambda>k s. (case map_of (get s) k of None \<Rightarrow> Inl NotFound | Some ob \<Rightarrow> Inr ob, s)),
     r_List = (\<lambda>ns ls s. (Inr (filter (\<lambda>ob. (ns = [] \<or> kd_namespace K ob = ns) \<and> has_labels ls (kd_labels K ob))
                 (map snd (AList.clearjunk (get s)))), s)),
     r_Create = (\<lambda>ob s. case map_of (get s) (kd_key K ob) of
         Some _ \<Rightarrow> (Inl AlreadyExists, s) | None \<Rightarrow> (Inr ob, put (AList.update (kd_key K ob) ob (get s)) s)),
     r_Update = (\<lambda>ob s. case map_of (get s) (kd_key K ob) of
         None \<Rightarrow> (Inl NotFound, s) | Some _ \<Rightarrow> (Inr ob, put (AList.update (kd_key K ob) ob (get s)) s)),
     r_UpdateStatus = (\<lambda>ob s. case map_of (get s) (kd_key K ob) of
         None \<Rightarrow> (Inl NotFound, s)
       | Some cur \<Rightarrow> (Inr (st cur ob), put (AList.update (kd_key K ob) (st cur ob) (get s)) s)),
     r_Delete = (\<lambda>ob s. case map_of (get s) (kd_key K ob) of
         None \<Rightarrow> (Inl NotFound, s) | Some _ \<Rightarrow> (Inr (), put (AList.delete (kd_key K ob) (get s)) s))\<rparr>"

definition mem_keyed :: "('k, 'o) kind \<Rightarrow> ('k \<times> 'o) list \<Rightarrow> bool" where
  "mem_keyed K m \<longleftrightarrow> (\<forall>k ob. map_of m k = Some ob \<longrightarrow> kd_key K ob = k)"

lemma mem_keyed_simps:
  "mem_keyed K m \<Longrightarrow> kd_key K ob = k \<Longrightarrow> mem_keyed K (AList.update k ob m)"
  "mem_keyed K m \<Longrightarrow> mem_keyed K (AList.delete k m)"
  by (auto simp: mem_keyed_def update_conv' delete_conv')

lemma mem_keyed_values:
  assumes "mem_keyed K m"
  shows "distinct (map snd (AList.clearjunk m))" "set (map snd (AList.clearjunk m)) = ran (map_of m)"
proof -
  have set_cj: "(k, v) \<in> set (AList.clearjunk m) \<longleftrightarrow> map_of m k = Some v" for k v
    by (metis distinct_clearjunk map_of_clearjunk map_of_eq_Some_iff)
  have "inj_on snd (set (AList.clearjunk m))"
    using assms unfolding mem_keyed_def by (intro inj_onI) (metis prod.collapse set_cj)
  then show "distinct (map snd (AList.clearjunk m))"
    using distinct_clearjunk [of m] by (simp add: distinct_map)
  show "set (map snd (AList.clearjunk m)) = ran (map_of m)"
    by (auto simp: set_cj ran_def) (metis image_eqI set_cj snd_conv)
qed

lemma mem_quiet:
  fixes get :: "'s \<Rightarrow> ('k \<times> 'o) list"
  assumes lens: "\<And>m s. get (put m s) = m" and refl: "\<And>ob. kd_same K ob ob"
    and st: "\<And>cur ob. kd_key K (st cur ob) = kd_key K cur \<and> kd_same K cur (st cur ob)"
  shows "quiet K (mem_resource K st get put) (\<lambda>s. mem_keyed K (get s)) (\<lambda>s. map_of (get s))"
  unfolding quiet_def
proof (intro allI impI conjI)
  fix s :: 's and k ob assume keyed: "mem_keyed K (get s)"
  show "map_of (get s) k = Some ob \<Longrightarrow> kd_key K ob = k" using keyed by (simp add: mem_keyed_def)
next
  fix s :: 's and k assume keyed: "mem_keyed K (get s)"
  show "wp (r_Get (mem_resource K st get put) k) (\<lambda>r s1. mem_keyed K (get s1) \<and> map_of (get s1) = map_of (get s) \<and>
      (\<forall>ob. r = Inr ob \<longrightarrow> map_of (get s) k = Some ob)) s"
    using keyed by (simp add: wp_def mem_resource_def split: option.splits)
next
  fix s :: 's and ns ls assume keyed: "mem_keyed K (get s)"
  show "wp (r_List (mem_resource K st get put) ns ls) (\<lambda>r s1. mem_keyed K (get s1) \<and> map_of (get s1) = map_of (get s) \<and>
      (\<forall>obs. r = Inr obs \<longrightarrow> distinct obs \<and> set obs = listed K (map_of (get s)) ns ls)) s"
    using keyed mem_keyed_values [OF keyed] by (auto simp: wp_def mem_resource_def listed_def)
qed (auto simp: wp_def mem_resource_def update_conv' delete_conv' lens refl mem_keyed_simps st mem_keyed_def
      split: option.splits if_splits)

end
