(* ===== verification/NsRbac.thy ===== *)
theory NsRbac
  imports Cluster
begin

text \<open>
  Package \<open>internal/nsrbac\<close>: the role binding that lets the operator write into a namespace of a
  project. The namespaces of a project themselves: who owns one, and the labels that are put on it
  (\<open>project_envs.go\<close> and \<open>project_controller.go\<close>).
\<close>

record RoleRef =
  rr_APIGroup :: string
  rr_Kind :: string
  rr_Name :: string

record Subject =
  sub_Kind :: string
  sub_APIGroup :: string
  sub_Name :: string
  sub_Namespace :: string

record RoleBinding =
  rb_Namespace :: string
  rb_Name :: string
  rb_Labels :: "string gomap"
  rb_RoleRef :: RoleRef
  rb_Subjects :: "Subject list"

definition write_binding :: "string \<Rightarrow> string \<Rightarrow> string \<Rightarrow> RoleBinding" where
  \<comment> \<open>\<open>desired\<close>\<close>
  "write_binding ns saName saNamespace = \<lparr>rb_Namespace = ns, rb_Name = NsRoleBindingName,
     rb_Labels = [(''app.kubernetes.io/managed-by'', ''mortise'')],
     rb_RoleRef = \<lparr>rr_APIGroup = ''rbac.authorization.k8s.io'', rr_Kind = ''ClusterRole'', rr_Name = NsClusterRoleName\<rparr>,
     rb_Subjects = [\<lparr>sub_Kind = ''ServiceAccount'', sub_APIGroup = [], sub_Name = saName, sub_Namespace = saNamespace\<rparr>]\<rparr>"

definition EnsureWriteBinding :: "('s, nn, RoleBinding) resource \<Rightarrow> string \<Rightarrow> string \<Rightarrow> string \<Rightarrow> ('s, kerr, unit) act" where
  "EnsureWriteBinding R ns saName saNamespace =
     (let desired = write_binding ns saName saNamespace
      in outcome (r_Get R (ns, NsRoleBindingName)) (\<lambda>r. case r of
           Inl err \<Rightarrow>
             if err = NotFound
             then outcome (r_Create R desired) (\<lambda>c. case c of
                      Inl e \<Rightarrow> if e = AlreadyExists then give () else stop e
                    | Inr _ \<Rightarrow> give ())
             else stop err
         | Inr existing \<Rightarrow>
             if rb_RoleRef existing \<noteq> rb_RoleRef desired \<or> rb_Subjects existing \<noteq> rb_Subjects desired
             then andthen (r_Update R (existing\<lparr>rb_RoleRef := rb_RoleRef desired, rb_Subjects := rb_Subjects desired\<rparr>)) (\<lambda>_. give ())
             else give ()))"

section \<open>Namespaces of a project\<close>

definition project_owner :: "Project \<Rightarrow> owner_ref" where
  "project_owner project = \<lparr>or_APIVersion = GroupVersion, or_Kind = ''Project'', or_Name = prj_Name project, or_UID = prj_UID project,
     or_Controller = True, or_BlockOwnerDeletion = True\<rparr>"

definition project_refs :: "nsobj \<Rightarrow> owner_ref list" where
  "project_refs ns = filter (\<lambda>ref. or_APIVersion ref = GroupVersion \<and> or_Kind ref = ''Project'') (ns_OwnerReferences ns)"

definition owned_by :: "Project \<Rightarrow> nsobj \<Rightarrow> bool" where
  \<comment> \<open>\<open>ownedByUs\<close> after the loop over the owner references\<close>
  "owned_by project ns \<longleftrightarrow> list_ex (\<lambda>ref. or_UID ref = prj_UID project) (project_refs ns)"

definition other_owner :: "nsobj \<Rightarrow> string" where
  \<comment> \<open>\<open>ownedByOther\<close> when no reference is ours: the last one's name\<close>
  "other_owner ns = (if project_refs ns = [] then [] else or_Name (List.last (project_refs ns)))"

definition sync_labels :: "string gomap \<Rightarrow> nsobj \<Rightarrow> nsobj \<times> bool" where
  "sync_labels labels ns =
     (ns\<lparr>ns_Labels := put_all labels (ns_Labels ns)\<rparr>, list_ex (\<lambda>(k, v). lookup_str (ns_Labels ns) k \<noteq> v) labels)"

end
