(* ===== verification/Server.thy ===== *)
theory Server
  imports NsRbac Activity Bindings
begin

text \<open>
  What the HTTP handlers of \<open>internal/api\<close> share: replies and \<open>writeError\<close> (\<open>json.go\<close>, \<open>apps.go\<close>),
  name validation (\<open>validate.go\<close>), \<open>authorize\<close> (\<open>server.go\<close>), activity records (\<open>activity.go\<close>), the
  lookup of the project a request names, and the project handlers themselves (\<open>projects.go\<close>).

  \<open>server\<close> holds the clients, the policy engine, the activity store and the clock as parameters. A
  handler gets the request as the principal of its context, its header, its URL parameters and its
  decoded JSON body, where \<open>Inl\<close> is the decoder's error. The text of a \<open>Fault\<close>, which \<open>writeError\<close>
  takes from the details of the API error, is left out, and so is the time format of the responses.
\<close>

section \<open>Replies\<close>

datatype 'b reply = ErrorReply nat string | Fault kerr | Reply nat 'b

type_synonym ('s, 'b) handler = "('s, 'b reply, 'b reply) act"

fun writeError :: "kerr \<Rightarrow> nat" where
  "writeError NotFound = 404"
| "writeError Conflict = 409"
| "writeError AlreadyExists = 409"
| "writeError Invalid = 422"
| "writeError _ = 500"

fun reply_status :: "'b reply \<Rightarrow> nat" where
  "reply_status (ErrorReply n _) = n"
| "reply_status (Fault e) = writeError e"
| "reply_status (Reply n _) = n"

definition answer :: "'b reply + 'b reply \<Rightarrow> 'b reply" where
  \<comment> \<open>what the client gets, however the handler returned\<close>
  "answer r = (case r of Inl x \<Rightarrow> x | Inr x \<Rightarrow> x)"

fun fault_kind :: "gerr \<Rightarrow> kerr" where
  \<comment> \<open>the kind \<open>errors.Is...\<close> sees through the \<open>%w\<close> wrapping\<close>
  "fault_kind (Api _ e) = e"
| "fault_kind (Msg m) = OtherErr m"
| "fault_kind ErrSkip = OtherErr []"

section \<open>The server\<close>

record request =
  rq_Principal :: "Principal option"
  rq_Authorization :: string

record 's server =
  sv_Projects :: "('s, string, Project) resource"
  sv_FreshProject :: "string \<Rightarrow> ('s, kerr, Project) act"
  sv_Members :: "('s, nn, ProjectMember) resource"
  sv_Apps :: "('s, nn, App) resource"
  sv_Secrets :: "('s, nn, secret) resource"
  sv_Namespaces :: "('s, string, nsobj) resource"
  sv_RoleBindings :: "('s, nn, RoleBinding) resource"
  sv_ServiceAccount :: string
  sv_OperatorNamespace :: string
  sv_WaitWritable :: "string \<Rightarrow> ('s, kerr, unit) act"
    \<comment> \<open>the poll of \<open>waitForNamespaceWriteAccess\<close>\<close>
  sv_Authorize :: "Principal \<Rightarrow> Resource \<Rightarrow> Action \<Rightarrow> ('s, kerr, bool) act"
  sv_Activity :: "Event \<Rightarrow> 's \<Rightarrow> 's"
  sv_now :: "'s \<Rightarrow> int"
  sv_sha256 :: "string \<Rightarrow> string"

definition native_authorize :: "'s server \<Rightarrow> Principal \<Rightarrow> Resource \<Rightarrow> Action \<Rightarrow> ('s, kerr, bool) act" where
  \<comment> \<open>the policy engine \<open>main\<close> gives the server\<close>
  "native_authorize S p res action s =
     (Authorize (sv_sha256 S) (\<lambda>k. fst (r_Get (sv_Members S) k s)) (\<lambda>n. fst (r_Get (sv_Projects S) n s)) p res action, s)"

definition authorize :: "'s server \<Rightarrow> request \<Rightarrow> Resource \<Rightarrow> Action \<Rightarrow> ('s, 'b reply, unit) act" where
  "authorize S rq res action =
     (case rq_Principal rq of
        None \<Rightarrow> stop (ErrorReply 401 ''authentication required'')
      | Some p \<Rightarrow> outcome (sv_Authorize S p res action) (\<lambda>r. case r of
            Inl _ \<Rightarrow> stop (ErrorReply 500 ''authorization check failed'')
          | Inr granted \<Rightarrow> check granted (ErrorReply 403 ''forbidden'')))"

definition on_project :: "string \<Rightarrow> string \<Rightarrow> Resource" where
  \<comment> \<open>the literal \<open>authz.Resource{Kind: kind, Project: project}\<close>\<close>
  "on_project kind project =
     \<lparr>rs_Kind = kind, rs_Namespace = [], rs_Name = [], rs_Project = project, rs_Environment = []\<rparr>"

definition activityActor :: "request \<Rightarrow> string \<Rightarrow> string" where
  "activityActor rq actorOverride =
     (if actorOverride \<noteq> [] then actorOverride
      else case rq_Principal rq of
             Some p \<Rightarrow> if p_Email p \<noteq> [] then p_Email p else ''system''
           | None \<Rightarrow> ''system'')"

definition recordActivity ::
  "'s server \<Rightarrow> request \<Rightarrow> string \<Rightarrow> string \<Rightarrow> string \<Rightarrow> string \<Rightarrow> string \<Rightarrow> string \<Rightarrow> ('s, 'e, unit) act" where
  \<comment> \<open>an error of the store is only logged\<close>
  "recordActivity S rq project action kind resource msg actorOverride =
     (if project = [] \<or> action = [] then give ()
      else effect (\<lambda>s. sv_Activity S \<lparr>ae_Seq = 0, ae_Timestamp = sv_now S s, ae_Actor = activityActor rq actorOverride,
             ae_Action = action, ae_ResourceKind = kind, ae_ResourceName = resource, ae_Project = project,
             ae_Message = msg, ae_Metadata = []\<rparr> s))"

section \<open>Names\<close>

definition dns1123Label :: "string \<Rightarrow> bool" where
  \<comment> \<open>\<open>dns1123LabelRegex\<close>\<close>
  "dns1123Label s \<longleftrightarrow> s \<noteq> [] \<and> alnum_lower (hd s) \<and> alnum_lower (List.last s) \<and>
     list_all (\<lambda>c. alnum_lower c \<or> c = CHR ''-'') s"

definition validateDNSLabel :: "string \<Rightarrow> string \<Rightarrow> nat \<Rightarrow> string" where
  "validateDNSLabel field name maxLen =
     (if name = [] then field @ '' is required''
      else if length name > maxLen then field @ '' must be '' @ show_nat maxLen @ '' characters or fewer''
      else if \<not> dns1123Label name
        then field @ '' must be a DNS-1123 label: lowercase alphanumerics and '' @ [CHR 0x27] @ ''-'' @ [CHR 0x27]
               @ '', starting and ending with an alphanumeric''
      else [])"

definition maxProjectNameLen :: nat where "maxProjectNameLen = 30"

definition validateProjectName :: "string \<Rightarrow> string" where
  "validateProjectName name = validateDNSLabel ''name'' name maxProjectNameLen"

definition valid_or_400 :: "string \<Rightarrow> ('s, 'b reply, unit) act" where
  \<comment> \<open>\<open>if msg := validate...; msg != "" { writeJSON(400, msg); return }\<close>\<close>
  "valid_or_400 msg = check (msg = []) (ErrorReply 400 msg)"

definition decoded :: "string + 'q \<Rightarrow> ('s, 'b reply, 'q) act" where
  "decoded body = (case body of Inl err \<Rightarrow> stop (ErrorReply 400 (''invalid JSON: '' @ err)) | Inr req \<Rightarrow> give req)"

section \<open>The project of a request\<close>

definition lookupProject :: "'s server \<Rightarrow> string \<Rightarrow> ('s, 'b reply, Project) act" where
  "lookupProject S projectName =
     (if projectName = [] then stop (ErrorReply 400 ''project is required'')
      else on_err (\<lambda>e. if e = NotFound then ErrorReply 404 (''project '' @ quoted projectName @ '' not found'') else Fault e)
             (r_Get (sv_Projects S) projectName))"

definition projectNs :: "Project \<Rightarrow> string" where
  "projectNs p = (if pst_Namespace (prj_Status p) \<noteq> [] then pst_Namespace (prj_Status p) else ControlNamespace (prj_Name p))"

definition resolveProject :: "'s server \<Rightarrow> string \<Rightarrow> ('s, 'b reply, string \<times> string) act" where
  "resolveProject S projectName =
     andthen (lookupProject S projectName) (\<lambda>project. give (projectNs project, prj_Name project))"

definition indexOfEnv :: "Project \<Rightarrow> string \<Rightarrow> nat option" where
  \<comment> \<open>\<open>None\<close> is -1\<close>
  "indexOfEnv project name = position (\<lambda>env. pe_Name env = name) (ps_Environments (prj_Spec project))"

section \<open>Environment health\<close>

datatype EnvHealth = EnvHealthHealthy | EnvHealthWarning | EnvHealthDanger | EnvHealthUnknown

definition appParticipatesInEnv :: "App \<Rightarrow> string \<Rightarrow> bool" where
  "appParticipatesInEnv app envName =
     (case find (\<lambda>env. env_Name env = envName) (spec_Environments (app_Spec app)) of
        Some env \<Rightarrow> env_Enabled env \<noteq> Some False
      | None \<Rightarrow> True)"

definition phaseForEnv :: "App \<Rightarrow> string \<Rightarrow> AppPhase" where
  "phaseForEnv app envName =
     (case find (\<lambda>es. es_Name es = envName) (st_Environments (app_Status app)) of
        Some es \<Rightarrow> if es_Phase es \<noteq> AppPhaseUnset then es_Phase es else st_Phase (app_Status app)
      | None \<Rightarrow> st_Phase (app_Status app))"

definition aggregateEnvHealth :: "string \<Rightarrow> App list \<Rightarrow> EnvHealth" where
  "aggregateEnvHealth envName apps =
     (let phases = map (\<lambda>app. phaseForEnv app envName) (filter (\<lambda>app. appParticipatesInEnv app envName) apps);
          participating = length phases;
          danger = length (filter (\<lambda>ph. ph \<in> {AppPhaseFailed, AppPhaseCrashLooping}) phases);
          warn = length (filter (\<lambda>ph. ph \<in> {AppPhaseBuilding, AppPhaseDeploying, AppPhasePending, AppPhaseDegraded}) phases);
          healthy = length (filter (\<lambda>ph. ph = AppPhaseReady) phases)
      in if participating = 0 then EnvHealthUnknown
         else if danger > 0 then EnvHealthDanger
         else if warn > 0 then EnvHealthWarning
         else if healthy = participating then EnvHealthHealthy
         else EnvHealthUnknown)"

fun production_name :: "string \<Rightarrow> int \<Rightarrow> ProjectEnvironment list \<Rightarrow> string" where
  \<comment> \<open>the loop of \<open>productionHealth\<close>, with \<open>prodName\<close> and \<open>lowestOrder\<close>\<close>
  "production_name prodName lowestOrder [] = prodName"
| "production_name prodName lowestOrder (env # envs) =
     (if pe_Name env = ''production'' then pe_Name env
      else if lowestOrder < 0 \<or> pe_DisplayOrder env < lowestOrder then production_name (pe_Name env) (pe_DisplayOrder env) envs
      else production_name prodName lowestOrder envs)"

definition productionHealth :: "Project \<Rightarrow> App list \<Rightarrow> EnvHealth" where
  "productionHealth p apps =
     (let prodName = production_name [] (-1) (ps_Environments (prj_Spec p));
          prodName = (if prodName = [] then ''production'' else prodName)
      in aggregateEnvHealth prodName (filter (\<lambda>app. app_Namespace app = projectNs p) apps))"

section \<open>Project handlers\<close>

record createProjectRequest =
  cpr_Name :: string
  cpr_Description :: string
  cpr_CreateStaging :: bool

record projectResponse =
  pjr_Name :: string
  pjr_Description :: string
  pjr_Namespace :: string
  pjr_Phase :: ProjectPhase
  pjr_AppCount :: "32 word"
  pjr_AutoRedeploy :: bool
  pjr_CreatedAt :: "int option"
  pjr_Preview :: "PreviewConfig option"
  pjr_Health :: "EnvHealth option"

definition toProjectResponse :: "Project \<Rightarrow> App list option \<Rightarrow> projectResponse" where
  "toProjectResponse p apps = \<lparr>pjr_Name = prj_Name p, pjr_Description = ps_Description (prj_Spec p),
     pjr_Namespace = projectNs p, pjr_Phase = pst_Phase (prj_Status p), pjr_AppCount = pst_AppCount (prj_Status p),
     pjr_AutoRedeploy = ps_AutoRedeploy (prj_Spec p), pjr_CreatedAt = prj_CreationTimestamp p,
     pjr_Preview = ps_Preview (prj_Spec p), pjr_Health = map_option (productionHealth p) apps\<rparr>"

definition fresh_env :: "string \<Rightarrow> int \<Rightarrow> ProjectEnvironment" where
  \<comment> \<open>the literal \<open>ProjectEnvironment{Name: name, DisplayOrder: order}\<close>\<close>
  "fresh_env name order = \<lparr>pe_Name = name, pe_DisplayOrder = order, pe_Restricted = False, pe_Preview = False\<rparr>"

definition no_project_status :: ProjectStatus where
  "no_project_status = \<lparr>pst_Phase = ProjectPhaseUnset, pst_Namespace = [], pst_EnvNamespaces = [], pst_AppCount = 0,
     pst_Environments = [], pst_Conditions = []\<rparr>"

definition new_Project :: "string \<Rightarrow> string gomap \<Rightarrow> string \<Rightarrow> ProjectEnvironment list \<Rightarrow> Project" where
  \<comment> \<open>the object \<open>CreateProject\<close> submits; UID, generation and creation time are the server's\<close>
  "new_Project name annotations description envs = \<lparr>prj_Name = name, prj_UID = [], prj_Labels = [],
     prj_Annotations = annotations, prj_Generation = 0, prj_CreationTimestamp = None, prj_DeletionTimestamp = None,
     prj_Finalizers = [], prj_Spec = \<lparr>ps_Description = description, ps_Environments = envs, ps_Preview = None, ps_AutoRedeploy = False\<rparr>,
     prj_Status = no_project_status\<rparr>"

definition CreateProject :: "'s server \<Rightarrow> request \<Rightarrow> string + createProjectRequest \<Rightarrow> ('s, projectResponse) handler" where
  "CreateProject S rq body =
     andthen (authorize S rq (on_project ''project'' []) ActionCreate) (\<lambda>_.
     andthen (decoded body) (\<lambda>req.
     andthen (valid_or_400 (validateProjectName (cpr_Name req))) (\<lambda>_.
       let annotations = (case rq_Principal rq of Some p \<Rightarrow> [(''mortise.dev/created-by'', p_Email p)] | None \<Rightarrow> []);
           envs = fresh_env DefaultProjectEnvironment 0 # (if cpr_CreateStaging req then [fresh_env ''staging'' 0] else [])
       in andthen (on_err (\<lambda>e. if e = AlreadyExists
              then ErrorReply 409 (''A project named '' @ quoted (cpr_Name req)
                @ '' already exists. Project names must be unique across the platform. ''
                @ ''If you need access to the existing project, ask a project owner or platform admin to add you as a member.'')
              else Fault e)
            (r_Create (sv_Projects S) (new_Project (cpr_Name req) annotations (cpr_Description req) envs))) (\<lambda>project.
          give (Reply 201 (toProjectResponse project None))))))"

definition CheckProjectNameAvailable :: "'s server \<Rightarrow> string \<Rightarrow> ('s, bool) handler" where
  "CheckProjectNameAvailable S name =
     andthen (valid_or_400 (validateProjectName name)) (\<lambda>_.
       outcome (r_Get (sv_Projects S) name) (\<lambda>r. case r of
           Inl e \<Rightarrow> if e = NotFound then give (Reply 200 True) else stop (Fault e)
         | Inr _ \<Rightarrow> give (Reply 200 False)))"

fun readable_loop :: "'s server \<Rightarrow> Principal option \<Rightarrow> string list \<Rightarrow> Project list \<Rightarrow> ('s, kerr, string list) act" where
  \<comment> \<open>the loop over the projects in \<open>readableProjects\<close>; nobody without a principal is a member\<close>
  "readable_loop S pr memberProjects [] = give []"
| "readable_loop S pr memberProjects (project # projects) =
     (case pr of
        Some p \<Rightarrow>
          if prj_Name project \<notin> set memberProjects then readable_loop S pr memberProjects projects
          else andthen (sv_Authorize S p (on_project ''project'' (prj_Name project)) ActionRead) (\<lambda>granted.
                 andthen (readable_loop S pr memberProjects projects) (\<lambda>out.
                   give (if granted then prj_Name project # out else out)))
      | None \<Rightarrow> readable_loop S pr memberProjects projects)"

definition readableProjects :: "'s server \<Rightarrow> request \<Rightarrow> ('s, kerr, string list) act" where
  "readableProjects S rq =
     andthen (r_List (sv_Projects S) [] []) (\<lambda>projects.
       if (\<exists>p. rq_Principal rq = Some p \<and> p_Role p = RoleAdmin) then give (map prj_Name projects)
       else andthen (r_List (sv_Members S) [] [(''mortise.dev/member'', ''true'')]) (\<lambda>members.
              readable_loop S (rq_Principal rq)
                (case rq_Principal rq of None \<Rightarrow> []
                 | Some p \<Rightarrow> map (\<lambda>m. pm_Project (member_Spec m)) (filter (\<lambda>m. pm_Email (member_Spec m) = p_Email p) members))
                projects))"

definition ListProjects :: "'s server \<Rightarrow> request \<Rightarrow> ('s, projectResponse list) handler" where
  "ListProjects S rq =
     andthen (authorize S rq (on_project ''project'' []) ActionRead) (\<lambda>_.
     andthen (on_err Fault (r_List (sv_Projects S) [] [])) (\<lambda>list1.
     andthen (on_err Fault (r_List (sv_Apps S) [] [])) (\<lambda>apps.
     andthen (on_err Fault (readableProjects S rq)) (\<lambda>readable.
       give (Reply 200 (map (\<lambda>p. toProjectResponse p (Some apps))
         (filter (\<lambda>p. prj_Name p \<in> set readable) (sort_key prj_Name list1))))))))"

definition project_reply :: "'s server \<Rightarrow> Project \<Rightarrow> ('s, projectResponse) handler" where
  \<comment> \<open>the common end of \<open>GetProject\<close> and \<open>UpdateProject\<close>\<close>
  "project_reply S project =
     andthen (on_err Fault (r_List (sv_Apps S) (projectNs project) [])) (\<lambda>apps.
       give (Reply 200 (toProjectResponse project (Some apps))))"

definition GetProject :: "'s server \<Rightarrow> request \<Rightarrow> string \<Rightarrow> ('s, projectResponse) handler" where
  "GetProject S rq projectName =
     andthen (authorize S rq (on_project ''project'' projectName) ActionRead) (\<lambda>_.
     andthen (lookupProject S projectName) (project_reply S))"

definition DeleteProject :: "'s server \<Rightarrow> request \<Rightarrow> string \<Rightarrow> ('s, string) handler" where
  "DeleteProject S rq projectName =
     andthen (authorize S rq (on_project ''project'' projectName) ActionDelete) (\<lambda>_.
     andthen (lookupProject S projectName) (\<lambda>project.
     andthen (on_err Fault (r_Delete (sv_Projects S) project)) (\<lambda>_.
     andthen (recordActivity S rq projectName ''delete'' ''project'' projectName (''Deleted project '' @ projectName) []) (\<lambda>_.
       give (Reply 202 projectName)))))"

record updateProjectPreview =
  upp_Enabled :: "bool option"
  upp_SourceEnvironment :: string

record updateProjectRequest =
  upr_Description :: "string option"
  upr_AutoRedeploy :: "bool option"
  upr_Preview :: "updateProjectPreview option"

definition patch_project :: "updateProjectRequest \<Rightarrow> ProjectSpec \<Rightarrow> ProjectSpec" where
  \<comment> \<open>the mutations inside the retry of \<open>UpdateProject\<close>\<close>
  "patch_project req sp =
     (let sp = (case upr_Description req of Some d \<Rightarrow> sp\<lparr>ps_Description := d\<rparr> | None \<Rightarrow> sp);
          sp = (case upr_AutoRedeploy req of Some b \<Rightarrow> sp\<lparr>ps_AutoRedeploy := b\<rparr> | None \<Rightarrow> sp)
      in case upr_Preview req of
           None \<Rightarrow> sp
         | Some u \<Rightarrow>
             let pc = (case ps_Preview sp of Some pc \<Rightarrow> pc
                       | None \<Rightarrow> \<lparr>pc_Enabled = False, pc_SourceEnvironment = [], pc_BotPR = None\<rparr>);
                 pc = (case upp_Enabled u of Some b \<Rightarrow> pc\<lparr>pc_Enabled := b\<rparr> | None \<Rightarrow> pc);
                 pc = (if upp_SourceEnvironment u \<noteq> [] then pc\<lparr>pc_SourceEnvironment := upp_SourceEnvironment u\<rparr> else pc)
             in sp\<lparr>ps_Preview := Some pc\<rparr>)"

definition UpdateProject ::
  "'s server \<Rightarrow> (('s \<times> unit) call \<Rightarrow> ('s \<times> unit) call) \<Rightarrow> request \<Rightarrow> string \<Rightarrow> string + updateProjectRequest \<Rightarrow> ('s, projectResponse) handler" where
  "UpdateProject S retry rq projectName body =
     andthen (authorize S rq (on_project ''project'' projectName) ActionUpdate) (\<lambda>_.
     andthen (decoded body) (\<lambda>req.
     andthen (lookupProject S projectName) (\<lambda>_.
     andthen (on_err (\<lambda>e. Fault (fault_kind e)) (RetryOnConflict retry () (on_err (Api [])
       (andthen (r_Get (sv_Projects S) projectName) (\<lambda>fresh.
        andthen (r_Update (sv_Projects S) (fresh\<lparr>prj_Spec := patch_project req (prj_Spec fresh)\<rparr>)) (\<lambda>_. give ())))))) (\<lambda>_.
     andthen (lookupProject S projectName) (project_reply S)))))"

section \<open>A server in memory\<close>

text \<open>The kinds of objects, and a state that holds some of each; the witnesses run on it.\<close>

definition project_kind :: "(string, Project) kind" where
  "project_kind = \<lparr>kd_key = prj_Name, kd_namespace = (\<lambda>_. []), kd_labels = prj_Labels,
     kd_same = (\<lambda>p p1. p1\<lparr>prj_Status := prj_Status p\<rparr> = p)\<rparr>"

definition app_kind :: "(nn, App) kind" where
  "app_kind = \<lparr>kd_key = (\<lambda>a. (app_Namespace a, app_Name a)), kd_namespace = app_Namespace, kd_labels = app_Labels,
     kd_same = (\<lambda>a a1. a1\<lparr>app_Status := app_Status a\<rparr> = a)\<rparr>"

definition secret_kind :: "(nn, secret) kind" where
  "secret_kind = \<lparr>kd_key = sec_key, kd_namespace = Sec_Namespace, kd_labels = Sec_Labels,
     kd_same = (\<lambda>o1 o2. o2\<lparr>Sec_RV := Sec_RV o1\<rparr> = o1)\<rparr>"

definition namespace_kind :: "(string, nsobj) kind" where
  "namespace_kind = \<lparr>kd_key = ns_Name, kd_namespace = (\<lambda>_. []), kd_labels = ns_Labels, kd_same = (=)\<rparr>"

definition binding_kind :: "(nn, RoleBinding) kind" where
  "binding_kind = \<lparr>kd_key = (\<lambda>b. (rb_Namespace b, rb_Name b)), kd_namespace = rb_Namespace, kd_labels = rb_Labels, kd_same = (=)\<rparr>"

definition member_kind :: "(nn, ProjectMember) kind" where
  "member_kind = \<lparr>kd_key = (\<lambda>m. (member_Namespace m, member_Name m)), kd_namespace = member_Namespace,
     kd_labels = member_Labels, kd_same = (\<lambda>m m1. (member_Namespace m1, member_Name m1, member_Labels m1, member_Spec m1) =
        (member_Namespace m, member_Name m, member_Labels m, member_Spec m))\<rparr>"

record world =
  w_Projects :: "(string \<times> Project) list"
  w_Members :: "(nn \<times> ProjectMember) list"
  w_Apps :: "(nn \<times> App) list"
  w_Secrets :: "(nn \<times> secret) list"
  w_Namespaces :: "(string \<times> nsobj) list"
  w_Bindings :: "(nn \<times> RoleBinding) list"
  w_Log :: "Event list"
  w_now :: int

definition empty_world :: world where
  "empty_world = \<lparr>w_Projects = [], w_Members = [], w_Apps = [], w_Secrets = [], w_Namespaces = [], w_Bindings = [], w_Log = [], w_now = 0\<rparr>"

definition mem_projects :: "(world, string, Project) resource" where
  "mem_projects = mem_resource project_kind (\<lambda>p p1. p\<lparr>prj_Status := prj_Status p1\<rparr>) w_Projects (\<lambda>m w. w\<lparr>w_Projects := m\<rparr>)"

definition mem_members :: "(world, nn, ProjectMember) resource" where
  "mem_members = mem_resource member_kind (\<lambda>m m1. m\<lparr>member_Status := member_Status m1\<rparr>) w_Members (\<lambda>m w. w\<lparr>w_Members := m\<rparr>)"

definition mem_apps :: "(world, nn, App) resource" where
  "mem_apps = mem_resource app_kind (\<lambda>a a1. a\<lparr>app_Status := app_Status a1\<rparr>) w_Apps (\<lambda>m w. w\<lparr>w_Apps := m\<rparr>)"

definition mem_secrets :: "(world, nn, secret) resource" where
  "mem_secrets = mem_resource secret_kind (\<lambda>o1 _. o1) w_Secrets (\<lambda>m w. w\<lparr>w_Secrets := m\<rparr>)"

definition mem_namespaces :: "(world, string, nsobj) resource" where
  "mem_namespaces = mem_resource namespace_kind (\<lambda>n _. n) w_Namespaces (\<lambda>m w. w\<lparr>w_Namespaces := m\<rparr>)"

definition mem_bindings :: "(world, nn, RoleBinding) resource" where
  "mem_bindings = mem_resource binding_kind (\<lambda>b _. b) w_Bindings (\<lambda>m w. w\<lparr>w_Bindings := m\<rparr>)"

definition base_server :: "world server" where
  \<comment> \<open>before the policy engine is set\<close>
  "base_server = \<lparr>sv_Projects = mem_projects, sv_FreshProject = r_Get mem_projects, sv_Members = mem_members, sv_Apps = mem_apps,
     sv_Secrets = mem_secrets, sv_Namespaces = mem_namespaces, sv_RoleBindings = mem_bindings, sv_ServiceAccount = ''mortise'',
     sv_OperatorNamespace = ''mortise-system'', sv_WaitWritable = (\<lambda>_. give ()), sv_Authorize = (\<lambda>_ _ _. give False),
     sv_Activity = (\<lambda>e w. w\<lparr>w_Log := w_Log w @ [e]\<rparr>), sv_now = w_now, sv_sha256 = (\<lambda>_. [])\<rparr>"

definition mem_server :: "world server" where
  "mem_server = base_server\<lparr>sv_Authorize := native_authorize base_server\<rparr>"

lemma native_authorize_base: "native_authorize mem_server = native_authorize base_server"
  by (intro ext) (simp add: native_authorize_def mem_server_def)

lemma mem_server_sel [simp]:
  "sv_Projects mem_server = mem_projects" "sv_FreshProject mem_server = r_Get mem_projects"
  "sv_Members mem_server = mem_members" "sv_Apps mem_server = mem_apps" "sv_Secrets mem_server = mem_secrets"
  "sv_Namespaces mem_server = mem_namespaces" "sv_RoleBindings mem_server = mem_bindings" "sv_ServiceAccount mem_server = ''mortise''"
  "sv_OperatorNamespace mem_server = ''mortise-system''" "sv_WaitWritable mem_server = (\<lambda>_. give ())"
  "sv_Authorize mem_server = native_authorize mem_server"
  "sv_Activity mem_server = (\<lambda>e w. w\<lparr>w_Log := w_Log w @ [e]\<rparr>)" "sv_now mem_server = w_now" "sv_sha256 mem_server = (\<lambda>_. [])"
  unfolding native_authorize_base by (simp_all add: mem_server_def base_server_def)

lemma mem_world_quiet:
  "quiet project_kind mem_projects (\<lambda>w. mem_keyed project_kind (w_Projects w)) (\<lambda>w. map_of (w_Projects w))"
  "quiet member_kind mem_members (\<lambda>w. mem_keyed member_kind (w_Members w)) (\<lambda>w. map_of (w_Members w))"
  "quiet app_kind mem_apps (\<lambda>w. mem_keyed app_kind (w_Apps w)) (\<lambda>w. map_of (w_Apps w))"
  "quiet secret_kind mem_secrets (\<lambda>w. mem_keyed secret_kind (w_Secrets w)) (\<lambda>w. map_of (w_Secrets w))"
  "quiet namespace_kind mem_namespaces (\<lambda>w. mem_keyed namespace_kind (w_Namespaces w)) (\<lambda>w. map_of (w_Namespaces w))"
  unfolding mem_projects_def mem_members_def mem_apps_def mem_secrets_def mem_namespaces_def
  by (rule mem_quiet; simp add: project_kind_def member_kind_def app_kind_def secret_kind_def namespace_kind_def sec_key_def)+

text \<open>Calls of one kind leave the objects of the others alone.\<close>

lemma mem_resource_leaves:
  "(\<And>m s. P s \<Longrightarrow> P (put m s)) \<Longrightarrow> leaves (mem_resource K st get put) P"
  by (auto simp: leaves_def keeps_def mem_resource_def split: option.splits)

lemma mem_resource_leaves_keyed:
  assumes "\<And>m s. P s \<Longrightarrow> mem_keyed K m \<Longrightarrow> P (put m s)" "\<And>s. P s \<Longrightarrow> mem_keyed K (get s)"
    and "\<And>cur ob. kd_key K (st cur ob) = kd_key K cur"
  shows "leaves (mem_resource K st get put) P"
proof -
  have upd: "P s \<Longrightarrow> kd_key K ob = k \<Longrightarrow> P (put (AList.update k ob (get s)) s)" for s ob k
    by (rule assms(1)) (simp_all add: mem_keyed_simps(1) assms(2))
  have del: "P s \<Longrightarrow> P (put (AList.delete k (get s)) s)" for s k
    by (rule assms(1)) (simp_all add: mem_keyed_simps(2) assms(2))
  have st: "kd_key K (st cur ob) = k" if "P s" "map_of (get s) k = Some cur" for s k cur ob
    using assms(2) [OF that(1)] that(2) assms(3) by (simp add: mem_keyed_def)
  show ?thesis
    unfolding leaves_def
    by (intro conjI allI keepsI)
       (auto simp: mem_resource_def split: option.splits intro: upd del upd [OF _ st])
qed

end
