(* ===== verification/Holders.thy ===== *)
theory Holders
  imports Cluster
begin

text \<open>
  The last holder of a role. Members of a project and users of the platform are objects of one kind; those with the highest
  role are counted in a list before one of them is demoted or deleted. This theory has what such a guard relies on, once for
  both, and the locale that turns it into a guarantee over runs.
\<close>

definition kd_keyed :: "('k, 'o) kind \<Rightarrow> ('k \<rightharpoonup> 'o) \<Rightarrow> bool" where
  "kd_keyed K v \<longleftrightarrow> (\<forall>k ob. v k = Some ob \<longrightarrow> kd_key K ob = k)"

lemma quiet_keyed: "quiet K R ok view \<Longrightarrow> ok s \<Longrightarrow> kd_keyed K (view s)"
  unfolding kd_keyed_def using quiet_key by metis

definition holders :: "('k, 'o) kind \<Rightarrow> string \<Rightarrow> string gomap \<Rightarrow> ('o \<Rightarrow> bool) \<Rightarrow> ('k \<rightharpoonup> 'o) \<Rightarrow> 'o set" where
  \<comment> \<open>the listed objects with the role\<close>
  "holders K ns ls P v = {ob \<in> listed K v ns ls. P ob}"

lemma holders_iff:
  "ob \<in> holders K ns ls P v \<longleftrightarrow> ob \<in> ran v \<and> (ns = [] \<or> kd_namespace K ob = ns) \<and> has_labels ls (kd_labels K ob) \<and> P ob"
  by (auto simp: holders_def listed_def)

lemma holders_count: "distinct obs \<Longrightarrow> set obs = listed K v ns ls \<Longrightarrow> length (filter P obs) = card (holders K ns ls P v)"
  by (simp add: holders_def distinct_length_filter Int_def conj_commute)

lemma holder_stays:
  assumes "kd_keyed K v" "m \<in> holders K ns ls P v" "kd_key K m \<noteq> k"
  shows "m \<in> holders K ns ls P (v(k := w))"
proof -
  obtain a where "v a = Some m" "a \<noteq> k"
    using assms by (auto simp: holders_iff ran_def kd_keyed_def)
  then have "(v(k := w)) a = Some m" by simp
  then have "m \<in> ran (v(k := w))" by (rule ranI)
  with assms(2) show ?thesis by (simp add: holders_iff)
qed

text \<open>Two holders cannot both go with one object.\<close>

lemma another_holder:
  assumes "kd_keyed K v" "1 < card (holders K ns ls P v)"
  shows "holders K ns ls P (v(k := w)) \<noteq> {}"
proof -
  obtain m m' where two: "m \<in> holders K ns ls P v" "m' \<in> holders K ns ls P v" "m \<noteq> m'"
    using assms(2) by (metis One_nat_def card_le_Suc0_iff_eq card.infinite leD not_one_less_zero)
  have "kd_key K m \<noteq> kd_key K m'"
  proof
    assume same: "kd_key K m = kd_key K m'"
    obtain a a' where "v a = Some m" "v a' = Some m'" using two by (auto simp: holders_iff ran_def)
    with assms(1) same two(3) show False unfolding kd_keyed_def by (metis option.inject)
  qed
  then show ?thesis using holder_stays [OF assms(1)] two by (metis empty_iff)
qed

text \<open>An object that is not the last holder can go, or lose the role.\<close>

lemma holders_survive:
  assumes "kd_keyed K v" "holders K ns ls P v \<noteq> {}"
    and "\<And>m. v k = Some m \<Longrightarrow> m \<in> holders K ns ls P v \<Longrightarrow> 1 < card (holders K ns ls P v)"
  shows "holders K ns ls P (v(k := w)) \<noteq> {}"
proof (cases "\<exists>m. v k = Some m \<and> m \<in> holders K ns ls P v")
  case True
  with assms(3) show ?thesis using another_holder [OF assms(1)] by blast
next
  case False
  obtain m where m: "m \<in> holders K ns ls P v" using assms(2) by blast
  then obtain a where a: "v a = Some m" by (auto simp: holders_iff ran_def)
  then have "kd_key K m = a" using assms(1) by (simp add: kd_keyed_def)
  moreover have "a \<noteq> k" using False a m by auto
  ultimately show ?thesis using holder_stays [OF assms(1) m, of k w] by blast
qed

text \<open>A holder that is replaced by a holder is none the less there.\<close>

lemma holder_again:
  assumes "kd_keyed K v" "v k = Some m" "holders K ns ls P v \<noteq> {}"
    and "kd_namespace K w = kd_namespace K m" "kd_labels K w = kd_labels K m" "P m \<Longrightarrow> P w"
  shows "holders K ns ls P (v(k \<mapsto> w)) \<noteq> {}"
proof (cases "m \<in> holders K ns ls P v")
  case True
  have "w \<in> ran (v(k \<mapsto> w))" by (rule ranI [of _ k]) simp
  with True assms(4-6) have "w \<in> holders K ns ls P (v(k \<mapsto> w))" by (simp add: holders_iff)
  then show ?thesis by blast
next
  case False
  then show ?thesis using assms(2) by (intro holders_survive [OF assms(1,3)]) auto
qed

lemma holders_new: "v k = None \<Longrightarrow> holders K ns ls P v \<subseteq> holders K ns ls P (v(k \<mapsto> w))"
  by (auto simp: holders_iff)

text \<open>A guard that never lets the last holder of a role go keeps one over every run.\<close>

locale last_holder =
  fixes hold :: "'s \<Rightarrow> 'p \<Rightarrow> 'o set" and legal :: "'s \<Rightarrow> bool" and step :: "'s \<Rightarrow> 's \<Rightarrow> bool"
  assumes step_legal: "step s s1 \<Longrightarrow> legal s \<Longrightarrow> legal s1"
    and guarded: "step s s1 \<Longrightarrow> legal s \<Longrightarrow> hold s p \<noteq> {} \<Longrightarrow> hold s1 p \<noteq> {}"
begin

lemma never_lost: "step\<^sup>*\<^sup>* s s1 \<Longrightarrow> legal s \<Longrightarrow> hold s p \<noteq> {} \<Longrightarrow> legal s1 \<and> hold s1 p \<noteq> {}"
  by (induction rule: rtranclp_induct) (auto intro: step_legal dest: guarded)

end

end
