(* ===== verification/Members.thy ===== *)
theory Members
  imports Server Holders
begin

text \<open>
  \<open>internal/api/members.go\<close>: the members of a project and the guard that keeps its last owner.
  \<open>last_holder\<close> is the contract of such a guard, also met by the platform administrators of
  \<open>Accounts\<close>.
\<close>

section \<open>Handlers\<close>

record memberResponse =
  mr_Email :: string
  mr_Role :: string
  mr_AddedAt :: string
  mr_AddedBy :: string

record addMemberRequest =
  amr_Email :: string
  amr_Role :: string

definition role_of :: "string \<Rightarrow> ProjectRole" where
  \<comment> \<open>the conversion \<open>ProjectRole(role)\<close>\<close>
  "role_of s = (if s = ''owner'' then ProjectRoleOwner else if s = ''developer'' then ProjectRoleDeveloper
     else if s = ''viewer'' then ProjectRoleViewer else ProjectRoleOther s)"

fun role_text :: "ProjectRole \<Rightarrow> string" where
  "role_text ProjectRoleOwner = ''owner''"
| "role_text ProjectRoleDeveloper = ''developer''"
| "role_text ProjectRoleViewer = ''viewer''"
| "role_text (ProjectRoleOther s) = s"

definition validProjectRole :: "string \<Rightarrow> bool" where
  "validProjectRole role \<longleftrightarrow> role_of role \<in> {ProjectRoleOwner, ProjectRoleDeveloper, ProjectRoleViewer}"

definition member_selector :: "string gomap" where
  "member_selector = [(''mortise.dev/member'', ''true'')]"

definition member_response :: "ProjectMember \<Rightarrow> memberResponse" where
  "member_response m = \<lparr>mr_Email = pm_Email (member_Spec m), mr_Role = role_text (pm_Role (member_Spec m)),
     mr_AddedAt = pms_AddedAt (member_Status m), mr_AddedBy = pms_AddedBy (member_Status m)\<rparr>"

definition ListMembers :: "'s server \<Rightarrow> request \<Rightarrow> string \<Rightarrow> ('s, memberResponse list) handler" where
  "ListMembers S rq project =
     andthen (resolveProject S project) (\<lambda>(_, projectName).
     andthen (authorize S rq (on_project ''project'' projectName) ActionRead) (\<lambda>_.
     andthen (on_err Fault (r_List (sv_Members S) (ControlNamespace projectName) member_selector)) (\<lambda>members.
       give (Reply 200 (map member_response members)))))"

definition new_member :: "(string \<Rightarrow> string) \<Rightarrow> string \<Rightarrow> addMemberRequest \<Rightarrow> ProjectMember" where
  "new_member sha256 projectName req = \<lparr>member_Namespace = ControlNamespace projectName,
     member_Name = MemberCRDName sha256 (amr_Email req),
     member_Labels = [(''mortise.dev/project'', projectName), (''mortise.dev/member'', ''true'')],
     member_Spec = \<lparr>pm_Email = amr_Email req, pm_Project = projectName, pm_Role = role_of (amr_Role req)\<rparr>,
     member_Status = no_member_status\<rparr>"

definition store_member :: "'s server \<Rightarrow> (int \<Rightarrow> string) \<Rightarrow> request \<Rightarrow> string \<Rightarrow> addMemberRequest \<Rightarrow> ('s, memberResponse) handler" where
  \<comment> \<open>\<open>AddMember\<close> from the creation on; the error of the status update is dropped\<close>
  "store_member S fmt rq projectName req =
     andthen (on_err Fault (r_Create (sv_Members S) (new_member (sv_sha256 S) projectName req))) (\<lambda>member.
     andthen (look (\<lambda>s. fmt (sv_now S s))) (\<lambda>at.
     outcome (r_UpdateStatus (sv_Members S) (member\<lparr>member_Status := \<lparr>pms_AddedAt = at,
         pms_AddedBy = (case rq_Principal rq of Some p \<Rightarrow> p_Email p | None \<Rightarrow> pms_AddedBy (member_Status member))\<rparr>\<rparr>)) (\<lambda>_.
     andthen (recordActivity S rq projectName ''invite'' ''member'' (amr_Email req)
         (''Added member '' @ amr_Email req @ '' as '' @ amr_Role req) []) (\<lambda>_.
       give (Reply 201 \<lparr>mr_Email = amr_Email req, mr_Role = amr_Role req, mr_AddedAt = [], mr_AddedBy = []\<rparr>)))))"

definition AddMember ::
  "'s server \<Rightarrow> (int \<Rightarrow> string) \<Rightarrow> request \<Rightarrow> string \<Rightarrow> string + addMemberRequest \<Rightarrow> ('s, memberResponse) handler" where
  "AddMember S fmt rq project body =
     andthen (resolveProject S project) (\<lambda>(_, projectName).
     andthen (authorize S rq (on_project ''member'' projectName) ActionCreate) (\<lambda>_.
     andthen (decoded body) (\<lambda>req.
     andthen (check (amr_Email req \<noteq> []) (ErrorReply 400 ''email is required'')) (\<lambda>_.
     andthen (check (validProjectRole (amr_Role req)) (ErrorReply 400 ''role must be owner, developer, or viewer'')) (\<lambda>_.
     andthen (on_err (\<lambda>e. if e = NotFound then ErrorReply 400 (''user not found: '' @ amr_Email req) else Fault e)
         (r_Get (sv_Secrets S) (''mortise-system'', ''user-'' @ hex_encode (amr_Email req)))) (\<lambda>_.
     outcome (r_Get (sv_Members S) (ControlNamespace projectName, MemberCRDName (sv_sha256 S) (amr_Email req))) (\<lambda>r. case r of
         Inr _ \<Rightarrow> stop (ErrorReply 409 ''user is already a member of this project'')
       | Inl _ \<Rightarrow> store_member S fmt rq projectName req)))))))"

definition ownerCount :: "ProjectMember list \<Rightarrow> nat" where
  "ownerCount members = length (filter (\<lambda>m. pm_Role (member_Spec m) = ProjectRoleOwner) members)"

definition update_member :: "'s server \<Rightarrow> string \<Rightarrow> string \<Rightarrow> ProjectRole \<Rightarrow> ('s, kerr, ProjectMember \<times> bool) act" where
  \<comment> \<open>the closure of \<open>UpdateMember\<close>: the member and \<open>demotingLastOwner\<close>\<close>
  "update_member S ns name role =
     andthen (r_Get (sv_Members S) (ns, name)) (\<lambda>member.
       let wr = andthen (r_Update (sv_Members S) (member\<lparr>member_Spec := member_Spec member\<lparr>pm_Role := role\<rparr>\<rparr>))
                     (\<lambda>stored. give (stored, False))
       in if pm_Role (member_Spec member) = ProjectRoleOwner \<and> role \<noteq> ProjectRoleOwner
          then andthen (r_List (sv_Members S) ns member_selector) (\<lambda>allMembers.
                 if ownerCount allMembers \<le> 1 then give (member, True) else wr)
          else wr)"

definition UpdateMember ::
  "'s server \<Rightarrow> (('s \<times> ProjectMember \<times> bool) call \<Rightarrow> ('s \<times> ProjectMember \<times> bool) call) \<Rightarrow> ProjectMember \<Rightarrow>
   request \<Rightarrow> string \<Rightarrow> string \<Rightarrow> string + string \<Rightarrow> ('s, memberResponse) handler" where
  \<comment> \<open>\<open>zero\<close> is the member before the first read; the body is the requested role\<close>
  "UpdateMember S retry zero rq project email body =
     andthen (resolveProject S project) (\<lambda>(_, projectName).
     andthen (authorize S rq (on_project ''member'' projectName) ActionUpdate) (\<lambda>_.
     andthen (check (email \<noteq> []) (ErrorReply 400 ''email is required'')) (\<lambda>_.
     andthen (decoded body) (\<lambda>role.
     andthen (check (validProjectRole role) (ErrorReply 400 ''role must be owner, developer, or viewer'')) (\<lambda>_.
     andthen (on_err (\<lambda>e. Fault (fault_kind e)) (RetryOnConflict retry (zero, False) (on_err (Api [])
         (update_member S (ControlNamespace projectName) (MemberCRDName (sv_sha256 S) email) (role_of role))))) (\<lambda>(member, demotingLastOwner).
     andthen (check (\<not> demotingLastOwner) (ErrorReply 400 ''cannot demote the last owner of a project'')) (\<lambda>_.
     andthen (recordActivity S rq projectName ''update'' ''member'' (pm_Email (member_Spec member))
         (''Updated member '' @ pm_Email (member_Spec member) @ '' role to '' @ role) []) (\<lambda>_.
       give (Reply 200 (member_response member))))))))))"

definition guard_last_owner :: "'s server \<Rightarrow> string \<Rightarrow> ProjectMember \<Rightarrow> ('s, 'b reply, unit) act" where
  "guard_last_owner S ns member =
     (if pm_Role (member_Spec member) = ProjectRoleOwner
      then andthen (on_err Fault (r_List (sv_Members S) ns member_selector)) (\<lambda>allMembers.
             check (\<not> ownerCount allMembers \<le> 1) (ErrorReply 400 ''cannot remove the last owner of a project''))
      else give ())"

definition remove_member :: "'s server \<Rightarrow> request \<Rightarrow> string \<Rightarrow> string \<Rightarrow> ('s, unit) handler" where
  \<comment> \<open>\<open>RemoveMember\<close> once the request is accepted\<close>
  "remove_member S rq projectName email =
     (let ns = ControlNamespace projectName;
          name = MemberCRDName (sv_sha256 S) email
      in andthen (on_err Fault (r_Get (sv_Members S) (ns, name))) (\<lambda>member.
         andthen (guard_last_owner S ns member) (\<lambda>_.
         andthen (on_err Fault (r_Delete (sv_Members S) member)) (\<lambda>_.
         andthen (recordActivity S rq projectName ''remove'' ''member'' email (''Removed member '' @ email) []) (\<lambda>_.
           give (Reply 204 ()))))))"

definition RemoveMember :: "'s server \<Rightarrow> request \<Rightarrow> string \<Rightarrow> string \<Rightarrow> ('s, unit) handler" where
  "RemoveMember S rq project email =
     andthen (resolveProject S project) (\<lambda>(_, projectName).
     andthen (authorize S rq (on_project ''member'' projectName) ActionDelete) (\<lambda>_.
     andthen (check (email \<noteq> []) (ErrorReply 400 ''email is required'')) (\<lambda>_.
       remove_member S rq projectName email)))"

section \<open>Owners\<close>

definition owners :: "(nn \<rightharpoonup> ProjectMember) \<Rightarrow> string \<Rightarrow> ProjectMember set" where
  \<comment> \<open>the owners the guards count in the control namespace of a project\<close>
  "owners v p = {m \<in> listed member_kind v (ControlNamespace p) member_selector. pm_Role (member_Spec m) = ProjectRoleOwner}"

definition members_env :: "'s server \<Rightarrow> ('s \<Rightarrow> bool) \<Rightarrow> ('s \<Rightarrow> nn \<rightharpoonup> ProjectMember) \<Rightarrow> bool" where
  \<comment> \<open>members change only through their own calls, and the native policy decides\<close>
  "members_env S ok view \<longleftrightarrow> quiet member_kind (sv_Members S) ok view \<and>
     (\<forall>v. leaves (sv_Projects S) (\<lambda>s. ok s \<and> view s = v) \<and> leaves (sv_Secrets S) (\<lambda>s. ok s \<and> view s = v) \<and>
        (\<forall>e s. ok s \<and> view s = v \<longrightarrow> ok (sv_Activity S e s) \<and> view (sv_Activity S e s) = v)) \<and>
     (\<forall>s n. ok s \<longrightarrow> wp (r_Get (sv_Projects S) n) (\<lambda>r s1. \<forall>p. r = Inr p \<longrightarrow> prj_Name p = n) s) \<and>
     sv_Authorize S = native_authorize S"

lemma control_ns [simp]: "ControlNamespace p \<noteq> []" "ControlNamespace p = ControlNamespace q \<longleftrightarrow> p = q"
  by (simp_all add: ControlNamespace_def ControlNamespacePrefix_def)

lemma owners_iff:
  "m \<in> owners v p \<longleftrightarrow> m \<in> ran v \<and> member_Namespace m = ControlNamespace p \<and>
     map_of (member_Labels m) ''mortise.dev/member'' = Some ''true'' \<and> pm_Role (member_Spec m) = ProjectRoleOwner"
  by (auto simp: owners_def listed_def member_kind_def has_labels_def member_selector_def)

lemma ownerCount_card: "distinct ms \<Longrightarrow> ownerCount ms = card {m \<in> set ms. pm_Role (member_Spec m) = ProjectRoleOwner}"
  by (simp add: ownerCount_def distinct_length_filter Int_def conj_commute)

lemma member_kind_simps [simp]:
  "kd_key member_kind m = (member_Namespace m, member_Name m)"
  "kd_same member_kind m m1 \<longleftrightarrow> member_Namespace m1 = member_Namespace m \<and> member_Name m1 = member_Name m \<and>
     member_Labels m1 = member_Labels m \<and> member_Spec m1 = member_Spec m"
  "kd_namespace member_kind m = member_Namespace m" "kd_labels member_kind m = member_Labels m"
  by (simp_all add: member_kind_def)

text \<open>An owner is a holder in the sense of \<open>Holders\<close>.\<close>

lemma owners_holders:
  "owners v p = holders member_kind (ControlNamespace p) member_selector (\<lambda>m. pm_Role (member_Spec m) = ProjectRoleOwner) v"
  by (simp add: owners_def holders_def)

abbreviation keyed :: "(nn \<rightharpoonup> ProjectMember) \<Rightarrow> bool" where "keyed \<equiv> kd_keyed member_kind"

text \<open>An object that is not the last owner of its project can go, or change its role.\<close>

lemma owners_survive:
  assumes "keyed v" "v k = Some m" "fst k = ControlNamespace pn"
    and "pm_Role (member_Spec m) = ProjectRoleOwner \<Longrightarrow> 1 < card (owners v pn)"
    and "owners v p \<noteq> {}"
  shows "owners (v(k := w)) p \<noteq> {}"
  unfolding owners_holders
proof (rule holders_survive)
  fix m1 assume "v k = Some m1" and m1: "m1 \<in> holders member_kind (ControlNamespace p) member_selector (\<lambda>m. pm_Role (member_Spec m) = ProjectRoleOwner) v"
  moreover then have "fst k = ControlNamespace p"
    using assms(1) by (cases k) (fastforce simp: holders_iff kd_keyed_def)
  ultimately show "1 < card (holders member_kind (ControlNamespace p) member_selector (\<lambda>m. pm_Role (member_Spec m) = ProjectRoleOwner) v)"
    using assms(2-4) by (simp add: owners_holders holders_iff)
qed (use assms in \<open>simp_all add: owners_holders\<close>)

definition not_lost :: "(nn \<rightharpoonup> ProjectMember) \<Rightarrow> (nn \<rightharpoonup> ProjectMember) \<Rightarrow> bool" where
  "not_lost v v1 \<longleftrightarrow> (\<forall>p. owners v p \<noteq> {} \<longrightarrow> owners v1 p \<noteq> {})"

lemma not_lost_refl [simp]: "not_lost v v"
  by (simp add: not_lost_def)

lemma not_lost_new: "v k = None \<Longrightarrow> not_lost v (v(k \<mapsto> m))"
  unfolding not_lost_def owners_iff by (simp add: set_eq_iff owners_iff) blast

lemma env_keeps:
  assumes "members_env S ok view"
  shows "keeps (\<lambda>s. ok s \<and> view s = v) (resolveProject S project)"
    and "keeps (\<lambda>s. ok s \<and> view s = v) (authorize S rq res action)"
    and "keeps (\<lambda>s. ok s \<and> view s = v) (recordActivity S rq project a kind n msg actor)"
    and "keeps (\<lambda>s. ok s \<and> view s = v) (decoded body)"
proof -
  let ?P = "\<lambda>s. ok s \<and> view s = v"
  have pr: "leaves (sv_Projects S) ?P" and act: "\<And>e s. ?P s \<Longrightarrow> ?P (sv_Activity S e s)"
    and auth: "sv_Authorize S = native_authorize S"
    using assms by (simp_all add: members_env_def)
  show "keeps ?P (resolveProject S project)"
    unfolding resolveProject_def lookupProject_def by (intro keeps_intros pr)
  have "keeps ?P (native_authorize S p res action)" for p
    by (simp add: keeps_def native_authorize_def)
  then show "keeps ?P (authorize S rq res action)"
    unfolding authorize_def auth by (intro keeps_intros)
  show "keeps ?P (recordActivity S rq project a kind n msg actor)"
    unfolding recordActivity_def by (intro keeps_intros act)
  show "keeps ?P (decoded body)"
    unfolding decoded_def by (intro keeps_intros)
qed


lemma RemoveMember_guarded:
  assumes env: "members_env S ok view" and ok: "ok s"
  shows "wp (RemoveMember S rq project email) (\<lambda>_ s1. ok s1 \<and> not_lost (view s) (view s1)) s"
proof -
  let ?v = "view s"
  let ?P = "\<lambda>s1. ok s1 \<and> view s1 = ?v" and ?Q = "\<lambda>_ s1. ok s1 \<and> not_lost ?v (view s1)"
  have q: "quiet member_kind (sv_Members S) ok view" using env by (simp add: members_env_def)
  have keyed: "keyed ?v" using quiet_key [OF q ok] by (simp add: kd_keyed_def)
  have safe: "not_lost ?v (?v(k := None))"
    if "?v k = Some m" and "pm_Role (member_Spec m) = ProjectRoleOwner \<Longrightarrow> 1 < card (owners ?v pn)"
      and "fst k = ControlNamespace pn" for k m pn
    using owners_survive [OF keyed that(1,3,2)] by (simp add: not_lost_def)
  have delete: "wp (andthen (on_err Fault (r_Delete (sv_Members S) m)) (\<lambda>_.
      andthen (recordActivity S rq pn a b email c d) (\<lambda>_. give (Reply 204 ())))) ?Q s1"
    if "?P s1" and "not_lost ?v (?v((member_Namespace m, member_Name m) := None))" for m pn a b c d s1
    unfolding wp_andthen wp_on_err
    by (rule quiet_delete [OF q])
       (use that in \<open>auto simp: wp_simps intro!: wp_after [OF env_keeps(3) [OF env]]\<close>)
  have guard: "wp (guard_last_owner S (ControlNamespace pn) m) (\<lambda>r s1. ?P s1 \<and>
      (r = Inr () \<longrightarrow> pm_Role (member_Spec m) = ProjectRoleOwner \<longrightarrow> 1 < card (owners ?v pn))) s1"
    if "?P s1" for pn m s1
    unfolding guard_last_owner_def wp_if wp_andthen wp_on_err
    using that by (auto simp: wp_simps owners_def ownerCount_card intro!: quiet_list [OF q] split: sum.splits)
  have "wp (remove_member S rq pn email) ?Q s1" if "?P s1" for pn s1
    unfolding remove_member_def Let_def wp_andthen [of "on_err Fault (r_Get R k)" for R k] wp_on_err
  proof (rule quiet_get [OF q])
    show "ok s1" using that by simp
  next
    fix e s2 assume "ok s2" "view s2 = view s1"
    with that show "on_value V ?Q (map_sum Fault id (Inl e)) s2" for V by (simp add: wp_simps)
  next
    fix m s2 assume s2: "ok s2" "view s2 = view s1" and m: "view s1 (ControlNamespace pn, MemberCRDName (sv_sha256 S) email) = Some m"
    have key: "(member_Namespace m, member_Name m) = (ControlNamespace pn, MemberCRDName (sv_sha256 S) email)"
      using keyed m that by (auto simp: kd_keyed_def)
    show "on_value (\<lambda>m. wp (andthen (guard_last_owner S (ControlNamespace pn) m) (\<lambda>_.
         andthen (on_err Fault (r_Delete (sv_Members S) m)) (\<lambda>_.
         andthen (recordActivity S rq pn ''remove'' ''member'' email (''Removed member '' @ email) []) (\<lambda>_.
           give (Reply 204 ()))))) ?Q) ?Q (map_sum Fault id (Inr m)) s2"
      unfolding map_sum.simps id_apply on_value_simps wp_andthen [of "guard_last_owner S ns m" for ns m]
    proof (rule wp_mono [OF guard])
      show "?P s2" using s2 that by simp
    next
      fix r s3
      assume g: "?P s3 \<and> (r = Inr () \<longrightarrow> pm_Role (member_Spec m) = ProjectRoleOwner \<longrightarrow> 1 < card (owners ?v pn))"
      then show "on_value (\<lambda>_. wp (andthen (on_err Fault (r_Delete (sv_Members S) m)) (\<lambda>_.
         andthen (recordActivity S rq pn ''remove'' ''member'' email (''Removed member '' @ email) []) (\<lambda>_.
           give (Reply 204 ())))) ?Q) ?Q r s3"
        using delete [of s3 m] safe [of "(member_Namespace m, member_Name m)" m pn] key m that
        by (cases r) (auto simp: wp_simps)
    qed
  qed
  then show ?thesis
    unfolding RemoveMember_def using ok
    by (intro wp_keep [where P = ?P, OF env_keeps(1) [OF env]])
       (auto split: prod.splits intro!: wp_keep [where P = ?P, OF env_keeps(2) [OF env]] wp_checkI [where P = ?P])
qed


lemma owner_again:
  assumes "keyed v" "v k = Some m" and "member_Namespace w = member_Namespace m" "member_Labels w = member_Labels m"
      "pm_Role (member_Spec m) = ProjectRoleOwner \<Longrightarrow> pm_Role (member_Spec w) = ProjectRoleOwner"
  shows "not_lost v (v(k \<mapsto> w))"
  unfolding not_lost_def owners_holders
  by (intro allI impI, rule holder_again [OF assms(1,2)]) (use assms(3-5) in simp_all)

lemma update_member_guarded:
  assumes q: "quiet member_kind (sv_Members S) ok view" and ok: "ok s"
  shows "wp (update_member S (ControlNamespace pn) name role) (\<lambda>r s1. ok s1 \<and>
     (case r of Inl _ \<Rightarrow> view s1 = view s | Inr _ \<Rightarrow> not_lost (view s) (view s1))) s" (is "wp _ ?Q s")
  unfolding update_member_def wp_andthen [of "r_Get R k" for R k]
proof (rule quiet_get [OF q ok])
  fix e s1 assume "ok s1" "view s1 = view s"
  then show "on_value V ?Q (Inl e) s1" for V by (simp add: wp_simps)
next
  let ?k = "(ControlNamespace pn, name)"
  fix m s1 assume s1: "ok s1" "view s1 = view s" and m: "view s ?k = Some m"
  have keyed: "keyed (view s)" using quiet_key [OF q ok] by (simp add: kd_keyed_def)
  then have key: "member_Namespace m = ControlNamespace pn" "member_Name m = name" using m by (auto simp: kd_keyed_def)
  define wr where "wr = andthen (r_Update (sv_Members S) (m\<lparr>member_Spec := member_Spec m\<lparr>pm_Role := role\<rparr>\<rparr>)) (\<lambda>stored. give (stored, False))"
  have wr: "wp wr ?Q s2"
    if "ok s2" "view s2 = view s"
      and "\<And>w. kd_same member_kind (m\<lparr>member_Spec := member_Spec m\<lparr>pm_Role := role\<rparr>\<rparr>) w \<Longrightarrow> not_lost (view s) ((view s)(?k \<mapsto> w))" for s2
    unfolding wr_def wp_andthen
    by (rule quiet_update [OF q]) (use that key in \<open>auto simp: wp_simps\<close>)
  show "on_value (\<lambda>member. wp (let wr = andthen (r_Update (sv_Members S) (member\<lparr>member_Spec := member_Spec member\<lparr>pm_Role := role\<rparr>\<rparr>))
                     (\<lambda>stored. give (stored, False))
       in if pm_Role (member_Spec member) = ProjectRoleOwner \<and> role \<noteq> ProjectRoleOwner
          then andthen (r_List (sv_Members S) (ControlNamespace pn) member_selector) (\<lambda>allMembers.
                 if ownerCount allMembers \<le> 1 then give (member, True) else wr)
          else wr) ?Q) ?Q (Inr m) s1"
    unfolding on_value_simps Let_def wr_def [symmetric] wp_if
  proof (intro if_bool_eq_conj [THEN iffD2] conjI impI)
    assume demote: "pm_Role (member_Spec m) = ProjectRoleOwner \<and> role \<noteq> ProjectRoleOwner"
    show "wp (andthen (r_List (sv_Members S) (ControlNamespace pn) member_selector) (\<lambda>allMembers.
        if ownerCount allMembers \<le> 1 then give (m, True) else wr)) ?Q s1"
      unfolding wp_andthen
    proof (rule quiet_list [OF q s1(1)])
      fix e s2 assume "ok s2" "view s2 = view s1"
      with s1 show "on_value V ?Q (Inl e) s2" for V by (simp add: wp_simps)
    next
      fix obs s2
      assume s2: "ok s2" "view s2 = view s1" and "distinct obs"
        and "set obs = listed member_kind (view s1) (ControlNamespace pn) member_selector"
      then have "ownerCount obs = card (owners (view s) pn)"
        using s1 by (simp add: ownerCount_card owners_def)
      then show "on_value (\<lambda>obs. wp (if ownerCount obs \<le> 1 then give (m, True) else wr) ?Q) ?Q (Inr obs) s2"
        using s1 s2 owners_survive [OF keyed m, of pn]
        by (auto simp: wp_simps not_lost_def intro!: wr)
    qed
  next
    assume "\<not> (pm_Role (member_Spec m) = ProjectRoleOwner \<and> role \<noteq> ProjectRoleOwner)"
    then consider "pm_Role (member_Spec m) \<noteq> ProjectRoleOwner" | "role = ProjectRoleOwner" by blast
    then show "wp wr ?Q s1"
    proof cases
      case 1
      then show ?thesis using s1 owners_survive [OF keyed m] by (intro wr) (auto simp: not_lost_def)
    next
      case 2
      then show ?thesis using s1 owner_again [OF keyed m] by (intro wr) auto
    qed
  qed
qed


lemma UpdateMember_guarded:
  assumes env: "members_env S ok view" and "retries retry" and ok: "ok s"
  shows "wp (UpdateMember S retry zero rq project email body) (\<lambda>_ s1. ok s1 \<and> not_lost (view s) (view s1)) s"
proof -
  let ?v = "view s"
  let ?P = "\<lambda>s1. ok s1 \<and> view s1 = ?v" and ?Q = "\<lambda>_ s1. ok s1 \<and> not_lost ?v (view s1)"
  have q: "quiet member_kind (sv_Members S) ok view" using env by (simp add: members_env_def)
  have closure: "wp (on_err (Api []) (update_member S (ControlNamespace pn) name role))
      (\<lambda>r s2. ?Q r s2 \<and> (\<forall>e. r = Inl e \<longrightarrow> ?P s2)) s1" if "?P s1" for pn name role s1
    unfolding wp_on_err
    by (rule wp_mono [OF update_member_guarded [OF q]]) (use that in \<open>auto split: sum.splits\<close>)
  have rest: "wp (andthen (on_err (\<lambda>e. Fault (fault_kind e)) (RetryOnConflict retry (zero, False) (on_err (Api [])
         (update_member S (ControlNamespace pn) name role)))) (\<lambda>(member, demotingLastOwner).
     andthen (check (\<not> demotingLastOwner) (ErrorReply 400 ''cannot demote the last owner of a project'')) (\<lambda>_.
     andthen (recordActivity S rq pn a b (f member) (g member) d) (\<lambda>_. give (Reply 200 (member_response member)))))) ?Q s1"
    if "?P s1" for pn name role a b d s1 and f g :: "ProjectMember \<Rightarrow> string"
    unfolding wp_andthen wp_on_err
  proof (rule wp_mono [OF wp_RetryOnConflict [OF assms(2), where P = ?P and Q = ?Q]])
    show "?P s1" by fact
  next
    fix s2 assume "?P s2"
    then show "wp (on_err (Api []) (update_member S (ControlNamespace pn) name role)) (\<lambda>r s2. ?Q r s2 \<and> (\<forall>e. r = Inl e \<longrightarrow> ?P s2)) s2"
      by (rule closure)
  next
    fix r s2 assume "?Q r s2"
    then show "on_value (\<lambda>x. wp (case x of (member, demotingLastOwner) \<Rightarrow>
       andthen (check (\<not> demotingLastOwner) (ErrorReply 400 ''cannot demote the last owner of a project'')) (\<lambda>_.
       andthen (recordActivity S rq pn a b (f member) (g member) d) (\<lambda>_. give (Reply 200 (member_response member))))) ?Q) ?Q
       (map_sum (\<lambda>e. Fault (fault_kind e)) id r) s2"
      by (cases r) (auto simp: wp_simps split: prod.splits intro!: wp_after [OF env_keeps(3) [OF env]])
  qed
  show ?thesis
    unfolding UpdateMember_def using ok
    by (intro wp_keep [where P = ?P, OF env_keeps(1) [OF env]])
       (auto split: prod.splits intro!: wp_keep [where P = ?P, OF env_keeps(2) [OF env]] wp_keep [where P = ?P, OF env_keeps(4) [OF env]]
          wp_checkI [where P = ?P] rest)
qed

lemma not_lost_trans: "not_lost v v1 \<Longrightarrow> not_lost v1 v2 \<Longrightarrow> not_lost v v2"
  by (simp add: not_lost_def)

lemma store_member_guarded:
  assumes env: "members_env S ok view" and ok: "ok s"
  shows "wp (store_member S fmt rq pn req) (\<lambda>_ s1. ok s1 \<and> not_lost (view s) (view s1)) s"
proof -
  have q: "quiet member_kind (sv_Members S) ok view" using env by (simp add: members_env_def)
  let ?Q = "\<lambda>_ s1. ok s1 \<and> not_lost (view s) (view s1)"
  have finish: "wp (andthen (recordActivity S rq pn a b c d e) (\<lambda>_. give rp)) ?Q s1"
    if "ok s1" "not_lost (view s) (view s1)" for a b c d e rp s1
    by (rule wp_keep [OF env_keeps(3) [OF env, of "view s1"]]) (use that in \<open>auto simp: wp_simps\<close>)
  have status: "wp (outcome (r_UpdateStatus (sv_Members S) m) (\<lambda>_. andthen (recordActivity S rq pn a b c d e) (\<lambda>_. give rp))) ?Q s1"
    if "ok s1" "not_lost (view s) (view s1)" for m a b c d e rp s1
    unfolding wp_outcome
  proof (rule quiet_status [OF q \<open>ok s1\<close>])
    fix err s2 assume "ok s2" "view s2 = view s1"
    with that show "wp (andthen (recordActivity S rq pn a b c d e) (\<lambda>_. give rp)) ?Q s2" by (intro finish) simp_all
  next
    fix ob1 cur s2
    assume cur: "ok s2" "view s1 (kd_key member_kind m) = Some cur" "kd_same member_kind cur ob1"
      and v2: "view s2 = (view s1)(kd_key member_kind m \<mapsto> ob1)"
    have "keyed (view s1)" using quiet_key [OF q \<open>ok s1\<close>] by (simp add: kd_keyed_def)
    then have "not_lost (view s1) (view s2)" unfolding v2 using cur by (intro owner_again) auto
    with that cur show "wp (andthen (recordActivity S rq pn a b c d e) (\<lambda>_. give rp)) ?Q s2"
      by (intro finish) (auto intro: not_lost_trans)
  qed
  show ?thesis
    unfolding store_member_def wp_andthen [of "on_err Fault (r_Create R m)" for R m] wp_on_err
    by (rule quiet_create [OF q ok]) (auto simp: wp_simps intro!: status [unfolded wp_outcome] not_lost_new)
qed

lemma AddMember_guarded:
  assumes env: "members_env S ok view" and ok: "ok s"
  shows "wp (AddMember S fmt rq project body) (\<lambda>_ s1. ok s1 \<and> not_lost (view s) (view s1)) s"
proof -
  let ?v = "view s"
  let ?P = "\<lambda>s1. ok s1 \<and> view s1 = ?v" and ?Q = "\<lambda>_ s1. ok s1 \<and> not_lost ?v (view s1)"
  have q: "quiet member_kind (sv_Members S) ok view" and sec: "leaves (sv_Secrets S) ?P"
    using env by (simp_all add: members_env_def)
  have user: "keeps ?P (on_err f (r_Get (sv_Secrets S) k))" for f :: "kerr \<Rightarrow> memberResponse reply" and k
    by (intro keeps_intros sec)
  have store: "wp (store_member S fmt rq pn req) ?Q s1" if "?P s1" for pn req s1
    using store_member_guarded [OF env, of s1] that by simp
  have get: "wp (outcome (r_Get (sv_Members S) k) (\<lambda>r. case r of
         Inr _ \<Rightarrow> stop (ErrorReply 409 ''user is already a member of this project'')
       | Inl _ \<Rightarrow> store_member S fmt rq pn req)) ?Q s1" if "?P s1" for k pn req s1
    unfolding wp_outcome by (rule quiet_get [OF q]) (use that in \<open>auto simp: wp_simps intro!: store\<close>)
  show ?thesis
    unfolding AddMember_def using ok
    by (intro wp_keep [where P = ?P, OF env_keeps(1) [OF env]])
       (auto split: prod.splits intro!: wp_keep [where P = ?P, OF env_keeps(2) [OF env]] wp_keep [where P = ?P, OF env_keeps(4) [OF env]]
          wp_keep [where P = ?P, OF user] wp_checkI [where P = ?P] get)
qed

section \<open>Runs of the member handlers\<close>

inductive member_step ::
  "'s server \<Rightarrow> (int \<Rightarrow> string) \<Rightarrow> (('s \<times> ProjectMember \<times> bool) call \<Rightarrow> ('s \<times> ProjectMember \<times> bool) call) \<Rightarrow> ProjectMember \<Rightarrow>
   request \<Rightarrow> string \<Rightarrow> 's \<Rightarrow> 's \<Rightarrow> bool"
  for S fmt retry zero rq project where
  add: "AddMember S fmt rq project body s = (r, s1) \<Longrightarrow> member_step S fmt retry zero rq project s s1"
| update: "UpdateMember S retry zero rq project email body s = (r, s1) \<Longrightarrow> member_step S fmt retry zero rq project s s1"
| remove: "RemoveMember S rq project email s = (r, s1) \<Longrightarrow> member_step S fmt retry zero rq project s s1"

lemma member_step_guarded:
  assumes "member_step S fmt retry zero rq project s s1" "members_env S ok view" "retries retry" "ok s"
  shows "ok s1 \<and> not_lost (view s) (view s1)"
  using assms
  by (cases rule: member_step.cases)
     (blast dest: wpD [OF AddMember_guarded] wpD [OF UpdateMember_guarded] wpD [OF RemoveMember_guarded])+

interpretation last_owner: last_holder "\<lambda>s. owners (view s)" "\<lambda>s. members_env S ok view \<and> retries retry \<and> ok s"
    "\<lambda>s s1. \<exists>rq project. member_step S fmt retry zero rq project s s1"
  for S :: "'s server" and ok view fmt retry zero
  by unfold_locales (elim exE conjE, drule (3) member_step_guarded, simp add: not_lost_def)+


section \<open>Who may manage members\<close>

definition may_manage :: "'s server \<Rightarrow> (nn \<rightharpoonup> ProjectMember) \<Rightarrow> request \<Rightarrow> string \<Rightarrow> bool" where
  \<comment> \<open>platform administrators, and the owners of the project who are not platform viewers\<close>
  "may_manage S v rq project \<longleftrightarrow> (\<exists>p. rq_Principal rq = Some p \<and> (p_Role p = RoleAdmin \<or> p_Role p \<noteq> RoleViewer \<and>
     (\<exists>m. v (ControlNamespace project, MemberCRDName (sv_sha256 S) (p_Email p)) = Some m \<and> pm_Role (member_Spec m) = ProjectRoleOwner)))"

lemma member_write_granted:
  assumes "Authorize sha256 getMember getProject p (on_project ''member'' project) a = Inr True" "a \<noteq> ActionRead" "project \<noteq> []"
  shows "p_Role p = RoleAdmin \<or> p_Role p \<noteq> RoleViewer \<and>
    (\<exists>m. getMember (ControlNamespace project, MemberCRDName sha256 (p_Email p)) = Inr m \<and> pm_Role (member_Spec m) = ProjectRoleOwner)"
  using assms
  by (auto simp: Authorize_def on_project_def authorizeProject_def role_answer_def authorizeDeveloper_def Let_def
      split: if_splits sum.splits ProjectRole.splits)

lemma authorize_members:
  assumes env: "members_env S ok view" and "ok s" "a \<noteq> ActionRead" "project \<noteq> []"
  shows "wp (authorize S rq (on_project ''member'' project) a)
    (\<lambda>r s1. ok s1 \<and> view s1 = view s \<and> (r = Inr () \<longrightarrow> may_manage S (view s) rq project)) s"
proof -
  have q: "quiet member_kind (sv_Members S) ok view" and auth: "sv_Authorize S = native_authorize S"
    using env by (simp_all add: members_env_def)
  have stored: "view s k = Some m" if "fst (r_Get (sv_Members S) k s) = Inr m" for k m
  proof -
    have "wp (r_Get (sv_Members S) k) (\<lambda>r s1. \<forall>m. r = Inr m \<longrightarrow> view s k = Some m) s"
      by (rule quiet_get [OF q assms(2)]) auto
    then show ?thesis using that by (auto simp: wp_def split: prod.splits)
  qed
  show ?thesis
  proof (cases "rq_Principal rq")
    case None
    then show ?thesis using assms(2) by (simp add: authorize_def wp_simps)
  next
    case (Some p)
    have "may_manage S (view s) rq project"
      if "Authorize (sv_sha256 S) (\<lambda>k. fst (r_Get (sv_Members S) k s)) (\<lambda>n. fst (r_Get (sv_Projects S) n s)) p (on_project ''member'' project) a = Inr True"
      using member_write_granted [OF that assms(3,4)] Some stored unfolding may_manage_def by blast
    then show ?thesis
      using assms(2) Some by (auto simp: authorize_def auth native_authorize_def wp_def outcome_def check_def give_def stop_def split: sum.splits)
  qed
qed

lemma wp_resolveProject:
  assumes env: "members_env S ok view" and ok: "ok s"
  shows "wp (resolveProject S project) (\<lambda>r s1. ok s1 \<and> view s1 = view s \<and>
    (\<forall>x. r = Inr x \<longrightarrow> snd x = project \<and> project \<noteq> [])) s"
proof -
  have pr: "leaves (sv_Projects S) (\<lambda>s1. ok s1 \<and> view s1 = view s)"
    and named: "wp (r_Get (sv_Projects S) project) (\<lambda>r s1. \<forall>p. r = Inr p \<longrightarrow> prj_Name p = project) s"
    using env ok by (simp_all add: members_env_def)
  have get: "wp (r_Get (sv_Projects S) project) (\<lambda>r s1. (ok s1 \<and> view s1 = view s) \<and> (\<forall>p. r = Inr p \<longrightarrow> prj_Name p = project)) s"
    by (subst wp_conj, intro conjI named keeps_wp [OF leaves_calls(1) [OF pr]]) (simp_all add: ok)
  show ?thesis
  proof (cases "project = []")
    case True
    then show ?thesis using ok by (simp add: resolveProject_def lookupProject_def wp_simps)
  next
    case False
    then show ?thesis
      unfolding resolveProject_def lookupProject_def wp_andthen if_not_P [OF False] wp_on_err
      by (intro wp_mono [OF get]) (auto simp: on_value_def wp_simps split: sum.splits)
  qed
qed

lemma gated:
  assumes env: "members_env S ok view" and ok: "ok s" and a: "a \<noteq> ActionRead"
  shows "wp (andthen (resolveProject S project) (\<lambda>(_, pn). andthen (authorize S rq (on_project ''member'' pn) a) (k pn)))
    (\<lambda>_ s1. view s1 = view s \<or> may_manage S (view s) rq project) s" (is "wp _ ?Q s")
proof -
  have auth: "wp (andthen (authorize S rq (on_project ''member'' project) a) (k project)) ?Q s1"
    if "ok s1" "view s1 = view s" "project \<noteq> []" for s1
    unfolding wp_andthen
    by (rule wp_mono [OF authorize_members [OF env that(1) a that(3)]])
       (use that in \<open>auto simp: on_value_def wp_def split: sum.splits prod.splits\<close>)
  show ?thesis
    unfolding wp_andthen [of "resolveProject S project"]
    by (rule wp_mono [OF wp_resolveProject [OF env ok]])
       (auto simp: on_value_def split: sum.splits prod.splits intro!: auth)
qed

section \<open>Examples\<close>

definition ex_mem :: "string \<Rightarrow> ProjectRole \<Rightarrow> ProjectMember" where
  "ex_mem email role = \<lparr>member_Namespace = ''pj-web'', member_Name = MemberCRDName (\<lambda>_. []) email,
     member_Labels = [(''mortise.dev/member'', ''true'')],
     member_Spec = \<lparr>pm_Email = email, pm_Project = ''web'', pm_Role = role\<rparr>, member_Status = no_member_status\<rparr>"

definition ex_admin :: request where
  "ex_admin = \<lparr>rq_Principal = Some \<lparr>p_ID = ''r'', p_Email = ''r'', p_Role = RoleAdmin, p_PasswordGen = 0\<rparr>, rq_Authorization = []\<rparr>"

definition ex_members :: "(string \<times> ProjectRole) list \<Rightarrow> world" where
  "ex_members ms = empty_world\<lparr>w_Projects := [(''web'', ex_project)],
     w_Members := map (\<lambda>(e, r). ((''pj-web'', MemberCRDName (\<lambda>_. []) e), ex_mem e r)) ms\<rparr>"

lemma mem_members_env: "members_env mem_server
    (\<lambda>w. mem_keyed member_kind (w_Members w) \<and> mem_keyed project_kind (w_Projects w)) (\<lambda>w. map_of (w_Members w))"
  unfolding members_env_def
proof (intro conjI allI impI)
  let ?ok = "\<lambda>w. mem_keyed member_kind (w_Members w) \<and> mem_keyed project_kind (w_Projects w)"
  have "leaves mem_members (\<lambda>w. mem_keyed project_kind (w_Projects w))"
    unfolding mem_members_def by (rule mem_resource_leaves) simp
  then show "quiet member_kind (sv_Members mem_server) ?ok (\<lambda>w. map_of (w_Members w))"
    using quiet_and [OF mem_world_quiet(2)] by simp
  show "leaves (sv_Secrets mem_server) (\<lambda>w. ?ok w \<and> map_of (w_Members w) = v)" for v
    unfolding mem_server_sel mem_secrets_def by (rule mem_resource_leaves) simp
  show "leaves (sv_Projects mem_server) (\<lambda>w. ?ok w \<and> map_of (w_Members w) = v)" for v
    unfolding mem_server_sel mem_projects_def
    by (rule mem_resource_leaves_keyed) (auto simp: project_kind_def)
  show "wp (r_Get (sv_Projects mem_server) n) (\<lambda>r s1. \<forall>p. r = Inr p \<longrightarrow> prj_Name p = n) w" if "?ok w" for w n
    using that by (auto simp: wp_def mem_projects_def mem_resource_def mem_keyed_def project_kind_def split: option.splits)
qed simp_all

lemma refused: "RemoveMember mem_server ex_admin ''web'' ''a'' (ex_members [(''a'', ProjectRoleOwner), (''b'', ProjectRoleDeveloper)]) =
   (Inl (ErrorReply 400 ''cannot remove the last owner of a project''), ex_members [(''a'', ProjectRoleOwner), (''b'', ProjectRoleDeveloper)])"
  by code_simp

lemma ex_members_ok:
  "mem_keyed member_kind (w_Members (ex_members [(''a'', ProjectRoleOwner), (''b'', ProjectRoleDeveloper)]))"
  "mem_keyed project_kind (w_Projects (ex_members ms))"
  by (auto simp: mem_keyed_def ex_members_def ex_mem_def project_kind_def ex_project_def empty_world_def split: if_splits)

text \<open>
  The guard reads the members and then writes, and nothing ties the two together: two requests that each remove one of two
  owners both pass their check, and the project has no owner left.
\<close>

definition race_server :: "world server" where
  \<comment> \<open>another request removes the other owner between the check and the deletion\<close>
  "race_server = mem_server\<lparr>sv_Members := mem_members\<lparr>r_Delete := \<lambda>ob w.
     r_Delete mem_members ob (if w_now w = 0 then snd (RemoveMember mem_server ex_admin ''web'' ''b'' (w\<lparr>w_now := 1\<rparr>)) else w)\<rparr>\<rparr>"

lemma last_owner_race:
  "w_Members (snd (RemoveMember race_server ex_admin ''web'' ''a'' (ex_members [(''a'', ProjectRoleOwner), (''b'', ProjectRoleOwner)]))) = []"
  by code_simp

section \<open>Properties\<close>





end
