(* ===== verification/ProjectEnvs.thy ===== *)
theory ProjectEnvs
  imports Server EnvOps Preview
begin

text \<open>
  \<open>internal/api/project_envs.go\<close>: the environments of a project. Creating, renaming and cloning an environment
  stamps its namespace first, then writes the project, then the overrides and secrets of the applications; deleting one
  strips the overrides and leaves the namespace to the project controller.

  The code reads the project twice: through the cache when it accepts the request, and directly
  (\<open>sv_FreshProject\<close>) when it writes. The type of a Secret is not part of the \<open>secret\<close> record.
\<close>

section \<open>Requests\<close>

definition maxProjectEnvNameLen :: nat where "maxProjectEnvNameLen = 63"

record projectEnvResponse =
  per_Name :: string
  per_DisplayOrder :: int
  per_Health :: EnvHealth
  per_Restricted :: bool
  per_Preview :: bool

record createProjectEnvRequest =
  cer_Name :: string
  cer_DisplayOrder :: int

record patchProjectEnvRequest =
  ppr_Name :: "string option"
  ppr_DisplayOrder :: "int option"
  ppr_Restricted :: "bool option"

record 's retrier =
  \<comment> \<open>\<open>retry.RetryOnConflict\<close> around closures that set different variables\<close>
  rt_call :: "'s call \<Rightarrow> 's call"
  rt_unit :: "('s \<times> unit) call \<Rightarrow> ('s \<times> unit) call"
  rt_env :: "('s \<times> ProjectEnvironment) call \<Rightarrow> ('s \<times> ProjectEnvironment) call"

definition env_exists :: "string \<Rightarrow> string \<Rightarrow> string" where
  \<comment> \<open>\<open>projectEnvExistsError.Error\<close>, also written by the handlers\<close>
  "env_exists project name = ''environment '' @ quoted name @ '' already exists on project '' @ quoted project"

definition validateProjectEnvName :: "string \<Rightarrow> string" where
  "validateProjectEnvName name =
     (if has_prefix name ''pr-'' \<and> drop 3 name \<noteq> [] \<and> list_all is_digit (drop 3 name)
      then ''name uses reserved preview environment namespace pr-<number>'' else [])"

definition env_reply :: "string \<Rightarrow> int \<Rightarrow> bool \<Rightarrow> projectEnvResponse" where
  "env_reply name order restricted =
     \<lparr>per_Name = name, per_DisplayOrder = order, per_Health = EnvHealthUnknown, per_Restricted = restricted, per_Preview = False\<rparr>"

definition prj_envs :: "Project \<Rightarrow> ProjectEnvironment list" where
  "prj_envs p = ps_Environments (prj_Spec p)"

definition with_envs :: "ProjectEnvironment list \<Rightarrow> Project \<Rightarrow> Project" where
  "with_envs envs p = p\<lparr>prj_Spec := (prj_Spec p)\<lparr>ps_Environments := envs\<rparr>\<rparr>"

definition fault :: "gerr \<Rightarrow> 'b reply" where
  "fault e = Fault (fault_kind e)"

definition ListProjectEnvironments :: "'s server \<Rightarrow> request \<Rightarrow> string \<Rightarrow> ('s, projectEnvResponse list) handler" where
  "ListProjectEnvironments S rq projectName =
     andthen (authorize S rq (on_project ''project'' projectName) ActionRead) (\<lambda>_.
     andthen (lookupProject S projectName) (\<lambda>project.
     andthen (on_err Fault (r_List (sv_Apps S) (projectNs project) [])) (\<lambda>apps.
       give (Reply 200 (map (\<lambda>env. \<lparr>per_Name = pe_Name env, per_DisplayOrder = pe_DisplayOrder env,
           per_Health = aggregateEnvHealth (pe_Name env) apps, per_Restricted = pe_Restricted env, per_Preview = pe_Preview env\<rparr>)
         (sort_key pe_DisplayOrder (prj_envs project)))))))"

section \<open>The namespace of an environment\<close>

definition env_ns_labels :: "Project \<Rightarrow> string \<Rightarrow> bool \<Rightarrow> string gomap" where
  "env_ns_labels project envName active =
     (''app.kubernetes.io/managed-by'', ''mortise'') #
     (if active then [(ProjectLabel, prj_Name project), (''mortise.dev/managed-by'', ''project''),
        (NamespaceRoleLabel, NamespaceRoleEnv), (EnvironmentLabel, envName)] else [])"

definition ns_attempt :: "'s server \<Rightarrow> Project \<Rightarrow> string \<Rightarrow> string gomap \<Rightarrow> ('s, gerr, unit) act" where
  \<comment> \<open>the closure of \<open>ensureEnvNamespaceObject\<close>\<close>
  "ns_attempt S project nsName labels =
     outcome (r_Get (sv_Namespaces S) nsName) (\<lambda>r. case r of
         Inl err \<Rightarrow>
           if err = NotFound
           then on_err (\<lambda>e. Api [] (if e = AlreadyExists then Conflict else e))
                  (andthen (r_Create (sv_Namespaces S) \<lparr>ns_Name = nsName, ns_Labels = labels, ns_Annotations = [],
                       ns_CreationTimestamp = 0, ns_DeletionTimestamp = None, ns_OwnerReferences = [project_owner project]\<rparr>) (\<lambda>_. give ()))
           else stop (Api [] err)
       | Inr existing \<Rightarrow>
           if owned_by project existing \<or> lookup_str (ns_Labels existing) ''app.kubernetes.io/managed-by'' = ''mortise'' \<and>
                lookup_str (ns_Labels existing) ProjectLabel = prj_Name project
           then (case sync_labels labels existing of (updated, changed) \<Rightarrow>
                  if \<not> changed then give ()
                  else on_err (Api []) (andthen (r_Update (sv_Namespaces S) updated) (\<lambda>_. give ())))
           else if other_owner existing \<noteq> []
             then stop (Msg (''namespace '' @ quoted nsName @ '' is already owned by Project '' @ quoted (other_owner existing)))
           else stop (Msg (''namespace '' @ quoted nsName @ '' already exists and is not managed by mortise'')))"

definition ensureEnvNamespaceObject :: "'s server \<Rightarrow> 's retrier \<Rightarrow> Project \<Rightarrow> string \<Rightarrow> string gomap \<Rightarrow> ('s, gerr, unit) act" where
  "ensureEnvNamespaceObject S R project nsName labels =
     RetryOnConflict (rt_unit R) () (ns_attempt S project nsName labels)"

definition ensureProjectEnvNamespace :: "'s server \<Rightarrow> 's retrier \<Rightarrow> Project \<Rightarrow> string \<Rightarrow> bool \<Rightarrow> ('s, gerr, unit) act" where
  "ensureProjectEnvNamespace S R project envName active =
     (let nsName = EnvNamespace (prj_Name project) envName
      in andthen (ensureEnvNamespaceObject S R project nsName (env_ns_labels project envName active)) (\<lambda>_.
         if sv_ServiceAccount S = [] then give ()
         else on_err (Api []) (andthen (EnsureWriteBinding (sv_RoleBindings S) nsName (sv_ServiceAccount S) (sv_OperatorNamespace S)) (\<lambda>_.
                sv_WaitWritable S nsName))))"

definition deleteProjectEnvNamespace :: "'s server \<Rightarrow> Project \<Rightarrow> string \<Rightarrow> ('s, kerr, unit) act" where
  "deleteProjectEnvNamespace S project envName =
     outcome (r_Get (sv_Namespaces S) (EnvNamespace (prj_Name project) envName)) (\<lambda>r. case r of
         Inl e \<Rightarrow> if e = NotFound then give () else stop e
       | Inr ns \<Rightarrow> r_Delete (sv_Namespaces S) ns)"

definition undo_namespace :: "'s server \<Rightarrow> Project \<Rightarrow> string \<Rightarrow> 'b reply \<Rightarrow> ('s, 'b reply, 'a) act" where
  \<comment> \<open>\<open>_ = s.deleteProjectEnvNamespace(...)\<close> before an error response\<close>
  "undo_namespace S project envName reply = outcome (deleteProjectEnvNamespace S project envName) (\<lambda>_. stop reply)"

section \<open>The environments in the project\<close>

definition no_env :: ProjectEnvironment where
  "no_env = fresh_env [] 0"

definition createProjectEnvironment :: "'s server \<Rightarrow> 's retrier \<Rightarrow> string \<Rightarrow> createProjectEnvRequest \<Rightarrow> ('s, gerr, ProjectEnvironment) act" where
  "createProjectEnvironment S R projectName req =
     RetryOnConflict (rt_env R) (fresh_env (cer_Name req) (cer_DisplayOrder req))
       (andthen (on_err (Api []) (sv_FreshProject S projectName)) (\<lambda>current.
        andthen (check (\<not> list_ex (\<lambda>e. pe_Name e = cer_Name req) (prj_envs current)) (Msg (env_exists (prj_Name current) (cer_Name req)))) (\<lambda>_.
        andthen (on_err (Api []) (r_Update (sv_Projects S)
           (with_envs (prj_envs current @ [fresh_env (cer_Name req) (cer_DisplayOrder req)]) current))) (\<lambda>_.
          give (fresh_env (cer_Name req) (cer_DisplayOrder req))))))"

definition is_exists_error :: "string \<Rightarrow> string \<Rightarrow> gerr \<Rightarrow> bool" where
  \<comment> \<open>\<open>errors.As(err, &existsErr)\<close>\<close>
  "is_exists_error project name e \<longleftrightarrow> e = Msg (env_exists project name)"

definition CreateProjectEnvironment ::
  "'s server \<Rightarrow> 's retrier \<Rightarrow> request \<Rightarrow> string \<Rightarrow> string + createProjectEnvRequest \<Rightarrow> ('s, projectEnvResponse) handler" where
  "CreateProjectEnvironment S R rq projectName body =
     andthen (authorize S rq (on_project ''project'' projectName) ActionCreate) (\<lambda>_.
     andthen (lookupProject S projectName) (\<lambda>project.
     andthen (decoded body) (\<lambda>req.
     andthen (valid_or_400 (validateDNSLabel ''name'' (cer_Name req) maxProjectEnvNameLen)) (\<lambda>_.
     andthen (valid_or_400 (validateProjectEnvName (cer_Name req))) (\<lambda>_.
     andthen (check (\<not> list_ex (\<lambda>e. pe_Name e = cer_Name req) (prj_envs project)) (ErrorReply 409 (env_exists (prj_Name project) (cer_Name req)))) (\<lambda>_.
     andthen (on_err fault (ensureProjectEnvNamespace S R project (cer_Name req) False)) (\<lambda>_.
     outcome (createProjectEnvironment S R (prj_Name project) req) (\<lambda>r. case r of
         Inl err \<Rightarrow>
           if is_exists_error (prj_Name project) (cer_Name req) err then stop (ErrorReply 409 (env_exists (prj_Name project) (cer_Name req)))
           else undo_namespace S project (cer_Name req) (fault err)
       | Inr created \<Rightarrow>
           andthen (on_err fault (ensureProjectEnvNamespace S R project (cer_Name req) True)) (\<lambda>_.
           andthen (recordActivity S rq projectName ''create'' ''environment'' (cer_Name req)
               (''Created project environment '' @ cer_Name req) []) (\<lambda>_.
             give (Reply 201 (env_reply (pe_Name created) (pe_DisplayOrder created) False))))))))))))"

fun swap_order :: "int \<Rightarrow> int \<Rightarrow> nat \<Rightarrow> nat \<Rightarrow> ProjectEnvironment list \<Rightarrow> ProjectEnvironment list" where
  \<comment> \<open>the loop that gives the first other environment at the new position the old one\<close>
  "swap_order oldOrder newOrder idx i [] = []"
| "swap_order oldOrder newOrder idx i (env # envs) =
     (if i \<noteq> idx \<and> pe_DisplayOrder env = newOrder then env\<lparr>pe_DisplayOrder := oldOrder\<rparr> # envs
      else env # swap_order oldOrder newOrder idx (Suc i) envs)"

definition patch_env :: "patchProjectEnvRequest \<Rightarrow> nat \<Rightarrow> ProjectEnvironment list \<Rightarrow> ProjectEnvironment list" where
  \<comment> \<open>the changes of \<open>updateProjectEnvironment\<close> to the environment at \<open>idx\<close>\<close>
  "patch_env req idx envs =
     (let envs = (case ppr_Name req of Some n \<Rightarrow> envs[idx := (envs ! idx)\<lparr>pe_Name := n\<rparr>] | None \<Rightarrow> envs);
          envs = (case ppr_DisplayOrder req of
                    None \<Rightarrow> envs
                  | Some newOrder \<Rightarrow>
                      let oldOrder = pe_DisplayOrder (envs ! idx)
                      in if oldOrder \<noteq> newOrder
                         then (let envs = swap_order oldOrder newOrder idx 0 envs in envs[idx := (envs ! idx)\<lparr>pe_DisplayOrder := newOrder\<rparr>])
                         else envs)
      in case ppr_Restricted req of Some b \<Rightarrow> envs[idx := (envs ! idx)\<lparr>pe_Restricted := b\<rparr>] | None \<Rightarrow> envs)"

definition renames :: "patchProjectEnvRequest \<Rightarrow> string \<Rightarrow> bool" where
  \<comment> \<open>\<open>req.Name != nil && *req.Name != envName\<close>\<close>
  "renames req envName \<longleftrightarrow> (\<exists>n. ppr_Name req = Some n \<and> n \<noteq> envName)"

definition new_name :: "patchProjectEnvRequest \<Rightarrow> string" where
  "new_name req = (case ppr_Name req of Some n \<Rightarrow> n | None \<Rightarrow> [])"

lemma renames_code [code]: "renames req envName = (case ppr_Name req of Some n \<Rightarrow> n \<noteq> envName | None \<Rightarrow> False)"
  by (auto simp: renames_def split: option.splits)

definition updateProjectEnvironment ::
  "'s server \<Rightarrow> 's retrier \<Rightarrow> string \<Rightarrow> string \<Rightarrow> patchProjectEnvRequest \<Rightarrow> ('s, gerr, ProjectEnvironment) act" where
  "updateProjectEnvironment S R projectName envName req =
     RetryOnConflict (rt_env R) no_env
       (andthen (on_err (Api []) (sv_FreshProject S projectName)) (\<lambda>current.
        case indexOfEnv current envName of
          None \<Rightarrow> stop (Api [] NotFound)
        | Some idx \<Rightarrow>
            andthen (check (\<not> (renames req envName \<and> (\<exists>d. indexOfEnv current (new_name req) = Some d \<and> d \<noteq> idx)))
                (Msg (env_exists (prj_Name current) (new_name req)))) (\<lambda>_.
            let envs = patch_env req idx (prj_envs current)
            in andthen (on_err (Api []) (r_Update (sv_Projects S) (with_envs envs current))) (\<lambda>_. give (envs ! idx)))))"

definition deleteProjectEnvironmentSpec :: "'s server \<Rightarrow> 's retrier \<Rightarrow> string \<Rightarrow> string \<Rightarrow> ('s, gerr, unit) act" where
  "deleteProjectEnvironmentSpec S R projectName envName =
     RetryOnConflict (rt_unit R) () (on_err (Api [])
       (andthen (sv_FreshProject S projectName) (\<lambda>current.
        case indexOfEnv current envName of
          None \<Rightarrow> stop NotFound
        | Some idx \<Rightarrow> andthen (r_Update (sv_Projects S)
            (with_envs (take idx (prj_envs current) @ drop (Suc idx) (prj_envs current)) current)) (\<lambda>_. give ()))))"

definition cloneProjectEnvironmentSpec :: "'s server \<Rightarrow> 's retrier \<Rightarrow> string \<Rightarrow> createProjectEnvRequest \<Rightarrow> ('s, gerr, unit) act" where
  "cloneProjectEnvironmentSpec S R projectName req =
     RetryOnConflict (rt_unit R) () (on_err (Api [])
       (andthen (sv_FreshProject S projectName) (\<lambda>current.
        andthen (check (\<not> list_ex (\<lambda>e. pe_Name e = cer_Name req) (prj_envs current)) AlreadyExists) (\<lambda>_.
        andthen (r_Update (sv_Projects S) (with_envs (prj_envs current @ [fresh_env (cer_Name req) (cer_DisplayOrder req)]) current)) (\<lambda>_.
          give ())))))"

section \<open>Overrides and secrets of the applications\<close>

definition client_of :: "('s, nn, secret) resource \<Rightarrow> 's client" where
  \<comment> \<open>the client the environment store is given\<close>
  "client_of R = \<lparr>kGet = (\<lambda>s k. r_Get R k s),
     kCreate = (\<lambda>s ob. case r_Create R ob s of (Inl e, s1) \<Rightarrow> (Some e, s1) | (Inr _, s1) \<Rightarrow> (None, s1)),
     kUpdate = (\<lambda>s ob. case r_Update R ob s of (Inl e, s1) \<Rightarrow> (Some e, s1) | (Inr _, s1) \<Rightarrow> (None, s1))\<rparr>"

definition of_call :: "'s call \<Rightarrow> ('s, gerr, unit) act" where
  "of_call c s = (case c s of (Some e, s1) \<Rightarrow> (Inl e, s1) | (None, s1) \<Rightarrow> (Inr (), s1))"

definition cloneAppEnvSecret :: "'s server \<Rightarrow> 's retrier \<Rightarrow> string \<Rightarrow> string \<Rightarrow> string \<Rightarrow> ('s, gerr, unit) act" where
  "cloneAppEnvSecret S R appName sourceEnvNs targetEnvNs =
     (let C = client_of (sv_Secrets S)
      in andthen (on_err (Api []) (SecretExists C sourceEnvNs appName)) (\<lambda>exists.
         if \<not> exists then give ()
         else andthen (on_err (Api []) (store_Get C sourceEnvNs appName)) (\<lambda>sourceVars.
           let cloned = filter (\<lambda>env. Env_Source env \<noteq> ''binding'') sourceVars
           in if cloned = [] then give () else of_call (store_Set C (rt_call R) targetEnvNs appName cloned []))))"

definition env_var_of :: "Env \<Rightarrow> EnvVar" where
  "env_var_of e = \<lparr>ev_Name = Env_Name e, ev_Value = Env_Value e, ev_ValueFrom = None\<rparr>"

definition cloned_vars :: "Env list \<Rightarrow> Environment option \<Rightarrow> EnvVar list" where
  \<comment> \<open>\<open>envMap\<close>, sorted by name\<close>
  "cloned_vars secretVars sourceEnv =
     (let m = put_all (map (\<lambda>e. (Env_Name e, env_var_of e)) (filter (\<lambda>e. Env_Source e \<noteq> ''binding'') secretVars)) [];
          m = (case sourceEnv of None \<Rightarrow> m | Some src \<Rightarrow> put_all (map (\<lambda>ev. (ev_Name ev, ev)) (env_Env src)) m)
      in sort_key ev_Name (map snd (entries m)))"

definition cloned_env :: "string \<Rightarrow> Env list \<Rightarrow> Environment option \<Rightarrow> Environment" where
  "cloned_env targetName secretVars sourceEnv =
     (let cloned = new_Environment targetName;
          cloned = (case sourceEnv of None \<Rightarrow> cloned
            | Some src \<Rightarrow> cloned\<lparr>env_Replicas := env_Replicas src, env_Resources := env_Resources src,
                env_LivenessProbe := env_LivenessProbe src, env_ReadinessProbe := env_ReadinessProbe src,
                env_StartupProbe := env_StartupProbe src, env_Schedule := env_Schedule src,
                env_ConcurrencyPolicy := env_ConcurrencyPolicy src, env_Bindings := env_Bindings src,
                env_Annotations := put_all (entries (env_Annotations src)) [],
                env_BuildArgs := put_all (entries (env_BuildArgs src)) []\<rparr>)
      in cloned\<lparr>env_Env := cloned_vars secretVars sourceEnv\<rparr>)"

definition app_envs :: "App \<Rightarrow> Environment list" where
  "app_envs app = spec_Environments (app_Spec app)"

definition with_app_envs :: "Environment list \<Rightarrow> App \<Rightarrow> App" where
  "with_app_envs envs app = app\<lparr>app_Spec := (app_Spec app)\<lparr>spec_Environments := envs\<rparr>\<rparr>"

definition clone_into :: "string \<Rightarrow> string \<Rightarrow> Env list \<Rightarrow> App \<Rightarrow> App option" where
  \<comment> \<open>one attempt of \<open>cloneEnvToApp\<close>: \<open>None\<close> when the target is there already\<close>
  "clone_into sourceName targetName secretVars app =
     (if list_ex (\<lambda>e. env_Name e = targetName) (app_envs app) then None
      else Some (with_app_envs (app_envs app @ [cloned_env targetName secretVars (find (\<lambda>e. env_Name e = sourceName) (app_envs app))]) app))"

fun write_app :: "nat \<Rightarrow> 's server \<Rightarrow> string \<Rightarrow> string \<Rightarrow> (App \<Rightarrow> App option) \<Rightarrow> ('s, gerr, unit) act" where
  \<comment> \<open>the loop of \<open>cloneEnvToApp\<close>, \<open>renameEnvOnApp\<close> and \<open>pokeAppForReconcile\<close>: read, change, write, again on a conflict\<close>
  "write_app 0 S ns appName change = give ()"
| "write_app (Suc n) S ns appName change =
     andthen (on_err (Api []) (r_Get (sv_Apps S) (ns, appName))) (\<lambda>app.
       case change app of
         None \<Rightarrow> give ()
       | Some updated \<Rightarrow> outcome (r_Update (sv_Apps S) updated) (\<lambda>r. case r of
             Inr _ \<Rightarrow> give ()
           | Inl e \<Rightarrow> if e \<noteq> Conflict \<or> n = 0 then stop (Api [] e) else write_app n S ns appName change))"

definition maxAppRetries :: nat where "maxAppRetries = 5"

definition source_vars :: "'s server \<Rightarrow> (string \<Rightarrow> string \<Rightarrow> ('s, kerr, secret) act) option \<Rightarrow> string \<Rightarrow> string \<Rightarrow> ('s, gerr, Env list) act" where
  \<comment> \<open>the variables of the source, read directly when there is a clientset and through the client otherwise\<close>
  "source_vars S clientset sourceEnvNs appName =
     (let cached = on_err (Api []) (store_Get (client_of (sv_Secrets S)) sourceEnvNs appName)
      in case clientset of
           None \<Rightarrow> cached
         | Some live \<Rightarrow> outcome (live sourceEnvNs (AppEnvSecretName appName)) (\<lambda>r. case r of
               Inr sec \<Rightarrow> give (SecretToEnvs sec)
             | Inl e \<Rightarrow> if e = NotFound then cached else stop (Api [] e)))"

definition cloneEnvToApp ::
  "'s server \<Rightarrow> (string \<Rightarrow> string \<Rightarrow> ('s, kerr, secret) act) option \<Rightarrow> string \<Rightarrow> string \<Rightarrow> string \<Rightarrow> string \<Rightarrow> string \<Rightarrow> ('s, gerr, unit) act" where
  "cloneEnvToApp S clientset ns appName sourceName targetName sourceEnvNs =
     andthen (source_vars S clientset sourceEnvNs appName) (\<lambda>secretVars.
       write_app maxAppRetries S ns appName (clone_into sourceName targetName secretVars))"

definition cloneAppOverrides ::
  "'s server \<Rightarrow> 's retrier \<Rightarrow> (string \<Rightarrow> string \<Rightarrow> ('s, kerr, secret) act) option \<Rightarrow> string \<Rightarrow> string \<Rightarrow> string \<Rightarrow> string \<Rightarrow> ('s, gerr, unit) act" where
  "cloneAppOverrides S R clientset projectName ns sourceName targetName =
     (let sourceEnvNs = EnvNamespace projectName sourceName; targetEnvNs = EnvNamespace projectName targetName
      in andthen (on_err (Api []) (r_List (sv_Apps S) ns [])) (for_each (\<lambda>app.
           andthen (cloneEnvToApp S clientset ns (app_Name app) sourceName targetName sourceEnvNs) (\<lambda>_.
             cloneAppEnvSecret S R (app_Name app) sourceEnvNs targetEnvNs))))"

definition rename_override :: "string \<Rightarrow> string \<Rightarrow> App \<Rightarrow> App option" where
  "rename_override oldName newName app =
     map_option (\<lambda>i. with_app_envs ((app_envs app)[i := (app_envs app ! i)\<lparr>env_Name := newName\<rparr>]) app)
       (position (\<lambda>e. env_Name e = oldName) (app_envs app))"

definition renameEnvOnApp :: "'s server \<Rightarrow> string \<Rightarrow> string \<Rightarrow> string \<Rightarrow> string \<Rightarrow> ('s, gerr, unit) act" where
  "renameEnvOnApp S ns appName oldName newName = write_app maxAppRetries S ns appName (rename_override oldName newName)"

definition renameAppOverrides :: "'s server \<Rightarrow> 's retrier \<Rightarrow> string \<Rightarrow> string \<Rightarrow> string \<Rightarrow> string \<Rightarrow> ('s, gerr, unit) act" where
  "renameAppOverrides S R projectName ns oldName newName =
     andthen (on_err (Api []) (r_List (sv_Apps S) ns [])) (for_each (\<lambda>app.
       andthen (renameEnvOnApp S ns (app_Name app) oldName newName) (\<lambda>_.
         cloneAppEnvSecret S R (app_Name app) (EnvNamespace projectName oldName) (EnvNamespace projectName newName))))"

definition poke :: "string \<Rightarrow> App \<Rightarrow> App" where
  "poke at app = app\<lparr>app_Annotations := AList.update ''mortise.dev/env-updated'' at (app_Annotations app)\<rparr>"

definition pokeAppForReconcile :: "'s server \<Rightarrow> App \<Rightarrow> ('s, gerr, unit) act" where
  \<comment> \<open>the time stamp, in milliseconds, is read once\<close>
  "pokeAppForReconcile S app =
     andthen (look (\<lambda>s. show_int (sv_now S s div 1000000))) (\<lambda>at.
       write_app maxAppRetries S (app_Namespace app) (app_Name app) (\<lambda>latest. Some (poke at latest)))"

definition pokeProjectAppsForReconcile :: "'s server \<Rightarrow> string \<Rightarrow> ('s, gerr, unit) act" where
  "pokeProjectAppsForReconcile S ns =
     andthen (on_err (Api []) (r_List (sv_Apps S) ns [])) (for_each (pokeAppForReconcile S))"

definition strip_override :: "'s server \<Rightarrow> App \<Rightarrow> string \<Rightarrow> ('s, gerr, unit) act" where
  \<comment> \<open>the closure of \<open>stripAppEnvOverrides\<close>\<close>
  "strip_override S app envName =
     on_err (Api []) (andthen (r_Get (sv_Apps S) (app_Namespace app, app_Name app)) (\<lambda>fresh.
       case position (\<lambda>e. env_Name e = envName) (app_envs fresh) of
         None \<Rightarrow> give ()
       | Some idx \<Rightarrow> andthen (r_Update (sv_Apps S) (with_app_envs (take idx (app_envs fresh) @ drop (Suc idx) (app_envs fresh)) fresh)) (\<lambda>_. give ())))"

definition stripAppEnvOverrides :: "'s server \<Rightarrow> 's retrier \<Rightarrow> string \<Rightarrow> string \<Rightarrow> ('s, gerr, string list) act" where
  "stripAppEnvOverrides S R ns envName =
     andthen (on_err (Api []) (r_List (sv_Apps S) ns [])) (\<lambda>apps.
       let touched = filter (\<lambda>app. list_ex (\<lambda>e. env_Name e = envName) (app_envs app)) apps
       in andthen (for_each (\<lambda>app. RetryOnConflict (rt_unit R) () (strip_override S app envName)) touched) (\<lambda>_.
            give (map app_Name touched)))"

definition isInternalAppEnvSecret :: "string \<Rightarrow> secret \<Rightarrow> bool" where
  "isInternalAppEnvSecret appName sec \<longleftrightarrow> Sec_Name sec = appName @ ''-env''"

definition is_custom_secret :: "secret \<Rightarrow> bool" where
  "is_custom_secret src \<longleftrightarrow>
     (let appName = lookup_str (Sec_Labels src) AppNameLabel
      in appName \<noteq> [] \<and> lookup_str (Sec_Labels src) ''app.kubernetes.io/managed-by'' = ''mortise'' \<and> \<not> isInternalAppEnvSecret appName src)"

definition copy_custom_secret :: "'s server \<Rightarrow> string \<Rightarrow> secret \<Rightarrow> ('s, kerr, unit) act" where
  "copy_custom_secret S targetEnvNs src =
     outcome (r_Get (sv_Secrets S) (targetEnvNs, Sec_Name src)) (\<lambda>r. case r of
         Inl e \<Rightarrow>
           if e = NotFound
           then outcome (r_Create (sv_Secrets S) (src\<lparr>Sec_Namespace := targetEnvNs, Sec_RV := []\<rparr>)) (\<lambda>c. case c of
                    Inl e \<Rightarrow> if e = AlreadyExists then give () else stop e
                  | Inr _ \<Rightarrow> give ())
           else stop e
       | Inr existing \<Rightarrow>
           andthen (r_Update (sv_Secrets S) (existing\<lparr>Sec_Labels := Sec_Labels src, Sec_Annotations := Sec_Annotations src, Sec_Data := Sec_Data src\<rparr>)) (\<lambda>_.
             give ()))"

definition cloneCustomSecrets :: "'s server \<Rightarrow> string \<Rightarrow> string \<Rightarrow> ('s, gerr, unit) act" where
  "cloneCustomSecrets S sourceEnvNs targetEnvNs =
     on_err (Api []) (andthen (r_List (sv_Secrets S) sourceEnvNs []) (\<lambda>secrets.
       for_each (copy_custom_secret S targetEnvNs) (filter is_custom_secret secrets)))"

section \<open>Rename, delete, clone\<close>

definition prepare_rename ::
  "'s server \<Rightarrow> 's retrier \<Rightarrow> string \<Rightarrow> Project \<Rightarrow> string \<Rightarrow> string \<Rightarrow> ('s, projectEnvResponse reply, unit) act" where
  \<comment> \<open>the first half of a rename: the new namespace, its secrets and the overrides\<close>
  "prepare_rename S R projectName project envName newName =
     andthen (valid_or_400 (validateDNSLabel ''name'' newName maxProjectEnvNameLen)) (\<lambda>_.
     andthen (valid_or_400 (validateProjectEnvName newName)) (\<lambda>_.
     andthen (check (indexOfEnv project newName = None) (ErrorReply 409 (env_exists (prj_Name project) newName))) (\<lambda>_.
     andthen (on_err fault (ensureProjectEnvNamespace S R project newName False)) (\<lambda>_.
     andthen (on_err fault (cloneCustomSecrets S (EnvNamespace (prj_Name project) envName) (EnvNamespace (prj_Name project) newName))) (\<lambda>_.
     outcome (renameAppOverrides S R projectName (projectNs project) envName newName) (\<lambda>r. case r of
         Inl e \<Rightarrow> undo_namespace S project newName (fault e)
       | Inr _ \<Rightarrow> give ()))))))"

definition UpdateProjectEnvironment ::
  "'s server \<Rightarrow> 's retrier \<Rightarrow> request \<Rightarrow> string \<Rightarrow> string \<Rightarrow> string + patchProjectEnvRequest \<Rightarrow> ('s, projectEnvResponse) handler" where
  "UpdateProjectEnvironment S R rq projectName envName body =
     andthen (authorize S rq (on_project ''project'' projectName) ActionUpdate) (\<lambda>_.
     andthen (lookupProject S projectName) (\<lambda>project.
     andthen (decoded body) (\<lambda>req.
     andthen (check (indexOfEnv project envName \<noteq> None)
         (ErrorReply 404 (''environment '' @ quoted envName @ '' not found on project '' @ quoted (prj_Name project)))) (\<lambda>_.
     andthen (if renames req envName then prepare_rename S R projectName project envName (new_name req) else give ()) (\<lambda>_.
     outcome (updateProjectEnvironment S R (prj_Name project) envName req) (\<lambda>r. case r of
         Inl err \<Rightarrow> if renames req envName then undo_namespace S project (new_name req) (fault err) else stop (fault err)
       | Inr updated \<Rightarrow>
           andthen (if renames req envName
                    then andthen (on_err fault (ensureProjectEnvNamespace S R project (new_name req) True)) (\<lambda>_.
                           on_err fault (pokeProjectAppsForReconcile S (projectNs project)))
                    else give ()) (\<lambda>_.
           andthen (recordActivity S rq projectName ''update'' ''environment'' (pe_Name updated)
               (if renames req envName then ''Renamed project environment '' @ envName @ '' to '' @ pe_Name updated
                else ''Updated project environment '' @ pe_Name updated) []) (\<lambda>_.
             give (Reply 200 (env_reply (pe_Name updated) (pe_DisplayOrder updated) (pe_Restricted updated)))))))))))"

text \<open>The messages of \<open>DeleteProjectEnvironment\<close> are cut before the dash, and where they quote an API error.\<close>

definition DeleteProjectEnvironment :: "'s server \<Rightarrow> 's retrier \<Rightarrow> request \<Rightarrow> string \<Rightarrow> string \<Rightarrow> ('s, string) handler" where
  "DeleteProjectEnvironment S R rq projectName envName =
     andthen (authorize S rq (on_project ''project'' projectName) ActionDelete) (\<lambda>_.
     andthen (lookupProject S projectName) (\<lambda>project.
     andthen (check (indexOfEnv project envName \<noteq> None)
         (ErrorReply 404 (''environment '' @ quoted envName @ '' not found on project '' @ quoted (prj_Name project)))) (\<lambda>_.
     andthen (check (length (prj_envs project) \<noteq> 1) (ErrorReply 400 ''cannot delete the last environment on a project'')) (\<lambda>_.
     andthen (on_err fault (stripAppEnvOverrides S R (projectNs project) envName)) (\<lambda>stripped.
     andthen (on_err (\<lambda>e. if fault_kind e = Forbidden then ErrorReply 409 [] else fault e)
         (deleteProjectEnvironmentSpec S R (prj_Name project) envName)) (\<lambda>_.
     andthen (recordActivity S rq projectName ''delete'' ''environment'' envName
         (''Deleted project environment '' @ envName @
          (if stripped = [] then [] else '' (stripped overrides from ['' @ join stripped '' '' @ ''])'')) []) (\<lambda>_.
       give (Reply 200 envName))))))))"

definition CloneProjectEnvironment ::
  "'s server \<Rightarrow> 's retrier \<Rightarrow> (string \<Rightarrow> string \<Rightarrow> ('s, kerr, secret) act) option \<Rightarrow> (gerr \<Rightarrow> bool) \<Rightarrow> request \<Rightarrow> string \<Rightarrow> string \<Rightarrow>
   string + createProjectEnvRequest \<Rightarrow> ('s, projectEnvResponse) handler" where
  \<comment> \<open>\<open>terminating\<close>: a Forbidden whose text says that the namespace is being terminated\<close>
  "CloneProjectEnvironment S R clientset terminating rq projectName sourceName body =
     andthen (authorize S rq (on_project ''project'' projectName) ActionCreate) (\<lambda>_.
     andthen (lookupProject S projectName) (\<lambda>project.
     andthen (check (indexOfEnv project sourceName \<noteq> None)
         (ErrorReply 404 (''source environment '' @ quoted sourceName @ '' not found on project '' @ quoted (prj_Name project)))) (\<lambda>_.
     andthen (decoded body) (\<lambda>req.
     andthen (valid_or_400 (validateDNSLabel ''name'' (cer_Name req) maxProjectEnvNameLen)) (\<lambda>_.
     andthen (valid_or_400 (validateProjectEnvName (cer_Name req))) (\<lambda>_.
     andthen (check (\<not> list_ex (\<lambda>e. pe_Name e = cer_Name req) (prj_envs project)) (ErrorReply 409 (env_exists (prj_Name project) (cer_Name req)))) (\<lambda>_.
     andthen (on_err fault (ensureProjectEnvNamespace S R project (cer_Name req) False)) (\<lambda>_.
     outcome (cloneProjectEnvironmentSpec S R (prj_Name project) req) (\<lambda>r. case r of
         Inl err \<Rightarrow> undo_namespace S project (cer_Name req) (fault err)
       | Inr _ \<Rightarrow>
           andthen (on_err fault (ensureProjectEnvNamespace S R project (cer_Name req) True)) (\<lambda>_.
           andthen (on_err (\<lambda>e. if fault_kind e = Forbidden \<and> terminating e
                then ErrorReply 409 (''environment '' @ quoted (cer_Name req) @ [CHR 0x27] @ ''s namespace is still terminating; retry shortly'')
                else fault e) (cloneAppOverrides S R clientset projectName (projectNs project) sourceName (cer_Name req))) (\<lambda>_.
           andthen (on_err fault (cloneCustomSecrets S (EnvNamespace (prj_Name project) sourceName) (EnvNamespace (prj_Name project) (cer_Name req)))) (\<lambda>_.
           andthen (recordActivity S rq projectName ''create'' ''environment'' (cer_Name req)
               (''Cloned environment '' @ cer_Name req @ '' from '' @ sourceName) []) (\<lambda>_.
             give (Reply 201 (env_reply (cer_Name req) (cer_DisplayOrder req) False)))))))))))))))"

section \<open>Environment names stay distinct\<close>

definition others_leave :: "'s server \<Rightarrow> (string \<Rightarrow> string \<Rightarrow> ('s, kerr, secret) act) option \<Rightarrow> ('s \<Rightarrow> bool) \<Rightarrow> bool" where
  \<comment> \<open>everything but the calls on projects keeps \<open>P\<close>\<close>
  "others_leave S clientset P \<longleftrightarrow> leaves (sv_Apps S) P \<and> leaves (sv_Secrets S) P \<and> leaves (sv_Namespaces S) P \<and>
     leaves (sv_RoleBindings S) P \<and> (\<forall>ns. keeps P (sv_WaitWritable S ns)) \<and> (\<forall>p r a. keeps P (sv_Authorize S p r a)) \<and>
     (\<forall>e s. P s \<longrightarrow> P (sv_Activity S e s)) \<and> (\<forall>live ns n. clientset = Some live \<longrightarrow> keeps P (live ns n))"

definition projects_env ::
  "'s server \<Rightarrow> 's retrier \<Rightarrow> (string \<Rightarrow> string \<Rightarrow> ('s, kerr, secret) act) option \<Rightarrow> ('s \<Rightarrow> bool) \<Rightarrow> ('s \<Rightarrow> string \<rightharpoonup> Project) \<Rightarrow> bool" where
  \<comment> \<open>projects change only through their own calls, and the direct read returns what is stored\<close>
  "projects_env S R clientset ok view \<longleftrightarrow> quiet project_kind (sv_Projects S) ok view \<and>
     (\<forall>s n. ok s \<longrightarrow> wp (sv_FreshProject S n) (\<lambda>r s1. ok s1 \<and> view s1 = view s \<and> (\<forall>p. r = Inr p \<longrightarrow> view s n = Some p)) s) \<and>
     (\<forall>v. others_leave S clientset (\<lambda>s. ok s \<and> view s = v)) \<and> retries (rt_call R) \<and> retries (rt_unit R) \<and> retries (rt_env R)"

definition names_ok :: "(string \<rightharpoonup> Project) \<Rightarrow> bool" where
  "names_ok v \<longleftrightarrow> (\<forall>p \<in> ran v. distinct (map pe_Name (prj_envs p)))"

definition envs_inv :: "('s \<Rightarrow> bool) \<Rightarrow> ('s \<Rightarrow> string \<rightharpoonup> Project) \<Rightarrow> 's \<Rightarrow> bool" where
  "envs_inv ok view s \<longleftrightarrow> ok s \<and> names_ok (view s)"

lemma others_keep_inv:
  assumes "projects_env S R clientset ok view"
  shows "others_leave S clientset (envs_inv ok view)"
proof -
  have "others_leave S clientset (\<lambda>s. ok s \<and> view s = v)" for v
    using assms by (simp add: projects_env_def)
  then have l: "leaves (sv_Apps S) (\<lambda>s. ok s \<and> view s = v)" "leaves (sv_Secrets S) (\<lambda>s. ok s \<and> view s = v)"
      "leaves (sv_Namespaces S) (\<lambda>s. ok s \<and> view s = v)" "leaves (sv_RoleBindings S) (\<lambda>s. ok s \<and> view s = v)"
    and k: "keeps (\<lambda>s. ok s \<and> view s = v) (sv_WaitWritable S ns)" "keeps (\<lambda>s. ok s \<and> view s = v) (sv_Authorize S p r a)"
      "clientset = Some live \<Longrightarrow> keeps (\<lambda>s. ok s \<and> view s = v) (live ns n)"
    and act: "ok s \<Longrightarrow> ok (sv_Activity S e s) \<and> view (sv_Activity S e s) = view s" for v ns p r a live n e s
    by (simp_all add: others_leave_def)
  let ?P = "\<lambda>s. ok s \<and> names_ok (view s)"
  have "leaves (sv_Apps S) ?P" by (rule leaves_lift [where view = view], rule l)
  moreover have "leaves (sv_Secrets S) ?P" by (rule leaves_lift [where view = view], rule l)
  moreover have "leaves (sv_Namespaces S) ?P" by (rule leaves_lift [where view = view], rule l)
  moreover have "leaves (sv_RoleBindings S) ?P" by (rule leaves_lift [where view = view], rule l)
  moreover have "keeps ?P (sv_WaitWritable S ns)" for ns by (rule keeps_lift [where view = view], rule k)
  moreover have "keeps ?P (sv_Authorize S p r a)" for p r a by (rule keeps_lift [where view = view], rule k)
  moreover have "keeps ?P (live ns n)" if "clientset = Some live" for live ns n by (rule keeps_lift [where view = view], rule k(3) [OF that])
  ultimately show ?thesis
    unfolding others_leave_def envs_inv_def using act by auto
qed

text \<open>The three ways the handlers change the list of environments.\<close>

lemma names_with_envs:
  assumes "names_ok v" "v (prj_Name p) = Some p" "distinct (map pe_Name envs)"
    and "kd_same project_kind (with_envs envs p) p1"
  shows "names_ok (v(prj_Name p \<mapsto> p1))"
proof -
  have "p1\<lparr>prj_Status := prj_Status (with_envs envs p)\<rparr> = with_envs envs p"
    using assms(4) by (simp add: project_kind_def)
  then have "prj_Spec (p1\<lparr>prj_Status := prj_Status (with_envs envs p)\<rparr>) = prj_Spec (with_envs envs p)" by simp
  then have "prj_envs p1 = envs" by (simp add: prj_envs_def with_envs_def)
  with assms(1,3) show ?thesis by (auto simp: names_ok_def ran_def)
qed

lemma distinct_add: "distinct (map pe_Name envs) \<Longrightarrow> \<not> list_ex (\<lambda>e. pe_Name e = n) envs \<Longrightarrow> distinct (map pe_Name (envs @ [fresh_env n d]))"
  by (auto simp: fresh_env_def list_ex_iff)

lemma distinct_remove: "distinct (map pe_Name envs) \<Longrightarrow> distinct (map pe_Name (take i envs @ drop (Suc i) envs))"
  by (simp add: take_map [symmetric] drop_map [symmetric] set_take_disj_set_drop_if_distinct)

lemma names_swap: "map pe_Name (swap_order a b idx i envs) = map pe_Name envs"
  by (induction envs arbitrary: i) auto

lemma length_swap [simp]: "length (swap_order a b idx i envs) = length envs"
  by (metis length_map names_swap)

lemma names_same_update: "idx < length envs \<Longrightarrow> pe_Name e = pe_Name (envs ! idx) \<Longrightarrow> map pe_Name (envs[idx := e]) = map pe_Name envs"
  by (simp add: map_update list_update_same_conv)

lemma names_patch:
  assumes "idx < length envs"
  shows "map pe_Name (patch_env req idx envs) =
    (case ppr_Name req of Some n \<Rightarrow> (map pe_Name envs)[idx := n] | None \<Rightarrow> map pe_Name envs)"
proof -
  define envs1 where "envs1 = (case ppr_Name req of Some n \<Rightarrow> envs[idx := (envs ! idx)\<lparr>pe_Name := n\<rparr>] | None \<Rightarrow> envs)"
  have len: "idx < length envs1" using assms by (simp add: envs1_def split: option.split)
  have swap: "pe_Name (swap_order a b idx 0 envs1 ! idx) = pe_Name (envs1 ! idx)" for a b
    using len names_swap [of a b idx 0 envs1] by (metis length_swap nth_map)
  have "map pe_Name (patch_env req idx envs) = map pe_Name envs1"
    unfolding patch_env_def Let_def envs1_def [symmetric]
    using len swap by (simp add: names_swap names_same_update split: option.split)
  also have "\<dots> = (case ppr_Name req of Some n \<Rightarrow> (map pe_Name envs)[idx := n] | None \<Rightarrow> map pe_Name envs)"
    by (simp add: envs1_def map_update split: option.split)
  finally show ?thesis .
qed

lemma distinct_patch:
  assumes idx: "idx < length envs" and d: "distinct (map pe_Name envs)"
    and new: "\<And>n j. ppr_Name req = Some n \<Longrightarrow> j < length envs \<Longrightarrow> j \<noteq> idx \<Longrightarrow> pe_Name (envs ! j) \<noteq> n"
  shows "distinct (map pe_Name (patch_env req idx envs))"
  unfolding names_patch [OF idx] using d new idx
  by (auto simp: distinct_conv_nth nth_list_update split: option.split)

text \<open>Each closure that writes the project keeps the invariant; the rest of a handler does not touch projects.\<close>

lemma update_keeps:
  assumes "projects_env S R clientset ok view" "envs_inv ok view s"
    and "view s (prj_Name p) = Some p" "distinct (map pe_Name envs)"
  shows "wp (r_Update (sv_Projects S) (with_envs envs p)) (\<lambda>_. envs_inv ok view) s"
proof -
  have q: "quiet project_kind (sv_Projects S) ok view" using assms(1) by (simp add: projects_env_def)
  have key: "kd_key project_kind (with_envs envs p) = prj_Name p" by (simp add: project_kind_def with_envs_def)
  show ?thesis
    by (rule quiet_update [OF q])
       (use assms(2-4) in \<open>auto simp: envs_inv_def key intro: names_with_envs\<close>)
qed

lemma on_err_id: "on_err id m = m" "on_err (\<lambda>x. x) m = m"
  by (auto simp: on_err_def fun_eq_iff split: prod.splits sum.splits)

lemma fresh_rest:
  fixes S :: "'s server" and f :: "kerr \<Rightarrow> 'e" and k :: "Project \<Rightarrow> ('s, 'e, 'a) act"
  assumes env: "projects_env S R clientset ok view"
    and rest: "\<And>p s. envs_inv ok view s \<Longrightarrow> view s (prj_Name p) = Some p \<Longrightarrow> distinct (map pe_Name (prj_envs p)) \<Longrightarrow>
      wp (k p) (\<lambda>_. envs_inv ok view) s"
  shows "keeps (envs_inv ok view) (andthen (on_err f (sv_FreshProject S n)) k)"
proof (rule keepsI)
  fix s r s1 assume inv: "envs_inv ok view s" and run: "andthen (on_err f (sv_FreshProject S n)) k s = (r, s1)"
  have q: "quiet project_kind (sv_Projects S) ok view"
    and fresh: "wp (sv_FreshProject S n) (\<lambda>r s1. ok s1 \<and> view s1 = view s \<and> (\<forall>p. r = Inr p \<longrightarrow> view s n = Some p)) s"
    using env inv by (simp_all add: projects_env_def envs_inv_def)
  have "wp (andthen (on_err f (sv_FreshProject S n)) k) (\<lambda>_. envs_inv ok view) s"
    unfolding wp_andthen wp_on_err
  proof (rule wp_mono [OF fresh])
    fix r1 :: "kerr + Project" and s1 assume g: "ok s1 \<and> view s1 = view s \<and> (\<forall>p. r1 = Inr p \<longrightarrow> view s n = Some p)"
    show "on_value (\<lambda>a. wp (k a) (\<lambda>_. envs_inv ok view)) (\<lambda>_. envs_inv ok view) (map_sum f id r1) s1"
    proof (cases r1)
      case (Inl e)
      with g inv show ?thesis by (simp add: wp_simps envs_inv_def)
    next
      case (Inr p)
      then have "view s n = Some p" using g by simp
      moreover then have "prj_Name p = n" using quiet_key [OF q, of s n p] inv by (simp add: envs_inv_def project_kind_def)
      ultimately show ?thesis
        using Inr g inv by (auto simp: wp_simps envs_inv_def names_ok_def ran_def intro!: rest)
    qed
  qed
  with run show "envs_inv ok view s1" by (auto dest: wpD)
qed

lemma writes_keep:
  assumes env: "projects_env S R clientset ok view"
  shows "keeps (envs_inv ok view) (createProjectEnvironment S R n req)"
    and "keeps (envs_inv ok view) (updateProjectEnvironment S R n envName preq)"
    and "keeps (envs_inv ok view) (deleteProjectEnvironmentSpec S R n envName)"
    and "keeps (envs_inv ok view) (cloneProjectEnvironmentSpec S R n req)"
proof -
  let ?P = "envs_inv ok view"
  have r: "retries (rt_unit R)" "retries (rt_env R)" using env by (simp_all add: projects_env_def)
  have upd: "wp (andthen (on_err g (r_Update (sv_Projects S) (with_envs envs p))) (\<lambda>_. give a)) (\<lambda>_. ?P) s"
    if "?P s" "view s (prj_Name p) = Some p" "distinct (map pe_Name envs)" for envs p s a and g :: "kerr \<Rightarrow> 'e"
    unfolding wp_andthen wp_on_err
    by (rule wp_mono [OF update_keeps [OF env that]]) (auto simp: on_value_def wp_simps split: sum.splits)
  have upd': "wp (andthen (r_Update (sv_Projects S) (with_envs envs p)) (\<lambda>_. give a)) (\<lambda>_. ?P) s"
    if "?P s" "view s (prj_Name p) = Some p" "distinct (map pe_Name envs)" for envs p s a
    unfolding wp_andthen
    by (rule wp_mono [OF update_keeps [OF env that]]) (auto simp: on_value_def wp_simps split: sum.splits)
  note fresh' = fresh_rest [OF env, where f = id, unfolded on_err_id]
  show "keeps ?P (createProjectEnvironment S R n req)"
    unfolding createProjectEnvironment_def
    by (intro keeps_RetryOnConflict r fresh_rest [OF env] wp_checkI [where P = ?P] upd distinct_add)
  show "keeps ?P (cloneProjectEnvironmentSpec S R n req)"
    unfolding cloneProjectEnvironmentSpec_def
    by (intro keeps_RetryOnConflict r keeps_on_err fresh' wp_checkI [where P = ?P] upd' distinct_add)
  have "wp (case indexOfEnv p envName of None \<Rightarrow> stop NotFound
        | Some idx \<Rightarrow> andthen (r_Update (sv_Projects S)
            (with_envs (take idx (prj_envs p) @ drop (Suc idx) (prj_envs p)) p)) (\<lambda>_. give ())) (\<lambda>_. ?P) s"
    if "?P s" "view s (prj_Name p) = Some p" "distinct (map pe_Name (prj_envs p))" for p s
    using that by (cases "indexOfEnv p envName") (auto simp only: option.case wp_stop intro!: upd' distinct_remove)
  then show "keeps ?P (deleteProjectEnvironmentSpec S R n envName)"
    unfolding deleteProjectEnvironmentSpec_def
    by (intro keeps_RetryOnConflict r keeps_on_err fresh')
  have "wp (case indexOfEnv p envName of None \<Rightarrow> stop (Api [] NotFound)
        | Some idx \<Rightarrow> andthen (check (\<not> (renames preq envName \<and> (\<exists>d. indexOfEnv p (new_name preq) = Some d \<and> d \<noteq> idx)))
                (Msg (env_exists (prj_Name p) (new_name preq)))) (\<lambda>_.
            let envs = patch_env preq idx (prj_envs p)
            in andthen (on_err (Api []) (r_Update (sv_Projects S) (with_envs envs p))) (\<lambda>_. give (envs ! idx)))) (\<lambda>_. ?P) s"
    if inv: "?P s" "view s (prj_Name p) = Some p" "distinct (map pe_Name (prj_envs p))" for p s
  proof (cases "indexOfEnv p envName")
    case None
    with inv show ?thesis by (simp add: wp_simps)
  next
    case (Some idx)
    have at: "idx < length (prj_envs p)" "pe_Name (prj_envs p ! idx) = envName"
      using position_Some [of "\<lambda>e. pe_Name e = envName" "prj_envs p" idx] Some by (simp_all add: indexOfEnv_def prj_envs_def)
    have "distinct (map pe_Name (patch_env preq idx (prj_envs p)))"
      if free: "\<not> (renames preq envName \<and> (\<exists>d. indexOfEnv p (new_name preq) = Some d \<and> d \<noteq> idx))"
    proof (rule distinct_patch [OF at(1) inv(3)])
      fix nm j assume nm: "ppr_Name preq = Some nm" and j: "j < length (prj_envs p)" "j \<noteq> idx"
      show "pe_Name (prj_envs p ! j) \<noteq> nm"
      proof
        assume eq: "pe_Name (prj_envs p ! j) = nm"
        with inv(3) j at have "nm \<noteq> envName" by (auto simp: distinct_conv_nth)
        with nm free have "indexOfEnv p nm = None \<or> indexOfEnv p nm = Some idx"
          by (cases "indexOfEnv p nm") (auto simp: renames_def new_name_def)
        moreover have "indexOfEnv p nm \<noteq> None"
          using eq j position_None [of "\<lambda>e. pe_Name e = nm" "prj_envs p"] by (auto simp: indexOfEnv_def prj_envs_def)
        moreover have "indexOfEnv p nm \<noteq> Some idx"
          using position_Some [of "\<lambda>e. pe_Name e = nm" "prj_envs p" idx] at \<open>nm \<noteq> envName\<close> by (auto simp: indexOfEnv_def prj_envs_def)
        ultimately show False by blast
      qed
    qed
    with Some inv show ?thesis
      by (auto simp only: option.case Let_def intro!: wp_checkI [where P = ?P] upd)
  qed
  then show "keeps ?P (updateProjectEnvironment S R n envName preq)"
    unfolding updateProjectEnvironment_def
    by (intro keeps_RetryOnConflict r fresh_rest [OF env])
qed

lemma reads_keep_inv:
  assumes env: "projects_env S R clientset ok view"
  shows "keeps (envs_inv ok view) (r_Get (sv_Projects S) n)" and "keeps (envs_inv ok view) (r_List (sv_Projects S) ns ls)"
proof -
  have q: "quiet project_kind (sv_Projects S) ok view" using env by (simp add: projects_env_def)
  show "keeps (envs_inv ok view) (r_Get (sv_Projects S) n)"
    by (rule keepsI_wp, unfold envs_inv_def) (auto intro!: quiet_get [OF q])
  show "keeps (envs_inv ok view) (r_List (sv_Projects S) ns ls)"
    by (rule keepsI_wp, unfold envs_inv_def) (auto intro!: quiet_list [OF q])
qed

lemma keeps_write_app [keeps_intros]: "leaves (sv_Apps S) P \<Longrightarrow> keeps P (write_app n S ns appName change)"
  by (induction n) (auto intro!: keeps_intros)

lemma client_of_keeps:
  assumes "leaves R P" "P s"
  shows "P (snd (kGet (client_of R) s k))" "P (snd (kCreate (client_of R) s ob))" "P (snd (kUpdate (client_of R) s ob))"
  using assms leaves_calls [OF assms(1)]
  by (auto simp: client_of_def keeps_def split: prod.splits sum.splits) (metis snd_conv)+

lemma of_call_keeps: "(\<And>s. P s \<Longrightarrow> P (snd (c s))) \<Longrightarrow> keeps P (of_call c)"
  by (auto simp: keeps_def of_call_def split: prod.splits option.splits) (metis snd_conv)+

lemma apply_attempt_keeps:
  assumes "\<And>s k. P s \<Longrightarrow> P (snd (kGet C s k))" "\<And>s ob. P s \<Longrightarrow> P (snd (kCreate C s ob))" "\<And>s ob. P s \<Longrightarrow> P (snd (kUpdate C s ob))"
    and "P s"
  shows "P (snd (apply_attempt C ns name labels mutate s))"
  using assms by (auto simp: apply_attempt_def write_desired_def Let_def split: prod.splits sum.splits option.splits) (metis snd_conv)+

lemma keeps_cloneAppEnvSecret [keeps_intros]:
  assumes "leaves (sv_Secrets S) P" "retries (rt_call R)"
  shows "keeps P (cloneAppEnvSecret S R appName src tgt)"
proof -
  let ?C = "client_of (sv_Secrets S)"
  note ck = client_of_keeps [OF assms(1)]
  have ex: "keeps P (SecretExists ?C ns n)" for ns n
    using ck(1) by (auto simp: keeps_def SecretExists_def split: prod.splits sum.splits) (metis snd_conv)+
  have get: "keeps P (store_Get ?C ns n)" for ns n
    using ck(1) by (auto simp: keeps_def store_Get_def getSecret_def split: prod.splits sum.splits) (metis snd_conv)+
  have set: "P (snd (store_Set ?C (rt_call R) ns n vars [] s))" if "P s" for ns n vars s
  proof -
    have "P (snd (rt_call R f s))" if "\<And>s. P s \<Longrightarrow> P (snd (f s))" for f
      by (rule retry_keeps [where P = P, OF assms(2) \<open>P s\<close>]) (metis that snd_conv)
    note this [OF apply_attempt_keeps [OF ck]]
    with that show ?thesis by (auto simp: store_Set_def validated_def upsertSecret_def applySecret_def split: option.splits)
  qed
  show ?thesis
    unfolding cloneAppEnvSecret_def Let_def by (intro keeps_intros ex get of_call_keeps set)
qed

text \<open>The parts of the handlers that leave projects alone keep whatever those calls keep.\<close>

lemma keeps_handler_parts:
  assumes "others_leave S clientset P"
  shows "keeps P (authorize S rq res action)" "keeps P (recordActivity S rq project a kind n msg actor)"
    "keeps P (decoded body)" "keeps P (valid_or_400 txt)"
  using assms unfolding others_leave_def authorize_def recordActivity_def decoded_def valid_or_400_def
  by (auto intro!: keeps_intros)

lemma ns_parts_keep:
  assumes "others_leave S clientset P" "retries (rt_unit R)"
  shows "keeps P (ensureProjectEnvNamespace S R project envName active)" "keeps P (undo_namespace S project envName rep)"
proof -
  have l: "leaves (sv_Namespaces S) P" "leaves (sv_RoleBindings S) P" "keeps P (sv_WaitWritable S ns)" for ns
    using assms(1) by (simp_all add: others_leave_def)
  show "keeps P (ensureProjectEnvNamespace S R project envName active)"
    unfolding ensureProjectEnvNamespace_def ensureEnvNamespaceObject_def ns_attempt_def EnsureWriteBinding_def Let_def
    by (intro keeps_intros assms(2) l)
  show "keeps P (undo_namespace S project envName rep)"
    unfolding undo_namespace_def deleteProjectEnvNamespace_def by (intro keeps_intros l)
qed

lemma app_parts_keep:
  assumes "others_leave S clientset P" "retries (rt_unit R)" "retries (rt_call R)"
  shows "keeps P (cloneCustomSecrets S sourceNs targetNs)" "keeps P (renameAppOverrides S R projectName ns oldName newName)"
    "keeps P (pokeProjectAppsForReconcile S ns)" "keeps P (stripAppEnvOverrides S R ns envName)"
    "keeps P (cloneAppOverrides S R clientset projectName ns sourceName targetName)"
proof -
  have l: "leaves (sv_Apps S) P" "leaves (sv_Secrets S) P" and live: "clientset = Some live \<Longrightarrow> keeps P (live a b)" for live a b
    using assms(1) by (simp_all add: others_leave_def)
  note k = keeps_intros l assms
  show "keeps P (cloneCustomSecrets S sourceNs targetNs)"
    unfolding cloneCustomSecrets_def copy_custom_secret_def by (intro k)
  show "keeps P (renameAppOverrides S R projectName ns oldName newName)"
    unfolding renameAppOverrides_def renameEnvOnApp_def by (intro k)
  show "keeps P (pokeProjectAppsForReconcile S ns)"
    unfolding pokeProjectAppsForReconcile_def pokeAppForReconcile_def by (intro k)
  show "keeps P (stripAppEnvOverrides S R ns envName)"
    unfolding stripAppEnvOverrides_def strip_override_def Let_def by (intro k)
  have "keeps P (store_Get (client_of (sv_Secrets S)) a b)" for a b
    using client_of_keeps(1) [OF l(2)]
    by (auto simp: keeps_def store_Get_def getSecret_def split: prod.splits sum.splits) (metis snd_conv)+
  then have "keeps P (source_vars S clientset a b)" for a b
    using live unfolding source_vars_def Let_def by (cases clientset) (auto intro!: keeps_intros)
  then show "keeps P (cloneAppOverrides S R clientset projectName ns sourceName targetName)"
    unfolding cloneAppOverrides_def cloneEnvToApp_def Let_def by (intro k)
qed


lemma lookup_keeps: "projects_env S R clientset ok view \<Longrightarrow> keeps (envs_inv ok view) (lookupProject S n)"
  unfolding lookupProject_def by (intro keeps_intros reads_keep_inv)

lemma readable_keeps:
  assumes "projects_env S R clientset ok view" "leaves (sv_Members S) (envs_inv ok view)"
  shows "keeps (envs_inv ok view) (readableProjects S rq)"
proof -
  have "keeps (envs_inv ok view) (sv_Authorize S p r a)" for p r a
    using others_keep_inv [OF assms(1)] by (simp add: others_leave_def)
  then have "keeps (envs_inv ok view) (readable_loop S pr ms ps)" for pr ms ps
    by (induction ps) (auto intro!: keeps_intros split: option.split)
  then show ?thesis
    unfolding readableProjects_def by (intro keeps_intros reads_keep_inv [OF assms(1)] assms(2))
qed

lemma patch_project_envs [simp]: "ps_Environments (patch_project req sp) = ps_Environments sp"
  by (simp add: patch_project_def Let_def split: option.split)

lemma create_project_keeps:
  assumes env: "projects_env S R clientset ok view"
  shows "keeps (envs_inv ok view) (CreateProject S rq body)"
proof -
  have q: "quiet project_kind (sv_Projects S) ok view" using env by (simp add: projects_env_def)
  have create: "keeps (envs_inv ok view) (r_Create (sv_Projects S) (new_Project n an d
      (fresh_env DefaultProjectEnvironment 0 # (if b then [fresh_env ''staging'' 0] else []))))" (is "keeps _ (_ ?p)") for n an d b
  proof (rule keepsI_wp)
    fix s assume inv: "envs_inv ok view s"
    have "names_ok ((view s)(kd_key project_kind ?p \<mapsto> p1))" if "kd_same project_kind ?p p1" for p1
    proof -
      have "p1\<lparr>prj_Status := prj_Status ?p\<rparr> = ?p" using that by (simp add: project_kind_def)
      then have "prj_Spec (p1\<lparr>prj_Status := prj_Status ?p\<rparr>) = prj_Spec ?p" by simp
      then have "distinct (map pe_Name (prj_envs p1))"
        by (simp add: prj_envs_def new_Project_def fresh_env_def DefaultProjectEnvironment_def)
      then show ?thesis using inv by (auto simp: names_ok_def envs_inv_def ran_def)
    qed
    then show "wp (r_Create (sv_Projects S) ?p) (\<lambda>_. envs_inv ok view) s"
      by (intro quiet_create [OF q]) (use inv in \<open>auto simp: envs_inv_def\<close>)
  qed
  show ?thesis
    unfolding CreateProject_def Let_def
    by (intro keeps_intros create keeps_handler_parts [OF others_keep_inv [OF env]])
qed

lemma update_project_keeps:
  assumes env: "projects_env S R clientset ok view" and retry: "retries retry"
  shows "keeps (envs_inv ok view) (UpdateProject S retry rq n body)"
proof -
  have q: "quiet project_kind (sv_Projects S) ok view" using env by (simp add: projects_env_def)
  have upd: "wp (r_Update (sv_Projects S) (p\<lparr>prj_Spec := patch_project req (prj_Spec p)\<rparr>)) (\<lambda>_. envs_inv ok view) s"
    if inv: "envs_inv ok view s" and p: "view s n = Some p" for s req p
  proof -
    let ?p = "p\<lparr>prj_Spec := patch_project req (prj_Spec p)\<rparr>"
    have "names_ok ((view s)(kd_key project_kind ?p \<mapsto> p1))" if "kd_same project_kind ?p p1" for p1
    proof -
      have "p1\<lparr>prj_Status := prj_Status ?p\<rparr> = ?p" using that by (simp add: project_kind_def)
      then have "prj_Spec (p1\<lparr>prj_Status := prj_Status ?p\<rparr>) = prj_Spec ?p" by simp
      then have "prj_envs p1 = prj_envs p" by (simp add: prj_envs_def)
      then show ?thesis using inv p by (auto simp: names_ok_def envs_inv_def ran_def)
    qed
    then show ?thesis by (intro quiet_update [OF q]) (use inv in \<open>auto simp: envs_inv_def\<close>)
  qed
  have "keeps (envs_inv ok view) (andthen (r_Get (sv_Projects S) n) (\<lambda>fresh.
      andthen (r_Update (sv_Projects S) (fresh\<lparr>prj_Spec := patch_project req (prj_Spec fresh)\<rparr>)) (\<lambda>_. give ())))" for req
  proof (rule keepsI_wp)
    fix s assume inv: "envs_inv ok view s"
    show "wp (andthen (r_Get (sv_Projects S) n) (\<lambda>fresh.
      andthen (r_Update (sv_Projects S) (fresh\<lparr>prj_Spec := patch_project req (prj_Spec fresh)\<rparr>)) (\<lambda>_. give ()))) (\<lambda>_. envs_inv ok view) s"
      unfolding wp_andthen
      by (rule quiet_get [OF q])
         (use inv in \<open>auto simp: envs_inv_def on_value_def wp_simps split: sum.splits
            intro!: wp_mono [OF upd [unfolded envs_inv_def]]\<close>)
  qed
  note closure = this
  have "leaves (sv_Apps S) (envs_inv ok view)" using others_keep_inv [OF env] by (simp add: others_leave_def)
  then show ?thesis
    unfolding UpdateProject_def project_reply_def
    by (intro closure keeps_RetryOnConflict retry keeps_on_err keeps_handler_parts [OF others_keep_inv [OF env]] lookup_keeps [OF env] keeps_andthen)
       (auto intro: keeps_intros)
qed

lemma delete_project_keeps:
  assumes env: "projects_env S R clientset ok view"
  shows "keeps (envs_inv ok view) (DeleteProject S rq n)"
proof -
  have q: "quiet project_kind (sv_Projects S) ok view" using env by (simp add: projects_env_def)
  have "keeps (envs_inv ok view) (r_Delete (sv_Projects S) p)" for p
    by (rule keepsI_wp, rule quiet_delete [OF q]) (auto simp: envs_inv_def names_ok_def ran_def split: if_splits)
  then show ?thesis
    unfolding DeleteProject_def
    by (intro keeps_plain keeps_andthen keeps_on_err keeps_handler_parts [OF others_keep_inv [OF env]] lookup_keeps [OF env])
qed

lemma env_handlers_keep:
  assumes env: "projects_env S R clientset ok view"
  shows "keeps (envs_inv ok view) (CreateProjectEnvironment S R rq n creq)"
    and "keeps (envs_inv ok view) (UpdateProjectEnvironment S R rq n e preq)"
    and "keeps (envs_inv ok view) (DeleteProjectEnvironment S R rq n e)"
    and "keeps (envs_inv ok view) (CloneProjectEnvironment S R clientset terminating rq n e creq)"
proof -
  let ?P = "envs_inv ok view"
  have r: "retries (rt_unit R)" "retries (rt_call R)" using env by (simp_all add: projects_env_def)
  note o = others_keep_inv [OF env]
  note k = keeps_intros keeps_handler_parts [OF o] lookup_keeps [OF env] ns_parts_keep [OF o r(1)] app_parts_keep [OF o r] writes_keep [OF env]
  show "keeps ?P (CreateProjectEnvironment S R rq n creq)" unfolding CreateProjectEnvironment_def by (intro k)
  show "keeps ?P (UpdateProjectEnvironment S R rq n e preq)" unfolding UpdateProjectEnvironment_def prepare_rename_def by (intro k)
  show "keeps ?P (DeleteProjectEnvironment S R rq n e)" unfolding DeleteProjectEnvironment_def by (intro k)
  show "keeps ?P (CloneProjectEnvironment S R clientset terminating rq n e creq)" unfolding CloneProjectEnvironment_def by (intro k)
qed

text \<open>A request that may write projects, from one user or another.\<close>

inductive project_step ::
  "'s server \<Rightarrow> 's retrier \<Rightarrow> (string \<Rightarrow> string \<Rightarrow> ('s, kerr, secret) act) option \<Rightarrow> (gerr \<Rightarrow> bool) \<Rightarrow> 's \<Rightarrow> 's \<Rightarrow> bool"
  for S R clientset terminating where
  create: "CreateProject S rq body s = (r, s1) \<Longrightarrow> project_step S R clientset terminating s s1"
| update: "UpdateProject S (rt_unit R) rq n body s = (r, s1) \<Longrightarrow> project_step S R clientset terminating s s1"
| delete: "DeleteProject S rq n s = (r, s1) \<Longrightarrow> project_step S R clientset terminating s s1"
| create_env: "CreateProjectEnvironment S R rq n creq s = (r, s1) \<Longrightarrow> project_step S R clientset terminating s s1"
| update_env: "UpdateProjectEnvironment S R rq n e preq s = (r, s1) \<Longrightarrow> project_step S R clientset terminating s s1"
| delete_env: "DeleteProjectEnvironment S R rq n e s = (r, s1) \<Longrightarrow> project_step S R clientset terminating s s1"
| clone_env: "CloneProjectEnvironment S R clientset terminating rq n e creq s = (r, s1) \<Longrightarrow> project_step S R clientset terminating s s1"

lemma project_step_keeps:
  assumes "project_step S R clientset terminating s s1" "projects_env S R clientset ok view" "envs_inv ok view s"
  shows "envs_inv ok view s1"
proof -
  have r: "retries (rt_unit R)" using assms(2) by (simp add: projects_env_def)
  note k = create_project_keeps [OF assms(2)] update_project_keeps [OF assms(2) r] delete_project_keeps [OF assms(2)]
    env_handlers_keep [OF assms(2)]
  from assms(1) show ?thesis
    by (cases rule: project_step.cases) (auto dest: keepsD [OF k(1) assms(3)] keepsD [OF k(2) assms(3)] keepsD [OF k(3) assms(3)]
      keepsD [OF k(4) assms(3)] keepsD [OF k(5) assms(3)] keepsD [OF k(6) assms(3)] keepsD [OF k(7) assms(3)])
qed


section \<open>Examples\<close>

definition mem_retrier :: "world retrier" where
  "mem_retrier = \<lparr>rt_call = mem_retry, rt_unit = mem_retry, rt_env = mem_retry\<rparr>"

lemma mem_projects_env:
  "projects_env mem_server mem_retrier None (\<lambda>w. mem_keyed project_kind (w_Projects w)) (\<lambda>w. map_of (w_Projects w))"
proof -
  have q: "quiet project_kind mem_projects (\<lambda>w. mem_keyed project_kind (w_Projects w)) (\<lambda>w. map_of (w_Projects w))"
    by (rule mem_world_quiet)
  have "others_leave mem_server None (\<lambda>w. mem_keyed project_kind (w_Projects w) \<and> map_of (w_Projects w) = v)" for v
    unfolding others_leave_def mem_server_sel mem_apps_def mem_secrets_def mem_namespaces_def mem_bindings_def
    by (intro conjI allI mem_resource_leaves) (simp_all add: keeps_def native_authorize_def give_def)
  moreover have "wp (r_Get mem_projects n) (\<lambda>r w1. mem_keyed project_kind (w_Projects w1) \<and>
      map_of (w_Projects w1) = map_of (w_Projects w) \<and> (\<forall>p. r = Inr p \<longrightarrow> map_of (w_Projects w) n = Some p)) w"
    if "mem_keyed project_kind (w_Projects w)" for w n
    by (rule quiet_get [OF q that]) simp_all
  ultimately show ?thesis
    using q by (simp add: projects_env_def mem_retrier_def mem_retries)
qed

definition ex_world :: "ProjectEnvironment list \<Rightarrow> world" where
  "ex_world envs = empty_world\<lparr>w_Projects := [(''web'', with_envs envs ex_project)]\<rparr>"

definition ex_request :: request where
  "ex_request = \<lparr>rq_Principal = Some \<lparr>p_ID = ''r'', p_Email = ''r'', p_Role = RoleAdmin, p_PasswordGen = 0\<rparr>, rq_Authorization = []\<rparr>"

definition ex_create :: "world \<Rightarrow> world" where
  "ex_create w = snd (CreateProjectEnvironment mem_server mem_retrier ex_request ''web'' (Inr \<lparr>cer_Name = ''staging'', cer_DisplayOrder = 1\<rparr>) w)"

text \<open>
  Cloning (and renaming) undoes its namespace on every error, where creating spares it when the name is taken. When
  the cached project does not show an environment yet that is already there, the undo deletes the namespace
  of that environment, with everything in it.
\<close>

definition stale_server :: "world server" where
  \<comment> \<open>the cached project is as it was before \<open>staging\<close> was created\<close>
  "stale_server = mem_server\<lparr>sv_Projects := mem_projects\<lparr>r_Get := \<lambda>k s. (Inr (with_envs [fresh_env ''production'' 0] ex_project), s)\<rparr>\<rparr>"

lemma clone_conflict_deletes_namespace:
  "w_Namespaces (ex_create (ex_world [fresh_env ''production'' 0])) \<noteq> [] \<and>
   w_Namespaces (snd (CloneProjectEnvironment stale_server mem_retrier None (\<lambda>_. False) ex_request ''web'' ''production''
     (Inr \<lparr>cer_Name = ''staging'', cer_DisplayOrder = 1\<rparr>) (ex_create (ex_world [fresh_env ''production'' 0])))) = [] \<and>
   w_Namespaces (snd (CreateProjectEnvironment stale_server mem_retrier ex_request ''web''
     (Inr \<lparr>cer_Name = ''staging'', cer_DisplayOrder = 1\<rparr>) (ex_create (ex_world [fresh_env ''production'' 0])))) \<noteq> []"
  by code_simp

text \<open>
  The clone of an override is the override the preview controller makes, with the variables of the Secret added in plain
  text: an application that opted out of the source runs in the clone.
\<close>

lemma cloned_env_preview:
  "cloned_env tgt vars (find (\<lambda>e. env_Name e = src) (app_envs app)) =
     (cloneEnvironment src tgt app)\<lparr>env_Env := cloned_vars vars (find (\<lambda>e. env_Name e = src) (app_envs app))\<rparr>"
  by (simp add: cloned_env_def cloneEnvironment_def new_Environment_def app_envs_def Let_def split: option.split)

lemma find_at_end: "\<not> list_ex P xs \<Longrightarrow> P x \<Longrightarrow> find P (xs @ [x]) = Some x"
  by (induction xs) auto

lemma cloned_env_name: "env_Name (cloned_env tgt vars src) = tgt" "env_Enabled (cloned_env tgt vars src) = None"
  by (simp_all add: cloned_env_def new_Environment_def Let_def split: option.split)

lemma clone_participates: "clone_into src tgt vars app = Some app1 \<Longrightarrow> appParticipatesInEnv app1 tgt"
  by (auto simp: clone_into_def appParticipatesInEnv_def app_envs_def with_app_envs_def find_at_end cloned_env_name split: if_splits)

section \<open>Properties\<close>

text \<open>
  C27: The environments of every stored project have distinct names, over any sequence of requests that create, update or
  delete projects or create, rename, delete or clone environments, whichever of their calls fail and are retried. So the lookups
  by name (\<open>indexOfEnv\<close>, the environment lists of the resolvers) find the one environment that is meant.
\<close>

theorem project_env_names_distinct:
  assumes "projects_env S R clientset ok view" "ok s"
    and "\<And>n p. view s n = Some p \<Longrightarrow> distinct (map pe_Name (prj_envs p))"
    and "(project_step S R clientset terminating)\<^sup>*\<^sup>* s s1" "view s1 n = Some p"
  shows "distinct (map pe_Name (prj_envs p))"
proof -
  have "envs_inv ok view s1"
    using assms(4)
  proof (induction rule: rtranclp_induct)
    case base
    show ?case using assms(2,3) by (auto simp: envs_inv_def names_ok_def ran_def)
  next
    case (step s1 s2)
    then show ?case using project_step_keeps assms(1) by metis
  qed
  with assms(5) show ?thesis by (auto simp: envs_inv_def names_ok_def ran_def)
qed

theorem project_env_names_distinct_witness:
  "distinct (map pe_Name (prj_envs (the (map_of (w_Projects (ex_create (ex_world [fresh_env ''production'' 0]))) ''web''))))"
proof (rule project_env_names_distinct [OF mem_projects_env, where n = "''web''"])
  let ?w = "ex_world [fresh_env ''production'' 0]"
  show "mem_keyed project_kind (w_Projects ?w)"
    by (simp add: mem_keyed_def ex_world_def empty_world_def project_kind_def with_envs_def ex_project_def)
  show "distinct (map pe_Name (prj_envs p))" if "map_of (w_Projects ?w) n = Some p" for n p
    using that by (auto simp: ex_world_def empty_world_def with_envs_def prj_envs_def split: if_splits)
  show "(project_step mem_server mem_retrier None (\<lambda>_. False))\<^sup>*\<^sup>* ?w (ex_create ?w)"
    by (rule r_into_rtranclp) (metis project_step.create_env ex_create_def prod.collapse)
  show "map_of (w_Projects (ex_create ?w)) ''web'' = Some (the (map_of (w_Projects (ex_create ?w)) ''web''))"
    by code_simp
qed

end
