(* ===== verification/Auth.thy ===== *)
theory Auth
  imports Server SseTokens LoginLimit
begin

text \<open>
  Users and sessions: \<open>internal/auth/native.go\<close> and \<open>internal/auth/jwt.go\<close>.

  A user is a Secret of \<open>mortise-system\<close>. A session is a signed token that names the user and the generation of the
  password it was issued under; every request looks the user up again. \<open>auth\<close> holds the clients and, as
  parameters, bcrypt, the random generator and the token library: \<open>au_parse\<close> takes the key, issuer, audience, leeway
  and time and returns the claims of a token it accepts. Errors are \<open>gerr\<close>: \<open>Api\<close> wraps an error of the API server.

  \<open>signingKey\<close> calls itself when another instance created the key first. It is a partial function: \<open>None\<close> is a call that never returns,
  and \<open>pact\<close> is an act that may not return.
\<close>

section \<open>Acts that may not return\<close>

type_synonym ('s, 'e, 'a) pact = "'s \<Rightarrow> (('e + 'a) \<times> 's) option"

definition run_act :: "('s, 'e, 'a) act \<Rightarrow> ('s, 'e, 'a) pact" where "run_act m s = Some (m s)"

definition pthen :: "('s, 'e, 'a) pact \<Rightarrow> ('a \<Rightarrow> ('s, 'e, 'b) pact) \<Rightarrow> ('s, 'e, 'b) pact" where
  "pthen m k s = (case m s of None \<Rightarrow> None | Some (Inl e, s1) \<Rightarrow> Some (Inl e, s1) | Some (Inr a, s1) \<Rightarrow> k a s1)"

definition pon_err :: "('d \<Rightarrow> 'e) \<Rightarrow> ('s, 'd, 'a) pact \<Rightarrow> ('s, 'e, 'a) pact" where
  "pon_err f m s = (case m s of None \<Rightarrow> None | Some (Inl e, s1) \<Rightarrow> Some (Inl (f e), s1) | Some (Inr a, s1) \<Rightarrow> Some (Inr a, s1))"

section \<open>The provider\<close>

record claims =
  cl_sub :: string
  cl_email :: string
  cl_role :: string
  cl_pwd_gen :: int
  cl_iss :: string
  cl_aud :: string
  cl_iat :: int
  cl_exp :: int

record 's auth =
  au_Secrets :: "('s, nn, secret) resource"
  au_Uncached :: "(nn \<Rightarrow> ('s, kerr, secret) act) option"
  au_Live :: "(nn \<Rightarrow> ('s, kerr, secret) act) option"
    \<comment> \<open>the clientset, when the server has one with its configuration\<close>
  au_CreateSentinel :: "('s, kerr, unit) act"
    \<comment> \<open>the ConfigMap \<open>mortise-setup-complete\<close>\<close>
  au_DeleteSentinel :: "('s, kerr, unit) act"
  au_compare :: "string \<Rightarrow> string \<Rightarrow> 's \<Rightarrow> bool \<times> 's"
    \<comment> \<open>\<open>compareHashAndPassword\<close>: of a hash and a password\<close>
  au_dummyHash :: string
  au_hash :: "string \<Rightarrow> ('s, string, string) act"
    \<comment> \<open>\<open>bcrypt.GenerateFromPassword\<close>\<close>
  au_rand :: "nat \<Rightarrow> ('s, string, string) act"
  au_now :: "'s \<Rightarrow> int"
  au_sseTokens :: "'s \<Rightarrow> sseTokenStore"
  au_set_sseTokens :: "sseTokenStore \<Rightarrow> 's \<Rightarrow> 's"
  au_loginLimiter :: "'s \<Rightarrow> loginLimiter"
  au_set_loginLimiter :: "loginLimiter \<Rightarrow> 's \<Rightarrow> 's"
  au_sign :: "string \<Rightarrow> claims \<Rightarrow> string + string"
  au_parse :: "string \<Rightarrow> string \<Rightarrow> string \<Rightarrow> int \<Rightarrow> int \<Rightarrow> string \<Rightarrow> string + claims"

definition auth_namespace :: string where "auth_namespace = ''mortise-system''"
definition jwtSecretName :: string where "jwtSecretName = ''mortise-jwt-key''"
definition jwtSecretKey :: string where "jwtSecretKey = ''signing-key''"
definition jwtIssuer :: string where "jwtIssuer = ''mortise''"
definition jwtAudience :: string where "jwtAudience = ''mortise-api''"
definition tokenExpiry :: int where "tokenExpiry = 24 * 3600"
definition refreshWindow :: int where "refreshWindow = 7 * 24 * 3600"
definition inviteExpirySeconds :: int where "inviteExpirySeconds = 7 * 24 * 3600"
definition userLabelKey :: string where "userLabelKey = ''mortise.dev/user''"
definition inviteLabelKey :: string where "inviteLabelKey = ''mortise.dev/invite''"

definition ErrUserNotFound :: gerr where "ErrUserNotFound = Msg ''user not found''"
definition ErrPasswordChangeInvalidated :: gerr where
  "ErrPasswordChangeInvalidated = Msg ''session invalidated by password change''"

definition unix :: "int \<Rightarrow> int" where
  \<comment> \<open>seconds of a time in nanoseconds\<close>
  "unix t = t div 1000000000"

definition userSecretName :: "string \<Rightarrow> string" where "userSecretName email = ''user-'' @ hex_encode email"
definition inviteSecretName :: "string \<Rightarrow> string" where "inviteSecretName email = ''invite-'' @ hex_encode email"

definition user_key :: "string \<Rightarrow> nn" where "user_key email = (auth_namespace, userSecretName email)"

definition Role_of :: "string \<Rightarrow> Role" where
  "Role_of r = (if r = ''admin'' then RoleAdmin else if r = ''member'' then RoleMember else if r = ''viewer'' then RoleViewer else RoleOther r)"

fun Role_text :: "Role \<Rightarrow> string" where
  "Role_text RoleAdmin = ''admin''"
| "Role_text RoleMember = ''member''"
| "Role_text RoleViewer = ''viewer''"
| "Role_text (RoleOther r) = r"

section \<open>The generation of a password\<close>

definition Sscan_int :: "string \<Rightarrow> int" where
  \<comment> \<open>\<open>gen\<close> after \<open>fmt.Sscanf(raw, "%d", &gen)\<close>: leading blanks but no newline, a sign, digits within 64 bits\<close>
  "Sscan_int s =
     (let t = dropWhile (\<lambda>c. c \<in> set white_space \<and> c \<noteq> CHR 0x0A) s;
          neg = (t \<noteq> [] \<and> hd t = CHR ''-'');
          ds = takeWhile is_digit (if t \<noteq> [] \<and> (hd t = CHR ''-'' \<or> hd t = CHR ''+'') then tl t else t);
          n = (if neg then - int (read_nat 0 ds) else int (read_nat 0 ds))
      in if ds = [] \<or> n < - (2 ^ 63) \<or> n \<ge> 2 ^ 63 then 0 else n)"

definition passwordGenFromSecret :: "secret \<Rightarrow> int" where
  "passwordGenFromSecret sec = (case map_of (Sec_Data sec) ''password_gen'' of Some raw \<Rightarrow> Sscan_int raw | None \<Rightarrow> 0)"

definition next_gen :: "int \<Rightarrow> int" where
  \<comment> \<open>\<open>gen++\<close> on 64 bits\<close>
  "next_gen g = (if g = 2 ^ 63 - 1 then - (2 ^ 63) else g + 1)"

definition principalFromSecret :: "secret \<Rightarrow> Principal" where
  "principalFromSecret sec = \<lparr>p_ID = lookup_str (Sec_Data sec) ''email'', p_Email = lookup_str (Sec_Data sec) ''email'',
     p_Role = Role_of (lookup_str (Sec_Data sec) ''role''), p_PasswordGen = passwordGenFromSecret sec\<rparr>"

text \<open>What \<open>UpdatePassword\<close> writes is read back.\<close>

lemma show_nat_no_blank: "c \<in> set (show_nat n) \<Longrightarrow> c \<notin> set white_space" "c \<in> set (show_nat n) \<Longrightarrow> is_digit c"
  using digits_show_nat [of n] by (auto simp: list_all_iff is_digit_def less_eq_char_def white_space_def)

lemma digits_whole: "takeWhile is_digit (show_nat n) = show_nat n"
  using show_nat_no_blank(2) by (simp add: takeWhile_eq_all_conv)

lemma Sscan_show_nat:
  assumes "int n < 2 ^ 63"
  shows "Sscan_int (show_nat n) = int n"
proof -
  obtain c t where s: "show_nat n = c # t" using show_nat_not_Nil by (cases "show_nat n") auto
  then have c: "is_digit c" using show_nat_no_blank(2) [of c n] by simp
  then have "c \<notin> set white_space" "c \<noteq> CHR ''-''" "c \<noteq> CHR ''+''"
    by (auto simp: is_digit_def less_eq_char_def white_space_def)
  then have "dropWhile (\<lambda>c. c \<in> set white_space \<and> c \<noteq> CHR 0x0A) (show_nat n) = show_nat n"
      "hd (show_nat n) \<noteq> CHR ''-''" "hd (show_nat n) \<noteq> CHR ''+''"
    by (simp_all add: s)
  then show ?thesis
    using assms by (simp add: Sscan_int_def Let_def digits_whole)
qed

lemma Sscan_show_int:
  assumes "- (2 ^ 63) \<le> i" "i < 2 ^ 63"
  shows "Sscan_int (show_int i) = i"
proof (cases "i < 0")
  case True
  have "CHR ''-'' \<notin> set white_space" by (simp add: white_space_def)
  then show ?thesis
    using True assms by (simp add: Sscan_int_def show_int_def Let_def digits_whole)
next
  case False
  then show ?thesis using assms Sscan_show_nat [of "nat i"] by (simp add: show_int_def)
qed

lemma Sscan_range: "- (2 ^ 63) \<le> Sscan_int s" "Sscan_int s < 2 ^ 63"
  by (simp_all add: Sscan_int_def Let_def)

lemma gen_range: "- (2 ^ 63) \<le> passwordGenFromSecret sec" "passwordGenFromSecret sec < 2 ^ 63"
  using Sscan_range by (auto simp: passwordGenFromSecret_def split: option.split)

section \<open>The signing key\<close>

definition stored_key :: "secret \<Rightarrow> string option" where
  "stored_key sec = (case map_of (Sec_Data sec) jwtSecretKey of Some key \<Rightarrow> if key \<noteq> [] then Some key else None | None \<Rightarrow> None)"

definition key_secret :: "string \<Rightarrow> secret" where
  "key_secret key = \<lparr>Sec_Namespace = auth_namespace, Sec_Name = jwtSecretName, Sec_Labels = [], Sec_Annotations = [],
     Sec_Data = [(jwtSecretKey, key)], Sec_RV = []\<rparr>"

definition read_key :: "'s auth \<Rightarrow> ('s, gerr, string option) act" where
  \<comment> \<open>the first half of \<open>signingKey\<close>: \<open>None\<close> when it goes on to create a key\<close>
  "read_key A =
     outcome (r_Get (au_Secrets A) (auth_namespace, jwtSecretName)) (\<lambda>r. case r of
         Inr sec \<Rightarrow> give (stored_key sec)
       | Inl e \<Rightarrow> if e = NotFound then give None else stop (Api ''reading jwt key secret: '' e))"

definition create_key :: "'s auth \<Rightarrow> ('s, gerr, string option) act" where
  \<comment> \<open>the second half: \<open>None\<close> when the Secret is there already\<close>
  "create_key A =
     andthen (on_err (\<lambda>m. Msg (''generating signing key: '' @ m)) (au_rand A 64)) (\<lambda>key.
     outcome (r_Create (au_Secrets A) (key_secret key)) (\<lambda>r. case r of
         Inr _ \<Rightarrow> give (Some key)
       | Inl e \<Rightarrow> if e = AlreadyExists then give None else stop (Api ''creating jwt key secret: '' e)))"

partial_function (option) signingKey :: "'s auth \<Rightarrow> 's \<Rightarrow> ((gerr + string) \<times> 's) option" where
  "signingKey A s =
     (case read_key A s of
        (Inl e, s1) \<Rightarrow> Some (Inl e, s1)
      | (Inr r, s1) \<Rightarrow>
          (case r of
             Some key \<Rightarrow> Some (Inr key, s1)
           | None \<Rightarrow>
               (case create_key A s1 of
                  (Inl e, s2) \<Rightarrow> Some (Inl e, s2)
                | (Inr r, s2) \<Rightarrow> (case r of Some key \<Rightarrow> Some (Inr key, s2) | None \<Rightarrow> signingKey A s2))))"

declare signingKey.simps [code]

section \<open>Tokens\<close>

definition claims_of :: "Principal \<Rightarrow> int \<Rightarrow> claims" where
  "claims_of p now = \<lparr>cl_sub = p_ID p, cl_email = p_Email p, cl_role = Role_text (p_Role p), cl_pwd_gen = p_PasswordGen p,
     cl_iss = jwtIssuer, cl_aud = jwtAudience, cl_iat = unix now, cl_exp = unix now + tokenExpiry\<rparr>"

definition GenerateToken :: "'s auth \<Rightarrow> Principal \<Rightarrow> ('s, gerr, string) pact" where
  "GenerateToken A p =
     pthen (signingKey A) (\<lambda>key. run_act (andthen (look (au_now A)) (\<lambda>now.
       case au_sign A key (claims_of p now) of Inl m \<Rightarrow> stop (Msg m) | Inr token \<Rightarrow> give token)))"

definition principal_of_claims :: "claims \<Rightarrow> Principal" where
  "principal_of_claims c = \<lparr>p_ID = cl_sub c, p_Email = cl_email c, p_Role = Role_of (cl_role c), p_PasswordGen = cl_pwd_gen c\<rparr>"

definition validate_token :: "'s auth \<Rightarrow> int \<Rightarrow> string \<Rightarrow> string \<Rightarrow> ('s, gerr, Principal \<times> int) pact" where
  \<comment> \<open>what the two validations share: the leeway and the text of the error differ\<close>
  "validate_token A leeway what token =
     pthen (signingKey A) (\<lambda>key. run_act (andthen (look (au_now A)) (\<lambda>now.
       case au_parse A key jwtIssuer jwtAudience leeway now token of
         Inl m \<Rightarrow> stop (Msg (what @ m))
       | Inr c \<Rightarrow> give (principal_of_claims c, cl_pwd_gen c))))"

definition ValidateToken :: "'s auth \<Rightarrow> string \<Rightarrow> ('s, gerr, Principal \<times> int) pact" where
  "ValidateToken A = validate_token A 0 ''invalid token: ''"

definition ValidateTokenForRefresh :: "'s auth \<Rightarrow> string \<Rightarrow> ('s, gerr, Principal \<times> int) pact" where
  "ValidateTokenForRefresh A = validate_token A refreshWindow ''token not eligible for refresh: ''"

section \<open>Users\<close>

definition read_user :: "'s auth \<Rightarrow> string \<Rightarrow> ('s, kerr, secret) act" where
  \<comment> \<open>through the cache, and directly when it has no such user\<close>
  "read_user A email =
     outcome (r_Get (au_Secrets A) (user_key email)) (\<lambda>r. case r of
         Inr sec \<Rightarrow> give sec
       | Inl e \<Rightarrow> (case (e, au_Uncached A) of
             (NotFound, Some uncached) \<Rightarrow> uncached (user_key email)
           | _ \<Rightarrow> stop e))"

definition compared :: "'s auth \<Rightarrow> string \<Rightarrow> string \<Rightarrow> ('s, gerr, unit) act" where
  "compared A hash password s = (case au_compare A hash password s of (b, s1) \<Rightarrow> check b (Msg ''invalid credentials'') s1)"

definition spend_compare :: "'s auth \<Rightarrow> string \<Rightarrow> ('s, gerr, 'a) act" where
  \<comment> \<open>the path of an unknown user\<close>
  "spend_compare A password s = (case au_compare A (au_dummyHash A) password s of (_, s1) \<Rightarrow> (Inl (Msg ''invalid credentials''), s1))"

definition Authenticate :: "'s auth \<Rightarrow> string \<Rightarrow> string \<Rightarrow> ('s, gerr, Principal) act" where
  "Authenticate A email password =
     outcome (read_user A email) (\<lambda>r. case r of
         Inl e \<Rightarrow> if e = NotFound then spend_compare A password else stop (Api ''reading user secret: '' e)
       | Inr sec \<Rightarrow> andthen (compared A (lookup_str (Sec_Data sec) ''password_hash'') password) (\<lambda>_. give (principalFromSecret sec)))"

definition VerifyPassword :: "'s auth \<Rightarrow> string \<Rightarrow> string \<Rightarrow> ('s, gerr, unit) act" where
  "VerifyPassword A email password =
     outcome (r_Get (au_Secrets A) (user_key email)) (\<lambda>r. case r of
         Inl e \<Rightarrow> if e = NotFound then spend_compare A password else stop (Api ''reading user secret: '' e)
       | Inr sec \<Rightarrow> compared A (lookup_str (Sec_Data sec) ''password_hash'') password)"

definition current_of :: "int \<Rightarrow> kerr + secret \<Rightarrow> ('s, gerr, Principal) act" where
  "current_of tokenGen r = (case r of
       Inl e \<Rightarrow> stop (if e = NotFound then ErrUserNotFound else Api ''reading user secret: '' e)
     | Inr sec \<Rightarrow> if tokenGen < passwordGenFromSecret sec then stop ErrPasswordChangeInvalidated else give (principalFromSecret sec))"

definition CurrentPrincipal :: "'s auth \<Rightarrow> string \<Rightarrow> int \<Rightarrow> ('s, gerr, Principal) act" where
  "CurrentPrincipal A email tokenGen = outcome (r_Get (au_Secrets A) (user_key email)) (current_of tokenGen)"

definition CurrentPrincipalLive :: "(nn \<Rightarrow> ('s, kerr, secret) act) \<Rightarrow> string \<Rightarrow> int \<Rightarrow> ('s, gerr, Principal) act" where
  "CurrentPrincipalLive live email tokenGen = outcome (live (user_key email)) (current_of tokenGen)"

definition CheckPasswordGen :: "'s auth \<Rightarrow> string \<Rightarrow> int \<Rightarrow> ('s, gerr, unit) act" where
  "CheckPasswordGen A email tokenGen = andthen (CurrentPrincipal A email tokenGen) (\<lambda>_. give ())"

definition session_Principal :: "'s auth \<Rightarrow> string \<Rightarrow> ('s, gerr, Principal) pact" where
  \<comment> \<open>the method \<open>Principal\<close>\<close>
  "session_Principal A session =
     pthen (ValidateToken A session) (\<lambda>(pr, tokenGen). run_act (CurrentPrincipal A (p_Email pr) tokenGen))"

record User =
  us_ID :: string
  us_Email :: string
  us_Role :: Role

definition user_of :: "secret \<Rightarrow> User" where
  "user_of s = \<lparr>us_ID = lookup_str (Sec_Data s) ''email'', us_Email = lookup_str (Sec_Data s) ''email'',
     us_Role = Role_of (lookup_str (Sec_Data s) ''role'')\<rparr>"

definition native_ListUsers :: "'s auth \<Rightarrow> ('s, gerr, User list) act" where
  "native_ListUsers A =
     andthen (on_err (Api ''listing user secrets: '') (r_List (au_Secrets A) auth_namespace [(userLabelKey, ''true'')])) (\<lambda>secrets.
       give (map user_of secrets))"

definition user_secret :: "string \<Rightarrow> string \<Rightarrow> Role \<Rightarrow> secret" where
  "user_secret email hash role = \<lparr>Sec_Namespace = auth_namespace, Sec_Name = userSecretName email,
     Sec_Labels = [(userLabelKey, ''true'')], Sec_Annotations = [],
     Sec_Data = [(''email'', email), (''password_hash'', hash), (''role'', Role_text role), (''password_gen'', ''0'')], Sec_RV = []\<rparr>"

definition native_CreateUser :: "'s auth \<Rightarrow> string \<Rightarrow> string \<Rightarrow> Role \<Rightarrow> ('s, gerr, unit) act" where
  "native_CreateUser A email password role =
     andthen (check (\<not> length password < 8) (Msg ''password must be at least 8 characters'')) (\<lambda>_.
     andthen (on_err (\<lambda>m. Msg (''hashing password: '' @ m)) (au_hash A password)) (\<lambda>hash.
     andthen (on_err (Api ''creating user secret: '') (r_Create (au_Secrets A) (user_secret email hash role))) (\<lambda>_. give ())))"

definition bare_user :: "string \<Rightarrow> secret" where
  \<comment> \<open>the object \<open>RevokeUser\<close> deletes by its name\<close>
  "bare_user email = \<lparr>Sec_Namespace = auth_namespace, Sec_Name = userSecretName email, Sec_Labels = [], Sec_Annotations = [],
     Sec_Data = [], Sec_RV = []\<rparr>"

definition RevokeUser :: "'s auth \<Rightarrow> string \<Rightarrow> ('s, gerr, unit) act" where
  "RevokeUser A userID =
     on_err (\<lambda>e. if e = NotFound then Msg (''user not found: '' @ userID) else Api ''deleting user secret: '' e)
       (r_Delete (au_Secrets A) (bare_user userID))"

text \<open>A Secret without data is a nil map in the code, and writing to it panics: the request ends with nothing written.\<close>

definition nil_map :: gerr where "nil_map = Msg ''assignment to entry in nil map''"

definition new_password :: "string \<Rightarrow> secret \<Rightarrow> secret" where
  "new_password hash sec = sec\<lparr>Sec_Data := AList.update ''password_gen'' (show_int (next_gen (passwordGenFromSecret sec)))
     (AList.update ''password_hash'' hash (Sec_Data sec))\<rparr>"

definition UpdatePassword :: "'s auth \<Rightarrow> string \<Rightarrow> string \<Rightarrow> ('s, gerr, unit) act" where
  "UpdatePassword A email newPassword =
     andthen (check (\<not> length newPassword < 8) (Msg ''password must be at least 8 characters'')) (\<lambda>_.
     andthen (on_err (\<lambda>e. if e = NotFound then Msg ''user not found or password could not be updated'' else Api ''reading user secret: '' e)
       (r_Get (au_Secrets A) (user_key email))) (\<lambda>sec.
     andthen (on_err (\<lambda>m. Msg (''hashing password: '' @ m)) (au_hash A newPassword)) (\<lambda>hash.
     andthen (check (Sec_Data sec \<noteq> []) nil_map) (\<lambda>_.
     andthen (on_err (Api ''updating user secret: '') (r_Update (au_Secrets A) (new_password hash sec))) (\<lambda>_. give ())))))"

lemma new_password_gen: "passwordGenFromSecret (new_password hash sec) = next_gen (passwordGenFromSecret sec)"
  using gen_range [of sec]
  by (auto simp: new_password_def passwordGenFromSecret_def [of "sec\<lparr>Sec_Data := _\<rparr>"] update_conv' next_gen_def Sscan_show_int)

record InviteLink =
  il_URL :: string
  il_ExpiresAt :: int

definition invite_secret :: "string \<Rightarrow> Role \<Rightarrow> string \<Rightarrow> int \<Rightarrow> secret" where
  "invite_secret email role inviteToken expires = \<lparr>Sec_Namespace = auth_namespace, Sec_Name = inviteSecretName email,
     Sec_Labels = [(inviteLabelKey, ''true'')], Sec_Annotations = [],
     Sec_Data = [(''email'', email), (''role'', Role_text role), (''token'', inviteToken), (''expires_at'', show_int expires)], Sec_RV = []\<rparr>"

definition InviteUser :: "'s auth \<Rightarrow> string \<Rightarrow> Role \<Rightarrow> ('s, gerr, InviteLink) act" where
  "InviteUser A email role =
     andthen (on_err (\<lambda>m. Msg (''generating invite token: '' @ m)) (au_rand A 32)) (\<lambda>token.
     andthen (look (\<lambda>s. unix (au_now A s) + inviteExpirySeconds)) (\<lambda>expires.
     andthen (on_err (Api ''creating invite secret: '') (r_Create (au_Secrets A) (invite_secret email role (hex_encode token) expires))) (\<lambda>_.
       give \<lparr>il_URL = ''/invite?token='' @ hex_encode token, il_ExpiresAt = expires\<rparr>)))"

section \<open>Preconditions of acts that may not return\<close>

definition pwp :: "('s, 'e, 'a) pact \<Rightarrow> ('e + 'a \<Rightarrow> 's \<Rightarrow> bool) \<Rightarrow> 's \<Rightarrow> bool" where
  \<comment> \<open>if the act returns, the postcondition holds\<close>
  "pwp m Q s \<longleftrightarrow> (\<forall>r s1. m s = Some (r, s1) \<longrightarrow> Q r s1)"

definition returns :: "('s, 'e, 'a) pact \<Rightarrow> 's \<Rightarrow> bool" where
  "returns m s \<longleftrightarrow> (\<exists>r s1. m s = Some (r, s1))"

lemma pwp_run_act [wp_simps]: "pwp (run_act m) Q s = wp m Q s"
  by (simp add: pwp_def run_act_def wp_def split: prod.splits)

lemma pwp_pthen [wp_simps]: "pwp (pthen m k) Q s = pwp m (on_value (\<lambda>a. pwp (k a) Q) Q) s"
  by (fastforce simp: pwp_def pthen_def on_value_def split: option.splits prod.splits sum.splits)

lemma pwp_pon_err [wp_simps]: "pwp (pon_err f m) Q s = pwp m (\<lambda>r. Q (map_sum f id r)) s"
  by (fastforce simp: pwp_def pon_err_def split: option.splits prod.splits sum.splits)

lemma pwp_if [wp_simps]: "pwp (if b then m1 else m2) Q s = (if b then pwp m1 Q s else pwp m2 Q s)"
  by simp

lemma pwp_mono: "pwp m Q s \<Longrightarrow> (\<And>r s1. Q r s1 \<Longrightarrow> Q' r s1) \<Longrightarrow> pwp m Q' s"
  by (simp add: pwp_def)

lemma pwpD: "pwp m Q s \<Longrightarrow> m s = Some (r, s1) \<Longrightarrow> Q r s1"
  by (simp add: pwp_def)

lemma returns_run_act [simp]: "returns (run_act m) s"
  by (cases "m s") (simp add: returns_def run_act_def)

lemma returns_pthen: "returns (pthen m k) s \<longleftrightarrow> returns m s \<and> (\<forall>a s1. m s = Some (Inr a, s1) \<longrightarrow> returns (k a) s1)"
  unfolding returns_def pthen_def by (auto split: option.splits prod.splits sum.splits)

lemma returns_pon_err: "returns (pon_err f m) s \<longleftrightarrow> returns m s"
  unfolding returns_def pon_err_def by (auto split: option.splits prod.splits sum.splits)

text \<open>The relation a whole act keeps to its start: reflexive, transitive, and kept by both halves of an attempt.\<close>

lemma signingKey_keeps:
  assumes "signingKey A s = Some rs" "I s"
    and "\<And>s. I s \<Longrightarrow> wp (read_key A) (\<lambda>_. I) s" "\<And>s. I s \<Longrightarrow> wp (create_key A) (\<lambda>_. I) s"
  shows "I (snd rs)"
proof -
  have "B = A \<longrightarrow> I t \<longrightarrow> I (snd rs)" if "signingKey B t = Some rs" for B t rs
  proof (rule signingKey.raw_induct [OF _ that, of "\<lambda>B t rs. B = A \<longrightarrow> I t \<longrightarrow> I (snd rs)"])
    fix f B t rs
    assume f: "\<And>B t rs. f B t = Some rs \<Longrightarrow> B = A \<longrightarrow> I t \<longrightarrow> I (snd rs)"
      and body: "(case read_key B t of
        (Inl e, s1) \<Rightarrow> Some (Inl e, s1)
      | (Inr r, s1) \<Rightarrow> (case r of Some key \<Rightarrow> Some (Inr key, s1)
          | None \<Rightarrow> (case create_key B s1 of
              (Inl e, s2) \<Rightarrow> Some (Inl e, s2)
            | (Inr r, s2) \<Rightarrow> (case r of Some key \<Rightarrow> Some (Inr key, s2) | None \<Rightarrow> f B s2)))) = Some rs"
    show "B = A \<longrightarrow> I t \<longrightarrow> I (snd rs)"
    proof (intro impI)
      assume "B = A" "I t"
      have read: "I s1" if "read_key A t = (r, s1)" for r s1 using wpD [OF assms(3) [OF \<open>I t\<close>] that] .
      have create: "I s2" if "I s1" "create_key A s1 = (r, s2)" for s1 r s2 using wpD [OF assms(4) [OF that(1)] that(2)] .
      have again: "I (snd rs)" if "f A s2 = Some rs" "I s2" for s2 using f [OF that(1)] that(2) by blast
      from body \<open>B = A\<close> show "I (snd rs)"
        by (auto split: prod.splits sum.splits option.splits intro: again create dest: read)
    qed
  qed
  with assms(1,2) show ?thesis by blast
qed

lemma pwp_signingKey:
  assumes "I s" "\<And>s. I s \<Longrightarrow> wp (read_key A) (\<lambda>_. I) s" "\<And>s. I s \<Longrightarrow> wp (create_key A) (\<lambda>_. I) s"
  shows "pwp (signingKey A) (\<lambda>_. I) s"
  using signingKey_keeps [where I = I, OF _ assms] by (fastforce simp: pwp_def)

section \<open>Obtaining the key\<close>

text \<open>
  \<open>signingKey\<close> retries as long as the Secret seems absent and turns out to be there. It returns when, once the Secret exists, it
  is seen and holds a key. \<open>stored\<close> says so of the API server as the instance sees it; other instances may create the
  Secret at any point.
\<close>

definition key_law :: "'s auth \<Rightarrow> ('s \<Rightarrow> bool) \<Rightarrow> ('s \<Rightarrow> bool) \<Rightarrow> bool" where
  "key_law A ok stored \<longleftrightarrow> (\<forall>s. ok s \<longrightarrow>
     wp (r_Get (au_Secrets A) (auth_namespace, jwtSecretName)) (\<lambda>r s1. ok s1 \<and>
       (stored s \<longrightarrow> r \<noteq> Inl NotFound \<and> (\<forall>sec. r = Inr sec \<longrightarrow> stored_key sec \<noteq> None))) s \<and>
     (\<forall>key. length key = 64 \<longrightarrow> wp (r_Create (au_Secrets A) (key_secret key)) (\<lambda>r s1. ok s1 \<and> (r = Inl AlreadyExists \<longrightarrow> stored s1)) s) \<and>
     wp (au_rand A 64) (\<lambda>r s1. ok s1 \<and> (\<forall>key. r = Inr key \<longrightarrow> length key = 64)) s)"

lemma read_key_law:
  assumes "key_law A ok stored" "ok s"
  shows "wp (read_key A) (\<lambda>r s1. ok s1 \<and> (stored s \<longrightarrow> r \<noteq> Inr None)) s"
proof -
  have "wp (r_Get (au_Secrets A) (auth_namespace, jwtSecretName)) (\<lambda>r s1. ok s1 \<and>
       (stored s \<longrightarrow> r \<noteq> Inl NotFound \<and> (\<forall>sec. r = Inr sec \<longrightarrow> stored_key sec \<noteq> None))) s"
    using assms by (simp add: key_law_def)
  then show ?thesis
    unfolding read_key_def wp_outcome by (rule wp_mono) (auto simp: wp_simps split: sum.splits)
qed

lemma create_key_law:
  assumes "key_law A ok stored" "ok s"
  shows "wp (create_key A) (\<lambda>r s1. ok s1 \<and> (r = Inr None \<longrightarrow> stored s1)) s"
proof -
  have create: "wp (r_Create (au_Secrets A) (key_secret key)) (\<lambda>r s1. ok s1 \<and> (r = Inl AlreadyExists \<longrightarrow> stored s1)) s1"
    if "ok s1" "length key = 64" for key s1 using that assms(1) by (simp add: key_law_def)
  have "wp (au_rand A 64) (\<lambda>r s1. ok s1 \<and> (\<forall>key. r = Inr key \<longrightarrow> length key = 64)) s" using assms by (simp add: key_law_def)
  then show ?thesis
    unfolding create_key_def wp_andthen wp_on_err wp_outcome
    by (rule wp_mono) (auto simp: on_value_def wp_simps intro!: wp_mono [OF create] split: sum.splits)
qed

lemma signingKey_stored:
  assumes "key_law A ok stored" "ok s" "stored s"
  shows "returns (signingKey A) s"
proof -
  obtain r s1 where r: "read_key A s = (r, s1)" by force
  then have "r \<noteq> Inr None" using wpD [OF read_key_law [OF assms(1,2)] r] assms(3) by simp
  with r show ?thesis
    unfolding returns_def by (subst signingKey.simps) (auto split: sum.splits option.splits)
qed

lemma signingKey_returns_law:
  assumes "key_law A ok stored" "ok s"
  shows "returns (signingKey A) s"
proof -
  obtain r s1 where r: "read_key A s = (r, s1)" by force
  obtain r2 s2 where r2: "create_key A s1 = (r2, s2)" by force
  have "ok s1" using wpD [OF read_key_law [OF assms] r] by simp
  then have c: "ok s2" "r2 = Inr None \<longrightarrow> stored s2" using wpD [OF create_key_law [OF assms(1)] r2] by simp_all
  show ?thesis
  proof (cases "r2 = Inr None")
    case True
    with c signingKey_stored [OF assms(1)] have "returns (signingKey A) s2" by simp
    with r r2 True show ?thesis
      unfolding returns_def by (subst signingKey.simps) (auto split: sum.splits option.splits)
  next
    case False
    with r r2 show ?thesis
      unfolding returns_def by (subst signingKey.simps) (auto split: sum.splits option.splits)
  qed
qed

end
