(* ===== verification/Users.thy ===== *)
theory Users
  imports Auth Holders
begin

text \<open>
  The middleware that attaches a principal to a request (\<open>internal/api/middleware.go\<close>) and the handlers that sign in and
  manage users (\<open>internal/api/auth.go\<close>, \<open>users.go\<close>, \<open>sse_tokens.go\<close>). The server has the native provider, so the branches for another
  one are not reached. A response that repeats the text of an error has the empty text here.
\<close>

section \<open>Middleware\<close>

definition bearer :: "request \<Rightarrow> ('s, 'b reply, string) act" where
  \<comment> \<open>the checks of the header that \<open>jwtAuthMiddleware\<close> and \<open>Refresh\<close> share\<close>
  "bearer rq =
     (let header = rq_Authorization rq
      in andthen (check (\<not> (header = [] \<or> \<not> has_prefix header ''Bearer '')) (ErrorReply 401 ''missing or invalid Authorization header'')) (\<lambda>_.
         let token = trim_prefix header ''Bearer ''
         in andthen (check (token \<noteq> []) (ErrorReply 401 ''empty bearer token'')) (\<lambda>_. give token)))"

definition with_principal :: "request \<Rightarrow> Principal \<Rightarrow> ('s, 'b reply, request) pact" where
  "with_principal rq p = run_act (give (rq\<lparr>rq_Principal := Some p\<rparr>))"

definition jwtAuthMiddleware :: "'s auth \<Rightarrow> request \<Rightarrow> ('s, 'b reply, request) pact" where
  \<comment> \<open>\<open>Inr\<close> is the request the next handler gets\<close>
  "jwtAuthMiddleware A rq =
     (if rq_Principal rq \<noteq> None then run_act (give rq)
      else pthen (run_act (bearer rq)) (\<lambda>token.
           pthen (pon_err (\<lambda>_. ErrorReply 401 ''invalid token'') (session_Principal A token)) (with_principal rq)))"

definition optionalJWTMiddleware :: "'s auth \<Rightarrow> request \<Rightarrow> ('s, 'b reply, request) pact" where
  "optionalJWTMiddleware A rq =
     (let header = rq_Authorization rq; token = trim_prefix header ''Bearer ''
      in if header \<noteq> [] \<and> has_prefix header ''Bearer '' \<and> token \<noteq> [] \<and> \<not> has_prefix token ''mrt_''
         then pthen (pon_err (\<lambda>_. ErrorReply 401 ''invalid token'') (session_Principal A token)) (with_principal rq)
         else run_act (give rq))"

definition revalidatePrincipal :: "'s auth \<Rightarrow> string \<Rightarrow> int \<Rightarrow> ('s, gerr, Principal) act" where
  "revalidatePrincipal A email tokenGen =
     (case au_Live A of Some live \<Rightarrow> CurrentPrincipalLive live email tokenGen | None \<Rightarrow> CurrentPrincipal A email tokenGen)"

definition redeem_sse :: "'s auth \<Rightarrow> string \<Rightarrow> ('s, 'b reply, sseTokenPrincipal) act" where
  "redeem_sse A tok s =
     (case Redeem (au_now A s) tok (au_sseTokens A s) of
        (None, st) \<Rightarrow> (Inl (ErrorReply 401 ''invalid or expired SSE token''), au_set_sseTokens A st s)
      | (Some p, st) \<Rightarrow> (Inr p, au_set_sseTokens A st s))"

definition sseAuthMiddleware :: "'s auth \<Rightarrow> string \<Rightarrow> request \<Rightarrow> ('s, 'b reply, request) act" where
  \<comment> \<open>\<open>tok\<close> is the query parameter \<open>token\<close>\<close>
  "sseAuthMiddleware A tok rq =
     (if rq_Authorization rq \<noteq> [] \<or> tok = [] then give rq
      else if has_prefix tok sseTokenPrefix
        then andthen (redeem_sse A tok) (\<lambda>redeemed.
             andthen (on_err (\<lambda>_. ErrorReply 401 ''invalid or expired SSE token'')
               (revalidatePrincipal A (stp_email redeemed) (stp_passwordGen redeemed))) (\<lambda>pr.
               give (rq\<lparr>rq_Principal := Some pr\<rparr>)))
      else stop (ErrorReply 401 ''invalid or expired SSE token''))"

section \<open>Signing in\<close>

record credentials =
  lr_Email :: string
  lr_Password :: string

record authResponse =
  ar_Token :: string
  ar_User :: Principal

definition internal_error :: "'e \<Rightarrow> 'b reply" where
  \<comment> \<open>\<open>writeJSON(w, 500, errorResponse{err.Error()})\<close>\<close>
  "internal_error e = ErrorReply 500 []"

definition Status :: "'s auth \<Rightarrow> ('s, bool) handler" where
  "Status A = andthen (on_err internal_error (native_ListUsers A)) (\<lambda>users. give (Reply 200 (users = [])))"

definition token_reply :: "'s auth \<Rightarrow> nat \<Rightarrow> Principal \<Rightarrow> ('s, authResponse reply, authResponse reply) pact" where
  \<comment> \<open>the common end of \<open>Setup\<close>, \<open>Refresh\<close> and \<open>Login\<close>\<close>
  "token_reply A status pr =
     pthen (pon_err internal_error (GenerateToken A pr)) (\<lambda>token.
       run_act (give (Reply status \<lparr>ar_Token = token, ar_User = pr\<rparr>)))"

definition claim_setup :: "'s auth \<Rightarrow> credentials \<Rightarrow> ('s, authResponse reply, unit) act" where
  \<comment> \<open>\<open>Setup\<close> up to the creation of the first user\<close>
  "claim_setup A req =
     andthen (check (lr_Email req \<noteq> [] \<and> lr_Password req \<noteq> []) (ErrorReply 400 ''email and password required'')) (\<lambda>_.
     andthen (check (\<not> length (lr_Password req) < 8) (ErrorReply 400 ''password must be at least 8 characters'')) (\<lambda>_.
     andthen (on_err (\<lambda>e. if e = AlreadyExists then ErrorReply 409 ''setup already complete'' else internal_error e) (au_CreateSentinel A)) (\<lambda>_.
     outcome (native_CreateUser A (lr_Email req) (lr_Password req) RoleAdmin) (\<lambda>r. case r of
         Inl err \<Rightarrow> outcome (au_DeleteSentinel A) (\<lambda>_.
           stop (if fault_kind err = AlreadyExists then ErrorReply 409 ''user already exists'' else internal_error err))
       | Inr _ \<Rightarrow> give ()))))"

definition Setup :: "'s auth \<Rightarrow> string + credentials \<Rightarrow> ('s, authResponse reply, authResponse reply) pact" where
  "Setup A body =
     pthen (run_act (case body of Inl _ \<Rightarrow> stop (ErrorReply 400 ''invalid JSON'') | Inr req \<Rightarrow> give req)) (\<lambda>req.
     pthen (run_act (claim_setup A req)) (\<lambda>_.
       token_reply A 201 \<lparr>p_ID = lr_Email req, p_Email = lr_Email req, p_Role = RoleAdmin, p_PasswordGen = 0\<rparr>))"

definition session_error :: "gerr \<Rightarrow> 'b reply" where
  "session_error err =
     (if err = ErrPasswordChangeInvalidated then ErrorReply 401 ''session invalidated by password change''
      else if err = ErrUserNotFound then ErrorReply 401 ''user no longer exists''
      else internal_error err)"

definition Refresh :: "'s auth \<Rightarrow> request \<Rightarrow> ('s, authResponse reply, authResponse reply) pact" where
  "Refresh A rq =
     pthen (run_act (bearer rq)) (\<lambda>token.
     pthen (pon_err (\<lambda>_. ErrorReply 401 ''token not eligible for refresh'') (ValidateTokenForRefresh A token)) (\<lambda>(pr, tokenGen).
     pthen (run_act (on_err session_error (revalidatePrincipal A (p_Email pr) tokenGen))) (token_reply A 200)))"

definition throttle :: "'s auth \<Rightarrow> string \<Rightarrow> ('s, 'b reply, unit) act" where
  \<comment> \<open>\<open>s.loginLimiter.allow(key)\<close>; the header \<open>Retry-After\<close> is left out\<close>
  "throttle A key s =
     (case allow (au_now A s) key (au_loginLimiter A s) of
        ((ok, _), l) \<Rightarrow> check ok (ErrorReply 429 ''too many login attempts; try again later'') (au_set_loginLimiter A l s))"

definition record_failure :: "'s auth \<Rightarrow> string \<Rightarrow> ('s, 'e, unit) act" where
  "record_failure A key = effect (\<lambda>s. au_set_loginLimiter A (recordFailure (au_now A s) key (au_loginLimiter A s)) s)"

definition record_success :: "'s auth \<Rightarrow> string \<Rightarrow> ('s, 'e, unit) act" where
  "record_success A key = effect (\<lambda>s. au_set_loginLimiter A (recordSuccess key (au_loginLimiter A s)) s)"

definition sign_in :: "'s auth \<Rightarrow> string \<Rightarrow> credentials \<Rightarrow> ('s, authResponse reply, Principal) act" where
  "sign_in A remoteAddr req =
     (let key = loginRateKey (lr_Email req) remoteAddr
      in andthen (throttle A key) (\<lambda>_.
         outcome (Authenticate A (lr_Email req) (lr_Password req)) (\<lambda>r. case r of
             Inl _ \<Rightarrow> andthen (record_failure A key) (\<lambda>_. stop (ErrorReply 401 ''invalid credentials''))
           | Inr pr \<Rightarrow> andthen (record_success A key) (\<lambda>_. give pr))))"

definition Login :: "'s auth \<Rightarrow> string \<Rightarrow> string + credentials \<Rightarrow> ('s, authResponse reply, authResponse reply) pact" where
  "Login A remoteAddr body =
     pthen (run_act (case body of Inl _ \<Rightarrow> stop (ErrorReply 400 ''invalid JSON'') | Inr req \<Rightarrow> give req)) (\<lambda>req.
     pthen (run_act (sign_in A remoteAddr req)) (token_reply A 200))"

definition issue_sse :: "'s auth \<Rightarrow> Principal \<Rightarrow> ('s, string reply, string) act" where
  "issue_sse A p =
     outcome (au_rand A sseTokenBytes) (\<lambda>raw s.
       case Issue (case raw of Inl _ \<Rightarrow> None | Inr bytes \<Rightarrow> Some bytes) (au_now A s) p (au_sseTokens A s) of
         (None, st) \<Rightarrow> (Inl (ErrorReply 500 ''failed to generate SSE token''), au_set_sseTokens A st s)
       | (Some token, st) \<Rightarrow> (Inr token, au_set_sseTokens A st s))"

definition IssueSSEToken :: "'s auth \<Rightarrow> request \<Rightarrow> ('s, string) handler" where
  "IssueSSEToken A rq =
     (case rq_Principal rq of
        None \<Rightarrow> stop (ErrorReply 401 ''authentication required'')
      | Some p \<Rightarrow>
          andthen (on_err session_error (revalidatePrincipal A (p_Email p) (p_PasswordGen p))) (\<lambda>revalidated.
          andthen (issue_sse A revalidated) (\<lambda>token. give (Reply 200 token))))"

section \<open>Managing users\<close>

record userResponse =
  ur_ID :: string
  ur_Email :: string
  ur_Role :: string

record createUserRequest =
  cur_Email :: string
  cur_Password :: string
  cur_Role :: string

definition validPlatformRole :: "string \<Rightarrow> bool" where
  "validPlatformRole role \<longleftrightarrow> Role_of role \<in> {RoleAdmin, RoleMember, RoleViewer}"

definition on_users :: Resource where
  \<comment> \<open>\<open>authz.Resource{Kind: "user"}\<close>\<close>
  "on_users = \<lparr>rs_Kind = ''user'', rs_Namespace = [], rs_Name = [], rs_Project = [], rs_Environment = []\<rparr>"

definition ListUsers :: "'s server \<Rightarrow> 's auth \<Rightarrow> request \<Rightarrow> ('s, userResponse list) handler" where
  "ListUsers S A rq =
     andthen (authorize S rq on_users ActionRead) (\<lambda>_.
     andthen (on_err internal_error (native_ListUsers A)) (\<lambda>users.
       give (Reply 200 (map (\<lambda>u. \<lparr>ur_ID = us_ID u, ur_Email = us_Email u, ur_Role = Role_text (us_Role u)\<rparr>) users))))"

definition CreateUser :: "'s server \<Rightarrow> 's auth \<Rightarrow> request \<Rightarrow> string + createUserRequest \<Rightarrow> ('s, userResponse) handler" where
  "CreateUser S A rq body =
     andthen (authorize S rq on_users ActionCreate) (\<lambda>_.
     andthen (decoded body) (\<lambda>req.
     andthen (check (cur_Email req \<noteq> [] \<and> cur_Password req \<noteq> []) (ErrorReply 400 ''email and password are required'')) (\<lambda>_.
     andthen (check (validPlatformRole (cur_Role req)) (ErrorReply 400 ''role must be admin, member, or viewer'')) (\<lambda>_.
     andthen (on_err (\<lambda>e. if fault_kind e = AlreadyExists then ErrorReply 409 ''user already exists'' else internal_error e)
       (native_CreateUser A (cur_Email req) (cur_Password req) (Role_of (cur_Role req)))) (\<lambda>_.
       give (Reply 201 \<lparr>ur_ID = cur_Email req, ur_Email = cur_Email req, ur_Role = cur_Role req\<rparr>))))))"

definition adminCount :: "User list \<Rightarrow> nat" where
  "adminCount users = length (filter (\<lambda>u. us_Role u = RoleAdmin) users)"

definition stored_role :: "secret \<Rightarrow> Role" where
  "stored_role sec = Role_of (lookup_str (Sec_Data sec) ''role'')"

definition update_role :: "'s auth \<Rightarrow> string \<Rightarrow> string \<Rightarrow> ('s, gerr, bool) act" where
  \<comment> \<open>the closure of \<open>UpdateUserRole\<close>: \<open>demotingLastAdmin\<close>\<close>
  "update_role A email role =
     andthen (on_err (Api []) (r_Get (au_Secrets A) (user_key email))) (\<lambda>sec.
       let wr = andthen (check (Sec_Data sec \<noteq> []) nil_map) (\<lambda>_.
                andthen (on_err (Api []) (r_Update (au_Secrets A) (sec\<lparr>Sec_Data := AList.update ''role'' role (Sec_Data sec)\<rparr>))) (\<lambda>_. give False))
       in if stored_role sec = RoleAdmin \<and> Role_of role \<noteq> RoleAdmin
          then andthen (native_ListUsers A) (\<lambda>users. if adminCount users \<le> 1 then give True else wr)
          else wr)"

definition UpdateUserRole ::
  "'s server \<Rightarrow> 's auth \<Rightarrow> (('s \<times> bool) call \<Rightarrow> ('s \<times> bool) call) \<Rightarrow> request \<Rightarrow> string \<Rightarrow> string + string \<Rightarrow> ('s, userResponse) handler" where
  "UpdateUserRole S A retry rq email body =
     andthen (authorize S rq on_users ActionUpdate) (\<lambda>_.
     andthen (check (email \<noteq> []) (ErrorReply 400 ''email is required'')) (\<lambda>_.
     andthen (decoded body) (\<lambda>role.
     andthen (check (validPlatformRole role) (ErrorReply 400 ''role must be admin, member, or viewer'')) (\<lambda>_.
     andthen (on_err (\<lambda>e. Fault (fault_kind e)) (RetryOnConflict retry False (update_role A email role))) (\<lambda>demotingLastAdmin.
     andthen (check (\<not> demotingLastAdmin) (ErrorReply 400 ''cannot demote the last platform admin'')) (\<lambda>_.
       give (Reply 200 \<lparr>ur_ID = email, ur_Email = email, ur_Role = role\<rparr>)))))))"

definition guard_last_admin :: "'s auth \<Rightarrow> string \<Rightarrow> ('s, 'b reply, unit) act" where
  "guard_last_admin A email =
     andthen (on_err internal_error (native_ListUsers A)) (\<lambda>users.
       let targetIsAdmin = list_ex (\<lambda>u. us_Role u = RoleAdmin \<and> (us_Email u = email \<or> us_ID u = email)) users
       in check (\<not> (targetIsAdmin \<and> adminCount users \<le> 1)) (ErrorReply 400 ''cannot delete the last platform admin''))"

definition DeleteUser :: "'s server \<Rightarrow> 's auth \<Rightarrow> request \<Rightarrow> string \<Rightarrow> ('s, unit) handler" where
  "DeleteUser S A rq email =
     andthen (authorize S rq on_users ActionDelete) (\<lambda>_.
     andthen (check (email \<noteq> []) (ErrorReply 400 ''email is required'')) (\<lambda>_.
     andthen (guard_last_admin A email) (\<lambda>_.
     andthen (on_err internal_error (RevokeUser A email)) (\<lambda>_. give (Reply 204 ())))))"

definition ResetUserPassword :: "'s server \<Rightarrow> 's auth \<Rightarrow> request \<Rightarrow> string \<Rightarrow> string + string \<Rightarrow> ('s, unit) handler" where
  "ResetUserPassword S A rq email body =
     andthen (authorize S rq on_users ActionUpdate) (\<lambda>_.
     andthen (check (email \<noteq> []) (ErrorReply 400 ''email is required'')) (\<lambda>_.
     andthen (decoded body) (\<lambda>password.
     andthen (check (password \<noteq> []) (ErrorReply 400 ''password is required'')) (\<lambda>_.
     andthen (on_err (\<lambda>_. ErrorReply 400 []) (UpdatePassword A email password)) (\<lambda>_. give (Reply 200 ()))))))"

definition ChangePassword :: "'s auth \<Rightarrow> request \<Rightarrow> string + string \<times> string \<Rightarrow> ('s, unit) handler" where
  \<comment> \<open>the body holds the current and the new password\<close>
  "ChangePassword A rq body =
     (case rq_Principal rq of
        None \<Rightarrow> stop (ErrorReply 401 ''not authenticated'')
      | Some pr \<Rightarrow>
          andthen (decoded body) (\<lambda>(current, new).
          andthen (check (current \<noteq> [] \<and> new \<noteq> []) (ErrorReply 400 ''current_password and new_password are required'')) (\<lambda>_.
          andthen (on_err (\<lambda>_. ErrorReply 401 ''current password is incorrect'') (VerifyPassword A (p_Email pr) current)) (\<lambda>_.
          andthen (on_err (\<lambda>_. ErrorReply 400 []) (UpdatePassword A (p_Email pr) new)) (\<lambda>_. give (Reply 200 ()))))))"

section \<open>What requests do to accounts\<close>

definition user_selector :: "string gomap" where "user_selector = [(userLabelKey, ''true'')]"

definition admins :: "(nn \<rightharpoonup> secret) \<Rightarrow> secret set" where
  "admins = holders secret_kind auth_namespace user_selector (\<lambda>sec. stored_role sec = RoleAdmin)"

definition email_in :: "secret \<Rightarrow> string" where "email_in sec = lookup_str (Sec_Data sec) ''email''"

definition accounts_ok :: "(nn \<rightharpoonup> secret) \<Rightarrow> bool" where
  \<comment> \<open>the Secret of a user holds the address it is named after\<close>
  "accounts_ok v \<longleftrightarrow> (\<forall>email sec. v (user_key email) = Some sec \<longrightarrow> email_in sec = email)"

definition grows :: "(nn \<rightharpoonup> secret) \<Rightarrow> (nn \<rightharpoonup> secret) \<Rightarrow> bool" where
  \<comment> \<open>Secrets are only added, and those of users are well formed\<close>
  "grows v v1 \<longleftrightarrow> (\<forall>k sec. v k = Some sec \<longrightarrow> v1 k = Some sec) \<and> (\<forall>email sec. v1 (user_key email) = Some sec \<longrightarrow> v (user_key email) = None \<longrightarrow> email_in sec = email)"

definition change :: "string option \<Rightarrow> (nn \<rightharpoonup> secret) \<Rightarrow> (nn \<rightharpoonup> secret) \<Rightarrow> bool" where
  \<comment> \<open>what a request may do: at most the account \<open>l\<close> goes, an administrator remains, generations only advance\<close>
  "change l v v1 \<longleftrightarrow> (accounts_ok v \<longrightarrow> accounts_ok v1 \<and> (admins v \<noteq> {} \<longrightarrow> admins v1 \<noteq> {})) \<and>
     (\<forall>email sec. v (user_key email) = Some sec \<longrightarrow> l \<noteq> Some email \<longrightarrow>
        (\<exists>sec1. v1 (user_key email) = Some sec1 \<and>
           passwordGenFromSecret sec1 \<in> {passwordGenFromSecret sec, next_gen (passwordGenFromSecret sec)}))"

lemma user_key_inj [simp]: "user_key a = user_key b \<longleftrightarrow> a = b"
  using hex_encode_inj by (auto simp: user_key_def userSecretName_def)

lemma secret_kind_simps [simp]:
  "kd_key secret_kind sec = sec_key sec" "kd_namespace secret_kind sec = Sec_Namespace sec" "kd_labels secret_kind sec = Sec_Labels sec"
  by (simp_all add: secret_kind_def)

lemma same_secret: "kd_same secret_kind sec sec1 \<Longrightarrow> Sec_Namespace sec1 = Sec_Namespace sec \<and> Sec_Labels sec1 = Sec_Labels sec \<and>
    Sec_Data sec1 = Sec_Data sec \<and> Sec_Name sec1 = Sec_Name sec"
  by (cases sec; cases sec1) (simp add: secret_kind_def)

lemma grows_refl [simp]: "grows v v" by (simp add: grows_def)

lemma grows_trans: "grows v v1 \<Longrightarrow> grows v1 v2 \<Longrightarrow> grows v v2"
  unfolding grows_def by (metis option.exhaust)

lemma grows_new: "v k = None \<Longrightarrow> (\<And>email. k = user_key email \<Longrightarrow> email_in sec = email) \<Longrightarrow> grows v (v(k \<mapsto> sec))"
  by (auto simp: grows_def)

lemma change_refl [simp]: "change l v v"
  by (simp add: change_def)

lemma grows_change:
  assumes "grows v v1"
  shows "change l v v1"
proof -
  have le: "v1 k = Some sec" if "v k = Some sec" for k sec
    using assms that unfolding grows_def by blast
  have "admins v \<subseteq> admins v1"
    using le by (fastforce simp: admins_def holders_iff ran_def)
  moreover have "accounts_ok v1" if "accounts_ok v"
    using that assms le unfolding accounts_ok_def grows_def by (metis option.exhaust option.inject)
  ultimately show ?thesis using le unfolding change_def by fastforce
qed

text \<open>One account is written.\<close>

lemma change_account:
  assumes keyed: "kd_keyed secret_kind v" and old: "v (user_key email) = Some sec"
    and same: "Sec_Namespace sec1 = Sec_Namespace sec" "Sec_Labels sec1 = Sec_Labels sec" "email_in sec1 = email_in sec"
    and gen: "passwordGenFromSecret sec1 \<in> {passwordGenFromSecret sec, next_gen (passwordGenFromSecret sec)}"
    and role: "stored_role sec = RoleAdmin \<Longrightarrow> stored_role sec1 = RoleAdmin \<or> 1 < card (admins v)"
  shows "change l v (v(user_key email \<mapsto> sec1))"
proof -
  have "admins (v(user_key email \<mapsto> sec1)) \<noteq> {}" if a: "admins v \<noteq> {}"
  proof (cases "stored_role sec = RoleAdmin \<longrightarrow> stored_role sec1 = RoleAdmin")
    case True
    with a show ?thesis
      unfolding admins_def by (intro holder_again [where m = sec] keyed old) (use same in simp_all)
  next
    case False
    with a role show ?thesis
      unfolding admins_def by (intro holders_survive keyed) auto
  qed
  moreover have "accounts_ok (v(user_key email \<mapsto> sec1))" if "accounts_ok v"
    using that old same unfolding accounts_ok_def by (metis fun_upd_apply option.inject user_key_inj)
  ultimately show ?thesis
    using gen old unfolding change_def by auto
qed

lemma change_delete:
  assumes "kd_keyed secret_kind v"
    and "\<And>sec. accounts_ok v \<Longrightarrow> v (user_key email) = Some sec \<Longrightarrow> sec \<in> admins v \<Longrightarrow> 1 < card (admins v)"
  shows "change (Some email) v (v(user_key email := None))"
proof -
  have "admins (v(user_key email := None)) \<noteq> {}" if "accounts_ok v" "admins v \<noteq> {}"
    using assms that unfolding admins_def by (intro holders_survive) auto
  moreover have "accounts_ok (v(user_key email := None))" if "accounts_ok v"
    using that by (auto simp: accounts_ok_def)
  ultimately show ?thesis by (auto simp: change_def)
qed

section \<open>The server of the accounts\<close>

definition auth_leaves :: "'s server \<Rightarrow> 's auth \<Rightarrow> ('s \<Rightarrow> bool) \<Rightarrow> bool" where
  \<comment> \<open>everything but the calls on Secrets keeps \<open>P\<close>\<close>
  "auth_leaves S A P \<longleftrightarrow> (\<forall>p r a. keeps P (sv_Authorize S p r a)) \<and> keeps P (au_CreateSentinel A) \<and> keeps P (au_DeleteSentinel A) \<and>
     (\<forall>pw. keeps P (au_hash A pw)) \<and> (\<forall>n. keeps P (au_rand A n)) \<and> (\<forall>h pw s. P s \<longrightarrow> P (snd (au_compare A h pw s))) \<and>
     (\<forall>st s. P s \<longrightarrow> P (au_set_sseTokens A st s)) \<and> (\<forall>l s. P s \<longrightarrow> P (au_set_loginLimiter A l s))"

definition users_env :: "'s server \<Rightarrow> 's auth \<Rightarrow> ('s \<Rightarrow> bool) \<Rightarrow> ('s \<Rightarrow> nn \<rightharpoonup> secret) \<Rightarrow> bool" where
  \<comment> \<open>Secrets change only through the calls of the provider, and its direct reads return what is stored\<close>
  "users_env S A ok view \<longleftrightarrow> quiet secret_kind (au_Secrets A) ok view \<and> (\<forall>v. auth_leaves S A (\<lambda>s. ok s \<and> view s = v)) \<and>
     (\<forall>read k s. ok s \<longrightarrow> au_Uncached A = Some read \<or> au_Live A = Some read \<longrightarrow>
        wp (read k) (\<lambda>r s1. ok s1 \<and> view s1 = view s \<and> (\<forall>sec. r = Inr sec \<longrightarrow> view s k = Some sec)) s)"

definition grown :: "('s \<Rightarrow> bool) \<Rightarrow> ('s \<Rightarrow> nn \<rightharpoonup> secret) \<Rightarrow> (nn \<rightharpoonup> secret) \<Rightarrow> 's \<Rightarrow> bool" where
  "grown ok view v s \<longleftrightarrow> ok s \<and> grows v (view s)"

definition pkeeps :: "('s \<Rightarrow> bool) \<Rightarrow> ('s, 'e, 'a) pact \<Rightarrow> bool" where
  "pkeeps P m \<longleftrightarrow> (\<forall>s. P s \<longrightarrow> pwp m (\<lambda>_. P) s)"

lemma pkeeps_run_act [keeps_intros]: "keeps P m \<Longrightarrow> pkeeps P (run_act m)"
  by (simp add: pkeeps_def wp_simps keeps_wp)

lemma pkeeps_pthen [keeps_intros]:
  assumes "pkeeps P m" "\<And>a. pkeeps P (k a)"
  shows "pkeeps P (pthen m k)"
  unfolding pkeeps_def
proof (intro allI impI)
  fix s assume "P s"
  then have "pwp m (\<lambda>_. P) s" using assms(1) by (simp add: pkeeps_def)
  then show "pwp (pthen m k) (\<lambda>_. P) s"
    unfolding wp_simps by (rule pwp_mono) (use assms(2) in \<open>auto simp: on_value_def pkeeps_def split: sum.split\<close>)
qed

lemma pkeeps_pon_err [keeps_intros]: "pkeeps P m \<Longrightarrow> pkeeps P (pon_err f m)"
  by (simp add: pkeeps_def wp_simps)

lemma pkeeps_if [keeps_intros]: "(b \<Longrightarrow> pkeeps P m1) \<Longrightarrow> (\<not> b \<Longrightarrow> pkeeps P m2) \<Longrightarrow> pkeeps P (if b then m1 else m2)"
  by simp

lemma pkeeps_pair [keeps_intros]: "(\<And>a b. pkeeps P (f a b)) \<Longrightarrow> pkeeps P (case r of (a, b) \<Rightarrow> f a b)"
  by (cases r) auto

lemma auth_lift:
  assumes "users_env S A ok view"
  shows "auth_leaves S A (\<lambda>s. ok s \<and> N (view s))"
proof -
  have "auth_leaves S A (\<lambda>s. ok s \<and> view s = v)" for v using assms by (simp add: users_env_def)
  then have l: "keeps (\<lambda>s. ok s \<and> view s = v) (sv_Authorize S p r a)" "keeps (\<lambda>s. ok s \<and> view s = v) (au_CreateSentinel A)"
      "keeps (\<lambda>s. ok s \<and> view s = v) (au_DeleteSentinel A)" "keeps (\<lambda>s. ok s \<and> view s = v) (au_hash A pw)"
      "keeps (\<lambda>s. ok s \<and> view s = v) (au_rand A n)"
    and w: "ok s \<Longrightarrow> ok (snd (au_compare A h pw s)) \<and> view (snd (au_compare A h pw s)) = view s"
      "ok s \<Longrightarrow> ok (au_set_sseTokens A st s) \<and> view (au_set_sseTokens A st s) = view s"
      "ok s \<Longrightarrow> ok (au_set_loginLimiter A ll s) \<and> view (au_set_loginLimiter A ll s) = view s" for v p r a pw n s h st ll
    unfolding auth_leaves_def by blast+
  note k = keeps_lift [where view = view and N = N and ok = ok]
  show ?thesis
    unfolding auth_leaves_def using w by (simp add: k [OF l(1)] k [OF l(2)] k [OF l(3)] k [OF l(4)] k [OF l(5)])
qed

lemma users_env_parts:
  assumes "users_env S A ok view"
  shows "auth_leaves S A (grown ok view v)" "auth_leaves S A (\<lambda>s. ok s \<and> view s = v)" "quiet secret_kind (au_Secrets A) ok view"
  using auth_lift [OF assms, of "grows v"] assms unfolding grown_def [abs_def] users_env_def by blast+

lemma secrets_keep_grown:
  assumes env: "users_env S A ok view"
  shows "keeps (grown ok view v) (r_Get (au_Secrets A) k)" "keeps (grown ok view v) (r_List (au_Secrets A) ns ls)"
    and "(\<And>email. sec_key sec = user_key email \<Longrightarrow> email_in sec = email) \<Longrightarrow> keeps (grown ok view v) (r_Create (au_Secrets A) sec)"
    and "au_Uncached A = Some read \<or> au_Live A = Some read \<Longrightarrow> keeps (grown ok view v) (read k)"
proof -
  note q = users_env_parts(3) [OF env]
  show "keeps (grown ok view v) (r_Get (au_Secrets A) k)"
    by (rule keepsI_wp, rule quiet_get [OF q]) (auto simp: grown_def)
  show "keeps (grown ok view v) (r_List (au_Secrets A) ns ls)"
    by (rule keepsI_wp, rule quiet_list [OF q]) (auto simp: grown_def)
  show "keeps (grown ok view v) (read k)" if "au_Uncached A = Some read \<or> au_Live A = Some read"
  proof (rule keepsI_wp)
    fix s assume g: "grown ok view v s"
    then have "wp (read k) (\<lambda>r s1. ok s1 \<and> view s1 = view s \<and> (\<forall>sec. r = Inr sec \<longrightarrow> view s k = Some sec)) s"
      using env that unfolding users_env_def grown_def by blast
    then show "wp (read k) (\<lambda>_. grown ok view v) s" by (rule wp_mono) (use g in \<open>simp add: grown_def\<close>)
  qed
  show "keeps (grown ok view v) (r_Create (au_Secrets A) sec)" if "\<And>email. sec_key sec = user_key email \<Longrightarrow> email_in sec = email"
  proof (rule keepsI_wp, rule quiet_create [OF q])
    fix s ob1 s1
    assume g: "grown ok view v s" and new: "view s (kd_key secret_kind sec) = None" and same: "kd_same secret_kind sec ob1"
      and s1: "ok s1" "view s1 = (view s)(kd_key secret_kind sec \<mapsto> ob1)"
    have "grows (view s) (view s1)"
      unfolding s1(2) by (rule grows_new) (use new that same_secret [OF same] in \<open>auto simp: email_in_def\<close>)
    with g s1 show "grown ok view v s1" by (auto simp: grown_def intro: grows_trans)
  qed (auto simp: grown_def)
qed

lemma auth_parts_keep:
  assumes "auth_leaves S A P"
  shows "keeps P (authorize S rq res action)" "keeps P (decoded body)" "keeps P (compared A h pw)" "keeps P (spend_compare A pw)"
    "keeps P (redeem_sse A tok)" "keeps P (throttle A key)" "keeps P (record_failure A key)" "keeps P (record_success A key)"
    "keeps P (issue_sse A p)" "keeps P (bearer rq)"
proof -
  have w: "P s \<Longrightarrow> P (snd (au_compare A h pw s))" "P s \<Longrightarrow> P (au_set_sseTokens A st s)" "P s \<Longrightarrow> P (au_set_loginLimiter A l s)"
    for h pw s st l using assms by (simp_all add: auth_leaves_def)
  show "keeps P (authorize S rq res action)" "keeps P (decoded body)" "keeps P (bearer rq)"
    using assms unfolding auth_leaves_def authorize_def decoded_def bearer_def Let_def by (auto intro!: keeps_intros)
  show "keeps P (compared A h pw)"
  proof (rule keepsI)
    fix s r s1 assume "P s" "compared A h pw s = (r, s1)"
    with w(1) [of s h pw] show "P s1" by (auto simp: compared_def check_def give_def stop_def split: prod.splits if_splits)
  qed
  show "keeps P (spend_compare A pw)"
  proof (rule keepsI)
    fix s r s1 assume "P s" "spend_compare A pw s = (r, s1)"
    with w(1) [of s "au_dummyHash A" pw] show "P s1" by (auto simp: spend_compare_def split: prod.splits)
  qed
  show "keeps P (redeem_sse A tok)" using w(2) by (auto simp: keeps_def redeem_sse_def split: prod.splits option.splits)
  show "keeps P (throttle A key)" using w(3) by (auto simp: keeps_def throttle_def check_def give_def stop_def split: prod.splits)
  show "keeps P (record_failure A key)" "keeps P (record_success A key)"
    using w(3) by (auto simp: record_failure_def record_success_def intro: keeps_intros)
  have "keeps P (au_rand A n)" for n using assms by (simp add: auth_leaves_def)
  then show "keeps P (issue_sse A p)"
    unfolding issue_sse_def using w(2) by (intro keeps_outcome) (auto simp: keeps_def split: prod.splits option.splits)
qed

lemma not_user [simp]: "(auth_namespace, jwtSecretName) \<noteq> user_key email" "(auth_namespace, inviteSecretName e) \<noteq> user_key email"
  by (auto simp: user_key_def userSecretName_def jwtSecretName_def inviteSecretName_def)

lemma key_grown:
  assumes env: "users_env S A ok view"
  shows "pkeeps (grown ok view v) (signingKey A)"
proof -
  let ?P = "grown ok view v"
  have k: "keeps ?P (r_Create (au_Secrets A) (key_secret key))" for key
    by (rule secrets_keep_grown(3) [OF env]) (simp add: sec_key_def key_secret_def)
  have r: "keeps ?P (au_rand A n)" for n using users_env_parts(1) [OF env] by (simp add: auth_leaves_def)
  have "keeps ?P (read_key A)" unfolding read_key_def by (intro keeps_intros secrets_keep_grown(1) [OF env])
  moreover have "keeps ?P (create_key A)"
    unfolding create_key_def by (intro keeps_andthen keeps_outcome keeps_sum keeps_if keeps_plain keeps_on_err k r)
  ultimately show ?thesis
    unfolding pkeeps_def by (auto intro!: pwp_signingKey keeps_wp)
qed

lemma provider_grown:
  assumes env: "users_env S A ok view"
  shows "pkeeps (grown ok view v) (GenerateToken A p)" "pkeeps (grown ok view v) (validate_token A lee what token)"
    "keeps (grown ok view v) (Authenticate A email pw)" "keeps (grown ok view v) (VerifyPassword A email pw)"
    "keeps (grown ok view v) (CurrentPrincipal A email g)" "keeps (grown ok view v) (revalidatePrincipal A email g)"
    "keeps (grown ok view v) (native_ListUsers A)" "keeps (grown ok view v) (native_CreateUser A email pw role)"
proof -
  let ?P = "grown ok view v"
  note s = secrets_keep_grown [OF env] and p = auth_parts_keep [OF users_env_parts(1) [OF env]] key_grown [OF env]
  show "pkeeps ?P (GenerateToken A p)" unfolding GenerateToken_def by (intro p keeps_intros)
  show "pkeeps ?P (validate_token A lee what token)" unfolding validate_token_def by (intro p keeps_intros)
  have "keeps ?P (read_user A email)"
    unfolding read_user_def by (intro keeps_outcome keeps_sum keeps_plain s(1)) (auto intro!: s(4) keeps_intros split: kerr.split option.split)
  then show "keeps ?P (Authenticate A email pw)" unfolding Authenticate_def by (intro p keeps_outcome keeps_sum keeps_if keeps_andthen keeps_plain)
  show "keeps ?P (VerifyPassword A email pw)" unfolding VerifyPassword_def by (intro p keeps_outcome keeps_sum keeps_if keeps_plain s(1))
  have c: "keeps ?P (current_of g r)" for r unfolding current_of_def by (intro keeps_intros)
  show cur: "keeps ?P (CurrentPrincipal A email g)" unfolding CurrentPrincipal_def by (intro keeps_outcome s(1) c)
  show "keeps ?P (revalidatePrincipal A email g)"
    unfolding revalidatePrincipal_def CurrentPrincipalLive_def
    by (cases "au_Live A") (auto intro!: cur keeps_outcome s(4) c)
  show "keeps ?P (native_ListUsers A)" unfolding native_ListUsers_def by (intro keeps_andthen keeps_on_err keeps_plain s(2))
  have "keeps ?P (r_Create (au_Secrets A) (user_secret email h role))" for h
    by (rule s(3)) (auto simp: sec_key_def user_secret_def user_key_def userSecretName_def email_in_def lookup_str_def dest: hex_encode_inj)
  moreover have "keeps ?P (au_hash A pw)" using users_env_parts(1) [OF env] by (simp add: auth_leaves_def)
  ultimately show "keeps ?P (native_CreateUser A email pw role)"
    unfolding native_CreateUser_def by (intro keeps_andthen keeps_on_err keeps_plain)
qed

lemma handlers_grown:
  assumes env: "users_env S A ok view"
  shows "pkeeps (grown ok view v) (Setup A body)" "pkeeps (grown ok view v) (Login A addr body)" "pkeeps (grown ok view v) (Refresh A rq)"
    "keeps (grown ok view v) (IssueSSEToken A rq)" "keeps (grown ok view v) (CreateUser S A rq cbody)"
proof -
  let ?P = "grown ok view v"
  note p = provider_grown [OF env] auth_parts_keep [OF users_env_parts(1) [OF env]]
  have sentinel: "keeps ?P (au_CreateSentinel A)" "keeps ?P (au_DeleteSentinel A)"
    using users_env_parts(1) [OF env] by (simp_all add: auth_leaves_def)
  note k = p keeps_intros sentinel
  have reply: "pkeeps ?P (token_reply A n q)" for n q unfolding token_reply_def by (intro k)
  show "pkeeps ?P (Setup A body)" unfolding Setup_def claim_setup_def by (intro k reply)
  show "pkeeps ?P (Login A addr body)" unfolding Login_def sign_in_def Let_def by (intro k reply)
  show "pkeeps ?P (Refresh A rq)" unfolding Refresh_def ValidateTokenForRefresh_def by (intro k reply)
  show "keeps ?P (IssueSSEToken A rq)" unfolding IssueSSEToken_def by (intro k)
  show "keeps ?P (CreateUser S A rq cbody)" unfolding CreateUser_def by (intro k)
qed

section \<open>Writing an account\<close>

lemma data_update: "lookup_str (AList.update k x m) y = (if y = k then x else lookup_str m y)"
  by (simp add: lookup_str_update)

definition password_changed :: "string \<Rightarrow> (nn \<rightharpoonup> secret) \<Rightarrow> (nn \<rightharpoonup> secret) \<Rightarrow> bool" where
  "password_changed email v v1 \<longleftrightarrow> (\<exists>sec sec1 hash. v (user_key email) = Some sec \<and>
     kd_same secret_kind (new_password hash sec) sec1 \<and> v1 = v(user_key email \<mapsto> sec1))"

lemma password_changed_gen:
  assumes "password_changed email v v1"
  obtains sec sec1 where "v (user_key email) = Some sec" "v1 (user_key email) = Some sec1"
    "passwordGenFromSecret sec1 = next_gen (passwordGenFromSecret sec)"
proof -
  obtain sec sec1 hash where p: "v (user_key email) = Some sec" "kd_same secret_kind (new_password hash sec) sec1" "v1 = v(user_key email \<mapsto> sec1)"
    using assms by (auto simp: password_changed_def)
  then have "Sec_Data sec1 = Sec_Data (new_password hash sec)" using same_secret by blast
  then have "passwordGenFromSecret sec1 = next_gen (passwordGenFromSecret sec)"
    using new_password_gen [of hash sec] by (simp add: passwordGenFromSecret_def)
  with that p show thesis by simp
qed

lemma password_change:
  assumes "password_changed email v v1" "kd_keyed secret_kind v"
  shows "change l v v1"
proof -
  obtain sec sec1 hash where p: "v (user_key email) = Some sec" "kd_same secret_kind (new_password hash sec) sec1" "v1 = v(user_key email \<mapsto> sec1)"
    using assms by (auto simp: password_changed_def)
  then have same: "Sec_Namespace sec1 = Sec_Namespace sec" "Sec_Labels sec1 = Sec_Labels sec" and data: "Sec_Data sec1 = Sec_Data (new_password hash sec)"
    using same_secret by (auto simp: new_password_def)
  have gen: "passwordGenFromSecret sec1 = next_gen (passwordGenFromSecret sec)"
    using new_password_gen [of hash sec] data by (simp add: passwordGenFromSecret_def)
  show ?thesis
    unfolding p(3)
    by (rule change_account [OF assms(2) p(1) same])
       (simp_all add: gen email_in_def stored_role_def data new_password_def data_update)
qed

lemma wp_UpdatePassword:
  assumes env: "users_env S A ok view" and ok: "ok s"
  shows "wp (UpdatePassword A email pw) (\<lambda>r s1. ok s1 \<and>
    (case r of Inl _ \<Rightarrow> view s1 = view s | Inr _ \<Rightarrow> password_changed email (view s) (view s1))) s" (is "wp _ ?Q s")
proof -
  note q = users_env_parts(3) [OF env]
  let ?P = "\<lambda>s1. ok s1 \<and> view s1 = view s"
  have hash: "keeps ?P (au_hash A pw)" using users_env_parts(2) [OF env, of "view s"] by (simp add: auth_leaves_def)
  have wr: "wp (andthen (on_err (Api ''updating user secret: '') (r_Update (au_Secrets A) (new_password h sec))) (\<lambda>_. give ())) ?Q s1"
    if "?P s1" "view s (user_key email) = Some sec" for h sec s1
  proof -
    have key: "kd_key secret_kind (new_password h sec) = user_key email"
      using quiet_key [OF q ok that(2)] by (simp add: new_password_def sec_key_def)
    show ?thesis
      unfolding wp_andthen wp_on_err
      by (rule quiet_update [OF q]) (use that key in \<open>auto simp: wp_simps password_changed_def\<close>)
  qed
  have rest: "wp (andthen (on_err f (au_hash A pw)) (\<lambda>hash. andthen (check (Sec_Data sec \<noteq> []) nil_map) (\<lambda>_.
     andthen (on_err (Api ''updating user secret: '') (r_Update (au_Secrets A) (new_password hash sec))) (\<lambda>_. give ())))) ?Q s1"
    if "?P s1" "view s (user_key email) = Some sec" for f sec s1
    by (rule wp_keep [where P = ?P, OF keeps_on_err [OF hash]]) (use that in \<open>auto intro!: wp_checkI [where P = ?P] wr\<close>)
  show ?thesis
    unfolding UpdatePassword_def
    by (rule wp_checkI [where P = ?P], simp add: ok)
       (unfold wp_andthen [of "on_err f (r_Get R k)" for f R k] wp_on_err,
         rule quiet_get [OF q ok], auto simp: on_value_simps intro!: rest)
qed

lemma wp_list_users:
  assumes env: "users_env S A ok view" and ok: "ok s"
  shows "wp (native_ListUsers A) (\<lambda>r s1. ok s1 \<and> view s1 = view s \<and>
    (\<forall>users. r = Inr users \<longrightarrow> adminCount users = card (admins (view s)) \<and>
       (\<forall>sec \<in> admins (view s). list_ex (\<lambda>u. us_Role u = RoleAdmin \<and> us_Email u = email_in sec) users))) s"
  unfolding native_ListUsers_def wp_andthen wp_on_err
proof (rule quiet_list [OF users_env_parts(3) [OF env] ok])
  fix obs s1
  assume s1: "ok s1" "view s1 = view s" "distinct obs" "set obs = listed secret_kind (view s) auth_namespace [(userLabelKey, ''true'')]"
  have "adminCount (map user_of obs) = length (filter (\<lambda>sec. stored_role sec = RoleAdmin) obs)"
    by (simp add: adminCount_def filter_map comp_def user_of_def stored_role_def)
  also have "\<dots> = card (admins (view s))"
    unfolding admins_def using s1 by (intro holders_count) (simp_all add: user_selector_def)
  finally have count: "adminCount (map user_of obs) = card (admins (view s))" .
  have "list_ex (\<lambda>u. us_Role u = RoleAdmin \<and> us_Email u = email_in sec) (map user_of obs)" if "sec \<in> admins (view s)" for sec
    using that s1(4) by (auto simp: list_ex_iff admins_def holders_def user_selector_def user_of_def stored_role_def email_in_def)
  with count s1 show "on_value (\<lambda>secrets. wp (give (map user_of secrets)) (\<lambda>r s1. ok s1 \<and> view s1 = view s \<and>
    (\<forall>users. r = Inr users \<longrightarrow> adminCount users = card (admins (view s)) \<and>
       (\<forall>sec \<in> admins (view s). list_ex (\<lambda>u. us_Role u = RoleAdmin \<and> us_Email u = email_in sec) users)))) 
     (\<lambda>r s1. ok s1 \<and> view s1 = view s \<and>
    (\<forall>users. r = Inr users \<longrightarrow> adminCount users = card (admins (view s)) \<and>
       (\<forall>sec \<in> admins (view s). list_ex (\<lambda>u. us_Role u = RoleAdmin \<and> us_Email u = email_in sec) users)))
     (map_sum (Api ''listing user secrets: '') id (Inr obs)) s1"
    by (simp add: wp_simps)
qed (simp add: wp_simps)

lemma wp_update_role:
  assumes env: "users_env S A ok view" and ok: "ok s"
  shows "wp (update_role A email role) (\<lambda>r s1. ok s1 \<and> change None (view s) (view s1) \<and> (isl r \<longrightarrow> view s1 = view s)) s" (is "wp _ ?Q s")
  unfolding update_role_def wp_andthen [of "on_err f (r_Get R k)" for f R k] wp_on_err
proof (rule quiet_get [OF users_env_parts(3) [OF env] ok])
  fix e s1 assume "ok s1" "view s1 = view s"
  then show "on_value V ?Q (map_sum (Api []) id (Inl e)) s1" for V by (simp add: on_value_simps)
next
  note q = users_env_parts(3) [OF env]
  fix sec s1 assume s1: "ok s1" "view s1 = view s" and sec: "view s (user_key email) = Some sec"
  let ?sec = "sec\<lparr>Sec_Data := AList.update ''role'' role (Sec_Data sec)\<rparr>"
  define wr where "wr = andthen (check (Sec_Data sec \<noteq> []) nil_map) (\<lambda>_. andthen (on_err (Api []) (r_Update (au_Secrets A) ?sec)) (\<lambda>_. give False))"
  have keyed: "kd_keyed secret_kind (view s)" by (rule quiet_keyed [OF q ok])
  have key: "kd_key secret_kind ?sec = user_key email"
    using quiet_key [OF q ok sec] by (simp add: sec_key_def)
  have ch: "change None (view s) ((view s)(user_key email \<mapsto> w))"
    if "kd_same secret_kind ?sec w" "stored_role sec = RoleAdmin \<Longrightarrow> Role_of role = RoleAdmin \<or> 1 < card (admins (view s))" for w
  proof -
    have w: "Sec_Namespace w = Sec_Namespace sec" "Sec_Labels w = Sec_Labels sec" "Sec_Data w = AList.update ''role'' role (Sec_Data sec)"
      using same_secret [OF that(1)] by simp_all
    show ?thesis
      by (rule change_account [OF keyed sec w(1,2)])
         (use that(2) in \<open>auto simp: email_in_def stored_role_def w(3) data_update passwordGenFromSecret_def update_conv'\<close>)
  qed
  have wr: "wp wr ?Q s2"
    if "ok s2" "view s2 = view s" and guard: "stored_role sec = RoleAdmin \<Longrightarrow> Role_of role = RoleAdmin \<or> 1 < card (admins (view s))" for s2
  proof -
    have "wp (andthen (on_err (Api []) (r_Update (au_Secrets A) ?sec)) (\<lambda>_. give False)) ?Q s2"
      unfolding wp_andthen wp_on_err
      by (rule quiet_update [OF q that(1)]) (use that(1,2) key ch guard in \<open>auto simp: wp_simps\<close>)
    then show ?thesis
      unfolding wr_def using that by (intro wp_checkI [where P = "\<lambda>s1. ok s1 \<and> view s1 = view s"]) auto
  qed
  show "on_value (\<lambda>sec. wp (let wr = andthen (check (Sec_Data sec \<noteq> []) nil_map) (\<lambda>_.
                andthen (on_err (Api []) (r_Update (au_Secrets A) (sec\<lparr>Sec_Data := AList.update ''role'' role (Sec_Data sec)\<rparr>))) (\<lambda>_. give False))
       in if stored_role sec = RoleAdmin \<and> Role_of role \<noteq> RoleAdmin
          then andthen (native_ListUsers A) (\<lambda>users. if adminCount users \<le> 1 then give True else wr)
          else wr) ?Q) ?Q (map_sum (Api []) id (Inr sec)) s1"
    unfolding map_sum.simps id_apply on_value_simps Let_def wr_def [symmetric] wp_if
  proof (intro if_bool_eq_conj [THEN iffD2] conjI impI)
    show "wp (andthen (native_ListUsers A) (\<lambda>users. if adminCount users \<le> 1 then give True else wr)) ?Q s1"
      unfolding wp_andthen
      by (rule wp_mono [OF wp_list_users [OF env s1(1)]])
         (use s1 in \<open>auto simp: on_value_def wp_simps intro!: wr split: sum.splits\<close>)
  next
    assume "\<not> (stored_role sec = RoleAdmin \<and> Role_of role \<noteq> RoleAdmin)"
    then show "wp wr ?Q s1" using s1 by (intro wr) auto
  qed
qed

lemma UpdateUserRole_change:
  assumes env: "users_env S A ok view" and "retries retry" and ok: "ok s"
  shows "wp (UpdateUserRole S A retry rq email body) (\<lambda>_ s1. ok s1 \<and> change None (view s) (view s1)) s"
proof -
  let ?P = "\<lambda>s1. ok s1 \<and> view s1 = view s" and ?Q = "\<lambda>_ s1. ok s1 \<and> change None (view s) (view s1)"
  note k = auth_parts_keep [OF users_env_parts(2) [OF env, of "view s"]]
  have closure: "wp (update_role A email role) (\<lambda>r s1. ?Q r s1 \<and> (\<forall>e. r = Inl e \<longrightarrow> ?P s1)) s1" if "?P s1" for role s1
    by (rule wp_mono [OF wp_update_role [OF env]]) (use that in auto)
  have rest: "wp (andthen (on_err f (RetryOnConflict retry False (update_role A email role))) (\<lambda>demotingLastAdmin.
     andthen (check (\<not> demotingLastAdmin) e) (\<lambda>_. give rp))) ?Q s1" if "?P s1" for f role e rp s1
    unfolding wp_andthen [of "on_err f m" for f m] wp_on_err
    by (rule wp_mono [OF wp_RetryOnConflict [OF assms(2), where P = ?P and Q = ?Q, OF that closure]])
       (auto simp: on_value_def wp_simps split: sum.splits)
  show ?thesis
    unfolding UpdateUserRole_def
    by (intro wp_keep [where P = ?P, OF k(1)] wp_keep [where P = ?P, OF k(2)] wp_checkI [where P = ?P] rest) (auto simp: ok)
qed

lemma DeleteUser_change:
  assumes env: "users_env S A ok view" and ok: "ok s"
  shows "wp (DeleteUser S A rq email) (\<lambda>_ s1. ok s1 \<and> change (Some email) (view s) (view s1)) s"
proof -
  let ?P = "\<lambda>s1. ok s1 \<and> view s1 = view s" and ?Q = "\<lambda>_ s1. ok s1 \<and> change (Some email) (view s) (view s1)"
  note k = auth_parts_keep [OF users_env_parts(2) [OF env, of "view s"]] and q = users_env_parts(3) [OF env]
  have keyed: "kd_keyed secret_kind (view s)" by (rule quiet_keyed [OF q ok])
  define safe where "safe \<longleftrightarrow> (\<forall>sec. accounts_ok (view s) \<longrightarrow> view s (user_key email) = Some sec \<longrightarrow> sec \<in> admins (view s) \<longrightarrow> 1 < card (admins (view s)))"
  have guard: "wp (guard_last_admin A email) (\<lambda>r s1. ?P s1 \<and> (r = Inr () \<longrightarrow> safe)) s1" if "?P s1" for s1
    unfolding guard_last_admin_def wp_andthen wp_on_err
  proof (rule wp_mono [OF wp_list_users [OF env]])
    fix r :: "gerr + User list" and s2
    assume r: "ok s2 \<and> view s2 = view s1 \<and> (\<forall>users. r = Inr users \<longrightarrow> adminCount users = card (admins (view s1)) \<and>
       (\<forall>sec \<in> admins (view s1). list_ex (\<lambda>u. us_Role u = RoleAdmin \<and> us_Email u = email_in sec) users))"
    have "safe" if "r = Inr users" "\<not> (list_ex (\<lambda>u. us_Role u = RoleAdmin \<and> (us_Email u = email \<or> us_ID u = email)) users \<and> adminCount users \<le> 1)" for users
      unfolding safe_def using r that \<open>?P s1\<close> by (fastforce simp: accounts_ok_def list_ex_iff)
    with r that show "on_value (\<lambda>users. wp (let targetIsAdmin = list_ex (\<lambda>u. us_Role u = RoleAdmin \<and> (us_Email u = email \<or> us_ID u = email)) users
       in check (\<not> (targetIsAdmin \<and> adminCount users \<le> 1)) (ErrorReply 400 ''cannot delete the last platform admin'')) (\<lambda>r s1. ?P s1 \<and> (r = Inr () \<longrightarrow> safe)))
      (\<lambda>r s1. ?P s1 \<and> (r = Inr () \<longrightarrow> safe)) (map_sum internal_error id r) s2"
      by (auto simp: on_value_def wp_simps Let_def split: sum.splits)
  qed (use that in simp)
  have revoke: "wp (andthen (on_err internal_error (RevokeUser A email)) (\<lambda>_. give rp)) ?Q s1" if "?P s1" safe for rp s1
    unfolding wp_andthen wp_on_err RevokeUser_def
    by (rule quiet_delete [OF q])
       (use that change_delete [OF keyed, of email] in \<open>auto simp: wp_simps bare_user_def sec_key_def user_key_def safe_def\<close>)
  have rest: "wp (andthen (guard_last_admin A email) (\<lambda>_. andthen (on_err internal_error (RevokeUser A email)) (\<lambda>_. give rp))) ?Q s1" if "?P s1" for rp s1
    unfolding wp_andthen [of "guard_last_admin A email"]
    by (rule wp_mono [OF guard [OF that]]) (auto simp: on_value_def intro!: revoke split: sum.splits)
  show ?thesis
    unfolding DeleteUser_def by (intro wp_keep [where P = ?P, OF k(1)] wp_checkI [where P = ?P] rest) (auto simp: ok)
qed

lemma password_handlers:
  assumes env: "users_env S A ok view" and ok: "ok s"
  shows "wp (ResetUserPassword S A rq email body) (\<lambda>_ s1. ok s1 \<and> change None (view s) (view s1)) s"
    and "wp (ChangePassword A rq body2) (\<lambda>_ s1. ok s1 \<and> change None (view s) (view s1)) s"
proof -
  let ?P = "\<lambda>s1. ok s1 \<and> view s1 = view s" and ?Q = "\<lambda>_ s1. ok s1 \<and> change None (view s) (view s1)"
  note k = auth_parts_keep [OF users_env_parts(2) [OF env, of "view s"]] and q = users_env_parts(3) [OF env]
  have keyed: "kd_keyed secret_kind (view s)" by (rule quiet_keyed [OF q ok])
  have upd: "wp (andthen (on_err f (UpdatePassword A email pw)) (\<lambda>_. give rp)) ?Q s1" if "?P s1" for f email pw rp s1
    unfolding wp_andthen wp_on_err
    by (rule wp_mono [OF wp_UpdatePassword [OF env]])
       (use that in \<open>auto simp: on_value_def wp_simps intro: password_change keyed split: sum.splits\<close>)
  show "wp (ResetUserPassword S A rq email body) ?Q s"
    unfolding ResetUserPassword_def
    by (intro wp_keep [where P = ?P, OF k(1)] wp_keep [where P = ?P, OF k(2)] wp_checkI [where P = ?P] upd) (auto simp: ok)
  have get: "keeps ?P (r_Get (au_Secrets A) key)" for key
    by (rule keepsI_wp, rule quiet_get [OF q]) auto
  have verify: "keeps ?P (VerifyPassword A e pw)" for e pw
    unfolding VerifyPassword_def by (intro keeps_outcome keeps_sum keeps_if keeps_plain get k)
  have rest: "wp (andthen (check b err) (\<lambda>_. andthen (on_err f (VerifyPassword A e current)) (\<lambda>_.
      andthen (on_err g (UpdatePassword A e new)) (\<lambda>_. give rp)))) ?Q s1" if "?P s1" for b err f e current g new rp s1
    by (intro wp_checkI [where P = ?P] wp_keep [where P = ?P, OF keeps_on_err [OF verify]] upd) (use that in auto)
  show "wp (ChangePassword A rq body2) ?Q s"
    unfolding ChangePassword_def
    by (cases "rq_Principal rq") (auto simp: ok wp_stop split: prod.split intro!: wp_keep [where P = ?P, OF k(2)] rest)
qed

section \<open>Runs\<close>

text \<open>A request to the handlers of this theory, labelled with the account it may delete.\<close>

inductive user_step :: "'s server \<Rightarrow> 's auth \<Rightarrow> (('s \<times> bool) call \<Rightarrow> ('s \<times> bool) call) \<Rightarrow> string option \<Rightarrow> 's \<Rightarrow> 's \<Rightarrow> bool"
  for S A retry where
  first_user: "Setup A body s = Some (r, s1) \<Longrightarrow> user_step S A retry None s s1"
| login: "Login A addr body s = Some (r, s1) \<Longrightarrow> user_step S A retry None s s1"
| refresh: "Refresh A rq s = Some (r, s1) \<Longrightarrow> user_step S A retry None s s1"
| sse: "IssueSSEToken A rq s = (r, s1) \<Longrightarrow> user_step S A retry None s s1"
| create: "CreateUser S A rq cbody s = (r, s1) \<Longrightarrow> user_step S A retry None s s1"
| role: "UpdateUserRole S A retry rq email rbody s = (r, s1) \<Longrightarrow> user_step S A retry None s s1"
| delete: "DeleteUser S A rq email s = (r, s1) \<Longrightarrow> user_step S A retry (Some email) s s1"
| reset: "ResetUserPassword S A rq email pbody s = (r, s1) \<Longrightarrow> user_step S A retry None s s1"
| password: "ChangePassword A rq wbody s = (r, s1) \<Longrightarrow> user_step S A retry None s s1"

lemma user_step_change:
  assumes "user_step S A retry l s s1" and env: "users_env S A ok view" and "retries retry" and ok: "ok s"
  shows "ok s1 \<and> change l (view s) (view s1)"
proof -
  have g: "grown ok view (view s) s" using ok by (simp add: grown_def)
  have result: "ok s1 \<and> change l (view s) (view s1)" if "grown ok view (view s) s1" for l
    using that by (auto simp: grown_def intro: grows_change)
  note h = handlers_grown [OF env, of "view s"]
  from assms(1) show ?thesis
  proof (cases rule: user_step.cases)
    case (first_user body r)
    with h(1) g show ?thesis by (auto simp: pkeeps_def dest!: pwpD intro!: result)
  next
    case (login addr body r)
    with h(2) g show ?thesis by (auto simp: pkeeps_def dest!: pwpD intro!: result)
  next
    case (refresh rq r)
    with h(3) g show ?thesis by (auto simp: pkeeps_def dest!: pwpD intro!: result)
  next
    case (sse rq r)
    with keepsD [OF h(4) g] show ?thesis by (auto intro!: result)
  next
    case (create rq body r)
    with keepsD [OF h(5) g] show ?thesis by (auto intro!: result)
  next
    case (role rq email body r)
    then show ?thesis using wpD [OF UpdateUserRole_change [OF env assms(3) ok]] by blast
  next
    case (delete rq email r)
    then show ?thesis using wpD [OF DeleteUser_change [OF env ok]] by blast
  next
    case (reset rq email body r)
    then show ?thesis using wpD [OF password_handlers(1) [OF env ok]] by blast
  next
    case (password rq body r)
    then show ?thesis using wpD [OF password_handlers(2) [OF env ok]] by blast
  qed
qed

interpretation last_admin: last_holder "\<lambda>s (_ :: unit). admins (view s)"
    "\<lambda>s. users_env S A ok view \<and> retries retry \<and> ok s \<and> accounts_ok (view s)" "\<lambda>s s1. \<exists>l. user_step S A retry l s s1"
  for S :: "'s server" and A ok view retry
  by unfold_locales (elim exE conjE, drule (3) user_step_change, simp add: change_def)+

text \<open>Over a run that does not delete an account its generation advances by at most one in each step.\<close>

lemma run_generation:
  assumes env: "users_env S A ok view" and "retries retry"
  shows "((\<lambda>s s1. \<exists>l. l \<noteq> Some email \<and> user_step S A retry l s s1) ^^ n) s s1 \<Longrightarrow> ok s \<Longrightarrow> view s (user_key email) = Some sec \<Longrightarrow>
    passwordGenFromSecret sec + int n < 2 ^ 63 \<Longrightarrow>
    ok s1 \<and> (\<exists>sec1. view s1 (user_key email) = Some sec1 \<and> passwordGenFromSecret sec \<le> passwordGenFromSecret sec1 \<and>
      passwordGenFromSecret sec1 \<le> passwordGenFromSecret sec + int n)"
proof (induction n arbitrary: s1)
  case 0
  then show ?case by simp
next
  case (Suc n)
  then obtain s2 l where s2: "((\<lambda>s s1. \<exists>l. l \<noteq> Some email \<and> user_step S A retry l s s1) ^^ n) s s2" and l: "l \<noteq> Some email" "user_step S A retry l s2 s1"
    by auto
  with Suc obtain sec2 where sec2: "ok s2" "view s2 (user_key email) = Some sec2" "passwordGenFromSecret sec \<le> passwordGenFromSecret sec2"
      "passwordGenFromSecret sec2 \<le> passwordGenFromSecret sec + int n"
    by fastforce
  from user_step_change [OF l(2) env assms(2) sec2(1)] sec2(2) l(1)
  obtain sec1 where "ok s1" "view s1 (user_key email) = Some sec1"
      "passwordGenFromSecret sec1 \<in> {passwordGenFromSecret sec2, next_gen (passwordGenFromSecret sec2)}"
    unfolding change_def by blast
  with sec2 Suc.prems(4) show ?case by (auto simp: next_gen_def)
qed

section \<open>Tokens of an older password\<close>

definition token_law :: "'s auth \<Rightarrow> bool" where
  \<comment> \<open>parsing a signed token gives the claims it was signed with; JSON numbers carry integers exactly up to \<open>2 ^ 53\<close>\<close>
  "token_law A \<longleftrightarrow> (\<forall>key c token key' iss aud leeway now c'. au_sign A key c = Inr token \<longrightarrow> 0 \<le> cl_pwd_gen c \<longrightarrow> cl_pwd_gen c \<le> 2 ^ 53 \<longrightarrow>
     au_parse A key' iss aud leeway now token = Inr c' \<longrightarrow> cl_email c' = cl_email c \<and> cl_pwd_gen c' = cl_pwd_gen c)"

lemma GenerateToken_signs:
  assumes "GenerateToken A p s = Some (Inr token, s1)"
  shows "\<exists>key now. au_sign A key (claims_of p now) = Inr token"
proof -
  have "pwp (GenerateToken A p) (\<lambda>r _. \<forall>token. r = Inr token \<longrightarrow> (\<exists>key now. au_sign A key (claims_of p now) = Inr token)) s"
    unfolding GenerateToken_def pwp_pthen
    by (auto simp: pwp_def on_value_def run_act_def andthen_def look_def stop_def give_def split: sum.splits)
  from pwpD [OF this assms] show ?thesis by simp
qed

lemma old_token_validates:
  assumes env: "users_env S A ok view" and law: "token_law A" and signed: "au_sign A key (claims_of p now) = Inr token"
    and gen: "0 \<le> p_PasswordGen p" "p_PasswordGen p \<le> 2 ^ 53" and ok: "ok s"
  shows "pwp (validate_token A leeway what token) (\<lambda>r s1. grown ok view (view s) s1 \<and>
    (\<forall>pr g. r = Inr (pr, g) \<longrightarrow> p_Email pr = p_Email p \<and> g = p_PasswordGen p)) s"
proof -
  have parse: "cl_email c = p_Email p \<and> cl_pwd_gen c = p_PasswordGen p" if "au_parse A k iss aud lee t token = Inr c" for k iss aud lee t c
    using law signed gen that unfolding token_law_def claims_of_def by fastforce
  have "pwp (signingKey A) (\<lambda>_. grown ok view (view s)) s"
    using key_grown [OF env] ok by (simp add: pkeeps_def grown_def)
  then show ?thesis
    unfolding validate_token_def pwp_pthen
    by (rule pwp_mono) (auto simp: on_value_def wp_simps principal_of_claims_def dest: parse split: sum.split)
qed

lemma old_token_refused:
  assumes env: "users_env S A ok view" and "token_law A" "au_sign A key (claims_of p now) = Inr token"
    and "0 \<le> p_PasswordGen p" "p_PasswordGen p \<le> 2 ^ 53" and ok: "ok s"
    and sec: "view s (user_key (p_Email p)) = Some sec" "p_PasswordGen p < passwordGenFromSecret sec"
  shows "pwp (session_Principal A token) (\<lambda>r _. isl r) s"
  unfolding session_Principal_def ValidateToken_def pwp_pthen
proof (rule pwp_mono [OF old_token_validates [OF env assms(2-5) ok]])
  fix r :: "gerr + Principal \<times> int" and s1
  assume r: "grown ok view (view s) s1 \<and> (\<forall>pr g. r = Inr (pr, g) \<longrightarrow> p_Email pr = p_Email p \<and> g = p_PasswordGen p)"
  then have s1: "ok s1" "view s1 (user_key (p_Email p)) = Some sec"
    using sec(1) unfolding grown_def grows_def by blast+
  have "wp (CurrentPrincipal A (p_Email p) (p_PasswordGen p)) (\<lambda>r _. isl r) s1"
    unfolding CurrentPrincipal_def wp_outcome
    by (rule quiet_get [OF users_env_parts(3) [OF env] s1(1)]) (use s1 sec(2) in \<open>auto simp: current_of_def wp_simps\<close>)
  with r show "on_value (\<lambda>a. pwp (case a of (pr, tokenGen) \<Rightarrow> run_act (CurrentPrincipal A (p_Email pr) tokenGen)) (\<lambda>r _. isl r)) (\<lambda>r _. isl r) r s1"
    by (auto simp: on_value_def pwp_run_act split: sum.splits prod.splits)
qed

section \<open>A provider in memory\<close>

record auth_state =
  at_Secrets :: "(nn \<times> secret) list"
  at_sentinel :: bool
  at_sse :: sseTokenStore
  at_limiter :: loginLimiter
  at_compares :: nat
  at_now :: int

definition nothing :: "('s, 'k, 'o) resource" where
  \<comment> \<open>a kind without objects\<close>
  "nothing = \<lparr>r_Get = \<lambda>_. stop NotFound, r_List = \<lambda>_ _. give [], r_Create = \<lambda>_. stop Forbidden, r_Update = \<lambda>_. stop NotFound,
     r_UpdateStatus = \<lambda>_. stop NotFound, r_Delete = \<lambda>_. stop NotFound\<rparr>"

definition admin_server :: "auth_state server" where
  \<comment> \<open>administrators may do everything\<close>
  "admin_server = \<lparr>sv_Projects = nothing, sv_FreshProject = \<lambda>_. stop NotFound, sv_Members = nothing, sv_Apps = nothing, sv_Secrets = nothing,
     sv_Namespaces = nothing, sv_RoleBindings = nothing, sv_ServiceAccount = [], sv_OperatorNamespace = [], sv_WaitWritable = \<lambda>_. give (),
     sv_Authorize = \<lambda>p _ _. give (p_Role p = RoleAdmin), sv_Activity = \<lambda>_ s. s, sv_now = at_now, sv_sha256 = \<lambda>_. []\<rparr>"

text \<open>Passwords are stored as they are; a token is the address, a zero byte and the generation.\<close>

definition toy_sign :: "string \<Rightarrow> claims \<Rightarrow> string + string" where
  "toy_sign key c = (if CHR 0x00 \<in> set (cl_email c) then Inl [] else Inr (cl_email c @ CHR 0x00 # show_int (cl_pwd_gen c)))"

definition toy_parse :: "string \<Rightarrow> string \<Rightarrow> string \<Rightarrow> int \<Rightarrow> int \<Rightarrow> string \<Rightarrow> string + claims" where
  "toy_parse key iss aud leeway now token =
     (if CHR 0x00 \<notin> set token then Inl ''malformed''
      else Inr \<lparr>cl_sub = [], cl_email = takeWhile (\<lambda>c. c \<noteq> CHR 0x00) token, cl_role = [],
        cl_pwd_gen = Sscan_int (drop 1 (dropWhile (\<lambda>c. c \<noteq> CHR 0x00) token)), cl_iss = iss, cl_aud = aud, cl_iat = 0, cl_exp = 0\<rparr>)"

definition mem_auth :: "auth_state auth" where
  "mem_auth = \<lparr>au_Secrets = mem_resource secret_kind (\<lambda>o1 _. o1) at_Secrets (\<lambda>m s. s\<lparr>at_Secrets := m\<rparr>),
     au_Uncached = None, au_Live = None,
     au_CreateSentinel = (\<lambda>s. if at_sentinel s then (Inl AlreadyExists, s) else (Inr (), s\<lparr>at_sentinel := True\<rparr>)),
     au_DeleteSentinel = effect (\<lambda>s. s\<lparr>at_sentinel := False\<rparr>),
     au_compare = (\<lambda>h pw s. (h = pw, s\<lparr>at_compares := Suc (at_compares s)\<rparr>)), au_dummyHash = [],
     au_hash = give, au_rand = (\<lambda>n. give (replicate n CHR ''k'')), au_now = at_now,
     au_sseTokens = at_sse, au_set_sseTokens = (\<lambda>st s. s\<lparr>at_sse := st\<rparr>),
     au_loginLimiter = at_limiter, au_set_loginLimiter = (\<lambda>l s. s\<lparr>at_limiter := l\<rparr>),
     au_sign = toy_sign, au_parse = toy_parse\<rparr>"

definition user_world :: "(string \<times> string \<times> Role) list \<Rightarrow> auth_state" where
  "user_world us = \<lparr>at_Secrets = map (\<lambda>(e, pw, r). (user_key e, user_secret e pw r)) us, at_sentinel = True, at_sse = newSSETokenStore,
     at_limiter = newLoginLimiter (\<lambda>_. []), at_compares = 0, at_now = 0\<rparr>"

lemma mem_users_env: "users_env admin_server mem_auth (\<lambda>s. mem_keyed secret_kind (at_Secrets s)) (\<lambda>s. map_of (at_Secrets s))"
proof -
  have "quiet secret_kind (au_Secrets mem_auth) (\<lambda>s. mem_keyed secret_kind (at_Secrets s)) (\<lambda>s. map_of (at_Secrets s))"
    unfolding mem_auth_def auth.simps by (rule mem_quiet) (simp_all add: secret_kind_def)
  then show ?thesis
    by (auto simp: users_env_def auth_leaves_def mem_auth_def admin_server_def keeps_def give_def effect_def)
qed

lemma toy_token_law: "token_law mem_auth"
proof -
  have split: "takeWhile (\<lambda>c. c \<noteq> CHR 0x00) (e @ CHR 0x00 # t) = e" "dropWhile (\<lambda>c. c \<noteq> CHR 0x00) (e @ CHR 0x00 # t) = CHR 0x00 # t"
    if "CHR 0x00 \<notin> set e" for e t :: string
    using that by (induction e) auto
  show ?thesis
    unfolding token_law_def mem_auth_def auth.simps toy_sign_def toy_parse_def
    by (auto simp: split Sscan_show_int split: if_splits)
qed

section \<open>Examples\<close>

definition ex_boss :: request where
  "ex_boss = \<lparr>rq_Principal = Some \<lparr>p_ID = ''r'', p_Email = ''r'', p_Role = RoleAdmin, p_PasswordGen = 0\<rparr>, rq_Authorization = []\<rparr>"

definition ex_session :: "string \<Rightarrow> Principal" where
  "ex_session email = \<lparr>p_ID = email, p_Email = email, p_Role = RoleMember, p_PasswordGen = 0\<rparr>"

definition ex_token :: string where "ex_token = ''a'' @ [CHR 0x00, CHR ''0'']"

definition ex_users :: auth_state where "ex_users = user_world [(''r'', ''rrrrrrrr'', RoleAdmin), (''a'', ''aaaaaaaa'', RoleMember)]"

lemma user_secret_simps [simp]: "sec_key (user_secret e pw r) = user_key e" "email_in (user_secret e pw r) = e"
  by (simp_all add: sec_key_def user_secret_def user_key_def email_in_def lookup_str_def)

lemma ex_users_ok: "mem_keyed secret_kind (at_Secrets ex_users)" "accounts_ok (map_of (at_Secrets ex_users))"
  by (auto simp: ex_users_def user_world_def mem_keyed_def accounts_ok_def split: if_splits)

lemma ex_token_issued: "GenerateToken mem_auth (ex_session ''a'') ex_users =
    Some (Inr ex_token, snd (the (GenerateToken mem_auth (ex_session ''a'') ex_users)))"
  by code_simp

text \<open>
  Deleting an account and creating it again starts its generations anew, so the tokens of the deleted account, if they have not
  expired, are sessions of the new one.
\<close>

lemma recreated_user_revives_sessions:
  "let s1 = snd (ResetUserPassword admin_server mem_auth ex_boss ''a'' (Inr ''bbbbbbbb'') ex_users);
       s2 = snd (DeleteUser admin_server mem_auth ex_boss ''a'' s1);
       s3 = snd (CreateUser admin_server mem_auth ex_boss (Inr \<lparr>cur_Email = ''a'', cur_Password = ''cccccccc'', cur_Role = ''viewer''\<rparr>) s2);
       session = \<lambda>s. map_option fst (session_Principal mem_auth ex_token s)
   in session s1 = Some (Inl ErrPasswordChangeInvalidated) \<and> session s2 = Some (Inl ErrUserNotFound) \<and>
      session s3 = Some (Inr \<lparr>p_ID = ''a'', p_Email = ''a'', p_Role = RoleViewer, p_PasswordGen = 0\<rparr>)"
  by code_simp

text \<open>
  The first-user setup asks for the sentinel only: with users but without the sentinel anybody can add an administrator, where the
  documentation promises a conflict.
\<close>

lemma setup_ignores_users:
  "map_option (answer \<circ> fst) (Setup mem_auth (Inr \<lparr>lr_Email = ''x'', lr_Password = ''xxxxxxxx''\<rparr>) (ex_users\<lparr>at_sentinel := False\<rparr>)) =
   Some (Reply 201 \<lparr>ar_Token = ''x'' @ [CHR 0x00, CHR ''0''], ar_User = \<lparr>p_ID = ''x'', p_Email = ''x'', p_Role = RoleAdmin, p_PasswordGen = 0\<rparr>\<rparr>)"
  by code_simp

text \<open>A Secret of the signing key without a key makes \<open>signingKey\<close> call itself forever.\<close>

definition no_key :: auth_state where
  "no_key = ex_users\<lparr>at_Secrets := [((auth_namespace, jwtSecretName), key_secret [])]\<rparr>"

lemma no_key_again: "read_key mem_auth no_key = (Inr None, no_key)" "create_key mem_auth no_key = (Inr None, no_key)"
  by code_simp+

lemma empty_key_diverges: "signingKey mem_auth no_key = None"
proof -
  have "B = mem_auth \<longrightarrow> t \<noteq> no_key" if "signingKey B t = Some rs" for B t rs
  proof (rule signingKey.raw_induct [OF _ that, of "\<lambda>B t rs. B = mem_auth \<longrightarrow> t \<noteq> no_key"])
    fix f :: "auth_state auth \<Rightarrow> auth_state \<Rightarrow> ((gerr + string) \<times> auth_state) option" and B t rs
    assume f: "\<And>B t rs. f B t = Some rs \<Longrightarrow> B = mem_auth \<longrightarrow> t \<noteq> no_key"
      and body: "(case read_key B t of
        (Inl e, s1) \<Rightarrow> Some (Inl e, s1)
      | (Inr r, s1) \<Rightarrow> (case r of Some key \<Rightarrow> Some (Inr key, s1)
          | None \<Rightarrow> (case create_key B s1 of
              (Inl e, s2) \<Rightarrow> Some (Inl e, s2)
            | (Inr r, s2) \<Rightarrow> (case r of Some key \<Rightarrow> Some (Inr key, s2) | None \<Rightarrow> f B s2)))) = Some rs"
    show "B = mem_auth \<longrightarrow> t \<noteq> no_key"
      using body f [of mem_auth no_key rs] by (auto simp: no_key_again)
  qed
  then show ?thesis by (cases "signingKey mem_auth no_key") auto
qed

lemma some_pair: "x \<noteq> None \<Longrightarrow> x = Some (fst (the x), snd (the x))"
  by (cases x) auto

section \<open>Properties\<close>


lemma mem_key_law:
  "key_law mem_auth (\<lambda>s. \<forall>sec. map_of (at_Secrets s) (auth_namespace, jwtSecretName) = Some sec \<longrightarrow> stored_key sec \<noteq> None)
     (\<lambda>s. map_of (at_Secrets s) (auth_namespace, jwtSecretName) \<noteq> None)"
proof -
  have "stored_key (key_secret k) \<noteq> None" if "length k = 64" for k using that by (auto simp: stored_key_def key_secret_def)
  moreover have "sec_key (key_secret k) = (auth_namespace, jwtSecretName)" for k by (simp add: sec_key_def key_secret_def)
  ultimately show ?thesis
    by (auto simp: key_law_def wp_def mem_auth_def mem_resource_def give_def update_conv' split: option.splits)
qed






end
