(* ===== verification/ProjectController.thy ===== *)
theory ProjectController
  imports Preview Server
begin

text \<open>
  \<open>internal/controller/project_controller.go\<close>: a reconcile gives a project its control namespace and one namespace for each of its
  environments, with their role bindings, records its creator as owner and its creation as an event, deletes namespaces of
  environments that are gone, and tells the applications that the project changed; a project that is being deleted takes
  its namespaces with it.

  \<open>projects_ctl\<close> holds the clients. \<open>pct_LiveProject\<close> and \<open>pct_LiveNamespace\<close> read past the cache, when the manager has such a
  reader. An early return of \<open>Reconcile\<close> is \<open>Inl\<close> of an error or of the delay after which to run again (\<open>None\<close>: no delay).
\<close>

section \<open>Definitions\<close>

record 's projects_ctl =
  pct_Projects :: "('s, string, Project) resource"
  pct_LiveProject :: "(string \<Rightarrow> ('s, kerr, Project) act) option"
  pct_Namespaces :: "('s, string, nsobj) resource"
  pct_LiveNamespace :: "(string \<Rightarrow> ('s, kerr, nsobj) act) option"
  pct_RoleBindings :: "('s, nn, RoleBinding) resource"
  pct_Members :: "('s, nn, ProjectMember) resource"
  pct_Apps :: "('s, nn, App) resource"
  pct_PatchApp :: "App \<Rightarrow> App \<Rightarrow> ('s, kerr, App) act"
    \<comment> \<open>\<open>r.Patch\<close> with \<open>client.MergeFrom\<close> of the first\<close>
  pct_ConfigMaps :: "('s, nn, secret) resource"
  pct_ServiceAccount :: string
  pct_OperatorNamespace :: string
  pct_now :: "'s \<Rightarrow> int"
  pct_cond :: cond_lib
  pct_marshal :: marshal
  pct_unmarshal :: unmarshal

datatype project_err = Unresolved string string | Other gerr
  \<comment> \<open>\<open>namespaceResolveError\<close> with reason and message\<close>

definition projectFinalizer :: string where "projectFinalizer = ''mortise.dev/project-finalizer''"
definition ProjectConditionNamespaceReady :: string where "ProjectConditionNamespaceReady = ''NamespaceReady''"
definition ProjectConditionMembersReady :: string where "ProjectConditionMembersReady = ''MembersReady''"
definition ReasonReconciled :: string where "ReasonReconciled = ''Reconciled''"
definition ReasonNoMembers :: string where "ReasonNoMembers = ''NoMembers''"
definition ReasonNamespaceAlreadyExists :: string where "ReasonNamespaceAlreadyExists = ''NamespaceAlreadyExists''"
definition ReasonNamespaceOwnedByOther :: string where "ReasonNamespaceOwnedByOther = ''NamespaceOwnedByAnotherProject''"
definition ReasonNamespaceConflict :: string where "ReasonNamespaceConflict = ''NamespaceConflict''"
definition ReasonEnvNamespaceTooLong :: string where "ReasonEnvNamespaceTooLong = ''EnvNamespaceTooLong''"
definition ProjectEnvsRevAnnotation :: string where "ProjectEnvsRevAnnotation = ''mortise.dev/project-envs-rev''"
definition ProjectPreviewRevAnnotation :: string where "ProjectPreviewRevAnnotation = ''mortise.dev/project-preview-rev''"
definition projectCreateActivityRecordedAnnotation :: string where
  "projectCreateActivityRecordedAnnotation = ''mortise.dev/project-create-activity-recorded''"
definition maxProjectRetries :: nat where "maxProjectRetries = 5"

fun wrapped :: "string \<Rightarrow> gerr \<Rightarrow> gerr" where
  \<comment> \<open>\<open>fmt.Errorf(text + "%w", err)\<close>\<close>
  "wrapped text (Api t e) = Api (text @ t) e"
| "wrapped text (Msg m) = Msg (text @ m)"
| "wrapped text ErrSkip = ErrSkip"

subsection \<open>Writing the project\<close>

fun write_project ::
  "nat \<Rightarrow> 's projects_ctl \<Rightarrow> (Project \<Rightarrow> ('s, kerr, Project) act) \<Rightarrow> string \<Rightarrow> (Project \<Rightarrow> Project option) \<Rightarrow> string \<Rightarrow> ('s, gerr, unit) act" where
  \<comment> \<open>the loop that \<open>updateProjectStatus\<close>, \<open>removeFinalizerWithRetry\<close> and \<open>markProjectCreateActivityRecorded\<close> share: read, return
     when there is nothing to change, write, and again on a conflict\<close>
  "write_project 0 R put name change msg = stop (Msg msg)"
| "write_project (Suc n) R put name change msg =
     outcome (r_Get (pct_Projects R) name) (\<lambda>r. case r of
         Inl err \<Rightarrow> if err = NotFound then give () else stop (Api [] err)
       | Inr fresh \<Rightarrow> (case change fresh of
             None \<Rightarrow> give ()
           | Some changed \<Rightarrow> outcome (put changed) (\<lambda>w. case w of
                 Inl err \<Rightarrow> if err = Conflict \<and> n \<noteq> 0 then write_project n R put name change msg else stop (Api [] err)
               | Inr _ \<Rightarrow> give ())))"

definition updateProjectStatus :: "'s projects_ctl \<Rightarrow> string \<Rightarrow> (Project \<Rightarrow> Project) \<Rightarrow> ('s, gerr, unit) act" where
  "updateProjectStatus R name mutate =
     write_project maxProjectRetries R (r_UpdateStatus (pct_Projects R)) name (\<lambda>p. Some (mutate p))
       (''could not update status for Project '' @ quoted name @ '' after retries'')"

definition removeFinalizerWithRetry :: "'s projects_ctl \<Rightarrow> string \<Rightarrow> ('s, gerr, unit) act" where
  "removeFinalizerWithRetry R name =
     write_project maxProjectRetries R (r_Update (pct_Projects R)) name
       (\<lambda>fresh. if projectFinalizer \<notin> set (prj_Finalizers fresh) then None
                else Some (fresh\<lparr>prj_Finalizers := removeAll projectFinalizer (prj_Finalizers fresh)\<rparr>))
       (''could not remove finalizer for Project '' @ quoted name @ '' after retries'')"

definition markProjectCreateActivityRecorded :: "'s projects_ctl \<Rightarrow> string \<Rightarrow> ('s, gerr, unit) act" where
  "markProjectCreateActivityRecorded R name =
     write_project maxProjectRetries R (r_Update (pct_Projects R)) name
       (\<lambda>fresh. if lookup_str (prj_Annotations fresh) projectCreateActivityRecordedAnnotation = ''true'' then None
                else Some (fresh\<lparr>prj_Annotations := AList.update projectCreateActivityRecordedAnnotation ''true'' (prj_Annotations fresh)\<rparr>))
       (''could not record project activity annotation for Project '' @ quoted name @ '' after retries'')"

definition set_condition :: "'s projects_ctl \<Rightarrow> string \<Rightarrow> bool \<Rightarrow> string \<Rightarrow> string \<Rightarrow> Project \<Rightarrow> Project" where
  \<comment> \<open>\<open>meta.SetStatusCondition\<close>; the transition time is the library's\<close>
  "set_condition R ty ok reason msg p = p\<lparr>prj_Status := (prj_Status p)\<lparr>pst_Conditions :=
     cl_Set (pct_cond R) \<lparr>cond_Type = ty, cond_Status = (if ok then ''True'' else ''False''), cond_ObservedGeneration = prj_Generation p,
       cond_LastTransitionTime = 0, cond_Reason = reason, cond_Message = msg\<rparr> (pst_Conditions (prj_Status p))\<rparr>\<rparr>"

definition markTerminating :: "'s projects_ctl \<Rightarrow> Project \<Rightarrow> string \<Rightarrow> ('s, gerr, unit) act" where
  "markTerminating R project controlNs =
     (if pst_Phase (prj_Status project) = ProjectPhaseTerminating then give ()
      else updateProjectStatus R (prj_Name project) (\<lambda>p. p\<lparr>prj_Status := (prj_Status p)\<lparr>pst_Phase := ProjectPhaseTerminating,
             pst_Namespace := controlNs\<rparr>\<rparr>))"

definition markFailed :: "'s projects_ctl \<Rightarrow> Project \<Rightarrow> string \<Rightarrow> string \<Rightarrow> string \<Rightarrow> ('s, gerr, unit) act" where
  "markFailed R project controlNs reason message =
     updateProjectStatus R (prj_Name project) (\<lambda>p.
       let p = set_condition R ProjectConditionNamespaceReady False reason message p
       in p\<lparr>prj_Status := (prj_Status p)\<lparr>pst_Phase := ProjectPhaseFailed, pst_Namespace := controlNs\<rparr>\<rparr>)"

definition specEnvNames :: "Project \<Rightarrow> string list" where
  "specEnvNames project = map pe_Name (ps_Environments (prj_Spec project))"

definition ready_status :: "'s projects_ctl \<Rightarrow> string \<Rightarrow> 32 word \<Rightarrow> nat \<Rightarrow> string gomap \<Rightarrow> Project \<Rightarrow> Project" where
  \<comment> \<open>the closure of \<open>markReady\<close>\<close>
  "ready_status R controlNs appCount memberCount envNsMap p =
     (let p = set_condition R ProjectConditionNamespaceReady True ReasonReconciled
                (''control '' @ quoted controlNs @ '' + '' @ show_nat (length envNsMap) @ '' env namespaces ready'') p;
          p = (if memberCount = 0
               then set_condition R ProjectConditionMembersReady False ReasonNoMembers
                 ''no ProjectMember exists: git-source builds will fail with GitAuthFailed until a member with a git token is added'' p
               else set_condition R ProjectConditionMembersReady True ReasonReconciled (show_nat memberCount @ '' member(s)'') p)
      in p\<lparr>prj_Status := (prj_Status p)\<lparr>pst_Phase := ProjectPhaseReady, pst_Namespace := controlNs, pst_AppCount := appCount,
           pst_Environments := specEnvNames p, pst_EnvNamespaces := envNsMap\<rparr>\<rparr>)"

definition markReady :: "'s projects_ctl \<Rightarrow> Project \<Rightarrow> string \<Rightarrow> 32 word \<Rightarrow> nat \<Rightarrow> string gomap \<Rightarrow> ('s, gerr, unit) act" where
  "markReady R project controlNs appCount memberCount envNsMap =
     updateProjectStatus R (prj_Name project) (ready_status R controlNs appCount memberCount envNsMap)"

subsection \<open>Namespaces\<close>

record namespaceSpec =
  nss_role :: string
  nss_envName :: string

definition namespaceLabels :: "string \<Rightarrow> namespaceSpec \<Rightarrow> string gomap" where
  "namespaceLabels projectName sp =
     [(''app.kubernetes.io/managed-by'', ''mortise''), (ProjectLabel, projectName), (''mortise.dev/managed-by'', ''project''),
      (NamespaceRoleLabel, nss_role sp)] @ (if nss_envName sp \<noteq> [] then [(EnvironmentLabel, nss_envName sp)] else [])"

definition new_namespace :: "Project \<Rightarrow> string \<Rightarrow> string gomap \<Rightarrow> nsobj" where
  \<comment> \<open>with the reference \<open>controllerutil.SetControllerReference\<close> adds\<close>
  "new_namespace project nsName labels = \<lparr>ns_Name = nsName, ns_Labels = labels, ns_Annotations = [],
     ns_CreationTimestamp = 0, ns_DeletionTimestamp = None, ns_OwnerReferences = [project_owner project]\<rparr>"

definition namespaceReader :: "'s projects_ctl \<Rightarrow> string \<Rightarrow> ('s, kerr, nsobj) act" where
  "namespaceReader R = (case pct_LiveNamespace R of Some live \<Rightarrow> live | None \<Rightarrow> r_Get (pct_Namespaces R))"

definition adopt_namespace :: "'s projects_ctl \<Rightarrow> Project \<Rightarrow> string \<Rightarrow> string gomap \<Rightarrow> nsobj \<Rightarrow> ('s, project_err, unit) act" where
  \<comment> \<open>\<open>ensureNamespace\<close> when the namespace exists\<close>
  "adopt_namespace R project nsName labels existing =
     (if owned_by project existing
      then (case sync_labels labels existing of (updated, changed) \<Rightarrow>
             if changed then on_err (\<lambda>e. Other (Api [] e)) (andthen (r_Update (pct_Namespaces R) updated) (\<lambda>_. give ())) else give ())
      else if other_owner existing \<noteq> []
        then stop (Unresolved ReasonNamespaceOwnedByOther
               (''namespace '' @ quoted nsName @ '' is already owned by Project '' @ quoted (other_owner existing)))
      else stop (Unresolved ReasonNamespaceAlreadyExists
             (''namespace '' @ quoted nsName @ '' already exists and is not managed by mortise; delete it or pick a different project/env name'')))"

definition ensureNamespace :: "'s projects_ctl \<Rightarrow> Project \<Rightarrow> string \<Rightarrow> namespaceSpec \<Rightarrow> ('s, project_err, unit) act" where
  "ensureNamespace R project nsName sp =
     (let labels = namespaceLabels (prj_Name project) sp
      in outcome (r_Get (pct_Namespaces R) nsName) (\<lambda>r. case r of
           Inr existing \<Rightarrow> adopt_namespace R project nsName labels existing
         | Inl err \<Rightarrow>
             if err = NotFound
             then outcome (r_Create (pct_Namespaces R) (new_namespace project nsName labels)) (\<lambda>c. case c of
                      Inr _ \<Rightarrow> give ()
                    | Inl e \<Rightarrow>
                        if e = AlreadyExists
                        then andthen (on_err (\<lambda>e. Other (Api ''get namespace after already exists: '' e)) (namespaceReader R nsName))
                               (adopt_namespace R project nsName labels)
                        else stop (Other (Api ''create namespace: '' e)))
             else stop (Other (Api ''get namespace: '' err))))"

definition ensureRoleBinding :: "'s projects_ctl \<Rightarrow> string \<Rightarrow> ('s, kerr, unit) act" where
  "ensureRoleBinding R ns = EnsureWriteBinding (pct_RoleBindings R) ns (pct_ServiceAccount R) (pct_OperatorNamespace R)"

definition claimed_by_other :: "Project \<Rightarrow> string \<Rightarrow> Project list \<Rightarrow> Project option" where
  "claimed_by_other project controlNs projects =
     find (\<lambda>other. prj_UID other \<noteq> prj_UID project \<and> prj_DeletionTimestamp other = None \<and> ControlNamespace (prj_Name other) = controlNs) projects"

definition checkControlNamespaceUniqueness :: "'s projects_ctl \<Rightarrow> Project \<Rightarrow> string \<Rightarrow> ('s, project_err, unit) act" where
  "checkControlNamespaceUniqueness R project controlNs =
     andthen (on_err (\<lambda>e. Other (Api ''list projects: '' e)) (r_List (pct_Projects R) [] [])) (\<lambda>projects.
       case claimed_by_other project controlNs projects of
         Some other \<Rightarrow> stop (Unresolved ReasonNamespaceConflict
             (''namespace '' @ quoted controlNs @ '' is already claimed by Project '' @ quoted (prj_Name other)))
       | None \<Rightarrow> give ())"

definition projectDeclaresEnv :: "Project \<Rightarrow> string \<Rightarrow> bool" where
  "projectDeclaresEnv project envName = list_ex (\<lambda>e. pe_Name e = envName) (ps_Environments (prj_Spec project))"

definition drop_namespace :: "'s projects_ctl \<Rightarrow> string \<Rightarrow> nsobj \<Rightarrow> ('s, gerr, unit) act" where
  \<comment> \<open>delete; an object that is gone already is no error\<close>
  "drop_namespace R what ns =
     outcome (r_Delete (pct_Namespaces R) ns) (\<lambda>r. case r of
         Inl e \<Rightarrow> if e = NotFound then give () else stop (Api (what @ quoted (ns_Name ns) @ '': '') e)
       | Inr _ \<Rightarrow> give ())"

fun collect_env_namespaces :: "'s projects_ctl \<Rightarrow> Project \<Rightarrow> string gomap \<Rightarrow> Project option \<Rightarrow> nsobj list \<Rightarrow> ('s, gerr, unit) act" where
  \<comment> \<open>the loop of \<open>gcStaleEnvNamespaces\<close> with its \<open>live\<close>\<close>
  "collect_env_namespaces R project desired live [] = give ()"
| "collect_env_namespaces R project desired live (ns # nss) =
     (let envName = lookup_str (ns_Labels ns) EnvironmentLabel
      in if map_of desired envName \<noteq> None \<or> ns_DeletionTimestamp ns \<noteq> None then collect_env_namespaces R project desired live nss
         else case pct_LiveProject R of
           None \<Rightarrow> andthen (drop_namespace R ''delete stale env ns '' ns) (\<lambda>_. collect_env_namespaces R project desired live nss)
         | Some get \<Rightarrow>
             andthen (case live of
                 Some p \<Rightarrow> give p
               | None \<Rightarrow> on_err (Api ''re-read project before env namespace gc: '') (get (prj_Name project))) (\<lambda>p.
               if projectDeclaresEnv p envName then collect_env_namespaces R project desired (Some p) nss
               else andthen (drop_namespace R ''delete stale env ns '' ns) (\<lambda>_. collect_env_namespaces R project desired (Some p) nss)))"

definition gcStaleEnvNamespaces :: "'s projects_ctl \<Rightarrow> Project \<Rightarrow> string gomap \<Rightarrow> ('s, gerr, unit) act" where
  "gcStaleEnvNamespaces R project desired =
     andthen (on_err (Api ''list env namespaces: '') (r_List (pct_Namespaces R) []
         [(ProjectLabel, prj_Name project), (NamespaceRoleLabel, NamespaceRoleEnv)])) (\<lambda>nss.
       collect_env_namespaces R project desired None nss)"

definition drop_owned :: "'s projects_ctl \<Rightarrow> nsobj \<Rightarrow> ('s, gerr, unit) act" where
  "drop_owned R ns =
     (if lookup_str (ns_Labels ns) ''app.kubernetes.io/managed-by'' \<noteq> ''mortise'' \<or> ns_DeletionTimestamp ns \<noteq> None then give ()
      else drop_namespace R ''delete namespace '' ns)"

definition deleteOwnedNamespaces :: "'s projects_ctl \<Rightarrow> Project \<Rightarrow> ('s, gerr, unit) act" where
  "deleteOwnedNamespaces R project =
     andthen (on_err (Api ''list owned namespaces: '') (r_List (pct_Namespaces R) [] [(ProjectLabel, prj_Name project)])) (\<lambda>nss.
       for_each (drop_owned R) nss)"

subsection \<open>What depends on the project\<close>

definition stamp_app :: "'s projects_ctl \<Rightarrow> string \<Rightarrow> string \<Rightarrow> App \<Rightarrow> ('s, gerr, unit) act" where
  \<comment> \<open>one round of the loops of \<open>cascadeEnvChange\<close> and \<open>cascadePreviewChange\<close>\<close>
  "stamp_app R annotation revision app =
     (if lookup_str (app_Annotations app) annotation = revision then give ()
      else andthen (on_err (Api (''patch app '' @ quoted (app_Name app) @ '': ''))
             (pct_PatchApp R app (app\<lparr>app_Annotations := AList.update annotation revision (app_Annotations app)\<rparr>))) (\<lambda>_. give ()))"

definition stamp_apps :: "'s projects_ctl \<Rightarrow> string \<Rightarrow> Project \<Rightarrow> string \<Rightarrow> ('s, gerr, unit) act" where
  "stamp_apps R annotation project controlNs =
     andthen (on_err (Api ''list apps: '') (r_List (pct_Apps R) controlNs [])) (\<lambda>apps.
       for_each (stamp_app R annotation (show_int (prj_Generation project))) apps)"

definition cascadeEnvChange :: "'s projects_ctl \<Rightarrow> Project \<Rightarrow> string \<Rightarrow> ('s, gerr, unit) act" where
  "cascadeEnvChange R = stamp_apps R ProjectEnvsRevAnnotation"

definition cascadePreviewChange :: "'s projects_ctl \<Rightarrow> Project \<Rightarrow> string \<Rightarrow> ('s, gerr, unit) act" where
  "cascadePreviewChange R = stamp_apps R ProjectPreviewRevAnnotation"

definition envsChanged :: "ProjectEnvironment list \<Rightarrow> string list \<Rightarrow> bool" where
  "envsChanged sp status \<longleftrightarrow> length sp \<noteq> length status \<or> \<not> list_all2 (\<lambda>env n. pe_Name env = n) sp status"

definition countApps :: "'s projects_ctl \<Rightarrow> string \<Rightarrow> ('s, kerr, 32 word) act" where
  "countApps R controlNs = andthen (r_List (pct_Apps R) controlNs []) (\<lambda>apps. give (of_nat (length apps)))"

definition countMembers :: "'s projects_ctl \<Rightarrow> string \<Rightarrow> ('s, kerr, nat) act" where
  "countMembers R controlNs = andthen (r_List (pct_Members R) controlNs []) (\<lambda>ms. give (length ms))"

definition owner_member :: "Project \<Rightarrow> string \<Rightarrow> string \<Rightarrow> ProjectMember" where
  "owner_member project controlNs email = \<lparr>member_Namespace = controlNs, member_Name = ''member-'' @ hex_encode email,
     member_Labels = [(''mortise.dev/member'', ''true'')],
     member_Spec = \<lparr>pm_Email = email, pm_Project = prj_Name project, pm_Role = ProjectRoleOwner\<rparr>, member_Status = no_member_status\<rparr>"

definition ensureOwnerMember :: "'s projects_ctl \<Rightarrow> Project \<Rightarrow> string \<Rightarrow> ('s, gerr, unit) act" where
  "ensureOwnerMember R project controlNs =
     (let email = lookup_str (prj_Annotations project) ''mortise.dev/created-by''
      in if email = [] then give ()
         else outcome (r_Get (pct_Members R) (controlNs, ''member-'' @ hex_encode email)) (\<lambda>r. case r of
             Inr _ \<Rightarrow> give ()
           | Inl err \<Rightarrow>
               if err \<noteq> NotFound then stop (Api ''get owner ProjectMember: '' err)
               else outcome (r_Create (pct_Members R) (owner_member project controlNs email)) (\<lambda>c. case c of
                   Inl e \<Rightarrow> if e = AlreadyExists then give () else stop (Api ''create owner ProjectMember: '' e)
                 | Inr _ \<Rightarrow> give ())))"

definition projectCreateActivityEvent :: "Project \<Rightarrow> int \<Rightarrow> Event" where
  "projectCreateActivityEvent project now = \<lparr>ae_Seq = 0,
     ae_Timestamp = (case prj_CreationTimestamp project of Some t \<Rightarrow> t | None \<Rightarrow> now),
     ae_Actor = firstNonEmpty (lookup_str (prj_Annotations project) ''mortise.dev/created-by'') ''system'',
     ae_Action = ''create'', ae_ResourceKind = ''project'', ae_ResourceName = prj_Name project, ae_Project = prj_Name project,
     ae_Message = ''Created project '' @ prj_Name project, ae_Metadata = []\<rparr>"

definition hasProjectCreateActivity :: "Event list \<Rightarrow> string \<Rightarrow> bool" where
  "hasProjectCreateActivity events projectName = list_ex (\<lambda>event. ae_Project event = projectName \<and> ae_Action event = ''create'' \<and>
     ae_ResourceKind event = ''project'' \<and> ae_ResourceName event = projectName) events"

definition with_create_event :: "Event \<Rightarrow> Event list \<Rightarrow> Event list" where
  "with_create_event event events = (let events = events @ [event] in if length events > Cap then drop (length events - Cap) events else events)"

fun append_create :: "nat \<Rightarrow> 's projects_ctl \<Rightarrow> Event \<Rightarrow> ('s, gerr, unit) act" where
  \<comment> \<open>the loop of \<open>appendProjectCreateActivityIfMissing\<close>\<close>
  "append_create 0 R event = stop (Msg (''could not ensure create activity for Project '' @ quoted (ae_Project event) @ '' after retries''))"
| "append_create (Suc n) R event =
     outcome (r_Get (pct_ConfigMaps R) (activity_key (ae_Project event))) (\<lambda>r. case r of
         Inl err \<Rightarrow>
           if err = NotFound
           then (case pct_marshal R [event] of
               None \<Rightarrow> stop (Msg ''marshal initial activity events'')
             | Some data \<Rightarrow> outcome (r_Create (pct_ConfigMaps R) (new_log (ae_Project event) data)) (\<lambda>c. case c of
                   Inr _ \<Rightarrow> give ()
                 | Inl e \<Rightarrow> if e = AlreadyExists \<or> e = Conflict then append_create n R event else stop (Api [] e)))
           else stop (Api [] err)
       | Inr cm \<Rightarrow> (case unmarshalEvents (pct_unmarshal R) (lookup_str (Sec_Data cm) eventsKey) of
             None \<Rightarrow> stop (Msg ''unmarshal project activity'')
           | Some events \<Rightarrow>
               if hasProjectCreateActivity events (ae_Project event) then give ()
               else (case pct_marshal R (with_create_event event events) of
                   None \<Rightarrow> stop (Msg ''marshal project activity'')
                 | Some data \<Rightarrow>
                     outcome (r_Update (pct_ConfigMaps R) (cm\<lparr>Sec_Data := AList.update eventsKey data (Sec_Data cm)\<rparr>)) (\<lambda>u. case u of
                         Inr _ \<Rightarrow> give ()
                       | Inl e \<Rightarrow> if e = Conflict then append_create n R event else stop (Api [] e)))))"

definition appendProjectCreateActivityIfMissing :: "'s projects_ctl \<Rightarrow> Event \<Rightarrow> ('s, gerr, unit) act" where
  "appendProjectCreateActivityIfMissing R event = append_create maxProjectRetries R event"

definition ensureProjectCreateActivity :: "'s projects_ctl \<Rightarrow> Project \<Rightarrow> ('s, gerr, unit) act" where
  "ensureProjectCreateActivity R project =
     (if lookup_str (prj_Annotations project) projectCreateActivityRecordedAnnotation = ''true'' then give ()
      else andthen (look (pct_now R)) (\<lambda>now.
           andthen (on_err (wrapped ''append project activity: '') (appendProjectCreateActivityIfMissing R (projectCreateActivityEvent project now))) (\<lambda>_.
             markProjectCreateActivityRecorded R (prj_Name project))))"

subsection \<open>Reconcile\<close>

type_synonym 's step = "('s, gerr + int option, unit) act"

definition fail :: "string \<Rightarrow> ('s, gerr, 'a) act \<Rightarrow> ('s, gerr + int option, 'a) act" where
  \<comment> \<open>\<open>if err != nil { return ctrl.Result{}, fmt.Errorf(text + "%w", err) }\<close>\<close>
  "fail text m = on_err (\<lambda>e. Inl (wrapped text e)) m"

definition ending :: "('s, gerr, unit) act \<Rightarrow> ('s, gerr + int option, 'a) act" where
  \<comment> \<open>\<open>return ctrl.Result{}, f()\<close>\<close>
  "ending m = outcome m (\<lambda>r. case r of Inl e \<Rightarrow> stop (Inl e) | Inr _ \<Rightarrow> stop (Inr None))"

definition or_failed :: "'s projects_ctl \<Rightarrow> Project \<Rightarrow> string \<Rightarrow> string \<Rightarrow> ('s, project_err, unit) act \<Rightarrow> 's step" where
  \<comment> \<open>an unresolved namespace is a state of the project, any other error one of the reconcile\<close>
  "or_failed R project controlNs text m = outcome m (\<lambda>r. case r of
       Inr _ \<Rightarrow> give ()
     | Inl (Unresolved reason message) \<Rightarrow> ending (markFailed R project controlNs reason message)
     | Inl (Other e) \<Rightarrow> stop (Inl (wrapped text e)))"

definition or_requeue :: "'s projects_ctl \<Rightarrow> string \<Rightarrow> string \<Rightarrow> ('s, gerr, unit) act \<Rightarrow> 's step" where
  \<comment> \<open>\<open>forbiddenFastRequeue\<close> on the error\<close>
  "or_requeue R controlNs text m = outcome m (\<lambda>r. case r of
       Inr _ \<Rightarrow> give ()
     | Inl e \<Rightarrow> andthen (look (pct_now R)) (\<lambda>now s.
         case forbiddenFastRequeue (\<lambda>s n. r_Get (pct_Namespaces R) n s) now controlNs e s of
           (Some delay, s1) \<Rightarrow> (Inl (Inr (Some delay)), s1)
         | (None, s1) \<Rightarrow> (Inl (Inl (wrapped text e)), s1)))"

definition seeded :: "Project \<Rightarrow> Project option" where
  \<comment> \<open>the finalizer and the default environment; \<open>None\<close> when both are there\<close>
  "seeded project =
     (let hasFinalizer = projectFinalizer \<in> set (prj_Finalizers project);
          hasNonPreviewEnv = list_ex (\<lambda>env. \<not> pe_Preview env) (ps_Environments (prj_Spec project));
          p = (if hasFinalizer then project else project\<lparr>prj_Finalizers := prj_Finalizers project @ [projectFinalizer]\<rparr>);
          p = (if hasNonPreviewEnv then p
               else p\<lparr>prj_Spec := (prj_Spec p)\<lparr>ps_Environments := ps_Environments (prj_Spec p) @ [fresh_env DefaultProjectEnvironment 0]\<rparr>\<rparr>)
      in if hasFinalizer \<and> hasNonPreviewEnv then None else Some p)"

definition terminate_project :: "'s projects_ctl \<Rightarrow> Project \<Rightarrow> string \<Rightarrow> 's step" where
  "terminate_project R project controlNs =
     andthen (fail [] (markTerminating R project controlNs)) (\<lambda>_.
     andthen (fail [] (deleteOwnedNamespaces R project)) (\<lambda>_.
     andthen (fail ''remove finalizer: '' (removeFinalizerWithRetry R (prj_Name project))) (\<lambda>_. give ())))"

fun ensure_env_namespaces :: "'s projects_ctl \<Rightarrow> Project \<Rightarrow> string \<Rightarrow> string gomap \<Rightarrow> ProjectEnvironment list \<Rightarrow>
    ('s, gerr + int option, string gomap) act" where
  \<comment> \<open>the loop over the environments, with \<open>envNsMap\<close>\<close>
  "ensure_env_namespaces R project controlNs envNsMap [] = give envNsMap"
| "ensure_env_namespaces R project controlNs envNsMap (env # envs) =
     (let ns = EnvNamespace (prj_Name project) (pe_Name env)
      in andthen (or_failed R project controlNs (''ensure env namespace '' @ quoted ns @ '': '')
              (ensureNamespace R project ns \<lparr>nss_role = NamespaceRoleEnv, nss_envName = pe_Name env\<rparr>)) (\<lambda>_.
         andthen (fail (''ensure role binding in '' @ quoted ns @ '': '') (on_err (Api []) (ensureRoleBinding R ns))) (\<lambda>_.
           ensure_env_namespaces R project controlNs (AList.update (pe_Name env) ns envNsMap) envs)))"

definition too_long :: "Project \<Rightarrow> string option" where
  \<comment> \<open>the error of the first environment whose namespace would have too long a name\<close>
  "too_long project =
     (case find (\<lambda>env. ValidateProjectEnvLengths (prj_Name project) (pe_Name env) \<noteq> None) (ps_Environments (prj_Spec project)) of
        None \<Rightarrow> None | Some env \<Rightarrow> ValidateProjectEnvLengths (prj_Name project) (pe_Name env))"

definition provision_namespaces :: "'s projects_ctl \<Rightarrow> Project \<Rightarrow> string \<Rightarrow> ('s, gerr + int option, string gomap) act" where
  \<comment> \<open>\<open>Reconcile\<close> from the length check to the loop over the environments\<close>
  "provision_namespaces R project controlNs =
     andthen (case too_long project of Some msg \<Rightarrow> ending (markFailed R project controlNs ReasonEnvNamespaceTooLong msg) | None \<Rightarrow> give ()) (\<lambda>_.
     andthen (or_failed R project controlNs [] (checkControlNamespaceUniqueness R project controlNs)) (\<lambda>_.
     andthen (or_failed R project controlNs [] (ensureNamespace R project controlNs \<lparr>nss_role = NamespaceRoleControl, nss_envName = []\<rparr>)) (\<lambda>_.
     andthen (fail (''ensure role binding in '' @ quoted controlNs @ '': '') (on_err (Api []) (ensureRoleBinding R controlNs))) (\<lambda>_.
       ensure_env_namespaces R project controlNs [] (ps_Environments (prj_Spec project))))))"

definition propagate :: "'s projects_ctl \<Rightarrow> Project \<Rightarrow> string \<Rightarrow> string gomap \<Rightarrow> 's step" where
  \<comment> \<open>\<open>Reconcile\<close> once the namespaces are there\<close>
  "propagate R project controlNs envNsMap =
     andthen (or_requeue R controlNs ''ensure owner member: '' (ensureOwnerMember R project controlNs)) (\<lambda>_.
     andthen (or_requeue R controlNs ''ensure project create activity: '' (ensureProjectCreateActivity R project)) (\<lambda>_.
     andthen (fail ''gc stale env namespaces: '' (gcStaleEnvNamespaces R project envNsMap)) (\<lambda>_.
     andthen (fail ''count apps: '' (on_err (Api []) (countApps R controlNs))) (\<lambda>appCount.
     andthen (fail ''count members: '' (on_err (Api []) (countMembers R controlNs))) (\<lambda>memberCount.
     andthen (if envsChanged (ps_Environments (prj_Spec project)) (pst_Environments (prj_Status project))
              then fail ''cascade env change: '' (cascadeEnvChange R project controlNs) else give ()) (\<lambda>_.
     andthen (fail ''cascade preview change: '' (cascadePreviewChange R project controlNs)) (\<lambda>_.
       fail ''update status: '' (markReady R project controlNs appCount memberCount envNsMap))))))))"

definition reconcile_found :: "'s projects_ctl \<Rightarrow> Project \<Rightarrow> 's step" where
  \<comment> \<open>\<open>Reconcile\<close> once the project is read\<close>
  "reconcile_found R project =
     (let controlNs = ControlNamespace (prj_Name project)
      in if prj_DeletionTimestamp project \<noteq> None then terminate_project R project controlNs
         else case seeded project of
             Some p \<Rightarrow> andthen (fail ''seed project spec defaults: '' (on_err (Api []) (r_Update (pct_Projects R) p))) (\<lambda>_. give ())
           | None \<Rightarrow> andthen (provision_namespaces R project controlNs) (propagate R project controlNs))"

definition reconcile_project :: "'s projects_ctl \<Rightarrow> string \<Rightarrow> 's step" where
  "reconcile_project R name =
     outcome (r_Get (pct_Projects R) name) (\<lambda>r. case r of
         Inl err \<Rightarrow> if err = NotFound then give () else stop (Inl (Api [] err))
       | Inr project \<Rightarrow> reconcile_found R project)"

section \<open>Which namespaces a reconcile may delete\<close>

definition spares_others :: "'s projects_ctl \<Rightarrow> ('s \<Rightarrow> bool) \<Rightarrow> string \<Rightarrow> bool" where
  \<comment> \<open>nothing but the deletion of the namespace \<open>n\<close> affects \<open>P\<close>\<close>
  "spares_others R P n \<longleftrightarrow> leaves (pct_Projects R) P \<and> leaves (pct_RoleBindings R) P \<and> leaves (pct_Members R) P \<and> leaves (pct_Apps R) P \<and>
     leaves (pct_ConfigMaps R) P \<and> (\<forall>a b. keeps P (pct_PatchApp R a b)) \<and>
     (\<forall>get m. pct_LiveProject R = Some get \<longrightarrow> keeps P (get m)) \<and> (\<forall>get m. pct_LiveNamespace R = Some get \<longrightarrow> keeps P (get m)) \<and>
     (\<forall>m. keeps P (r_Get (pct_Namespaces R) m)) \<and> (\<forall>ns ls. keeps P (r_List (pct_Namespaces R) ns ls)) \<and>
     (\<forall>ob. keeps P (r_Create (pct_Namespaces R) ob)) \<and> (\<forall>ob. keeps P (r_Update (pct_Namespaces R) ob)) \<and>
     (\<forall>ob. ns_Name ob \<noteq> n \<longrightarrow> keeps P (r_Delete (pct_Namespaces R) ob))"

lemma spares_calls:
  assumes "spares_others R P n"
  shows "leaves (pct_Projects R) P" "leaves (pct_RoleBindings R) P" "leaves (pct_Members R) P" "leaves (pct_Apps R) P"
    "leaves (pct_ConfigMaps R) P" "keeps P (pct_PatchApp R a b)"
    "pct_LiveProject R = Some get \<Longrightarrow> keeps P (get m)" "keeps P (namespaceReader R m)"
    "keeps P (r_Get (pct_Namespaces R) m)" "keeps P (r_List (pct_Namespaces R) ns ls)"
    "keeps P (r_Create (pct_Namespaces R) ob)" "keeps P (r_Update (pct_Namespaces R) ob)"
    "ns_Name ob \<noteq> n \<Longrightarrow> keeps P (r_Delete (pct_Namespaces R) ob)"
  using assms by (auto simp: spares_others_def namespaceReader_def split: option.split)

text \<open>Everything but the two deletions.\<close>

lemma write_project_keeps:
  assumes "leaves (pct_Projects R) P" "\<And>p. keeps P (put p)"
  shows "keeps P (write_project n R put name change msg)"
  by (induction n) (auto intro!: keeps_intros leaves_calls [OF assms(1)] assms(2) split: option.split)

lemma append_create_keeps:
  assumes "leaves (pct_ConfigMaps R) P"
  shows "keeps P (append_create n R event)"
  by (induction n) (auto intro!: keeps_intros leaves_calls [OF assms] split: option.split)

lemma binding_keeps: "leaves (pct_RoleBindings R) P \<Longrightarrow> keeps P (ensureRoleBinding R ns)"
  unfolding ensureRoleBinding_def EnsureWriteBinding_def Let_def by (intro keeps_intros)

lemma status_keeps:
  assumes "leaves (pct_Projects R) P"
  shows "keeps P (markTerminating R p c)" "keeps P (markFailed R p c reason message)" "keeps P (markReady R p c ac mc m)"
    "keeps P (removeFinalizerWithRetry R name)" "keeps P (markProjectCreateActivityRecorded R name)"
  unfolding markTerminating_def markFailed_def markReady_def updateProjectStatus_def removeFinalizerWithRetry_def
    markProjectCreateActivityRecorded_def
  by (intro keeps_if keeps_plain write_project_keeps assms leaves_calls(4,5) [OF assms])+

lemma drop_keeps:
  assumes "spares_others R P n" "ns_Name ns \<noteq> n"
  shows "keeps P (drop_namespace R what ns)"
  unfolding drop_namespace_def by (intro keeps_intros spares_calls(13) [OF assms])

lemma ensure_keeps:
  assumes "spares_others R P n"
  shows "keeps P (ensureNamespace R p nm sp)"
proof -
  note sp = spares_calls [OF assms]
  have "keeps P (adopt_namespace R p nm ls existing)" for ls existing
    unfolding adopt_namespace_def by (intro keeps_if keeps_pair keeps_on_err keeps_andthen keeps_plain sp(12))
  then show ?thesis
    unfolding ensureNamespace_def Let_def
    by (intro keeps_outcome keeps_sum keeps_if keeps_andthen keeps_on_err keeps_plain sp(8,9,11))
qed

lemma or_failed_keeps: "leaves (pct_Projects R) P \<Longrightarrow> keeps P m \<Longrightarrow> keeps P (or_failed R p c text m)"
  unfolding or_failed_def ending_def
  by (intro keeps_outcome keeps_sum keeps_plain status_keeps) (auto split: project_err.split intro!: keeps_intros status_keeps)

lemma or_requeue_keeps:
  assumes "\<And>m. keeps P (r_Get (pct_Namespaces R) m)" "keeps P m"
  shows "keeps P (or_requeue R c text m)"
proof -
  have "keeps P (\<lambda>s. case forbiddenFastRequeue (\<lambda>s n. r_Get (pct_Namespaces R) n s) now c e s of
      (Some delay, s1) \<Rightarrow> (Inl (Inr (Some delay)), s1) | (None, s1) \<Rightarrow> (Inl (Inl (wrapped text e)), s1))" for now e
    by (rule keepsI) (auto simp: forbiddenFastRequeue_def dest: keepsD [OF assms(1)]
      split: prod.splits option.splits gerr.splits kerr.splits sum.splits if_splits)
  then show ?thesis
    unfolding or_requeue_def by (intro keeps_outcome keeps_sum keeps_andthen keeps_plain assms(2))
qed

lemma ensure_loop_keeps:
  assumes "spares_others R P n"
  shows "keeps P (ensure_env_namespaces R p c m envs)"
  by (induction envs arbitrary: m)
     (auto simp: Let_def fail_def intro!: keeps_andthen keeps_plain keeps_on_err or_failed_keeps ensure_keeps [OF assms]
        binding_keeps spares_calls(1,2) [OF assms])

lemma stamp_keeps: "leaves (pct_Apps R) P \<Longrightarrow> (\<And>a b. keeps P (pct_PatchApp R a b)) \<Longrightarrow> keeps P (stamp_apps R ann p c)"
  unfolding stamp_apps_def stamp_app_def by (intro keeps_intros)

lemma reconcile_spares:
  assumes sp: "spares_others R P n" and read: "yields P (r_Get (pct_Projects R) name) V"
    and gc: "\<And>p d. V p \<Longrightarrow> keeps P (gcStaleEnvNamespaces R p d)"
    and del: "\<And>p. V p \<Longrightarrow> prj_DeletionTimestamp p \<noteq> None \<Longrightarrow> keeps P (deleteOwnedNamespaces R p)"
  shows "keeps P (reconcile_project R name)"
proof -
  note c = spares_calls [OF sp] and l = leaves_calls
  have ended: "keeps P (terminate_project R p cn)" if "V p" "prj_DeletionTimestamp p \<noteq> None" for p cn
    unfolding terminate_project_def fail_def by (intro keeps_andthen keeps_on_err keeps_plain status_keeps c(1) del that)
  have unique: "keeps P (checkControlNamespaceUniqueness R p cn)" for p cn
    unfolding checkControlNamespaceUniqueness_def
    by (intro keeps_andthen keeps_on_err l(2) [OF c(1)]) (auto split: option.split intro: keeps_plain)
  have prov: "keeps P (provision_namespaces R p cn)" for p cn
    unfolding provision_namespaces_def fail_def ending_def
    by (intro keeps_andthen keeps_on_err keeps_plain keeps_option keeps_outcome keeps_sum or_failed_keeps unique ensure_keeps [OF sp]
      binding_keeps ensure_loop_keeps [OF sp] status_keeps c(1,2))
  have owner: "keeps P (ensureOwnerMember R p cn)" for p cn
    unfolding ensureOwnerMember_def Let_def by (intro keeps_if keeps_outcome keeps_sum keeps_plain l(1,3) [OF c(3)])
  have act: "keeps P (ensureProjectCreateActivity R p)" for p
    unfolding ensureProjectCreateActivity_def appendProjectCreateActivityIfMissing_def
    by (intro keeps_if keeps_andthen keeps_on_err keeps_plain append_create_keeps status_keeps c(1,5))
  have counts: "keeps P (countApps R cn)" "keeps P (countMembers R cn)" for cn
    unfolding countApps_def countMembers_def by (intro keeps_andthen keeps_plain l(2) [OF c(4)] l(2) [OF c(3)])+
  have "keeps P (propagate R p cn m)" if "V p" for p cn m
    unfolding propagate_def fail_def cascadeEnvChange_def cascadePreviewChange_def
    by (intro keeps_andthen keeps_on_err keeps_plain keeps_if or_requeue_keeps owner act gc that counts stamp_keeps status_keeps c(1,4,6,9))
  then show ?thesis
    unfolding reconcile_project_def reconcile_found_def Let_def
    by (intro keeps_yields_outcome [OF l(1) [OF c(1)] read])
       (auto simp: fail_def split: option.split intro!: keeps_andthen keeps_plain keeps_on_err keeps_if ended prov l(4) [OF c(1)])
qed

text \<open>The collector: a namespace whose environment the live project declares stays.\<close>

lemma gc_spares_declared:
  assumes sp: "spares_others R P n" and lv: "pct_LiveProject R = Some get" "yields P (get (prj_Name p)) (\<lambda>p. projectDeclaresEnv p e)"
    and "\<forall>ob \<in> set nss. ns_Name ob = n \<longrightarrow> lookup_str (ns_Labels ob) EnvironmentLabel = e"
    and "\<forall>q. got = Some q \<longrightarrow> projectDeclaresEnv q e"
  shows "keeps P (collect_env_namespaces R p d got nss)"
  using assms(4,5)
proof (induction nss arbitrary: got)
  case Nil
  show ?case by (simp add: keeps_plain)
next
  case (Cons ns nss)
  let ?envName = "lookup_str (ns_Labels ns) EnvironmentLabel"
  have rest: "keeps P (collect_env_namespaces R p d got nss)" if "\<forall>q. got = Some q \<longrightarrow> projectDeclaresEnv q e" for got
    using Cons that by simp
  have read: "keeps P (case got of Some p \<Rightarrow> give p | None \<Rightarrow> on_err (Api ''re-read project before env namespace gc: '') (get (prj_Name p)))"
    using spares_calls(7) [OF sp lv(1)] by (auto split: option.split intro: keeps_intros)
  have declared: "yields P (case got of Some p \<Rightarrow> give p | None \<Rightarrow> on_err (Api ''re-read project before env namespace gc: '') (get (prj_Name p)))
      (\<lambda>q. projectDeclaresEnv q e)"
    using Cons.prems(2) lv(2) by (cases got) (simp_all, simp add: yields_def wp_simps)
  have "keeps P (andthen (case got of Some p \<Rightarrow> give p
        | None \<Rightarrow> on_err (Api ''re-read project before env namespace gc: '') (get (prj_Name p))) (\<lambda>q.
      if projectDeclaresEnv q ?envName then collect_env_namespaces R p d (Some q) nss
      else andthen (drop_namespace R ''delete stale env ns '' ns) (\<lambda>_. collect_env_namespaces R p d (Some q) nss)))"
    by (rule keeps_yields [OF read declared], rule keeps_if)
       (use Cons.prems(1) in \<open>auto intro!: keeps_andthen drop_keeps [OF sp] rest\<close>)
  then show ?case
    by (simp only: collect_env_namespaces.simps Let_def lv(1) option.case) (intro keeps_if rest Cons.prems(2))
qed

lemma gc_spares_foreign:
  assumes sp: "spares_others R P n" and "\<forall>ob \<in> set nss. ns_Name ob \<noteq> n"
  shows "keeps P (collect_env_namespaces R p d got nss)"
  using assms(2)
  by (induction nss arbitrary: got)
     (auto simp: Let_def split: option.split intro!: keeps_if keeps_andthen keeps_plain keeps_on_err drop_keeps [OF sp] spares_calls(7) [OF sp])

section \<open>What a complete reconcile leaves\<close>

definition ctl_env ::
  "'s projects_ctl \<Rightarrow> ('s \<Rightarrow> bool) \<Rightarrow> ('s \<Rightarrow> string \<rightharpoonup> Project) \<Rightarrow> ('s \<Rightarrow> string \<rightharpoonup> nsobj) \<Rightarrow> bool" where
  \<comment> \<open>no other writer changes projects or namespaces, \<open>NotFound\<close> is the truth, and the readers past the cache return what is stored\<close>
  "ctl_env R ok pv nv \<longleftrightarrow>
     (\<forall>w. quiet project_kind (pct_Projects R) (\<lambda>s. ok s \<and> nv s = w) pv) \<and>
     (\<forall>v. quiet namespace_kind (pct_Namespaces R) (\<lambda>s. ok s \<and> pv s = v) nv) \<and>
     (\<forall>ob s. ok s \<longrightarrow> wp (r_Delete (pct_Namespaces R) ob) (\<lambda>r s1. r = Inl NotFound \<longrightarrow> nv s1 (ns_Name ob) = None) s) \<and>
     (\<forall>n s. ok s \<longrightarrow> wp (r_Get (pct_Projects R) n) (\<lambda>r s1. r = Inl NotFound \<longrightarrow> pv s n = None) s) \<and>
     (\<forall>v w. let P = \<lambda>s. ok s \<and> pv s = v \<and> nv s = w in
        leaves (pct_RoleBindings R) P \<and> leaves (pct_Members R) P \<and> leaves (pct_Apps R) P \<and> leaves (pct_ConfigMaps R) P \<and>
        (\<forall>a b. keeps P (pct_PatchApp R a b))) \<and>
     (\<forall>get n s. pct_LiveProject R = Some get \<longrightarrow> ok s \<longrightarrow>
        wp (get n) (\<lambda>r s1. ok s1 \<and> pv s1 = pv s \<and> nv s1 = nv s \<and> (\<forall>p. r = Inr p \<longrightarrow> pv s n = Some p)) s) \<and>
     (\<forall>get n s. pct_LiveNamespace R = Some get \<longrightarrow> ok s \<longrightarrow>
        wp (get n) (\<lambda>r s1. ok s1 \<and> pv s1 = pv s \<and> nv s1 = nv s \<and> (\<forall>ob. r = Inr ob \<longrightarrow> nv s n = Some ob)) s)"

lemma ctl_quiet:
  assumes "ctl_env R ok pv nv"
  shows "quiet project_kind (pct_Projects R) (\<lambda>s. ok s \<and> nv s = w) pv"
    and "quiet namespace_kind (pct_Namespaces R) (\<lambda>s. ok s \<and> pv s = v) nv"
  using assms by (simp_all add: ctl_env_def)

lemma ctl_others:
  assumes "ctl_env R ok pv nv"
  shows "leaves (pct_RoleBindings R) (\<lambda>s. ok s \<and> X (pv s) (nv s))" "leaves (pct_Members R) (\<lambda>s. ok s \<and> X (pv s) (nv s))"
    "leaves (pct_Apps R) (\<lambda>s. ok s \<and> X (pv s) (nv s))" "leaves (pct_ConfigMaps R) (\<lambda>s. ok s \<and> X (pv s) (nv s))"
    "keeps (\<lambda>s. ok s \<and> X (pv s) (nv s)) (pct_PatchApp R a b)"
proof -
  have k: "leaves (pct_RoleBindings R) (\<lambda>s. ok s \<and> pv s = v \<and> nv s = w)" "leaves (pct_Members R) (\<lambda>s. ok s \<and> pv s = v \<and> nv s = w)"
    "leaves (pct_Apps R) (\<lambda>s. ok s \<and> pv s = v \<and> nv s = w)" "leaves (pct_ConfigMaps R) (\<lambda>s. ok s \<and> pv s = v \<and> nv s = w)"
    "keeps (\<lambda>s. ok s \<and> pv s = v \<and> nv s = w) (pct_PatchApp R a b)" for v w
    using assms by (simp_all add: ctl_env_def Let_def)
  show "leaves (pct_RoleBindings R) (\<lambda>s. ok s \<and> X (pv s) (nv s))" "leaves (pct_Members R) (\<lambda>s. ok s \<and> X (pv s) (nv s))"
    "leaves (pct_Apps R) (\<lambda>s. ok s \<and> X (pv s) (nv s))" "leaves (pct_ConfigMaps R) (\<lambda>s. ok s \<and> X (pv s) (nv s))"
    by (rule leaves_lift2 [where pv = pv and nv = nv and X = X], rule k)+
  show "keeps (\<lambda>s. ok s \<and> X (pv s) (nv s)) (pct_PatchApp R a b)"
    by (rule keeps_lift2 [where pv = pv and nv = nv and X = X], rule k)
qed

text \<open>Calls on projects do not touch namespaces, and the other way round.\<close>

lemma ctl_leaves:
  assumes "ctl_env R ok pv nv"
  shows "leaves (pct_Projects R) (\<lambda>s. ok s \<and> N (nv s))" "leaves (pct_Namespaces R) (\<lambda>s. ok s \<and> N' (pv s))"
proof -
  note l = quiet_leaves
  show "leaves (pct_Projects R) (\<lambda>s. ok s \<and> N (nv s))"
    by (rule leaves_lift [where view = nv], rule l, rule ctl_quiet(1) [OF assms])
  show "leaves (pct_Namespaces R) (\<lambda>s. ok s \<and> N' (pv s))"
    by (rule leaves_lift [where view = pv], rule l, rule ctl_quiet(2) [OF assms])
qed

lemma ctl_get_project:
  assumes "ctl_env R ok pv nv" "ok s"
    and "\<And>e s1. ok s1 \<Longrightarrow> pv s1 = pv s \<Longrightarrow> nv s1 = nv s \<Longrightarrow> (e = NotFound \<Longrightarrow> pv s n = None) \<Longrightarrow> Q (Inl e) s1"
    and "\<And>p s1. ok s1 \<Longrightarrow> pv s1 = pv s \<Longrightarrow> nv s1 = nv s \<Longrightarrow> pv s n = Some p \<Longrightarrow> Q (Inr p) s1"
  shows "wp (r_Get (pct_Projects R) n) Q s"
proof -
  have "wp (r_Get (pct_Projects R) n) (\<lambda>r s1. ok s1 \<and> pv s1 = pv s \<and> nv s1 = nv s \<and> (\<forall>p. r = Inr p \<longrightarrow> pv s n = Some p)) s"
    by (rule quiet_get [OF ctl_quiet(1) [OF assms(1), of "nv s"]]) (use assms(2) in auto)
  moreover have "wp (r_Get (pct_Projects R) n) (\<lambda>r s1. r = Inl NotFound \<longrightarrow> pv s n = None) s"
    using assms(1,2) by (simp add: ctl_env_def)
  ultimately show ?thesis
    using assms(3,4) by (cases "fst (r_Get (pct_Projects R) n s)") (auto simp: wp_def split: prod.splits)
qed

lemma ctl_get_namespace:
  assumes "ctl_env R ok pv nv" "ok s"
    and "\<And>e s1. ok s1 \<Longrightarrow> pv s1 = pv s \<Longrightarrow> nv s1 = nv s \<Longrightarrow> Q (Inl e) s1"
    and "\<And>ob s1. ok s1 \<Longrightarrow> pv s1 = pv s \<Longrightarrow> nv s1 = nv s \<Longrightarrow> nv s n = Some ob \<Longrightarrow> Q (Inr ob) s1"
  shows "wp (r_Get (pct_Namespaces R) n) Q s" "wp (namespaceReader R n) Q s"
proof -
  show get: "wp (r_Get (pct_Namespaces R) n) Q s"
    by (rule quiet_get [OF ctl_quiet(2) [OF assms(1), of "pv s"]]) (use assms(2-4) in auto)
  show "wp (namespaceReader R n) Q s"
  proof (cases "pct_LiveNamespace R")
    case None
    with get show ?thesis by (simp add: namespaceReader_def)
  next
    case (Some live)
    then have "wp (live n) (\<lambda>r s1. ok s1 \<and> pv s1 = pv s \<and> nv s1 = nv s \<and> (\<forall>ob. r = Inr ob \<longrightarrow> nv s n = Some ob)) s"
      using assms(1,2) by (simp add: ctl_env_def)
    then have "wp (live n) Q s"
      by (rule wp_mono) (use assms(3,4) in \<open>auto split: sum.splits, (metis sum.exhaust)+\<close>)
    with Some show ?thesis by (simp add: namespaceReader_def)
  qed
qed

subsection \<open>The namespaces are there\<close>

definition placed :: "Project \<Rightarrow> namespaceSpec \<Rightarrow> nsobj \<Rightarrow> bool" where
  \<comment> \<open>owned by the project and labelled for its role\<close>
  "placed p sp ob \<longleftrightarrow> owned_by p ob \<and> list_all (\<lambda>(k, v). lookup_str (ns_Labels ob) k = v) (namespaceLabels (prj_Name p) sp)"

definition has_places :: "Project \<Rightarrow> (string \<times> namespaceSpec) set \<Rightarrow> (string \<rightharpoonup> nsobj) \<Rightarrow> bool" where
  "has_places p W m \<longleftrightarrow> (\<forall>(n, sp) \<in> W. \<exists>ob. m n = Some ob \<and> placed p sp ob)"

lemma placed_new: "placed p sp (new_namespace p n (namespaceLabels (prj_Name p) sp))"
  by (simp add: placed_def new_namespace_def owned_by_def project_refs_def project_owner_def namespaceLabels_def lookup_str_def
    ProjectLabel_def NamespaceRoleLabel_def EnvironmentLabel_def)

lemma distinct_labels: "distinct (map fst (namespaceLabels n sp))"
  by (simp add: namespaceLabels_def ProjectLabel_def NamespaceRoleLabel_def EnvironmentLabel_def)

lemma sync_places:
  assumes "owned_by p ob"
  shows "placed p sp (fst (sync_labels (namespaceLabels (prj_Name p) sp) ob))"
    and "\<not> snd (sync_labels (namespaceLabels (prj_Name p) sp) ob) \<Longrightarrow> placed p sp ob"
proof -
  let ?ls = "namespaceLabels (prj_Name p) sp"
  have "map_of ?ls k = Some v" if "(k, v) \<in> set ?ls" for k v
    using that by (simp add: map_of_eq_Some_iff [OF distinct_labels])
  then have "lookup_str (put_all ?ls (ns_Labels ob)) k = v" if "(k, v) \<in> set ?ls" for k v
    using that by (simp add: lookup_str_def map_of_put_all_distinct [OF distinct_labels])
  with assms show "placed p sp (fst (sync_labels ?ls ob))"
    by (auto simp: placed_def sync_labels_def owned_by_def project_refs_def list_all_iff)
  show "\<not> snd (sync_labels ?ls ob) \<Longrightarrow> placed p sp ob"
    using assms by (auto simp: placed_def sync_labels_def list_ex_iff list_all_iff)
qed

lemma has_places_put:
  assumes "has_places p W m" "\<And>sp'. (n, sp') \<in> W \<Longrightarrow> sp' = sp" "placed p sp ob"
  shows "has_places p (insert (n, sp) W) (m(n \<mapsto> ob))"
  using assms by (fastforce simp: has_places_def)

lemma has_places_mono: "has_places p W m \<Longrightarrow> V \<subseteq> W \<Longrightarrow> has_places p V m"
  by (auto simp: has_places_def)

lemma ensureNamespace_places:
  assumes env: "ctl_env R ok pv nv" and W: "ok s" "has_places p W (nv s)" "\<And>sp'. (n, sp') \<in> W \<Longrightarrow> sp' = sp"
  shows "wp (ensureNamespace R p n sp) (\<lambda>r s1. r = Inr () \<longrightarrow> ok s1 \<and> pv s1 = pv s \<and> has_places p (insert (n, sp) W) (nv s1)) s"
    (is "wp _ ?Q s")
proof -
  let ?ls = "namespaceLabels (prj_Name p) sp"
  note q = ctl_quiet(2) [OF env, of "pv s"]
  have adopt: "wp (adopt_namespace R p n ?ls ob) ?Q s1"
    if s1: "ok s1" "pv s1 = pv s" "nv s1 = nv s" "nv s n = Some ob" for ob s1
  proof -
    have name: "ns_Name ob = n" using quiet_key [OF q, of s n ob] W(1) s1(4) by (simp add: namespace_kind_def)
    have upd: "wp (r_Update (pct_Namespaces R) (fst (sync_labels ?ls ob)))
        (\<lambda>r s1. \<forall>a. r = Inr a \<longrightarrow> ok s1 \<and> pv s1 = pv s \<and> has_places p (insert (n, sp) W) (nv s1)) s1" if "owned_by p ob"
      by (rule quiet_update [OF q])
         (use s1 W sync_places(1) [OF that, of sp] name in
          \<open>auto simp: namespace_kind_def sync_labels_def intro!: has_places_put\<close>)
    have "wp (on_err (\<lambda>e. Other (Api [] e)) (andthen (r_Update (pct_Namespaces R) (fst (sync_labels ?ls ob))) (\<lambda>_. give ()))) ?Q s1"
      if "owned_by p ob"
      unfolding wp_on_err wp_andthen
      by (rule wp_mono [OF upd [OF that]]) (auto simp: wp_simps on_value_def split: sum.splits)
    moreover have "has_places p (insert (n, sp) W) (nv s)" if "owned_by p ob" "\<not> snd (sync_labels ?ls ob)"
      using W(2,3) s1(4) sync_places(2) [OF that] by (auto simp: has_places_def)
    ultimately show ?thesis
      using s1 by (simp add: adopt_namespace_def split_beta wp_give wp_stop)
  qed
  have create: "wp (r_Create (pct_Namespaces R) (new_namespace p n ?ls)) (\<lambda>c. wp (case c of Inr _ \<Rightarrow> give ()
        | Inl e \<Rightarrow> if e = AlreadyExists
            then andthen (on_err (\<lambda>e. Other (Api ''get namespace after already exists: '' e)) (namespaceReader R n)) (adopt_namespace R p n ?ls)
            else stop (Other (Api ''create namespace: '' e))) ?Q) s1"
    if s1: "ok s1" "pv s1 = pv s" "nv s1 = nv s" for s1
  proof (rule quiet_create [OF q])
    show "ok s1 \<and> pv s1 = pv s" using s1 by simp
    fix ob1 s2
    assume "ok s2 \<and> pv s2 = pv s" "kd_same namespace_kind (new_namespace p n ?ls) ob1"
      "nv s2 = (nv s1)(kd_key namespace_kind (new_namespace p n ?ls) \<mapsto> ob1)"
    then show "wp (case Inr ob1 of Inr _ \<Rightarrow> give () | Inl e \<Rightarrow> if e = AlreadyExists
            then andthen (on_err (\<lambda>e. Other (Api ''get namespace after already exists: '' e)) (namespaceReader R n)) (adopt_namespace R p n ?ls)
            else stop (Other (Api ''create namespace: '' e))) ?Q s2"
      using s1 W(2,3) placed_new [of p sp n]
      by (auto simp: wp_simps namespace_kind_def new_namespace_def intro!: has_places_put)
  next
    fix e s2 assume s2: "ok s2 \<and> pv s2 = pv s" "nv s2 = nv s1"
    have "wp (namespaceReader R n) (\<lambda>r. on_value (\<lambda>ob. wp (adopt_namespace R p n ?ls ob) ?Q) ?Q
        (map_sum (\<lambda>e. Other (Api ''get namespace after already exists: '' e)) id r)) s2"
      by (rule ctl_get_namespace(2) [OF env]) (use s1 s2 in \<open>auto simp: wp_simps intro!: adopt\<close>)
    then show "wp (case Inl e of Inr _ \<Rightarrow> give () | Inl e \<Rightarrow> if e = AlreadyExists
            then andthen (on_err (\<lambda>e. Other (Api ''get namespace after already exists: '' e)) (namespaceReader R n)) (adopt_namespace R p n ?ls)
            else stop (Other (Api ''create namespace: '' e))) ?Q s2"
      by (simp add: wp_simps)
  qed
  show ?thesis
    unfolding ensureNamespace_def Let_def wp_outcome
    by (rule ctl_get_namespace(1) [OF env W(1)]) (auto simp: wp_simps intro!: adopt create)
qed

lemma upon_fail [wp_simps]: "upon (fail text m) V s = upon m V s"
  by (simp add: fail_def wp_simps)

lemma upon_ending [wp_simps]: "upon (ending m) V s"
  by (auto simp: upon_def ending_def wp_def outcome_def stop_def split: prod.splits sum.splits)

lemma upon_or_failed: "upon m V s \<Longrightarrow> upon (or_failed R p c text m) V s"
  by (auto simp: upon_def or_failed_def ending_def wp_def outcome_def stop_def give_def
      split: prod.splits sum.splits project_err.splits)

lemma upon_or_requeue: "upon m V s \<Longrightarrow> upon (or_requeue R c text m) V s"
  by (auto simp: upon_def or_requeue_def wp_def outcome_def andthen_def look_def give_def split: prod.splits sum.splits option.splits)

definition env_place :: "Project \<Rightarrow> ProjectEnvironment \<Rightarrow> string \<times> namespaceSpec" where
  "env_place p env = (EnvNamespace (prj_Name p) (pe_Name env), \<lparr>nss_role = NamespaceRoleEnv, nss_envName = pe_Name env\<rparr>)"

definition control_place :: "Project \<Rightarrow> string \<times> namespaceSpec" where
  "control_place p = (ControlNamespace (prj_Name p), \<lparr>nss_role = NamespaceRoleControl, nss_envName = []\<rparr>)"

definition wanted :: "Project \<Rightarrow> (string \<times> namespaceSpec) set" where
  "wanted p = insert (control_place p) (env_place p ` set (ps_Environments (prj_Spec p)))"

lemma wanted_unique: "(n, sp) \<in> wanted p \<Longrightarrow> (n, sp') \<in> wanted p \<Longrightarrow> sp = sp'"
  by (auto simp: wanted_def env_place_def control_place_def EnvNamespace_def ControlNamespace_def)

lemma ensure_wanted:
  assumes "ctl_env R ok pv nv" "ok s" "has_places p W (nv s)" "W \<subseteq> wanted p" "(n, sp) \<in> wanted p"
  shows "upon (ensureNamespace R p n sp) (\<lambda>_ s1. ok s1 \<and> pv s1 = pv s \<and> has_places p (insert (n, sp) W) (nv s1)) s"
proof -
  have "\<And>sp'. (n, sp') \<in> W \<Longrightarrow> sp' = sp" using assms(4,5) wanted_unique by blast
  from ensureNamespace_places [OF assms(1-3) this] show ?thesis by (simp add: upon_def)
qed

lemma binding_kept:
  assumes "ctl_env R ok pv nv" "ok s" "\<And>s1. ok s1 \<Longrightarrow> pv s1 = pv s \<Longrightarrow> nv s1 = nv s \<Longrightarrow> V () s1"
  shows "upon (ensureRoleBinding R n) V s"
  by (rule upon_keeps [OF binding_keeps, OF ctl_others(1) [OF assms(1), of "\<lambda>v w. v = pv s \<and> w = nv s"]])
     (use assms(2,3) in auto)

lemma env_namespaces_placed:
  assumes env: "ctl_env R ok pv nv" and "ok s" "has_places p W (nv s)" "W \<subseteq> wanted p"
    and "set envs \<subseteq> set (ps_Environments (prj_Spec p))"
  shows "upon (ensure_env_namespaces R p c m envs) (\<lambda>m1 s1. ok s1 \<and> pv s1 = pv s \<and>
    has_places p (W \<union> env_place p ` set envs) (nv s1) \<and> dom (map_of m1) = dom (map_of m) \<union> pe_Name ` set envs) s"
  using assms(2-5)
proof (induction envs arbitrary: s W m)
  case Nil
  then show ?case by (simp add: wp_simps)
next
  case (Cons e envs)
  let ?n = "EnvNamespace (prj_Name p) (pe_Name e)" and ?sp = "\<lparr>nss_role = NamespaceRoleEnv, nss_envName = pe_Name e\<rparr>"
  have place: "(?n, ?sp) \<in> wanted p" "env_place p e = (?n, ?sp)"
    using Cons.prems(4) by (auto simp: wanted_def env_place_def)
  have rest: "upon (ensure_env_namespaces R p c (AList.update (pe_Name e) ?n m) envs) (\<lambda>m1 s1. ok s1 \<and> pv s1 = pv s \<and>
      has_places p (W \<union> env_place p ` set (e # envs)) (nv s1) \<and> dom (map_of m1) = dom (map_of m) \<union> pe_Name ` set (e # envs)) s2"
    if "ok s2" "pv s2 = pv s" "has_places p (insert (?n, ?sp) W) (nv s2)" for s2
    by (rule upon_mono [OF Cons.IH [OF that(1,3)]])
       (use that(2) place Cons.prems(3,4) in \<open>auto simp: update_conv' insert_commute\<close>)
  show ?case
    unfolding ensure_env_namespaces.simps Let_def upon_andthen
  proof (intro upon_or_failed upon_mono [OF ensure_wanted [OF env Cons.prems(1-3) place(1)]])
    fix s1 assume s1: "ok s1 \<and> pv s1 = pv s \<and> has_places p (insert (?n, ?sp) W) (nv s1)"
    show "upon (fail (''ensure role binding in '' @ quoted ?n @ '': '') (on_err (Api []) (ensureRoleBinding R ?n)))
        (\<lambda>_. upon (ensure_env_namespaces R p c (AList.update (pe_Name e) ?n m) envs) (\<lambda>m1 s1. ok s1 \<and> pv s1 = pv s \<and>
           has_places p (W \<union> env_place p ` set (e # envs)) (nv s1) \<and> dom (map_of m1) = dom (map_of m) \<union> pe_Name ` set (e # envs))) s1"
      unfolding upon_fail upon_on_err by (rule binding_kept [OF env], simp add: s1, rule rest) (simp_all add: s1)
  qed
qed

lemma ctl_reads:
  assumes "ctl_env R ok pv nv"
  shows "keeps (\<lambda>s. ok s \<and> X (pv s) (nv s)) (r_Get (pct_Projects R) n)" "keeps (\<lambda>s. ok s \<and> X (pv s) (nv s)) (r_List (pct_Projects R) ns ls)"
    "keeps (\<lambda>s. ok s \<and> X (pv s) (nv s)) (r_Get (pct_Namespaces R) n)"
proof -
  note q = ctl_quiet [OF assms]
  show "keeps (\<lambda>s. ok s \<and> X (pv s) (nv s)) (r_Get (pct_Projects R) n)"
    by (rule keepsI_wp, rule ctl_get_project [OF assms]) auto
  show "keeps (\<lambda>s. ok s \<and> X (pv s) (nv s)) (r_Get (pct_Namespaces R) n)"
    by (rule keepsI_wp, rule ctl_get_namespace(1) [OF assms]) auto
  show "keeps (\<lambda>s. ok s \<and> X (pv s) (nv s)) (r_List (pct_Projects R) ns ls)"
  proof (rule keepsI_wp)
    fix s assume "ok s \<and> X (pv s) (nv s)"
    then show "wp (r_List (pct_Projects R) ns ls) (\<lambda>_ s. ok s \<and> X (pv s) (nv s)) s"
      by (intro quiet_list [OF q(1) [of "nv s"]]) auto
  qed
qed

lemma unique_kept:
  assumes "ctl_env R ok pv nv"
  shows "keeps (\<lambda>s. ok s \<and> X (pv s) (nv s)) (checkControlNamespaceUniqueness R p c)"
  unfolding checkControlNamespaceUniqueness_def
  by (intro keeps_andthen keeps_on_err ctl_reads [OF assms]) (auto split: option.split intro: keeps_plain)

lemma provision_places:
  assumes env: "ctl_env R ok pv nv" and "ok s"
  shows "upon (provision_namespaces R p (ControlNamespace (prj_Name p))) (\<lambda>m s1. ok s1 \<and> pv s1 = pv s \<and>
    has_places p (wanted p) (nv s1) \<and> dom (map_of m) = pe_Name ` set (ps_Environments (prj_Spec p))) s"
proof -
  let ?c = "ControlNamespace (prj_Name p)" and ?sp = "\<lparr>nss_role = NamespaceRoleControl, nss_envName = []\<rparr>"
  have place: "(?c, ?sp) \<in> wanted p" by (simp add: wanted_def control_place_def)
  have envs: "upon (ensure_env_namespaces R p ?c [] (ps_Environments (prj_Spec p))) (\<lambda>m s1. ok s1 \<and> pv s1 = pv s \<and>
      has_places p (wanted p) (nv s1) \<and> dom (map_of m) = pe_Name ` set (ps_Environments (prj_Spec p))) s1"
    if "ok s1" "pv s1 = pv s" "has_places p {(?c, ?sp)} (nv s1)" for s1
    by (rule upon_mono [OF env_namespaces_placed [OF env that(1,3)]])
       (use that(2) place in \<open>auto simp: wanted_def control_place_def\<close>)
  have control: "upon (fail t (on_err (Api []) (ensureRoleBinding R ?c))) (\<lambda>_. upon (ensure_env_namespaces R p ?c [] (ps_Environments (prj_Spec p)))
      (\<lambda>m s1. ok s1 \<and> pv s1 = pv s \<and> has_places p (wanted p) (nv s1) \<and> dom (map_of m) = pe_Name ` set (ps_Environments (prj_Spec p)))) s1"
    if s1: "ok s1 \<and> pv s1 = pv s \<and> has_places p (insert (?c, ?sp) {}) (nv s1)" for s1 t
    unfolding upon_fail upon_on_err by (rule binding_kept [OF env], simp add: s1, rule envs) (use s1 in simp_all)
  have ensured: "upon (or_failed R p ?c [] (ensureNamespace R p ?c ?sp)) (\<lambda>_. upon (fail t (on_err (Api []) (ensureRoleBinding R ?c)))
      (\<lambda>_. upon (ensure_env_namespaces R p ?c [] (ps_Environments (prj_Spec p)))
      (\<lambda>m s1. ok s1 \<and> pv s1 = pv s \<and> has_places p (wanted p) (nv s1) \<and> dom (map_of m) = pe_Name ` set (ps_Environments (prj_Spec p))))) s1"
    if "ok s1 \<and> pv s1 = pv s" for s1 t
    by (intro upon_or_failed upon_mono [OF ensure_wanted [OF env _ _ _ place, where W = "{}"]] control)
       (use that in \<open>auto simp: has_places_def\<close>)
  have "upon (or_failed R p ?c [] (checkControlNamespaceUniqueness R p ?c)) (\<lambda>_. upon (or_failed R p ?c [] (ensureNamespace R p ?c ?sp))
      (\<lambda>_. upon (fail t (on_err (Api []) (ensureRoleBinding R ?c)))
      (\<lambda>_. upon (ensure_env_namespaces R p ?c [] (ps_Environments (prj_Spec p)))
      (\<lambda>m s1. ok s1 \<and> pv s1 = pv s \<and> has_places p (wanted p) (nv s1) \<and> dom (map_of m) = pe_Name ` set (ps_Environments (prj_Spec p)))))) s" for t
    by (intro upon_or_failed, rule upon_keeps [OF unique_kept [OF env, where X = "\<lambda>v w. v = pv s"]])
       (use assms(2) in \<open>auto intro!: ensured\<close>)
  then show ?thesis
    unfolding provision_namespaces_def upon_andthen by (cases "too_long p") (simp_all add: upon_plain upon_ending)
qed

definition stale :: "Project \<Rightarrow> nsobj \<Rightarrow> bool" where
  \<comment> \<open>an environment namespace of the project that it does not declare\<close>
  "stale p ob \<longleftrightarrow> has_labels [(ProjectLabel, prj_Name p), (NamespaceRoleLabel, NamespaceRoleEnv)] (ns_Labels ob) \<and>
     ns_DeletionTimestamp ob = None \<and> lookup_str (ns_Labels ob) EnvironmentLabel \<notin> pe_Name ` set (ps_Environments (prj_Spec p))"

lemma drop_gone:
  assumes env: "ctl_env R ok pv nv" and "ok s"
  shows "upon (drop_namespace R what ob) (\<lambda>_ s1. ok s1 \<and> pv s1 = pv s \<and> nv s1 = (nv s)(ns_Name ob := None)) s"
proof -
  have "wp (r_Delete (pct_Namespaces R) ob) (\<lambda>r s1. (ok s1 \<and> pv s1 = pv s \<and>
      (case r of Inl e \<Rightarrow> nv s1 = nv s | Inr _ \<Rightarrow> nv s1 = (nv s)(ns_Name ob := None))) \<and>
      (r = Inl NotFound \<longrightarrow> nv s1 (ns_Name ob) = None)) s"
    unfolding wp_conj [where Q = "\<lambda>r s1. ok s1 \<and> pv s1 = pv s \<and> (case r of Inl e \<Rightarrow> nv s1 = nv s | Inr _ \<Rightarrow> nv s1 = (nv s)(ns_Name ob := None))"]
  proof
    show "wp (r_Delete (pct_Namespaces R) ob) (\<lambda>r s1. ok s1 \<and> pv s1 = pv s \<and>
        (case r of Inl e \<Rightarrow> nv s1 = nv s | Inr _ \<Rightarrow> nv s1 = (nv s)(ns_Name ob := None))) s"
      by (rule quiet_delete [OF ctl_quiet(2) [OF env, of "pv s"]]) (use assms(2) in \<open>auto simp: namespace_kind_def\<close>)
    show "wp (r_Delete (pct_Namespaces R) ob) (\<lambda>r s1. r = Inl NotFound \<longrightarrow> nv s1 (ns_Name ob) = None) s"
      using env assms(2) by (simp add: ctl_env_def)
  qed
  then show ?thesis
    unfolding drop_namespace_def upon_def wp_outcome
    by (rule wp_mono) (auto simp: wp_simps fun_upd_idem split: sum.splits)
qed

subsection \<open>Nothing stale remains\<close>

definition settled :: "('s \<Rightarrow> bool) \<Rightarrow> ('s \<Rightarrow> string \<rightharpoonup> Project) \<Rightarrow> ('s \<Rightarrow> string \<rightharpoonup> nsobj) \<Rightarrow> Project \<Rightarrow> 's \<Rightarrow> bool" where
  \<comment> \<open>the specification is the one that was read, and the namespaces it asks for are there\<close>
  "settled ok pv nv p s \<longleftrightarrow> ok s \<and> (\<exists>q. pv s (prj_Name p) = Some q \<and> prj_Spec q = prj_Spec p) \<and> has_places p (wanted p) (nv s)"

definition only_stale :: "Project \<Rightarrow> nsobj set \<Rightarrow> (string \<rightharpoonup> nsobj) \<Rightarrow> bool" where
  "only_stale p A m \<longleftrightarrow> (\<forall>k ob. m k = Some ob \<longrightarrow> ns_Name ob = k \<and> (stale p ob \<longrightarrow> ob \<in> A))"

lemma only_stale_drop: "only_stale p (insert ns A) m \<Longrightarrow> only_stale p A (m(ns_Name ns := None))"
  by (auto simp: only_stale_def)

lemma places_drop: "has_places p W m \<Longrightarrow> n \<notin> fst ` W \<Longrightarrow> has_places p W (m(n := None))"
proof -
  assume m: "has_places p W m" and n: "n \<notin> fst ` W"
  have "k \<noteq> n" if "(k, sp) \<in> W" for k sp using n image_eqI [OF _ that, of k fst] by auto
  with m show ?thesis by (auto simp: has_places_def)
qed

lemma live_read:
  assumes "ctl_env R ok pv nv" "pct_LiveProject R = Some get" "ok s"
    and "\<And>q s1. ok s1 \<Longrightarrow> pv s1 = pv s \<Longrightarrow> nv s1 = nv s \<Longrightarrow> pv s n = Some q \<Longrightarrow> V q s1"
  shows "upon (get n) V s"
proof -
  have "wp (get n) (\<lambda>r s1. ok s1 \<and> pv s1 = pv s \<and> nv s1 = nv s \<and> (\<forall>p. r = Inr p \<longrightarrow> pv s n = Some p)) s"
    using assms(1-3) by (simp add: ctl_env_def)
  then show ?thesis unfolding upon_def by (rule wp_mono) (use assms(4) in auto)
qed

lemma gc_collects_stale:
  assumes env: "ctl_env R ok pv nv" and d: "dom (map_of d) = pe_Name ` set (ps_Environments (prj_Spec p))"
    and "settled ok pv nv p s" "only_stale p (set nss) (nv s)"
    and "\<forall>ob \<in> set nss. ns_Name ob \<in> fst ` wanted p \<longrightarrow> lookup_str (ns_Labels ob) EnvironmentLabel \<in> pe_Name ` set (ps_Environments (prj_Spec p))"
    and "\<forall>q. got = Some q \<longrightarrow> prj_Spec q = prj_Spec p"
  shows "upon (collect_env_namespaces R p d got nss) (\<lambda>_ s1. settled ok pv nv p s1 \<and> only_stale p {} (nv s1)) s"
  using assms(3-6)
proof (induction nss arbitrary: got s)
  case Nil
  then show ?case by (simp add: upon_plain)
next
  case (Cons ns nss)
  let ?e = "lookup_str (ns_Labels ns) EnvironmentLabel"
  let ?V = "\<lambda>_ s1. settled ok pv nv p s1 \<and> only_stale p {} (nv s1)"
  have skip: "upon (collect_env_namespaces R p d got nss) ?V s1"
    if "settled ok pv nv p s1" "nv s1 = nv s" "\<not> stale p ns" "\<forall>q. got = Some q \<longrightarrow> prj_Spec q = prj_Spec p" for got s1
    using that Cons.prems(2,3) by (intro Cons.IH) (auto simp: only_stale_def)
  have drop: "upon (andthen (drop_namespace R w ns) (\<lambda>_. collect_env_namespaces R p d got nss)) ?V s1"
    if s1: "settled ok pv nv p s1" "nv s1 = nv s" and fresh: "?e \<notin> pe_Name ` set (ps_Environments (prj_Spec p))"
      and got: "\<forall>q. got = Some q \<longrightarrow> prj_Spec q = prj_Spec p" for w got s1
    unfolding upon_andthen
  proof (rule upon_mono [OF drop_gone [OF env]])
    show "ok s1" using s1 by (simp add: settled_def)
    fix s2 assume s2: "ok s2 \<and> pv s2 = pv s1 \<and> nv s2 = (nv s1)(ns_Name ns := None)"
    have "ns_Name ns \<notin> fst ` wanted p" using Cons.prems(3) fresh by auto
    with s1 s2 have "settled ok pv nv p s2" by (simp add: settled_def places_drop)
    moreover have "only_stale p (set nss) (nv s2)"
      using only_stale_drop Cons.prems(2) s1(2) s2 by simp
    ultimately show "upon (collect_env_namespaces R p d got nss) ?V s2"
      using Cons.prems(3) got by (intro Cons.IH) auto
  qed
  have kept: "\<not> stale p ns" if "map_of d ?e \<noteq> None \<or> ns_DeletionTimestamp ns \<noteq> None"
    using that d by (auto simp: stale_def)
  have fresh: "?e \<notin> pe_Name ` set (ps_Environments (prj_Spec p))" if "map_of d ?e = None"
    using that d by (auto simp: domIff)
  have decide: "upon (if projectDeclaresEnv q ?e then collect_env_namespaces R p d (Some q) nss
      else andthen (drop_namespace R ''delete stale env ns '' ns) (\<lambda>_. collect_env_namespaces R p d (Some q) nss)) ?V s1"
    if "settled ok pv nv p s1" "nv s1 = nv s" "prj_Spec q = prj_Spec p" "map_of d ?e = None" for q s1
  proof -
    have "\<not> projectDeclaresEnv q ?e"
      using fresh [OF that(4)] that(3) by (simp add: projectDeclaresEnv_def list_ex_iff) (metis image_eqI)
    then show ?thesis using that(3) by (simp add: drop [OF that(1,2) fresh [OF that(4)]])
  qed
  have look: "upon (andthen (case got of Some p \<Rightarrow> give p
        | None \<Rightarrow> on_err (Api ''re-read project before env namespace gc: '') (get (prj_Name p))) (\<lambda>q.
      if projectDeclaresEnv q ?e then collect_env_namespaces R p d (Some q) nss
      else andthen (drop_namespace R ''delete stale env ns '' ns) (\<lambda>_. collect_env_namespaces R p d (Some q) nss))) ?V s"
    if "pct_LiveProject R = Some get" "map_of d ?e = None" for get
  proof (cases got)
    case None
    have "upon (get (prj_Name p)) (\<lambda>q. upon (if projectDeclaresEnv q ?e then collect_env_namespaces R p d (Some q) nss
        else andthen (drop_namespace R ''delete stale env ns '' ns) (\<lambda>_. collect_env_namespaces R p d (Some q) nss)) ?V) s"
    proof (rule live_read [OF env that(1)])
      show "ok s" using Cons.prems(1) by (simp add: settled_def)
      fix q s1 assume "ok s1" "pv s1 = pv s" "nv s1 = nv s" "pv s (prj_Name p) = Some q"
      with Cons.prems(1) show "upon (if projectDeclaresEnv q ?e then collect_env_namespaces R p d (Some q) nss
        else andthen (drop_namespace R ''delete stale env ns '' ns) (\<lambda>_. collect_env_namespaces R p d (Some q) nss)) ?V s1"
        by (intro decide that(2)) (auto simp: settled_def)
    qed
    with None show ?thesis by (simp only: upon_andthen option.case upon_on_err)
  next
    case (Some q)
    then show ?thesis
      using Cons.prems(4) by (simp only: upon_andthen option.case upon_plain) (intro decide that(2) Cons.prems(1), auto)
  qed
  show ?case
  proof (cases "map_of d ?e \<noteq> None \<or> ns_DeletionTimestamp ns \<noteq> None")
    case True
    then show ?thesis using skip [OF Cons.prems(1) refl kept [OF True] Cons.prems(4)] by (simp add: Let_def)
  next
    case False
    then show ?thesis
      using drop [OF Cons.prems(1) refl fresh Cons.prems(4)] look
      by (cases "pct_LiveProject R") (simp_all add: Let_def del: upon_andthen)
  qed
qed

lemma settled_others:
  assumes "ctl_env R ok pv nv"
  shows "leaves (pct_Members R) (settled ok pv nv p)" "leaves (pct_ConfigMaps R) (settled ok pv nv p)"
    "keeps (settled ok pv nv p) (r_Get (pct_Namespaces R) n)"
  unfolding settled_def
  by (rule ctl_others [OF assms, where X = "\<lambda>v w. (\<exists>q. v (prj_Name p) = Some q \<and> prj_Spec q = prj_Spec p) \<and> has_places p (wanted p) w"]
    ctl_reads(3) [OF assms, where X = "\<lambda>v w. (\<exists>q. v (prj_Name p) = Some q \<and> prj_Spec q = prj_Spec p) \<and> has_places p (wanted p) w"])+

lemma project_write_keeps:
  assumes env: "ctl_env R ok pv nv"
    and upd: "\<And>s q q'. ok s \<Longrightarrow> X (pv s) (nv s) \<Longrightarrow> pv s n = Some q \<Longrightarrow> change q = Some q' \<Longrightarrow>
      wp (put q') (\<lambda>_ s. ok s \<and> X (pv s) (nv s)) s"
  shows "keeps (\<lambda>s. ok s \<and> X (pv s) (nv s)) (write_project k R put n change msg)"
proof (induction k)
  case 0
  show ?case by (simp add: keeps_plain)
next
  case (Suc k)
  let ?P = "\<lambda>s. ok s \<and> X (pv s) (nv s)"
  let ?again = "\<lambda>w. case w of Inl err \<Rightarrow>
        if err = Conflict \<and> k \<noteq> 0 then write_project k R put n change msg else stop (Api [] err)
      | Inr _ \<Rightarrow> give ()"
  have put: "wp (put q') (\<lambda>w. wp (?again w) (\<lambda>_. ?P)) s" if "?P s" "pv s n = Some q" "change q = Some q'" for s q q'
    by (rule wp_mono [OF upd]) (use that in \<open>auto simp: wp_give wp_stop keeps_wp [OF Suc] split: sum.split\<close>)
  show ?case
  proof (rule keepsI_wp)
    fix s assume s: "?P s"
    show "wp (write_project (Suc k) R put n change msg) (\<lambda>_. ?P) s"
      unfolding write_project.simps wp_outcome
    proof (rule ctl_get_project [OF env])
      fix q s1 assume s1: "ok s1" "pv s1 = pv s" "nv s1 = nv s" "pv s n = Some q"
      then show "wp (case Inr q of Inl err \<Rightarrow> if err = NotFound then give () else stop (Api [] err)
          | Inr fresh \<Rightarrow> (case change fresh of None \<Rightarrow> give () | Some changed \<Rightarrow> outcome (put changed) ?again)) (\<lambda>_. ?P) s1"
        using s put [of s1 q] by (cases "change q") (simp_all only: sum.case option.case wp_outcome wp_give)
    qed (use s in \<open>auto simp: wp_give wp_stop\<close>)
  qed
qed

lemma same_but_status:
  assumes "kd_same project_kind q q1"
  shows "prj_Spec q1 = prj_Spec q" "prj_Finalizers q1 = prj_Finalizers q" "prj_Name q1 = prj_Name q"
proof -
  have "q1\<lparr>prj_Status := prj_Status q\<rparr> = q" using assms by (simp add: project_kind_def)
  then have "prj_Spec (q1\<lparr>prj_Status := prj_Status q\<rparr>) = prj_Spec q"
    "prj_Finalizers (q1\<lparr>prj_Status := prj_Status q\<rparr>) = prj_Finalizers q" "prj_Name (q1\<lparr>prj_Status := prj_Status q\<rparr>) = prj_Name q" by simp_all
  then show "prj_Spec q1 = prj_Spec q" "prj_Finalizers q1 = prj_Finalizers q" "prj_Name q1 = prj_Name q" by simp_all
qed

lemma recorded_settled:
  assumes "ctl_env R ok pv nv"
  shows "keeps (settled ok pv nv p) (markProjectCreateActivityRecorded R n)"
  unfolding markProjectCreateActivityRecorded_def settled_def
proof (rule project_write_keeps [OF assms, where X = "\<lambda>v w. (\<exists>q. v (prj_Name p) = Some q \<and> prj_Spec q = prj_Spec p) \<and> has_places p (wanted p) w"])
  fix s q q'
  assume s: "ok s" "(\<exists>q. pv s (prj_Name p) = Some q \<and> prj_Spec q = prj_Spec p) \<and> has_places p (wanted p) (nv s)" "pv s n = Some q"
    and "(if lookup_str (prj_Annotations q) projectCreateActivityRecordedAnnotation = ''true'' then None
      else Some (q\<lparr>prj_Annotations := AList.update projectCreateActivityRecordedAnnotation ''true'' (prj_Annotations q)\<rparr>)) = Some q'"
  then have q': "prj_Name q' = prj_Name q" "prj_Spec q' = prj_Spec q" by (auto split: if_splits)
  have "prj_Name q = n" using quiet_key [OF ctl_quiet(1) [OF assms, of "nv s"], of s n q] s(1,3) by (simp add: project_kind_def)
  then show "wp (r_Update (pct_Projects R) q') (\<lambda>_ s. ok s \<and> (\<exists>q. pv s (prj_Name p) = Some q \<and> prj_Spec q = prj_Spec p) \<and>
      has_places p (wanted p) (nv s)) s"
    by (intro quiet_update [OF ctl_quiet(1) [OF assms, of "nv s"]])
       (use s q' in \<open>auto simp: project_kind_def [THEN arg_cong, of kd_key] dest: same_but_status(1)\<close>)
qed

lemma gc_settled:
  assumes env: "ctl_env R ok pv nv" and d: "dom (map_of d) = pe_Name ` set (ps_Environments (prj_Spec p))"
    and s: "settled ok pv nv p s" and named: "[] \<notin> pe_Name ` set (ps_Environments (prj_Spec p))"
  shows "upon (gcStaleEnvNamespaces R p d) (\<lambda>_ s1. settled ok pv nv p s1 \<and> only_stale p {} (nv s1)) s"
  unfolding gcStaleEnvNamespaces_def upon_andthen upon_on_err
proof (unfold upon_def, rule quiet_list [OF ctl_quiet(2) [OF env, of "pv s"]])
  show ok: "ok s \<and> pv s = pv s" using s by (simp add: settled_def)
  let ?sel = "[(ProjectLabel, prj_Name p), (NamespaceRoleLabel, NamespaceRoleEnv)]"
  fix nss s1
  assume s1: "ok s1 \<and> pv s1 = pv s" "nv s1 = nv s" and nss: "set nss = listed namespace_kind (nv s) [] ?sel"
  have key: "ns_Name ob = k" if "nv s k = Some ob" for k ob
    using quiet_key [OF ctl_quiet(2) [OF env, of "pv s"], of s k ob] ok that by (simp add: namespace_kind_def)
  have "only_stale p (set nss) (nv s1)"
    unfolding only_stale_def
    using nss s1(2) by (auto simp: key stale_def listed_def namespace_kind_def ran_def)
  moreover have "lookup_str (ns_Labels ob) EnvironmentLabel \<in> pe_Name ` set (ps_Environments (prj_Spec p))"
    if ob: "ob \<in> set nss" and w: "(ns_Name ob, sp) \<in> wanted p" for ob sp
  proof -
    have role: "lookup_str (ns_Labels ob) NamespaceRoleLabel = NamespaceRoleEnv"
      using ob nss by (simp add: listed_def namespace_kind_def has_labels_def lookup_str_def)
    have "nv s (ns_Name ob) = Some ob" using ob nss key by (auto simp: listed_def ran_def)
    with w s have placed: "placed p sp ob" by (fastforce simp: settled_def has_places_def)
    with role have "sp \<noteq> snd (control_place p)"
      by (auto simp: placed_def namespaceLabels_def control_place_def NamespaceRoleEnv_def NamespaceRoleControl_def)
    with w obtain env where e: "env \<in> set (ps_Environments (prj_Spec p))" "sp = snd (env_place p env)"
      by (auto simp: wanted_def control_place_def) (metis snd_conv)
    then have "pe_Name env \<noteq> []" using named by (metis image_eqI)
    with placed e have "lookup_str (ns_Labels ob) EnvironmentLabel = pe_Name env"
      by (simp add: placed_def namespaceLabels_def env_place_def)
    with e(1) show ?thesis by simp
  qed
  ultimately have "upon (collect_env_namespaces R p d None nss) (\<lambda>_ s1. settled ok pv nv p s1 \<and> only_stale p {} (nv s1)) s1"
    using s s1 by (intro gc_collects_stale [OF env d]) (auto simp: settled_def)
  then show "\<forall>a. Inr nss = Inr a \<longrightarrow> wp (collect_env_namespaces R p d None a)
      (\<lambda>r s1. \<forall>b. r = Inr b \<longrightarrow> settled ok pv nv p s1 \<and> only_stale p {} (nv s1)) s1"
    by (simp add: upon_def)
qed simp

lemma propagate_settles:
  assumes env: "ctl_env R ok pv nv" and d: "dom (map_of d) = pe_Name ` set (ps_Environments (prj_Spec p))"
    and s: "settled ok pv nv p s" and named: "[] \<notin> pe_Name ` set (ps_Environments (prj_Spec p))"
  shows "upon (propagate R p c d) (\<lambda>_ s1. ok s1 \<and> has_places p (wanted p) (nv s1) \<and> only_stale p {} (nv s1)) s"
proof -
  let ?K = "settled ok pv nv p" and ?N = "\<lambda>s. ok s \<and> (has_places p (wanted p) (nv s) \<and> only_stale p {} (nv s))"
  note o = settled_others [OF env] and l = leaves_calls
  have owner: "keeps ?K (ensureOwnerMember R p c)"
    unfolding ensureOwnerMember_def Let_def by (intro keeps_if keeps_outcome keeps_sum keeps_plain l(1,3) [OF o(1)])
  have act: "keeps ?K (ensureProjectCreateActivity R p)"
    unfolding ensureProjectCreateActivity_def appendProjectCreateActivityIfMissing_def
    by (intro keeps_if keeps_andthen keeps_on_err keeps_plain append_create_keeps o(2) recorded_settled [OF env])
  have N: "leaves (pct_Apps R) ?N" "leaves (pct_Members R) ?N" "leaves (pct_Projects R) ?N" "keeps ?N (pct_PatchApp R a b)" for a b
    using ctl_others [OF env, of "\<lambda>v w. has_places p (wanted p) w \<and> only_stale p {} w"]
      ctl_leaves(1) [OF env, of "\<lambda>w. has_places p (wanted p) w \<and> only_stale p {} w"] by simp_all
  have counts: "keeps ?N (countApps R c)" "keeps ?N (countMembers R c)"
    unfolding countApps_def countMembers_def by (intro keeps_andthen keeps_plain l(2) [OF N(1)] l(2) [OF N(2)])+
  have rest: "upon (andthen (fail t1 (on_err (Api []) (countApps R c))) (\<lambda>appCount.
     andthen (fail t2 (on_err (Api []) (countMembers R c))) (\<lambda>memberCount.
     andthen (if b then fail t3 (cascadeEnvChange R p c) else give ()) (\<lambda>_.
     andthen (fail t4 (cascadePreviewChange R p c)) (\<lambda>_. fail t5 (markReady R p c appCount memberCount d)))))) (\<lambda>_. ?N) s1"
    if "?K s1 \<and> only_stale p {} (nv s1)" for s1 t1 t2 t3 t4 t5 b
  proof (rule upon_keeps [where P = ?N])
    show "keeps ?N (andthen (fail t1 (on_err (Api []) (countApps R c))) (\<lambda>appCount.
     andthen (fail t2 (on_err (Api []) (countMembers R c))) (\<lambda>memberCount.
     andthen (if b then fail t3 (cascadeEnvChange R p c) else give ()) (\<lambda>_.
     andthen (fail t4 (cascadePreviewChange R p c)) (\<lambda>_. fail t5 (markReady R p c appCount memberCount d))))))"
      unfolding fail_def cascadeEnvChange_def cascadePreviewChange_def
      by (intro keeps_andthen keeps_on_err keeps_if keeps_plain counts stamp_keeps status_keeps N)
  qed (use that in \<open>auto simp: settled_def\<close>)
  have gc: "upon (fail t (gcStaleEnvNamespaces R p d)) (\<lambda>_ s1. ?K s1 \<and> only_stale p {} (nv s1)) s1" if "?K s1" for s1 t
    using gc_settled [OF env d that named] by (simp add: upon_fail)
  have steps: "upon (or_requeue R c t (ensureOwnerMember R p c)) (\<lambda>_. ?K) s" "upon (or_requeue R c t (ensureProjectCreateActivity R p)) (\<lambda>_. ?K) s1"
    if "?K s1" for s1 t
    by (intro upon_or_requeue upon_keeps [OF owner s] upon_keeps [OF act that]; assumption)+
  show ?thesis
    unfolding propagate_def upon_andthen [where m = "or_requeue R c ''ensure owner member: '' (ensureOwnerMember R p c)"]
  proof (rule upon_mono [OF steps(1) [OF s]])
    fix s1 assume K: "?K s1"
    show "upon (andthen (or_requeue R c ''ensure project create activity: '' (ensureProjectCreateActivity R p)) (\<lambda>_.
     andthen (fail ''gc stale env namespaces: '' (gcStaleEnvNamespaces R p d)) (\<lambda>_.
     andthen (fail ''count apps: '' (on_err (Api []) (countApps R c))) (\<lambda>appCount.
     andthen (fail ''count members: '' (on_err (Api []) (countMembers R c))) (\<lambda>memberCount.
     andthen (if envsChanged (ps_Environments (prj_Spec p)) (pst_Environments (prj_Status p))
              then fail ''cascade env change: '' (cascadeEnvChange R p c) else give ()) (\<lambda>_.
     andthen (fail ''cascade preview change: '' (cascadePreviewChange R p c)) (\<lambda>_.
       fail ''update status: '' (markReady R p c appCount memberCount d)))))))) (\<lambda>_. ?N) s1"
      unfolding upon_andthen [where m = "or_requeue R c ''ensure project create activity: '' (ensureProjectCreateActivity R p)"]
        upon_andthen [where m = "fail ''gc stale env namespaces: '' (gcStaleEnvNamespaces R p d)"]
      by (rule upon_mono [OF steps(2) [OF K]], rule upon_mono [OF gc], assumption, rule rest)
  qed
qed

section \<open>Taking a project away\<close>

definition doomed :: "Project \<Rightarrow> nsobj \<Rightarrow> bool" where
  \<comment> \<open>the namespaces that go with the project\<close>
  "doomed p ob \<longleftrightarrow> has_labels [(ProjectLabel, prj_Name p)] (ns_Labels ob) \<and>
     lookup_str (ns_Labels ob) ''app.kubernetes.io/managed-by'' = ''mortise'' \<and> ns_DeletionTimestamp ob = None"

definition leaving :: "Project \<Rightarrow> (string \<rightharpoonup> nsobj) \<Rightarrow> (string \<rightharpoonup> Project) \<Rightarrow> (string \<rightharpoonup> nsobj) \<Rightarrow> bool" where
  \<comment> \<open>the finalizer is still there, and of the namespaces \<open>m0\<close> only doomed ones are missing\<close>
  "leaving p m0 v m \<longleftrightarrow> (\<forall>q. v (prj_Name p) = Some q \<longrightarrow> projectFinalizer \<in> set (prj_Finalizers q)) \<and> m \<subseteq>\<^sub>m m0 \<and>
     (\<forall>k ob. m0 k = Some ob \<longrightarrow> \<not> doomed p ob \<longrightarrow> m k = Some ob)"

lemma terminating_keeps:
  assumes env: "ctl_env R ok pv nv"
  shows "keeps (\<lambda>s. ok s \<and> leaving p m0 (pv s) (nv s)) (markTerminating R p c)"
  unfolding markTerminating_def updateProjectStatus_def
proof (intro keeps_if keeps_plain project_write_keeps [OF env])
  fix s q q'
  assume s: "ok s" "leaving p m0 (pv s) (nv s)" "pv s (prj_Name p) = Some q"
    and "Some (q\<lparr>prj_Status := (prj_Status q)\<lparr>pst_Phase := ProjectPhaseTerminating, pst_Namespace := c\<rparr>\<rparr>) = Some q'"
  then have "kd_key project_kind q' = prj_Name q" by (auto simp: project_kind_def)
  moreover have "prj_Name q = prj_Name p" using quiet_key [OF ctl_quiet(1) [OF env, of "nv s"], of s "prj_Name p" q] s by (simp add: project_kind_def)
  ultimately show "wp (r_UpdateStatus (pct_Projects R) q') (\<lambda>_ s. ok s \<and> leaving p m0 (pv s) (nv s)) s"
    by (intro quiet_status [OF ctl_quiet(1) [OF env, of "nv s"]])
       (use s in \<open>auto simp: leaving_def dest: same_but_status(2)\<close>)
qed

lemma leaving_drop:
  "leaving p m0 v m \<Longrightarrow> (\<And>ob. m0 n = Some ob \<Longrightarrow> doomed p ob) \<Longrightarrow> leaving p m0 v (m(n := None))"
  by (auto simp: leaving_def map_le_def)

lemma drop_doomed:
  assumes env: "ctl_env R ok pv nv" and "\<And>ob. m0 (ns_Name ns) = Some ob \<Longrightarrow> doomed p ob"
  shows "keeps (\<lambda>s. ok s \<and> leaving p m0 (pv s) (nv s)) (drop_namespace R w ns)"
  unfolding drop_namespace_def
proof (intro keeps_outcome keeps_sum keeps_if keeps_plain, rule keepsI_wp)
  fix s assume "ok s \<and> leaving p m0 (pv s) (nv s)"
  then show "wp (r_Delete (pct_Namespaces R) ns) (\<lambda>_ s. ok s \<and> leaving p m0 (pv s) (nv s)) s"
    by (intro quiet_delete [OF ctl_quiet(2) [OF env, of "pv s"]])
       (auto simp: namespace_kind_def intro!: leaving_drop assms(2))
qed

definition only_doomed :: "Project \<Rightarrow> nsobj set \<Rightarrow> (string \<rightharpoonup> nsobj) \<Rightarrow> bool" where
  "only_doomed p A m \<longleftrightarrow> (\<forall>k ob. m k = Some ob \<longrightarrow> ns_Name ob = k \<and> (doomed p ob \<longrightarrow> ob \<in> A))"

lemma only_doomed_none: "only_doomed p {} m \<Longrightarrow> m k = Some ob \<Longrightarrow> \<not> doomed p ob"
  unfolding only_doomed_def by blast

lemma delete_loop:
  assumes env: "ctl_env R ok pv nv" and "ok s" "only_doomed p (set nss) (nv s)"
    and sel: "\<forall>ns \<in> set nss. has_labels [(ProjectLabel, prj_Name p)] (ns_Labels ns)"
  shows "upon (for_each (drop_owned R) nss) (\<lambda>_ s1. only_doomed p {} (nv s1)) s"
  using assms(2-4)
proof (induction nss arbitrary: s)
  case Nil
  then show ?case by (simp add: upon_plain)
next
  case (Cons ns nss)
  have keep: "only_doomed p (set nss) (nv s)" if "\<not> doomed p ns"
    using that Cons.prems(2) by (auto simp: only_doomed_def)
  have gone: "only_doomed p (set nss) ((nv s)(ns_Name ns := None))"
    using Cons.prems(2) by (auto simp: only_doomed_def)
  show ?case
  proof (cases "lookup_str (ns_Labels ns) ''app.kubernetes.io/managed-by'' \<noteq> ''mortise'' \<or> ns_DeletionTimestamp ns \<noteq> None")
    case True
    then have "\<not> doomed p ns" by (auto simp: doomed_def)
    moreover have "drop_owned R ns = give ()" using True by (simp add: drop_owned_def)
    ultimately show ?thesis
      using Cons.prems keep by (simp only: for_each.simps upon_andthen upon_plain) (simp add: Cons.IH)
  next
    case False
    then have "drop_owned R ns = drop_namespace R ''delete namespace '' ns" by (simp add: drop_owned_def)
    moreover have "upon (for_each (drop_owned R) nss) (\<lambda>_ s1. only_doomed p {} (nv s1)) s1"
      if "ok s1 \<and> pv s1 = pv s \<and> nv s1 = (nv s)(ns_Name ns := None)" for s1
      using that gone Cons.prems(3) by (intro Cons.IH) (metis, metis, simp)
    ultimately show ?thesis
      by (simp only: for_each.simps upon_andthen) (rule upon_mono [OF drop_gone [OF env Cons.prems(1)]])
  qed
qed

lemma delete_owned:
  assumes env: "ctl_env R ok pv nv"
  shows "keeps (\<lambda>s. ok s \<and> leaving p m0 (pv s) (nv s)) (deleteOwnedNamespaces R p)"
    and "ok s \<Longrightarrow> upon (deleteOwnedNamespaces R p) (\<lambda>_ s1. only_doomed p {} (nv s1)) s"
proof -
  let ?F = "\<lambda>s. ok s \<and> leaving p m0 (pv s) (nv s)"
  have key: "ns_Name ob = k" if "ok s" "nv s k = Some ob" for s k ob
    using quiet_key [OF ctl_quiet(2) [OF env, of "pv s"], of s k ob] that by (simp add: namespace_kind_def)
  show "keeps ?F (deleteOwnedNamespaces R p)"
    unfolding deleteOwnedNamespaces_def
  proof (rule keepsI_wp, unfold wp_andthen wp_on_err)
    fix s assume s: "?F s"
    show "wp (r_List (pct_Namespaces R) [] [(ProjectLabel, prj_Name p)]) (\<lambda>r. on_value (\<lambda>a. wp (for_each (drop_owned R) a) (\<lambda>_. ?F)) (\<lambda>_. ?F)
        (map_sum (Api ''list owned namespaces: '') id r)) s"
    proof (rule quiet_list [OF ctl_quiet(2) [OF env, of "pv s"]])
      fix nss s1
      assume s1: "ok s1 \<and> pv s1 = pv s" "nv s1 = nv s" and nss: "set nss = listed namespace_kind (nv s) [] [(ProjectLabel, prj_Name p)]"
      have "doomed p ob" if "ns \<in> set nss" "m0 (ns_Name ns) = Some ob"
        "\<not> (lookup_str (ns_Labels ns) ''app.kubernetes.io/managed-by'' \<noteq> ''mortise'' \<or> ns_DeletionTimestamp ns \<noteq> None)" for ns ob
      proof -
        have "nv s (ns_Name ns) = Some ns" using that(1) nss key s by (auto simp: listed_def ran_def)
        then have "m0 (ns_Name ns) = Some ns" using s by (metis domI leaving_def map_le_def)
        with that(2) have "ob = ns" by simp
        with that(1,3) nss show ?thesis by (simp add: doomed_def listed_def namespace_kind_def)
      qed
      then have "keeps ?F (for_each (drop_owned R) nss)"
        unfolding drop_owned_def by (intro keeps_for_each keeps_if keeps_plain drop_doomed [OF env])
      with s s1 show "on_value (\<lambda>a. wp (for_each (drop_owned R) a) (\<lambda>_. ?F)) (\<lambda>_. ?F) (map_sum (Api ''list owned namespaces: '') id (Inr nss)) s1"
        by (simp add: wp_simps) (rule keeps_wp, assumption, simp)
    qed (use s in \<open>auto simp: wp_simps\<close>)
  qed
  assume ok: "ok s"
  show "upon (deleteOwnedNamespaces R p) (\<lambda>_ s1. only_doomed p {} (nv s1)) s"
    unfolding deleteOwnedNamespaces_def upon_andthen upon_on_err
  proof (unfold upon_def, rule quiet_list [OF ctl_quiet(2) [OF env, of "pv s"]])
    fix nss s1
    assume s1: "ok s1 \<and> pv s1 = pv s" "nv s1 = nv s" and nss: "set nss = listed namespace_kind (nv s) [] [(ProjectLabel, prj_Name p)]"
    have "upon (for_each (drop_owned R) nss) (\<lambda>_ s1. only_doomed p {} (nv s1)) s1"
    proof (rule delete_loop [OF env])
      show "ok s1" using s1 by simp
      show "only_doomed p (set nss) (nv s1)"
        using nss s1 by (auto simp: only_doomed_def key [OF ok] doomed_def listed_def namespace_kind_def ran_def)
      show "\<forall>ns \<in> set nss. has_labels [(ProjectLabel, prj_Name p)] (ns_Labels ns)"
        using nss by (simp add: listed_def namespace_kind_def)
    qed
    then show "\<forall>a. Inr nss = Inr a \<longrightarrow> wp (for_each (drop_owned R) a) (\<lambda>r s1. \<forall>b. r = Inr b \<longrightarrow> only_doomed p {} (nv s1)) s1"
      by (simp add: upon_def)
  qed (use ok in simp_all)
qed

section \<open>Examples\<close>

definition mem_ctl :: "world projects_ctl" where
  "mem_ctl = \<lparr>pct_Projects = mem_projects, pct_LiveProject = Some (r_Get mem_projects), pct_Namespaces = mem_namespaces,
     pct_LiveNamespace = Some (r_Get mem_namespaces), pct_RoleBindings = mem_bindings, pct_Members = mem_members, pct_Apps = mem_apps,
     pct_PatchApp = (\<lambda>_ app. r_Update mem_apps app), pct_ConfigMaps = mem_secrets, pct_ServiceAccount = ''mortise'',
     pct_OperatorNamespace = ''mortise-system'', pct_now = w_now,
     pct_cond = \<lparr>cl_Find = (\<lambda>cs ty. find (\<lambda>c. cond_Type c = ty) cs), cl_Set = (#), cl_Remove = (\<lambda>ty. filter (\<lambda>c. cond_Type c \<noteq> ty)),
       cl_RFC3339 = (\<lambda>_. [])\<rparr>,
     pct_marshal = (\<lambda>events. Some (show_nat (length events))), pct_unmarshal = (\<lambda>_. Some [])\<rparr>"

lemma mem_ctl_sel [simp]:
  "pct_Projects mem_ctl = mem_projects" "pct_LiveProject mem_ctl = Some (r_Get mem_projects)" "pct_Namespaces mem_ctl = mem_namespaces"
  "pct_LiveNamespace mem_ctl = Some (r_Get mem_namespaces)" "pct_RoleBindings mem_ctl = mem_bindings" "pct_Members mem_ctl = mem_members"
  "pct_Apps mem_ctl = mem_apps" "pct_PatchApp mem_ctl = (\<lambda>_ app. r_Update mem_apps app)" "pct_ConfigMaps mem_ctl = mem_secrets"
  by (simp_all add: mem_ctl_def)

lemma mem_ctl_env:
  "ctl_env mem_ctl (\<lambda>w. mem_keyed project_kind (w_Projects w) \<and> mem_keyed namespace_kind (w_Namespaces w))
     (\<lambda>w. map_of (w_Projects w)) (\<lambda>w. map_of (w_Namespaces w))"
proof -
  let ?ok = "\<lambda>w. mem_keyed project_kind (w_Projects w) \<and> mem_keyed namespace_kind (w_Namespaces w)"
  let ?pv = "\<lambda>w. map_of (w_Projects w)" and ?nv = "\<lambda>w. map_of (w_Namespaces w)"
  have l: "leaves mem_projects (\<lambda>w. mem_keyed namespace_kind (w_Namespaces w) \<and> ?nv w = m)"
    "leaves mem_namespaces (\<lambda>w. mem_keyed project_kind (w_Projects w) \<and> ?pv w = v)" for m v
    unfolding mem_projects_def mem_namespaces_def by (rule mem_resource_leaves, simp)+
  have q1: "quiet project_kind mem_projects (\<lambda>w. ?ok w \<and> ?nv w = m) ?pv" for m
    using quiet_and [OF mem_world_quiet(1) l(1)] by (simp add: conj_assoc)
  have "quiet namespace_kind mem_namespaces (\<lambda>w. mem_keyed namespace_kind (w_Namespaces w) \<and> (mem_keyed project_kind (w_Projects w) \<and> ?pv w = v)) ?nv" for v
    using quiet_and [OF mem_world_quiet(5) l(2)] .
  then have q2: "quiet namespace_kind mem_namespaces (\<lambda>w. ?ok w \<and> ?pv w = v) ?nv" for v
    by (simp add: conj_assoc conj_left_commute)
  have others: "leaves mem_bindings (\<lambda>w. ?ok w \<and> ?pv w = v \<and> ?nv w = m)" "leaves mem_members (\<lambda>w. ?ok w \<and> ?pv w = v \<and> ?nv w = m)"
    "leaves mem_apps (\<lambda>w. ?ok w \<and> ?pv w = v \<and> ?nv w = m)" "leaves mem_secrets (\<lambda>w. ?ok w \<and> ?pv w = v \<and> ?nv w = m)" for v m
    unfolding mem_bindings_def mem_members_def mem_apps_def mem_secrets_def by (rule mem_resource_leaves, simp)+
  have absent: "wp (r_Get mem_projects n) (\<lambda>r w1. r = Inl NotFound \<longrightarrow> ?pv w n = None) w" for w n
    by (auto simp: wp_def mem_projects_def mem_resource_def split: option.splits)
  have live: "wp (r_Get mem_projects n) (\<lambda>r w1. ?ok w1 \<and> ?pv w1 = ?pv w \<and> ?nv w1 = ?nv w \<and> (\<forall>p. r = Inr p \<longrightarrow> ?pv w n = Some p)) w"
    "wp (r_Get mem_namespaces n) (\<lambda>r w1. ?ok w1 \<and> ?pv w1 = ?pv w \<and> ?nv w1 = ?nv w \<and> (\<forall>ob. r = Inr ob \<longrightarrow> ?nv w n = Some ob)) w"
    if "?ok w" for w n
    using that by (auto simp: wp_def mem_projects_def mem_namespaces_def mem_resource_def split: option.splits)
  have gone: "wp (r_Delete mem_namespaces ob) (\<lambda>r w1. r = Inl NotFound \<longrightarrow> ?nv w1 (ns_Name ob) = None) w" for ob w
    by (auto simp: wp_def mem_namespaces_def mem_resource_def namespace_kind_def split: option.splits)
  show ?thesis
    unfolding ctl_env_def using q1 q2 others live gone absent by (simp add: leaves_calls(4) Let_def)
qed

definition ex_ctl_project :: "ProjectEnvironment list \<Rightarrow> Project" where
  "ex_ctl_project envs = (new_Project ''web'' [(''mortise.dev/created-by'', ''ada'')] [] envs)\<lparr>prj_UID := ''u1'', prj_Finalizers := [projectFinalizer]\<rparr>"

definition ex_ctl_world :: "ProjectEnvironment list \<Rightarrow> world" where
  \<comment> \<open>the namespace of \<open>staging\<close> is there\<close>
  "ex_ctl_world envs = empty_world\<lparr>w_Projects := [(''web'', ex_ctl_project envs)],
     w_Namespaces := [(''pj-web-staging'', new_namespace (ex_ctl_project []) ''pj-web-staging''
       (namespaceLabels ''web'' \<lparr>nss_role = NamespaceRoleEnv, nss_envName = ''staging''\<rparr>))]\<rparr>"

definition ex_declared :: "ProjectEnvironment list" where "ex_declared = [fresh_env ''production'' 0, fresh_env ''staging'' 1]"

text \<open>The cache still shows the project without \<open>staging\<close>.\<close>

definition stale_ctl :: "world projects_ctl" where
  "stale_ctl = mem_ctl\<lparr>pct_Projects := mem_projects\<lparr>r_Get := \<lambda>_ w. (Inr (ex_ctl_project [fresh_env ''production'' 0]), w)\<rparr>,
     pct_Namespaces := mem_namespaces\<lparr>r_List := \<lambda>_ _ w. (Inr (map snd (w_Namespaces (ex_ctl_world []))), w)\<rparr>,
     pct_LiveProject := Some (\<lambda>_. give (ex_ctl_project ex_declared))\<rparr>"

text \<open>Without the read past the cache the collector takes the namespace of the new environment.\<close>

lemma no_live_read_deletes:
  "map_of (w_Namespaces (snd (reconcile_project (stale_ctl\<lparr>pct_LiveProject := None\<rparr>) ''web'' (ex_ctl_world ex_declared)))) ''pj-web-staging'' = None"
  by code_simp

text \<open>
  The owner of a project is stored under the plain name of his address, also when the address is too long for it; the policy engine
  looks under the shortened name, and the API server refuses names of that length.
\<close>

lemma long_email_owner_mismatch:
  assumes "123 < length email" "\<And>t. length (sha256 t) = 32"
  shows "member_Name (owner_member p c email) \<noteq> MemberCRDName sha256 email" "253 < length (member_Name (owner_member p c email))"
  using assms by (auto simp: owner_member_def MemberCRDName_def Let_def length_hex_encode dest!: arg_cong [of _ _ length])

section \<open>Properties\<close>

text \<open>
  C31: A reconcile of a project that is not being deleted never deletes the namespace \<open>n\<close> of an environment the live project
  declares, whatever the caches show and however calls fail: \<open>P\<close> may be any condition that nothing but the deletion of \<open>n\<close>
  can end, such as that \<open>n\<close> exists. The cached project may miss the environment; a cached list, when it shows
  \<open>n\<close> at all, shows it with its environment label.
\<close>

theorem stale_cache_deletes_no_declared_env:
  assumes "spares_others R P n"
    and "\<And>sel. yields P (r_List (pct_Namespaces R) [] sel)
      (\<lambda>obs. \<forall>ob \<in> set obs. ns_Name ob = n \<longrightarrow> lookup_str (ns_Labels ob) EnvironmentLabel = e)"
    and "pct_LiveProject R = Some live" "yields P (live name) (\<lambda>p. projectDeclaresEnv p e)"
    and "yields P (r_Get (pct_Projects R) name) (\<lambda>p. prj_Name p = name \<and> prj_DeletionTimestamp p = None)"
    and "P s" "reconcile_project R name s = (r, s1)"
  shows "P s1"
proof -
  have "keeps P (gcStaleEnvNamespaces R p d)" if "prj_Name p = name" for p d
    unfolding gcStaleEnvNamespaces_def
    using assms(4) that by (intro keeps_yields [OF keeps_on_err [OF spares_calls(10) [OF assms(1)]]] gc_spares_declared [OF assms(1,3)])
      (auto simp: assms(2))
  then have "keeps P (reconcile_project R name)"
    by (intro reconcile_spares [OF assms(1,5)]) auto
  then show ?thesis using assms(6,7) by (rule keepsD)
qed

theorem stale_cache_deletes_no_declared_env_witness:
  "map_of (w_Namespaces (snd (reconcile_project stale_ctl ''web'' (ex_ctl_world ex_declared)))) ''pj-web-staging'' \<noteq> None"
proof (rule stale_cache_deletes_no_declared_env [where R = stale_ctl and name = "''web''" and e = "''staging''" and n = "''pj-web-staging''"
      and P = "\<lambda>w. map_of (w_Namespaces w) ''pj-web-staging'' \<noteq> None" and s = "ex_ctl_world ex_declared"])
  let ?P = "\<lambda>w. map_of (w_Namespaces w) ''pj-web-staging'' \<noteq> None"
  have l: "leaves mem_projects ?P" "leaves mem_bindings ?P" "leaves mem_members ?P" "leaves mem_apps ?P" "leaves mem_secrets ?P"
    unfolding mem_projects_def mem_bindings_def mem_members_def mem_apps_def mem_secrets_def by (rule mem_resource_leaves, simp)+
  have "leaves (mem_projects\<lparr>r_Get := \<lambda>_ w. (Inr q, w)\<rparr>) ?P" for q
    using l(1) by (simp add: leaves_def) (simp add: keeps_def)
  moreover have "keeps ?P (r_Get mem_namespaces m)" "keeps ?P (r_Create mem_namespaces ob)" "keeps ?P (r_Update mem_namespaces ob)"
    "ns_Name ob \<noteq> ''pj-web-staging'' \<Longrightarrow> keeps ?P (r_Delete mem_namespaces ob)" for m ob
    by (auto simp: keeps_def mem_namespaces_def mem_resource_def namespace_kind_def update_conv' delete_conv' split: option.splits)
  ultimately show "spares_others stale_ctl ?P ''pj-web-staging''"
    using l by (simp add: spares_others_def stale_ctl_def leaves_calls) (simp add: keeps_def give_def)
  show "yields ?P (r_List (pct_Namespaces stale_ctl) [] sel)
      (\<lambda>obs. \<forall>ob \<in> set obs. ns_Name ob = ''pj-web-staging'' \<longrightarrow> lookup_str (ns_Labels ob) EnvironmentLabel = ''staging'')" for sel
    by (simp add: yields_def wp_def stale_ctl_def ex_ctl_world_def empty_world_def new_namespace_def namespaceLabels_def lookup_str_def
      ProjectLabel_def NamespaceRoleLabel_def EnvironmentLabel_def)
  show "yields ?P (r_Get (pct_Projects stale_ctl) ''web'') (\<lambda>p. prj_Name p = ''web'' \<and> prj_DeletionTimestamp p = None)"
    by (simp add: yields_def wp_def stale_ctl_def ex_ctl_project_def new_Project_def)
  show "yields ?P (give (ex_ctl_project ex_declared)) (\<lambda>p. projectDeclaresEnv p ''staging'')"
    by (simp add: yields_def wp_def give_def ex_ctl_project_def new_Project_def ex_declared_def projectDeclaresEnv_def fresh_env_def)
  show "?P (ex_ctl_world ex_declared)" by (simp add: ex_ctl_world_def)
qed (simp_all add: stale_ctl_def prod_eq_iff)

text \<open>
  C32: When no other writer interferes, a reconcile that runs through to the status (\<open>r = Inr ()\<close>) leaves exactly the namespaces the project
  asks for: the control namespace and the namespace of each declared environment exist, owned by the project, and every live namespace
  with the project's environment label is one of a declared environment. Calls may fail on the way; then the
  reconcile does not get there.
\<close>

theorem reconcile_leaves_declared:
  assumes "ctl_env R ok pv nv" "ok s" "pv s name = Some p" "prj_DeletionTimestamp p = None" "seeded p = None"
    and "[] \<notin> pe_Name ` set (ps_Environments (prj_Spec p))"
    and "reconcile_project R name s = (Inr (), s1)"
  shows "(\<exists>ob. nv s1 (ControlNamespace name) = Some ob \<and> owned_by p ob) \<and>
    (\<forall>env \<in> set (ps_Environments (prj_Spec p)). \<exists>ob. nv s1 (EnvNamespace name (pe_Name env)) = Some ob \<and> owned_by p ob) \<and>
    (\<forall>k ob. nv s1 k = Some ob \<and> has_labels [(ProjectLabel, name), (NamespaceRoleLabel, NamespaceRoleEnv)] (ns_Labels ob) \<and>
       ns_DeletionTimestamp ob = None \<longrightarrow> lookup_str (ns_Labels ob) EnvironmentLabel \<in> pe_Name ` set (ps_Environments (prj_Spec p)))"
proof -
  let ?c = "ControlNamespace (prj_Name p)"
  let ?V = "\<lambda>_ s1. ok s1 \<and> has_places p (wanted p) (nv s1) \<and> only_stale p {} (nv s1)"
  have name: "prj_Name p = name"
    using quiet_key [OF ctl_quiet(1) [OF assms(1), of "nv s"], of s name p] assms(2,3) by (simp add: project_kind_def)
  have rest: "upon (andthen (provision_namespaces R p ?c) (propagate R p ?c)) ?V s2" if s2: "ok s2" "pv s2 = pv s" for s2
    unfolding upon_andthen
  proof (rule upon_mono [OF provision_places [OF assms(1) s2(1)]])
    fix m :: "string gomap" and s3
    assume "ok s3 \<and> pv s3 = pv s2 \<and> has_places p (wanted p) (nv s3) \<and> dom (map_of m) = pe_Name ` set (ps_Environments (prj_Spec p))"
    then show "upon (propagate R p ?c m) ?V s3"
      using assms(3) s2(2) name by (intro propagate_settles [OF assms(1) _ _ assms(6)]) (auto simp: settled_def)
  qed
  have "wp (reconcile_project R name) (\<lambda>r s1. r = Inr () \<longrightarrow> ?V () s1) s"
    unfolding reconcile_project_def wp_outcome
  proof (rule ctl_get_project [OF assms(1,2)])
    fix q s2 assume s2: "ok s2" "pv s2 = pv s" "pv s name = Some q"
    then have "q = p" using assms(3) by simp
    then show "wp (case Inr q of Inl err \<Rightarrow> if err = NotFound then give () else stop (Inl (Api [] err)) | Inr project \<Rightarrow> reconcile_found R project)
        (\<lambda>r s1. r = Inr () \<longrightarrow> ?V () s1) s2"
      using rest [of s2] s2 assms(4,5) by (simp add: upon_def reconcile_found_def Let_def)
  qed (use assms(3) in \<open>auto simp: wp_simps\<close>)
  then have V: "has_places p (wanted p) (nv s1)" "only_stale p {} (nv s1)" using wpD assms(7) by fastforce+
  from V(1) have "\<exists>ob. nv s1 (ControlNamespace name) = Some ob \<and> owned_by p ob"
    "\<forall>env \<in> set (ps_Environments (prj_Spec p)). \<exists>ob. nv s1 (EnvNamespace name (pe_Name env)) = Some ob \<and> owned_by p ob"
    by (auto simp: has_places_def wanted_def control_place_def env_place_def placed_def name)
  moreover from V(2) have "lookup_str (ns_Labels ob) EnvironmentLabel \<in> pe_Name ` set (ps_Environments (prj_Spec p))"
    if "nv s1 k = Some ob" "has_labels [(ProjectLabel, name), (NamespaceRoleLabel, NamespaceRoleEnv)] (ns_Labels ob)"
      "ns_DeletionTimestamp ob = None" for k ob
    using that unfolding only_stale_def stale_def name by blast
  ultimately show ?thesis by blast
qed

definition ex_ctl_run :: world where
  "ex_ctl_run = snd (reconcile_project mem_ctl ''web'' (ex_ctl_world [fresh_env ''production'' 0]))"

theorem reconcile_leaves_declared_witness:
  "(\<exists>ob. map_of (w_Namespaces ex_ctl_run) (ControlNamespace ''web'') = Some ob \<and> owned_by (ex_ctl_project [fresh_env ''production'' 0]) ob) \<and>
   (\<exists>ob. map_of (w_Namespaces ex_ctl_run) (EnvNamespace ''web'' ''production'') = Some ob \<and>
      owned_by (ex_ctl_project [fresh_env ''production'' 0]) ob) \<and>
   \<not> (\<exists>k ob. map_of (w_Namespaces ex_ctl_run) k = Some ob \<and>
      has_labels [(ProjectLabel, ''web''), (NamespaceRoleLabel, NamespaceRoleEnv)] (ns_Labels ob) \<and> ns_DeletionTimestamp ob = None \<and>
      lookup_str (ns_Labels ob) EnvironmentLabel \<noteq> ''production'')"
proof -
  let ?p = "ex_ctl_project [fresh_env ''production'' 0]" and ?w = "ex_ctl_world [fresh_env ''production'' 0]"
  have envs: "ps_Environments (prj_Spec ?p) = [fresh_env ''production'' 0]" by (simp add: ex_ctl_project_def new_Project_def)
  have "mem_keyed project_kind (w_Projects ?w) \<and> mem_keyed namespace_kind (w_Namespaces ?w)"
    by (simp add: mem_keyed_def ex_ctl_world_def empty_world_def project_kind_def namespace_kind_def ex_ctl_project_def new_Project_def new_namespace_def)
  moreover have "map_of (w_Projects ?w) ''web'' = Some ?p" by (simp add: ex_ctl_world_def empty_world_def)
  moreover have "prj_DeletionTimestamp ?p = None" by (simp add: ex_ctl_project_def new_Project_def)
  moreover have "seeded ?p = None" by code_simp
  moreover have "[] \<notin> pe_Name ` set (ps_Environments (prj_Spec ?p))" unfolding envs by (simp add: fresh_env_def)
  moreover have "fst (reconcile_project mem_ctl ''web'' ?w) = Inr ()" by code_simp
  then have "reconcile_project mem_ctl ''web'' ?w = (Inr (), ex_ctl_run)" by (simp add: ex_ctl_run_def prod_eq_iff)
  ultimately have T: "(\<exists>ob. map_of (w_Namespaces ex_ctl_run) (ControlNamespace ''web'') = Some ob \<and> owned_by ?p ob) \<and>
     (\<forall>env \<in> set [fresh_env ''production'' 0]. \<exists>ob. map_of (w_Namespaces ex_ctl_run) (EnvNamespace ''web'' (pe_Name env)) = Some ob \<and> owned_by ?p ob) \<and>
     (\<forall>k ob. map_of (w_Namespaces ex_ctl_run) k = Some ob \<and> has_labels [(ProjectLabel, ''web''), (NamespaceRoleLabel, NamespaceRoleEnv)] (ns_Labels ob) \<and>
        ns_DeletionTimestamp ob = None \<longrightarrow> lookup_str (ns_Labels ob) EnvironmentLabel \<in> pe_Name ` set [fresh_env ''production'' 0])"
    using reconcile_leaves_declared [OF mem_ctl_env, of ?w "''web''" ?p ex_ctl_run] unfolding envs by blast
  have n: "pe_Name (fresh_env ''production'' 0) = ''production''" "pe_Name ` set [fresh_env ''production'' 0] = {''production''}"
    by (simp_all add: fresh_env_def)
  from T have "\<not> (\<exists>k ob. map_of (w_Namespaces ex_ctl_run) k = Some ob \<and>
      has_labels [(ProjectLabel, ''web''), (NamespaceRoleLabel, NamespaceRoleEnv)] (ns_Labels ob) \<and> ns_DeletionTimestamp ob = None \<and>
      lookup_str (ns_Labels ob) EnvironmentLabel \<noteq> ''production'')" unfolding n by blast
  moreover from T have "\<exists>ob. map_of (w_Namespaces ex_ctl_run) (EnvNamespace ''web'' ''production'') = Some ob \<and> owned_by ?p ob"
    using n(1) by (elim conjE) (drule bspec, rule list.set_intros(1), simp)
  ultimately show ?thesis using T by blast
qed


definition ex_leaving :: world where
  "ex_leaving = (ex_ctl_world [])\<lparr>w_Projects := [(''web'', (ex_ctl_project [])\<lparr>prj_DeletionTimestamp := Some 1\<rparr>)]\<rparr>"


end
