(* ===== verification/Deploys.thy ===== *)
theory Deploys
  imports Server
begin

text \<open>
  Who may change what an application runs: deploy tokens (\<open>internal/api/tokens.go\<close>), the deploy webhook
  (\<open>deploy.go\<close>), rollback and promotion (\<open>rollback.go\<close>) and build arguments (\<open>build_args.go\<close>). A deploy is accepted from a
  principal the policy engine grants it or from the bearer of a token whose hash is stored.

  The random generator is a parameter. The API server moves the \<open>StringData\<close> of a created Secret to its \<open>Data\<close>, so
  the model writes \<open>Sec_Data\<close>. A Secret has no creation time here, so the responses have none.
\<close>

section \<open>Definitions\<close>

subsection \<open>Environments of an application\<close>

definition on_env :: "string \<Rightarrow> string \<Rightarrow> string \<Rightarrow> string \<Rightarrow> Resource" where
  \<comment> \<open>the literal \<open>authz.Resource{Kind: kind, Namespace: ns, Project: project, Environment: env}\<close>\<close>
  "on_env kind ns project env =
     \<lparr>rs_Kind = kind, rs_Namespace = ns, rs_Name = [], rs_Project = project, rs_Environment = env\<rparr>"

definition ensureEnvironment :: "string \<Rightarrow> (Environment \<Rightarrow> Environment) \<Rightarrow> App \<Rightarrow> App" where
  \<comment> \<open>an assignment through the pointer \<open>ensureEnvironment\<close> returns\<close>
  "ensureEnvironment name f app =
     (let envs = spec_Environments (app_Spec app)
      in app\<lparr>app_Spec := app_Spec app\<lparr>spec_Environments :=
           (case position (\<lambda>env. env_Name env = name) envs of
              Some i \<Rightarrow> envs[i := f (envs ! i)]
            | None \<Rightarrow> envs @ [f (new_Environment name)])\<rparr>\<rparr>)"

definition set_image :: "string \<Rightarrow> string \<Rightarrow> App \<Rightarrow> App" where
  \<comment> \<open>the assignment in the closures of \<open>Deploy\<close> and \<open>setEnvSpecImage\<close>\<close>
  "set_image env img app =
     (if env \<noteq> [] then ensureEnvironment env (\<lambda>e. e\<lparr>env_Image := img\<rparr>) app
      else app\<lparr>app_Spec := app_Spec app\<lparr>spec_Source := spec_Source (app_Spec app)\<lparr>src_Image := img\<rparr>\<rparr>\<rparr>)"

definition rewrite_app ::
  "'s server \<Rightarrow> (('s \<times> App) call \<Rightarrow> ('s \<times> App) call) \<Rightarrow> App \<Rightarrow> nn \<Rightarrow> (App \<Rightarrow> App) \<Rightarrow> ('s, 'b reply, App) act" where
  \<comment> \<open>read the application again, change it and write it, until there is no conflict\<close>
  "rewrite_app S retry zero k f =
     on_err (\<lambda>e. Fault (fault_kind e)) (RetryOnConflict retry zero (on_err (Api [])
       (andthen (r_Get (sv_Apps S) k) (\<lambda>fresh. r_Update (sv_Apps S) (f fresh)))))"

definition undeclared :: "string \<Rightarrow> Project \<Rightarrow> string" where
  "undeclared env project =
     ''environment '' @ quoted env @ '' is not declared on project '' @ quoted (prj_Name project)
       @ '' '' @ [CHR 0xE2, CHR 0x80, CHR 0x94] @ '' add it via POST /api/projects/'' @ prj_Name project @ ''/environments first''"

definition declares_or_400 :: "Project \<Rightarrow> string \<Rightarrow> ('s, 'b reply, unit) act" where
  "declares_or_400 project env = check (indexOfEnv project env \<noteq> None) (ErrorReply 400 (undeclared env project))"

subsection \<open>Deploy tokens\<close>

definition deployTokenPrefix :: string where "deployTokenPrefix = ''mrt_''"
definition projectDeployTokenPrefix :: string where "projectDeployTokenPrefix = ''mrt_pj_''"

definition app_token_labels :: "string \<Rightarrow> string \<Rightarrow> string \<Rightarrow> string gomap" where
  "app_token_labels app env name = [(''mortise.dev/deploy-token'', ''true''), (''mortise.dev/app'', app),
     (''mortise.dev/environment'', env), (''mortise.dev/token-name'', name)]"

definition project_token_labels :: "string \<Rightarrow> string gomap" where
  "project_token_labels project = [(''mortise.dev/deploy-token'', ''true''), (''mortise.dev/project'', project),
     (''mortise.dev/project-token'', ''true'')]"

record createTokenRequest =
  ctr_Environment :: string
  ctr_Name :: string

record tokenResponse =
  tr_Token :: string
  tr_Name :: string
  tr_Environment :: string

definition tokenSecretName :: "string \<Rightarrow> string \<Rightarrow> string" where
  \<comment> \<open>\<open>fmt.Sprintf("deploy-token-%s-%s", appName, name)\<close>\<close>
  "tokenSecretName app name = ''deploy-token-'' @ app @ ''-'' @ name"

definition token_hash :: "'s server \<Rightarrow> string \<Rightarrow> string" where
  "token_hash S token = hex_encode (sv_sha256 S token)"

definition token_secret :: "string \<Rightarrow> string \<Rightarrow> string gomap \<Rightarrow> string gomap \<Rightarrow> secret" where
  "token_secret ns name labels d =
     \<lparr>Sec_Namespace = ns, Sec_Name = name, Sec_Labels = labels, Sec_Annotations = [], Sec_Data = d, Sec_RV = []\<rparr>"

definition random_hex :: "(nat \<Rightarrow> ('s, string, string) act) \<Rightarrow> nat \<Rightarrow> ('s, 'b reply, string) act" where
  "random_hex rand n = andthen (on_err (\<lambda>_. ErrorReply 500 ''failed to generate token'') (rand n)) (\<lambda>raw. give (hex_encode raw))"

definition check_token_request :: "'s server \<Rightarrow> request \<Rightarrow> string \<Rightarrow> string \<Rightarrow> string + createTokenRequest \<Rightarrow>
    ('s, 'b reply, Project \<times> createTokenRequest) act" where
  \<comment> \<open>\<open>CreateToken\<close> up to the generation of the token\<close>
  "check_token_request S rq projectParam appName body =
     andthen (lookupProject S projectParam) (\<lambda>project.
     andthen (authorize S rq (on_env ''token'' (projectNs project) (prj_Name project) []) ActionCreate) (\<lambda>_.
     andthen (decoded body) (\<lambda>req.
     andthen (check (ctr_Name req \<noteq> []) (ErrorReply 400 ''name is required'')) (\<lambda>_.
     andthen (valid_or_400 (validateDNSLabel ''name'' (ctr_Name req) 63)) (\<lambda>_.
     andthen (check (ctr_Environment req \<noteq> []) (ErrorReply 400 ''environment is required'')) (\<lambda>_.
     andthen (declares_or_400 project (ctr_Environment req)) (\<lambda>_.
     andthen (on_err Fault (r_Get (sv_Apps S) (projectNs project, appName))) (\<lambda>app.
     andthen (check (appParticipatesInEnv app (ctr_Environment req))
       (ErrorReply 404 (''app '' @ quoted (app_Name app) @ '' is not enabled in environment '' @ quoted (ctr_Environment req)))) (\<lambda>_.
       give (project, req))))))))))"

definition CreateToken ::
  "'s server \<Rightarrow> (nat \<Rightarrow> ('s, string, string) act) \<Rightarrow> request \<Rightarrow> string \<Rightarrow> string \<Rightarrow> string + createTokenRequest \<Rightarrow> ('s, tokenResponse) handler" where
  "CreateToken S rand rq projectParam appName body =
     andthen (check_token_request S rq projectParam appName body) (\<lambda>(project, req).
     andthen (random_hex rand 32) (\<lambda>raw.
     let ns = projectNs project; projectName = prj_Name project; token = deployTokenPrefix @ raw
     in andthen (on_err Fault (r_Create (sv_Secrets S) (token_secret ns (tokenSecretName appName (ctr_Name req))
          (app_token_labels appName (ctr_Environment req) (ctr_Name req)) [(''token-hash'', token_hash S token)]))) (\<lambda>_.
        andthen (recordActivity S rq projectName ''create'' ''token'' (ctr_Name req)
          (''Created deploy token '' @ ctr_Name req @ '' for '' @ appName @ '' in '' @ ctr_Environment req) []) (\<lambda>_.
          give (Reply 201 \<lparr>tr_Token = token, tr_Name = ctr_Name req, tr_Environment = ctr_Environment req\<rparr>)))))"

definition ListTokens :: "'s server \<Rightarrow> request \<Rightarrow> string \<Rightarrow> string \<Rightarrow> ('s, tokenResponse list) handler" where
  "ListTokens S rq projectParam appName =
     andthen (resolveProject S projectParam) (\<lambda>(ns, projectName).
     andthen (authorize S rq (on_env ''token'' ns projectName []) ActionRead) (\<lambda>_.
     andthen (on_err Fault (r_Get (sv_Apps S) (ns, appName))) (\<lambda>_.
     andthen (on_err Fault (r_List (sv_Secrets S) ns [(''mortise.dev/deploy-token'', ''true''), (''mortise.dev/app'', appName)])) (\<lambda>secs.
       give (Reply 200 (map (\<lambda>sec. \<lparr>tr_Token = [], tr_Name = lookup_str (Sec_Labels sec) ''mortise.dev/token-name'',
         tr_Environment = lookup_str (Sec_Labels sec) ''mortise.dev/environment''\<rparr>) secs))))))"

definition revoke :: "'s server \<Rightarrow> nn \<Rightarrow> string \<Rightarrow> string \<Rightarrow> ('s, 'b reply, unit) act" where
  \<comment> \<open>the common part of \<open>DeleteToken\<close> and \<open>DeleteProjectToken\<close>: \<open>label\<close> marks the kind of token\<close>
  "revoke S k label missing =
     andthen (on_err Fault (r_Get (sv_Secrets S) k)) (\<lambda>secret.
     andthen (check (lookup_str (Sec_Labels secret) label = ''true'') (ErrorReply 404 missing)) (\<lambda>_.
       on_err Fault (r_Delete (sv_Secrets S) secret)))"

definition DeleteToken :: "'s server \<Rightarrow> request \<Rightarrow> string \<Rightarrow> string \<Rightarrow> string \<Rightarrow> ('s, unit) handler" where
  "DeleteToken S rq projectParam appName tokenName =
     andthen (resolveProject S projectParam) (\<lambda>(ns, projectName).
     andthen (authorize S rq (on_env ''token'' ns projectName []) ActionDelete) (\<lambda>_.
     andthen (revoke S (ns, tokenSecretName appName tokenName) ''mortise.dev/deploy-token'' ''token not found'') (\<lambda>_.
     andthen (recordActivity S rq projectName ''delete'' ''token'' tokenName (''Revoked deploy token '' @ tokenName @ '' for '' @ appName) []) (\<lambda>_.
       give (Reply 200 ())))))"

definition bearer_of :: "string \<Rightarrow> string \<Rightarrow> string option" where
  \<comment> \<open>the token of the header, when it starts with \<open>p\<close>\<close>
  "bearer_of header p =
     (if header = [] \<or> \<not> has_prefix header ''Bearer '' then None
      else let token = trim_prefix header ''Bearer '' in if has_prefix token p then Some token else None)"

definition matching :: "(secret \<Rightarrow> string) \<Rightarrow> string \<Rightarrow> secret list \<Rightarrow> secret option" where
  \<comment> \<open>the loop over the Secrets with the constant time comparison\<close>
  "matching stored hashHex secs = find (\<lambda>sec. stored sec = hashHex) secs"

definition validateDeployToken :: "'s server \<Rightarrow> request \<Rightarrow> string \<Rightarrow> string \<Rightarrow> string \<Rightarrow> ('s, 'e, string option) act" where
  \<comment> \<open>\<open>Some\<close> of the name for \<open>true\<close>\<close>
  "validateDeployToken S rq ns appName env =
     (case bearer_of (rq_Authorization rq) deployTokenPrefix of
        None \<Rightarrow> give None
      | Some token \<Rightarrow> outcome (r_List (sv_Secrets S) ns
          [(''mortise.dev/deploy-token'', ''true''), (''mortise.dev/app'', appName), (''mortise.dev/environment'', env)]) (\<lambda>r. case r of
            Inl _ \<Rightarrow> give None
          | Inr secs \<Rightarrow> give (map_option (\<lambda>sec.
              let name = lookup_str (Sec_Labels sec) ''mortise.dev/token-name'' in if name = [] then Sec_Name sec else name)
              (matching (\<lambda>sec. lookup_str (Sec_Data sec) ''token-hash'') (token_hash S token) secs))))"

definition before_last :: "char \<Rightarrow> string \<Rightarrow> string option" where
  \<comment> \<open>\<open>s[:i]\<close> for \<open>i := strings.LastIndex(s, c)\<close>, \<open>None\<close> for \<open>i <= 0\<close>\<close>
  "before_last c s = (case dropWhile (\<lambda>x. x \<noteq> c) (rev s) of [] \<Rightarrow> None | _ # front \<Rightarrow> if front = [] then None else Some (rev front))"

definition project_token_hash :: "secret \<Rightarrow> string" where
  "project_token_hash sec =
     (let stored = lookup_str (Sec_Data sec) ''token-hash'' in if stored = [] then lookup_str (Sec_Data sec) ''token_hash'' else stored)"

definition validateProjectDeployToken :: "'s server \<Rightarrow> request \<Rightarrow> string \<Rightarrow> string \<Rightarrow> ('s, 'e, string option) act" where
  "validateProjectDeployToken S rq ns projectName =
     (case bearer_of (rq_Authorization rq) projectDeployTokenPrefix of
        None \<Rightarrow> give None
      | Some token \<Rightarrow>
          if before_last CHR ''_'' (trim_prefix token projectDeployTokenPrefix) \<noteq> Some projectName then give None
          else outcome (r_List (sv_Secrets S) ns [(''mortise.dev/deploy-token'', ''true''), (''mortise.dev/project-token'', ''true'')]) (\<lambda>r. case r of
              Inl _ \<Rightarrow> give None
            | Inr secs \<Rightarrow> give (map_option Sec_Name (matching project_token_hash (token_hash S token) secs))))"

definition CreateProjectToken ::
  "'s server \<Rightarrow> (nat \<Rightarrow> ('s, string, string) act) \<Rightarrow> request \<Rightarrow> string \<Rightarrow> string + string \<Rightarrow> ('s, tokenResponse) handler" where
  \<comment> \<open>the body is the description\<close>
  "CreateProjectToken S rand rq projectParam body =
     andthen (resolveProject S projectParam) (\<lambda>(ns, projectName).
     andthen (authorize S rq (on_env ''token'' ns projectName []) ActionCreate) (\<lambda>_.
     andthen (decoded body) (\<lambda>description.
     andthen (random_hex rand 32) (\<lambda>raw.
     andthen (random_hex rand 4) (\<lambda>suffix.
     let token = projectDeployTokenPrefix @ projectName @ ''_'' @ raw; secretName = ''deploy-token-pj-'' @ suffix
     in andthen (on_err Fault (r_Create (sv_Secrets S) (token_secret ns secretName (project_token_labels projectName)
          [(''token-hash'', token_hash S token), (''description'', description), (''project'', projectName)]))) (\<lambda>_.
     andthen (recordActivity S rq projectName ''create'' ''token'' secretName (''Created project deploy token '' @ secretName) []) (\<lambda>_.
       give (Reply 201 \<lparr>tr_Token = token, tr_Name = secretName, tr_Environment = []\<rparr>))))))))"

definition ListProjectTokens :: "'s server \<Rightarrow> request \<Rightarrow> string \<Rightarrow> ('s, (string \<times> string) list) handler" where
  \<comment> \<open>the name and the description of each token\<close>
  "ListProjectTokens S rq projectParam =
     andthen (resolveProject S projectParam) (\<lambda>(ns, projectName).
     andthen (authorize S rq (on_env ''token'' ns projectName []) ActionRead) (\<lambda>_.
     andthen (on_err Fault (r_List (sv_Secrets S) ns [(''mortise.dev/deploy-token'', ''true''), (''mortise.dev/project-token'', ''true'')])) (\<lambda>secs.
       give (Reply 200 (map (\<lambda>sec. (Sec_Name sec, lookup_str (Sec_Data sec) ''description'')) secs)))))"

definition DeleteProjectToken :: "'s server \<Rightarrow> request \<Rightarrow> string \<Rightarrow> string \<Rightarrow> ('s, unit) handler" where
  "DeleteProjectToken S rq projectParam tokenName =
     andthen (resolveProject S projectParam) (\<lambda>(ns, projectName).
     andthen (authorize S rq (on_env ''token'' ns projectName []) ActionDelete) (\<lambda>_.
     andthen (revoke S (ns, tokenName) ''mortise.dev/project-token'' ''project token not found'') (\<lambda>_.
     andthen (recordActivity S rq projectName ''delete'' ''token'' tokenName (''Revoked project deploy token '' @ tokenName) []) (\<lambda>_.
       give (Reply 204 ())))))"

subsection \<open>Deploy\<close>

record deployRequest =
  dq_Environment :: string
  dq_Image :: string

definition token_actor :: "string option \<Rightarrow> ('s, 'b reply, string) act" where
  "token_actor r = (case r of None \<Rightarrow> stop (ErrorReply 401 ''invalid deploy token'') | Some name \<Rightarrow> give (''token:'' @ name))"

definition authenticate_token :: "'s server \<Rightarrow> request \<Rightarrow> string \<Rightarrow> string \<Rightarrow> string \<Rightarrow> string \<Rightarrow> ('s, 'b reply, string) act" where
  \<comment> \<open>\<open>Deploy\<close> without a principal; returns \<open>actorOverride\<close>\<close>
  "authenticate_token S rq ns projectName appName env =
     (let token = trim_prefix (rq_Authorization rq) ''Bearer ''
      in andthen (check (has_prefix token deployTokenPrefix) (ErrorReply 401 ''missing or invalid authorization'')) (\<lambda>_.
         if has_prefix token projectDeployTokenPrefix
         then andthen (validateProjectDeployToken S rq ns projectName) token_actor
         else andthen (check (env \<noteq> []) (ErrorReply 400 ''environment is required when using a deploy token'')) (\<lambda>_.
              andthen (validateDeployToken S rq ns appName env) token_actor)))"

definition authenticate_deploy :: "'s server \<Rightarrow> request \<Rightarrow> string \<Rightarrow> string \<Rightarrow> string \<Rightarrow> string \<Rightarrow> ('s, 'b reply, string) act" where
  "authenticate_deploy S rq ns projectName appName env =
     (if rq_Principal rq \<noteq> None
      then andthen (authorize S rq (on_env ''app'' ns projectName env) ActionUpdate) (\<lambda>_. give [])
      else authenticate_token S rq ns projectName appName env)"

definition authorize_all :: "'s server \<Rightarrow> request \<Rightarrow> string \<Rightarrow> string \<Rightarrow> App \<Rightarrow> Project \<Rightarrow> ('s, 'b reply, unit) act" where
  \<comment> \<open>a change of every environment needs the right to change each of them\<close>
  "authorize_all S rq ns projectName app project =
     for_each (\<lambda>env. if appParticipatesInEnv app (pe_Name env)
         then authorize S rq (on_env ''app'' ns projectName (pe_Name env)) ActionUpdate else give ())
       (ps_Environments (prj_Spec project))"

definition check_target :: "'s server \<Rightarrow> request \<Rightarrow> string \<Rightarrow> string \<Rightarrow> string \<Rightarrow> string \<Rightarrow> string \<Rightarrow> ('s, 'b reply, App) act" where
  \<comment> \<open>\<open>Deploy\<close> from the second read of the project to the write\<close>
  "check_target S rq projectParam ns projectName appName env =
     andthen (lookupProject S projectParam) (\<lambda>project.
     andthen (if env = [] then give () else andthen (valid_or_400 (validateDNSLabel ''environment'' env 63)) (\<lambda>_. declares_or_400 project env)) (\<lambda>_.
     andthen (on_err Fault (r_Get (sv_Apps S) (ns, appName))) (\<lambda>app.
     andthen (if rq_Principal rq \<noteq> None \<and> env = [] then authorize_all S rq ns projectName app project else give ()) (\<lambda>_.
     andthen (check (env = [] \<or> appParticipatesInEnv app env)
       (ErrorReply 404 (''app '' @ quoted (app_Name app) @ '' is not enabled in environment '' @ quoted env))) (\<lambda>_.
       give app)))))"

definition Deploy ::
  "'s server \<Rightarrow> (('s \<times> App) call \<Rightarrow> ('s \<times> App) call) \<Rightarrow> request \<Rightarrow> string \<Rightarrow> string \<Rightarrow> string + deployRequest \<Rightarrow> ('s, string \<times> string) handler" where
  "Deploy S retry rq projectParam appName body =
     andthen (resolveProject S projectParam) (\<lambda>(ns, projectName).
     andthen (decoded body) (\<lambda>req.
     andthen (check (dq_Image req \<noteq> []) (ErrorReply 400 ''image is required'')) (\<lambda>_.
     andthen (authenticate_deploy S rq ns projectName appName (dq_Environment req)) (\<lambda>actorOverride.
     andthen (check_target S rq projectParam ns projectName appName (dq_Environment req)) (\<lambda>app.
     andthen (rewrite_app S retry app (ns, appName) (set_image (dq_Environment req) (dq_Image req))) (\<lambda>_.
     andthen (recordActivity S rq projectName ''deploy'' ''app'' appName
       (if dq_Environment req \<noteq> [] then ''Deployed '' @ appName @ '' to '' @ dq_Environment req else ''Deployed '' @ appName) actorOverride) (\<lambda>_.
       give (Reply 200 (appName, dq_Image req)))))))))"

subsection \<open>Rollback and promotion\<close>

definition env_status :: "App \<Rightarrow> string \<Rightarrow> EnvironmentStatus option" where
  "env_status app env = find (\<lambda>es. es_Name es = env) (st_Environments (app_Status app))"

definition setEnvSpecImage :: "'s server \<Rightarrow> (('s \<times> App) call \<Rightarrow> ('s \<times> App) call) \<Rightarrow> App \<Rightarrow> string \<Rightarrow> string \<Rightarrow> string \<Rightarrow> string \<Rightarrow> ('s, 'b reply, App) act" where
  "setEnvSpecImage S retry zero projectName appName env img =
     rewrite_app S retry zero (ControlNamespace projectName, appName) (set_image env img)"

definition rollback_target :: "App \<Rightarrow> string \<Rightarrow> int \<Rightarrow> ('s, 'b reply, DeployRecord) act" where
  "rollback_target app env index =
     andthen (check (src_Type (spec_Source (app_Spec app)) \<noteq> SourceTypeGit) (ErrorReply 400 ''rollback is not supported for git-source apps: the controller always deploys the freshly built image, so an image rollback would be silently reverted. Redeploy the target revision instead.'')) (\<lambda>_.
     case env_status app env of
       None \<Rightarrow> stop (ErrorReply 404 (''environment '' @ quoted env @ '' not found in app status''))
     | Some es \<Rightarrow>
         let history = es_DeployHistory es
         in andthen (check (\<not> (index < 0 \<or> index \<ge> int (length history)))
              (ErrorReply 400 (''deploy history index '' @ show_int index @ '' out of range (len='' @ show_nat (length history) @ '')''))) (\<lambda>_.
            give (history ! nat index)))"

definition Rollback ::
  "'s server \<Rightarrow> (('s \<times> App) call \<Rightarrow> ('s \<times> App) call) \<Rightarrow> request \<Rightarrow> string \<Rightarrow> string \<Rightarrow> string + string \<times> int \<Rightarrow> ('s, DeployRecord) handler" where
  \<comment> \<open>the body holds the environment and the index\<close>
  "Rollback S retry rq projectParam appName body =
     andthen (resolveProject S projectParam) (\<lambda>(ns, projectName).
     andthen (decoded body) (\<lambda>(env, index).
     andthen (check (env \<noteq> []) (ErrorReply 400 ''environment is required'')) (\<lambda>_.
     andthen (authorize S rq (on_env ''app'' ns projectName env) ActionUpdate) (\<lambda>_.
     andthen (on_err Fault (r_Get (sv_Apps S) (ns, appName))) (\<lambda>app.
     andthen (rollback_target app env index) (\<lambda>target.
     andthen (setEnvSpecImage S retry app projectName appName env (if dr_Digest target \<noteq> [] then dr_Digest target else dr_Image target)) (\<lambda>_.
     andthen (recordActivity S rq projectName ''rollback'' ''app'' appName (''Rolled back '' @ appName @ '' in '' @ env) []) (\<lambda>_.
       give (Reply 200 target)))))))))"

definition current_image :: "EnvironmentStatus \<Rightarrow> string" where
  "current_image es = (if es_CurrentDigest es \<noteq> [] then es_CurrentDigest es else es_CurrentImage es)"

definition promote_image :: "App \<Rightarrow> string \<Rightarrow> string \<Rightarrow> ('s, 'b reply, string) act" where
  "promote_image app src dst =
     andthen (check (src_Type (spec_Source (app_Spec app)) \<noteq> SourceTypeGit) (ErrorReply 400
       (''promote is not supported for git-source apps: the controller always deploys the target env'' @ [CHR 0x27]
         @ ''s freshly built image, so a promoted image would be silently reverted.''))) (\<lambda>_.
     case env_status app src of
       None \<Rightarrow> stop (ErrorReply 404 (''source environment '' @ quoted src @ '' not found in app status''))
     | Some es \<Rightarrow>
         andthen (check (es_CurrentImage es \<noteq> []) (ErrorReply 400 (''source environment '' @ quoted src @ '' has no current image''))) (\<lambda>_.
         andthen (check (list_ex (\<lambda>env. env_Name env = dst) (spec_Environments (app_Spec app)))
           (ErrorReply 404 (''target environment '' @ quoted dst @ '' not found in app spec''))) (\<lambda>_.
           give (current_image es))))"

definition Promote ::
  "'s server \<Rightarrow> (('s \<times> App) call \<Rightarrow> ('s \<times> App) call) \<Rightarrow> request \<Rightarrow> string \<Rightarrow> string \<Rightarrow> string + string \<times> string \<Rightarrow> ('s, string) handler" where
  \<comment> \<open>the body holds the two environments, the reply the image\<close>
  "Promote S retry rq projectParam appName body =
     andthen (resolveProject S projectParam) (\<lambda>(ns, projectName).
     andthen (decoded body) (\<lambda>(src, dst).
     andthen (check (src \<noteq> [] \<and> dst \<noteq> []) (ErrorReply 400 ''from and to are required'')) (\<lambda>_.
     andthen (check (src \<noteq> dst) (ErrorReply 400 ''from and to must be different environments'')) (\<lambda>_.
     andthen (authorize S rq (on_env ''app'' ns projectName src) ActionRead) (\<lambda>_.
     andthen (authorize S rq (on_env ''app'' ns projectName dst) ActionUpdate) (\<lambda>_.
     andthen (on_err Fault (r_Get (sv_Apps S) (ns, appName))) (\<lambda>app.
     andthen (promote_image app src dst) (\<lambda>img.
     andthen (setEnvSpecImage S retry app projectName appName dst img) (\<lambda>_.
     andthen (recordActivity S rq projectName ''promote'' ''app'' appName (''Promoted '' @ appName @ '' from '' @ src @ '' to '' @ dst) []) (\<lambda>_.
       give (Reply 200 img)))))))))))"

subsection \<open>Build arguments\<close>

definition resolveAppEnv :: "'s server \<Rightarrow> string \<Rightarrow> string \<Rightarrow> string \<Rightarrow> ('s, 'b reply, App) act" where
  \<comment> \<open>\<open>env\<close> is the query parameter\<close>
  "resolveAppEnv S projectParam appName env =
     andthen (lookupProject S projectParam) (\<lambda>project.
     andthen (check (env \<noteq> []) (ErrorReply 400 ''environment query parameter is required'')) (\<lambda>_.
     andthen (declares_or_400 project env) (\<lambda>_.
       on_err Fault (r_Get (sv_Apps S) (projectNs project, appName)))))"

definition buildArgsForEnv :: "App \<Rightarrow> string \<Rightarrow> string gomap" where
  "buildArgsForEnv app envName =
     (case find (\<lambda>env. env_Name env = envName \<and> env_BuildArgs env \<noteq> []) (spec_Environments (app_Spec app)) of
        Some env \<Rightarrow> entries (env_BuildArgs env) | None \<Rightarrow> [])"

definition GetBuildArgs :: "'s server \<Rightarrow> request \<Rightarrow> string \<Rightarrow> string \<Rightarrow> string \<Rightarrow> ('s, string gomap) handler" where
  "GetBuildArgs S rq projectName appName env =
     andthen (authorize S rq (on_env ''app'' [] projectName []) ActionRead) (\<lambda>_.
     andthen (resolveAppEnv S projectName appName env) (\<lambda>app.
       give (Reply 200 (buildArgsForEnv app env))))"

definition PutBuildArgs ::
  "'s server \<Rightarrow> (('s \<times> App) call \<Rightarrow> ('s \<times> App) call) \<Rightarrow> request \<Rightarrow> string \<Rightarrow> string \<Rightarrow> string \<Rightarrow> string + (string \<times> string) list \<Rightarrow> ('s, string gomap) handler" where
  "PutBuildArgs S retry rq projectName appName env body =
     andthen (authorize S rq (on_env ''app'' [] projectName env) ActionUpdate) (\<lambda>_.
     andthen (resolveAppEnv S projectName appName env) (\<lambda>app.
     andthen (decoded body) (\<lambda>vars.
     let args = put_all (filter (\<lambda>(name, _). name \<noteq> []) vars) []
     in andthen (rewrite_app S retry app (app_Namespace app, app_Name app) (ensureEnvironment env (\<lambda>e. e\<lparr>env_BuildArgs := args\<rparr>))) (\<lambda>app.
     andthen (recordActivity S rq projectName ''update'' ''app'' (app_Name app) (''Updated build args for '' @ app_Name app @ '' in '' @ env) []) (\<lambda>_.
       give (Reply 200 (buildArgsForEnv app env)))))))"

section \<open>On a server without other writers\<close>

definition deploys_env ::
  "'s server \<Rightarrow> ('s \<Rightarrow> bool) \<Rightarrow> (Principal \<Rightarrow> Resource \<Rightarrow> Action \<Rightarrow> bool) \<Rightarrow> ('s \<Rightarrow> string \<rightharpoonup> Project) \<Rightarrow> ('s \<Rightarrow> nn \<rightharpoonup> App) \<Rightarrow>
   ('s \<Rightarrow> nn \<rightharpoonup> secret) \<Rightarrow> bool" where
  \<comment> \<open>projects, applications and Secrets change only through their own calls, and what the policy engine grants is in \<open>may\<close>\<close>
  "deploys_env S ok may pv av sv \<longleftrightarrow>
     (\<forall>a b. quiet project_kind (sv_Projects S) (\<lambda>s. ok s \<and> av s = a \<and> sv s = b) pv) \<and>
     (\<forall>p b. quiet app_kind (sv_Apps S) (\<lambda>s. ok s \<and> pv s = p \<and> sv s = b) av) \<and>
     (\<forall>p a. quiet secret_kind (sv_Secrets S) (\<lambda>s. ok s \<and> pv s = p \<and> av s = a) sv) \<and>
     (\<forall>p a b. let P = \<lambda>s. ok s \<and> pv s = p \<and> av s = a \<and> sv s = b in
        (\<forall>e s. P s \<longrightarrow> P (sv_Activity S e s)) \<and> (\<forall>pr res act. finds P (sv_Authorize S pr res act) (\<lambda>b. b \<longrightarrow> may pr res act)))"

abbreviation at where "at ok pv av sv p a b \<equiv> \<lambda>s. ok s \<and> pv s = p \<and> av s = a \<and> sv s = b"

lemma env_quiet:
  assumes "deploys_env S ok may pv av sv"
  shows "quiet project_kind (sv_Projects S) (\<lambda>s. ok s \<and> av s = a \<and> sv s = b) pv"
    and "quiet app_kind (sv_Apps S) (\<lambda>s. ok s \<and> pv s = p \<and> sv s = b) av"
    and "quiet secret_kind (sv_Secrets S) (\<lambda>s. ok s \<and> pv s = p \<and> av s = a) sv"
  using assms by (simp_all add: deploys_env_def)

lemma env_reads:
  assumes env: "deploys_env S ok may pv av sv"
  shows "finds (at ok pv av sv p a b) (r_Get (sv_Projects S) n) (\<lambda>x. p n = Some x)"
    and "finds (at ok pv av sv p a b) (r_Get (sv_Apps S) k) (\<lambda>x. a k = Some x)"
    and "finds (at ok pv av sv p a b) (r_List (sv_Secrets S) ns ls) (\<lambda>obs. set obs = listed secret_kind b ns ls)"
  by (rule findsI; rule quiet_get [OF env_quiet(1) [OF env, of a b]] quiet_get [OF env_quiet(2) [OF env, of p b]]
      quiet_list [OF env_quiet(3) [OF env, of p a]]; auto)+

lemma env_authorize:
  assumes "deploys_env S ok may pv av sv"
  shows "finds (at ok pv av sv p a b) (authorize S rq res act) (\<lambda>_. \<exists>pr. rq_Principal rq = Some pr \<and> may pr res act)"
proof (cases "rq_Principal rq")
  case None
  then show ?thesis by (simp add: authorize_def finds_plain)
next
  case (Some pr)
  have "finds (at ok pv av sv p a b) (sv_Authorize S pr res act) (\<lambda>b. b \<longrightarrow> may pr res act)"
    using assms by (simp add: deploys_env_def Let_def)
  then have "finds (at ok pv av sv p a b) (authorize S rq res act) (\<lambda>_. may pr res act)"
    unfolding authorize_def Some option.case
    by (rule finds_outcome [where V = "\<lambda>b. b \<longrightarrow> may pr res act"]) (auto simp: check_def finds_plain)
  with Some show ?thesis by simp
qed

lemma env_activity:
  assumes "deploys_env S ok may pv av sv"
  shows "keeps (at ok pv av sv p a b) (recordActivity S rq project action kind n msg actor)"
  using assms unfolding recordActivity_def by (intro keeps_intros) (simp add: deploys_env_def Let_def)

lemma env_lookup:
  assumes "deploys_env S ok may pv av sv"
  shows "finds (at ok pv av sv p a b) (lookupProject S n) (\<lambda>x. p n = Some x)"
    and "finds (at ok pv av sv p a b) (resolveProject S n) (\<lambda>(ns, pn). \<exists>prj. p n = Some prj \<and> ns = projectNs prj \<and> pn = prj_Name prj)"
proof -
  show look: "finds (at ok pv av sv p a b) (lookupProject S n) (\<lambda>x. p n = Some x)"
    unfolding lookupProject_def using env_reads(1) [OF assms] by (auto intro!: finds_if finds_plain)
  show "finds (at ok pv av sv p a b) (resolveProject S n) (\<lambda>(ns, pn). \<exists>prj. p n = Some prj \<and> ns = projectNs prj \<and> pn = prj_Name prj)"
    unfolding resolveProject_def by (rule finds_andthen [OF look]) (auto intro: finds_plain)
qed

text \<open>Writing an application: it changes by \<open>f\<close>, or nothing does.\<close>

definition changes_app :: "('s \<Rightarrow> nn \<rightharpoonup> App) \<Rightarrow> nn \<Rightarrow> (App \<Rightarrow> App) \<Rightarrow> (nn \<rightharpoonup> App) \<Rightarrow> 's \<Rightarrow> bool" where
  "changes_app av k f a s1 \<longleftrightarrow>
     (\<exists>cur new. a k = Some cur \<and> kd_same app_kind (f cur) new \<and> av s1 = a(k \<mapsto> new))"

lemma rewrite_app_changes:
  assumes env: "deploys_env S ok may pv av sv" and "retries retry" "at ok pv av sv p a b s"
    and key: "\<And>x. app_Namespace (f x) = app_Namespace x \<and> app_Name (f x) = app_Name x"
  shows "wp (rewrite_app S retry zero k f) (\<lambda>r s1. case r of
      Inl _ \<Rightarrow> at ok pv av sv p a b s1
    | Inr _ \<Rightarrow> ok s1 \<and> pv s1 = p \<and> sv s1 = b \<and> changes_app av k f a s1) s"
proof -
  let ?P = "at ok pv av sv p a b"
  note q = env_quiet(2) [OF env, of p b]
  let ?Q = "\<lambda>r s1. case r of Inl _ \<Rightarrow> ?P s1 | Inr _ \<Rightarrow> ok s1 \<and> pv s1 = p \<and> sv s1 = b \<and> changes_app av k f a s1"
  have step: "wp (on_err (Api []) (andthen (r_Get (sv_Apps S) k) (\<lambda>fresh. r_Update (sv_Apps S) (f fresh))))
      (\<lambda>r s1. ?Q r s1 \<and> (\<forall>e. r = Inl e \<longrightarrow> ?P s1)) s0" if "?P s0" for s0
    unfolding wp_on_err
  proof (rule wp_finds [OF env_reads(2) [OF env] that])
    fix cur s1 assume s1: "?P s1" and cur: "a k = Some cur"
    have "kd_key app_kind (f cur) = k"
      using quiet_key [OF q, of s1 k cur] s1 cur key [of cur] by (simp add: app_kind_def)
    then show "wp (r_Update (sv_Apps S) (f cur)) (\<lambda>r s1. ?Q (map_sum (Api []) id r) s1 \<and> (\<forall>e. map_sum (Api []) id r = Inl e \<longrightarrow> ?P s1)) s1"
      by (intro quiet_update [OF q]) (use s1 cur in \<open>auto simp: changes_app_def\<close>)
  qed simp
  show ?thesis
    unfolding rewrite_app_def wp_on_err
    by (rule wp_mono [OF wp_RetryOnConflict [where P = ?P, OF assms(2,3) step]]) (auto split: sum.splits)
qed

section \<open>Who may deploy\<close>

text \<open>The common end of the handlers.\<close>

definition changed_at_most :: "('s \<Rightarrow> bool) \<Rightarrow> ('s \<Rightarrow> string \<rightharpoonup> Project) \<Rightarrow> ('s \<Rightarrow> nn \<rightharpoonup> App) \<Rightarrow> ('s \<Rightarrow> nn \<rightharpoonup> secret) \<Rightarrow> 's \<Rightarrow>
    (nn \<Rightarrow> (App \<Rightarrow> App) \<Rightarrow> bool) \<Rightarrow> 's \<Rightarrow> bool" where
  \<comment> \<open>nothing changed, or one application in a way \<open>A\<close> allows\<close>
  "changed_at_most ok pv av sv s A s1 \<longleftrightarrow> ok s1 \<and> pv s1 = pv s \<and> sv s1 = sv s \<and>
     (av s1 = av s \<or> (\<exists>k f. A k f \<and> changes_app av k f (av s) s1))"

lemma changed_at_most_same: "at ok pv av sv (pv s) (av s) (sv s) s1 \<Longrightarrow> changed_at_most ok pv av sv s A s1"
  by (simp add: changed_at_most_def)

lemma changed_at_most_one:
  "ok s1 \<Longrightarrow> pv s1 = pv s \<Longrightarrow> sv s1 = sv s \<Longrightarrow> A k f \<Longrightarrow> changes_app av k f (av s) s1 \<Longrightarrow> changed_at_most ok pv av sv s A s1"
  unfolding changed_at_most_def by blast

lemma write_and_record:
  assumes env: "deploys_env S ok may pv av sv" and "retries retry" and at: "at ok pv av sv (pv s) (av s) (sv s) s2"
    and key: "\<And>x. app_Namespace (f x) = app_Namespace x \<and> app_Name (f x) = app_Name x" and A: "A k f"
  shows "wp (andthen (rewrite_app S retry zero k f) (\<lambda>x. andthen (recordActivity S rq (pn x) x1 x2 (n x) (t x) actor) (\<lambda>_. give (y x))))
    (\<lambda>_. changed_at_most ok pv av sv s A) s2"
  unfolding wp_andthen [where m = "rewrite_app S retry app k f" for app]
proof (rule wp_mono [OF rewrite_app_changes [OF env assms(2) at key]], goal_cases)
  case (1 r s3)
  then have s3: "changed_at_most ok pv av sv s A s3" by (cases r) (simp_all add: changed_at_most_same changed_at_most_one [where A = A and k = k and f = f] A)
  then have P: "at ok pv av sv (pv s) (av s3) (sv s) s3" by (simp add: changed_at_most_def)
  show ?case
  proof (cases r)
    case (Inr x)
    show ?thesis
      unfolding Inr on_value_simps
      by (rule wp_keep [OF env_activity [OF env] P]) (use s3 in \<open>simp_all add: wp_simps changed_at_most_def changes_app_def\<close>)
  qed (simp add: s3 on_value_def)
qed

definition bears :: "'s server \<Rightarrow> request \<Rightarrow> string \<Rightarrow> string \<Rightarrow> string \<Rightarrow> secret \<Rightarrow> bool" where
  \<comment> \<open>the request carries the token \<open>sec\<close> is the record of: one of the application and environment, or one of the project\<close>
  "bears S rq pn appName env sec \<longleftrightarrow> (\<exists>token. rq_Authorization rq = ''Bearer '' @ token \<and>
     (env \<noteq> [] \<and> has_labels [(''mortise.dev/deploy-token'', ''true''), (''mortise.dev/app'', appName), (''mortise.dev/environment'', env)] (Sec_Labels sec) \<and>
        lookup_str (Sec_Data sec) ''token-hash'' = token_hash S token \<or>
      (\<exists>x. token = projectDeployTokenPrefix @ pn @ ''_'' @ x) \<and>
        has_labels [(''mortise.dev/deploy-token'', ''true''), (''mortise.dev/project-token'', ''true'')] (Sec_Labels sec) \<and>
        project_token_hash sec = token_hash S token))"

definition may_deploy ::
  "'s server \<Rightarrow> (Principal \<Rightarrow> Resource \<Rightarrow> Action \<Rightarrow> bool) \<Rightarrow> request \<Rightarrow> Project \<Rightarrow> (nn \<rightharpoonup> secret) \<Rightarrow> string \<Rightarrow> string \<Rightarrow> App \<Rightarrow> bool" where
  "may_deploy S may rq prj secs appName env cur \<longleftrightarrow>
     (let ns = projectNs prj; right = \<lambda>pr e. may pr (on_env ''app'' ns (prj_Name prj) e) ActionUpdate
      in (case rq_Principal rq of
            Some pr \<Rightarrow> right pr env \<and> (env = [] \<longrightarrow>
              (\<forall>e \<in> set (ps_Environments (prj_Spec prj)). appParticipatesInEnv cur (pe_Name e) \<longrightarrow> right pr (pe_Name e)))
          | None \<Rightarrow> \<exists>sec \<in> ran secs. Sec_Namespace sec = ns \<and> bears S rq (prj_Name prj) appName env sec) \<and>
         (env \<noteq> [] \<longrightarrow> indexOfEnv prj env \<noteq> None \<and> appParticipatesInEnv cur env))"

lemma projectNs_not_empty [simp]: "projectNs prj \<noteq> []"
  by (simp add: projectNs_def ControlNamespace_def ControlNamespacePrefix_def)

lemma before_last_Some:
  assumes "before_last c s = Some f"
  shows "\<exists>x. s = f @ c # x"
proof -
  from assms obtain d front where r: "dropWhile (\<lambda>x. x \<noteq> c) (rev s) = d # front" "f = rev front"
    by (auto simp: before_last_def split: list.splits if_splits)
  then have "d = c" using hd_dropWhile [of "\<lambda>x. x \<noteq> c" "rev s"] by auto
  moreover have "rev s = takeWhile (\<lambda>x. x \<noteq> c) (rev s) @ d # front" using takeWhile_dropWhile_id [of "\<lambda>x. x \<noteq> c" "rev s"] r(1) by metis
  then have "s = rev front @ d # rev (takeWhile (\<lambda>x. x \<noteq> c) (rev s))"
    by (metis append.assoc append_Cons append_Nil rev.simps(2) rev_append rev_rev_ident)
  ultimately show ?thesis using r(2) by blast
qed

lemma before_last_append: "c \<notin> set x \<Longrightarrow> f \<noteq> [] \<Longrightarrow> before_last c (f @ c # x) = Some f"
  by (simp add: before_last_def dropWhile_append)

lemma bearer_of_Some: "bearer_of header q = Some token \<Longrightarrow> header = ''Bearer '' @ token \<and> has_prefix token q"
  unfolding bearer_of_def Let_def by (metis has_prefix_conv option.distinct(1) option.inject trim_prefix_append)

lemma matching_Some: "matching f h secs = Some sec \<Longrightarrow> sec \<in> set secs \<and> f sec = h"
  by (simp add: matching_def find_Some_iff) (metis nth_mem)

lemma app_token_found:
  assumes env: "deploys_env S ok may pv av sv" and "ns \<noteq> []" "env \<noteq> []"
  shows "finds (at ok pv av sv p a b) (validateDeployToken S rq ns appName env)
    (\<lambda>r. r \<noteq> None \<longrightarrow> (\<exists>sec \<in> ran b. Sec_Namespace sec = ns \<and> bears S rq pn appName env sec))"
proof (cases "bearer_of (rq_Authorization rq) deployTokenPrefix")
  case (Some token)
  show ?thesis
    unfolding validateDeployToken_def Some option.case
  proof (rule finds_outcome [OF env_reads(3) [OF env]])
    fix secs
    let ?ls = "[(''mortise.dev/deploy-token'', ''true''), (''mortise.dev/app'', appName), (''mortise.dev/environment'', env)]"
    assume secs: "set secs = listed secret_kind b ns ?ls"
    have "\<exists>sec \<in> ran b. Sec_Namespace sec = ns \<and> bears S rq pn appName env sec"
      if "matching (\<lambda>sec. lookup_str (Sec_Data sec) ''token-hash'') (token_hash S token) secs = Some sec" for sec
      using matching_Some [OF that] secs bearer_of_Some [OF Some] assms(2,3)
      by (auto simp: listed_def secret_kind_def bears_def)
    then show "finds (at ok pv av sv p a b) (case Inr secs of Inl _ \<Rightarrow> give None
        | Inr secs \<Rightarrow> give (map_option (\<lambda>sec. let name = lookup_str (Sec_Labels sec) ''mortise.dev/token-name'' in if name = [] then Sec_Name sec else name)
            (matching (\<lambda>sec. lookup_str (Sec_Data sec) ''token-hash'') (token_hash S token) secs)))
      (\<lambda>r. r \<noteq> None \<longrightarrow> (\<exists>sec \<in> ran b. Sec_Namespace sec = ns \<and> bears S rq pn appName env sec))"
      by (auto intro!: finds_plain)
  qed (simp add: finds_plain)
qed (simp add: validateDeployToken_def finds_plain)

lemma project_token_found:
  assumes env: "deploys_env S ok may pv av sv" and "ns \<noteq> []"
  shows "finds (at ok pv av sv p a b) (validateProjectDeployToken S rq ns pn)
    (\<lambda>r. r \<noteq> None \<longrightarrow> (\<exists>sec \<in> ran b. Sec_Namespace sec = ns \<and> bears S rq pn appName env sec))"
proof (cases "bearer_of (rq_Authorization rq) projectDeployTokenPrefix")
  case (Some token)
  show ?thesis
    unfolding validateProjectDeployToken_def Some option.case
  proof (rule finds_if, simp add: finds_plain, rule finds_outcome [OF env_reads(3) [OF env]])
    fix secs
    assume name: "\<not> before_last CHR ''_'' (trim_prefix token projectDeployTokenPrefix) \<noteq> Some pn"
      and secs: "set secs = listed secret_kind b ns [(''mortise.dev/deploy-token'', ''true''), (''mortise.dev/project-token'', ''true'')]"
    from Some have "rq_Authorization rq = ''Bearer '' @ token" "has_prefix token projectDeployTokenPrefix" by (auto dest: bearer_of_Some)
    moreover then obtain x where "token = projectDeployTokenPrefix @ pn @ ''_'' @ x"
      using before_last_Some [of "CHR ''_''" "trim_prefix token projectDeployTokenPrefix" pn] name by (auto simp: has_prefix_conv)
    ultimately have "\<exists>sec \<in> ran b. Sec_Namespace sec = ns \<and> bears S rq pn appName env sec"
      if "matching project_token_hash (token_hash S token) secs = Some sec" for sec
      using matching_Some [OF that] secs assms(2)
      by (auto simp: listed_def secret_kind_def bears_def)
    then show "finds (at ok pv av sv p a b) (case Inr secs of Inl _ \<Rightarrow> give None
        | Inr secs \<Rightarrow> give (map_option Sec_Name (matching project_token_hash (token_hash S token) secs)))
      (\<lambda>r. r \<noteq> None \<longrightarrow> (\<exists>sec \<in> ran b. Sec_Namespace sec = ns \<and> bears S rq pn appName env sec))"
      by (auto intro!: finds_plain)
  qed (simp add: finds_plain)
qed (simp add: validateProjectDeployToken_def finds_plain)

lemma deploy_authenticated:
  assumes env: "deploys_env S ok may pv av sv" and "ns \<noteq> []"
  shows "finds (at ok pv av sv p a b) (authenticate_deploy S rq ns pn appName env) (\<lambda>_. case rq_Principal rq of
      Some pr \<Rightarrow> may pr (on_env ''app'' ns pn env) ActionUpdate
    | None \<Rightarrow> \<exists>sec \<in> ran b. Sec_Namespace sec = ns \<and> bears S rq pn appName env sec)"
proof (cases "rq_Principal rq")
  case (Some pr)
  then show ?thesis
    unfolding authenticate_deploy_def by (auto intro!: finds_andthen [OF env_authorize [OF env]] finds_plain)
next
  case None
  let ?V = "\<exists>sec \<in> ran b. Sec_Namespace sec = ns \<and> bears S rq pn appName env sec"
  have named: "finds (at ok pv av sv p a b) (andthen m token_actor) (\<lambda>_. ?V)" if "finds (at ok pv av sv p a b) m (\<lambda>r. r \<noteq> None \<longrightarrow> ?V)" for m
    by (rule finds_andthen [OF that]) (auto simp: token_actor_def finds_plain split: option.split)
  have "finds (at ok pv av sv p a b) (authenticate_token S rq ns pn appName env) (\<lambda>_. ?V)"
    unfolding authenticate_token_def Let_def
    by (rule finds_andthen [OF finds_plain(3)], rule finds_if, rule named, rule project_token_found [OF env assms(2)],
      rule finds_andthen [OF finds_plain(3)], rule named, rule app_token_found [OF env assms(2)])
  with None show ?thesis by (simp add: authenticate_deploy_def)
qed

lemma target_checked:
  assumes env: "deploys_env S ok may pv av sv" and prj: "p pp = Some prj"
  shows "finds (at ok pv av sv p a b) (check_target S rq pp ns pn appName env) (\<lambda>cur. a (ns, appName) = Some cur \<and>
    (env \<noteq> [] \<longrightarrow> indexOfEnv prj env \<noteq> None \<and> appParticipatesInEnv cur env) \<and>
    (\<forall>pr. rq_Principal rq = Some pr \<and> env = [] \<longrightarrow> (\<forall>e \<in> set (ps_Environments (prj_Spec prj)).
      appParticipatesInEnv cur (pe_Name e) \<longrightarrow> may pr (on_env ''app'' ns pn (pe_Name e)) ActionUpdate)))"
proof -
  let ?P = "at ok pv av sv p a b"
  let ?all = "\<lambda>cur. \<forall>pr. rq_Principal rq = Some pr \<and> env = [] \<longrightarrow> (\<forall>e \<in> set (ps_Environments (prj_Spec prj)).
      appParticipatesInEnv cur (pe_Name e) \<longrightarrow> may pr (on_env ''app'' ns pn (pe_Name e)) ActionUpdate)"
  have each: "finds ?P (authorize_all S rq ns pn cur prj) (\<lambda>_. \<forall>e \<in> set (ps_Environments (prj_Spec prj)).
      appParticipatesInEnv cur (pe_Name e) \<longrightarrow> (\<exists>pr. rq_Principal rq = Some pr \<and> may pr (on_env ''app'' ns pn (pe_Name e)) ActionUpdate))" for cur
    unfolding authorize_all_def
    by (rule finds_for_each) (auto intro!: finds_if finds_plain intro: finds_mono [OF env_authorize [OF env]])
  have all: "finds ?P (if rq_Principal rq \<noteq> None \<and> env = [] then authorize_all S rq ns pn cur prj else give ()) (\<lambda>_. ?all cur)" for cur
    by (intro finds_if finds_plain finds_mono [OF each]) auto
  have declared: "finds ?P (if env = [] then give () else andthen (valid_or_400 (validateDNSLabel ''environment'' env 63)) (\<lambda>_. declares_or_400 prj env))
      (\<lambda>_. env \<noteq> [] \<longrightarrow> indexOfEnv prj env \<noteq> None)"
    unfolding valid_or_400_def declares_or_400_def
    by (rule finds_if) (auto intro!: finds_plain finds_andthen [OF finds_plain(3)] intro: finds_mono [OF finds_plain(3)])
  show ?thesis
    unfolding check_target_def
  proof (rule finds_andthen [OF env_lookup(1) [OF env]])
    fix x assume "p pp = Some x"
    then have x: "x = prj" using prj by simp
    show "finds ?P (andthen (if env = [] then give () else andthen (valid_or_400 (validateDNSLabel ''environment'' env 63)) (\<lambda>_. declares_or_400 x env)) (\<lambda>_.
       andthen (on_err Fault (r_Get (sv_Apps S) (ns, appName))) (\<lambda>app.
       andthen (if rq_Principal rq \<noteq> None \<and> env = [] then authorize_all S rq ns pn app x else give ()) (\<lambda>_.
       andthen (check (env = [] \<or> appParticipatesInEnv app env)
         (ErrorReply 404 (''app '' @ quoted (app_Name app) @ '' is not enabled in environment '' @ quoted env))) (\<lambda>_. give app)))))
      (\<lambda>cur. a (ns, appName) = Some cur \<and> (env \<noteq> [] \<longrightarrow> indexOfEnv prj env \<noteq> None \<and> appParticipatesInEnv cur env) \<and> ?all cur)"
      unfolding x
      by (rule finds_andthen [OF declared], rule finds_andthen [OF env_reads(2) [OF env, THEN finds_on_err [THEN iffD2]]],
        rule finds_andthen [OF all], rule finds_andthen [OF finds_plain(3)], rule finds_plain(1)) auto
  qed
qed

lemma set_image_key: "app_Namespace (set_image env img x) = app_Namespace x \<and> app_Name (set_image env img x) = app_Name x"
  by (simp add: set_image_def ensureEnvironment_def Let_def)

section \<open>Properties\<close>

text \<open>
  C34: Without other writers, a deploy either changes nothing or sets the requested image of the one application the
  request names, and then the request was entitled to it: its principal may update the environment, or every environment
  the application takes part in when the request names none; or, without a principal, it carries a token whose hash is
  stored in the project for this application and environment, or for the project. A named environment
  is one the project declares and the application takes part in. Secrets and projects stay as they were.
\<close>

theorem deploy_needs_credential:
  assumes "deploys_env S ok may pv av sv" "retries retry" "ok s" "Deploy S retry rq pp appName body = m" "m s = (r, s1)"
  shows "sv s1 = sv s \<and> pv s1 = pv s \<and> (av s1 = av s \<or>
    (\<exists>req prj cur new. body = Inr req \<and> dq_Image req \<noteq> [] \<and> pv s pp = Some prj \<and> av s (projectNs prj, appName) = Some cur \<and>
       may_deploy S may rq prj (sv s) appName (dq_Environment req) cur \<and>
       kd_same app_kind (set_image (dq_Environment req) (dq_Image req) cur) new \<and> av s1 = (av s)((projectNs prj, appName) \<mapsto> new)))"
proof -
  note env = assms(1)
  let ?P = "at ok pv av sv (pv s) (av s) (sv s)"
  define A where "A k f \<longleftrightarrow> (\<exists>req prj cur. body = Inr req \<and> dq_Image req \<noteq> [] \<and> pv s pp = Some prj \<and>
    av s k = Some cur \<and> may_deploy S may rq prj (sv s) appName (dq_Environment req) cur \<and>
    k = (projectNs prj, appName) \<and> f = set_image (dq_Environment req) (dq_Image req))" for k f
  define R where "R = changed_at_most ok pv av sv s A"
  have PR: "?P s2 \<Longrightarrow> R s2" for s2 by (simp add: R_def changed_at_most_same)
  have "wp (Deploy S retry rq pp appName body) (\<lambda>_. R) s"
    unfolding Deploy_def
  proof (rule wp_finds [where P = ?P, OF env_lookup(2) [OF env]], goal_cases)
    case (2 np s2)
    then obtain prj where prj: "pv s pp = Some prj" and np: "np = (projectNs prj, prj_Name prj)" by (cases np) auto
    have req: "finds ?P (decoded body) (\<lambda>req. body = Inr req)" by (cases body) (auto simp: decoded_def finds_plain)
    show ?case
      unfolding np prod.case
    proof (rule wp_finds [where P = ?P, OF req 2(1)], goal_cases)
      case (1 req s3)
      note req = 1(2)
      show ?case
      proof (rule wp_finds [where P = ?P, OF finds_plain(3) 1(1)], goal_cases)
        case (1 _ s4)
        note img = 1(2)
        show ?case
        proof (rule wp_finds [where P = ?P, OF deploy_authenticated [OF env projectNs_not_empty] 1(1)], goal_cases)
          case (1 actor s5)
          note auth = 1(2)
          show ?case
          proof (rule wp_finds [where P = ?P, OF target_checked [where p = "pv s" and pp = pp, OF env prj] 1(1)], goal_cases)
            case (1 cur s6)
            show ?case
              unfolding R_def
              by (rule write_and_record [OF env assms(2) 1(1) set_image_key])
                 (use 1(2) req img auth prj in \<open>auto simp: A_def may_deploy_def Let_def split: option.splits\<close>)
          qed (simp add: PR)
        qed (simp add: PR)
      qed (simp add: PR)
    qed (simp add: PR)
  qed (simp_all add: PR assms(3))
  with assms(4,5) have "R s1" by (auto dest: wpD)
  then show ?thesis unfolding R_def changed_at_most_def changes_app_def A_def by auto
qed


section \<open>From a created token to an accepted one\<close>

lemma hex_digit_code: "d < 16 \<Longrightarrow> (of_char (hex_digit d) :: nat) < 103 \<and> (of_char (hex_digit d) :: nat) \<noteq> 95"
  by (auto simp: hex_digit_def of_char_of take_bit_eq_mod)

lemma hex_encode_chars: "c \<in> set (hex_encode s) \<Longrightarrow> (of_char c :: nat) < 103 \<and> (of_char c :: nat) \<noteq> 95"
proof (induction s)
  case (Cons d s)
  have "(of_char d :: nat) div 16 < 16" using of_char_less_256 [of d] by (simp add: less_mult_imp_div_less)
  with Cons hex_digit_code [of "of_char d div 16"] hex_digit_code [of "of_char d mod 16"] show ?case by auto
qed simp

lemma hex_encode_plain: "CHR ''_'' \<notin> set (hex_encode s)" "CHR ''p'' \<notin> set (hex_encode s)"
  by (auto dest: hex_encode_chars)

lemma app_token_is_no_project_token: "\<not> has_prefix (deployTokenPrefix @ hex_encode raw) projectDeployTokenPrefix"
proof
  assume "has_prefix (deployTokenPrefix @ hex_encode raw) projectDeployTokenPrefix"
  then obtain t where "hex_encode raw = ''pj_'' @ t" by (auto simp: has_prefix_conv deployTokenPrefix_def projectDeployTokenPrefix_def)
  then have "CHR ''p'' \<in> set (hex_encode raw)" by simp
  then show False by (simp add: hex_encode_plain)
qed

lemma bearer_of_token [simp]: "bearer_of (''Bearer '' @ q @ t) q = Some (q @ t)"
  using trim_prefix_append [of "''Bearer ''" "q @ t"] has_prefix_append [of "''Bearer ''" "q @ t"]
  by (simp only: bearer_of_def Let_def has_prefix_append) simp

lemma find_some: "x \<in> set xs \<Longrightarrow> Q x \<Longrightarrow> \<exists>y. find Q xs = Some y"
  by (metis find_None_iff not_Some_eq)

lemma list_finds:
  assumes env: "deploys_env S ok may pv av sv" and "ok s" "\<And>e s1. r_List (sv_Secrets S) ns ls s \<noteq> (Inl e, s1)"
    and "sv s k = Some sec" "Sec_Namespace sec = ns" "has_labels ls (Sec_Labels sec)"
  obtains secs s1 where "r_List (sv_Secrets S) ns ls s = (Inr secs, s1)" "sec \<in> set secs"
proof -
  obtain r s1 where r: "r_List (sv_Secrets S) ns ls s = (r, s1)" by (cases "r_List (sv_Secrets S) ns ls s")
  then obtain secs where secs: "r = Inr secs" using assms(3) by (cases r) auto
  have "wp (r_List (sv_Secrets S) ns ls) (\<lambda>r s1. at ok pv av sv (pv s) (av s) (sv s) s1 \<and>
      (\<forall>obs. r = Inr obs \<longrightarrow> set obs = listed secret_kind (sv s) ns ls)) s"
    using env_reads(3) [OF env, of "pv s" "av s" "sv s" ns ls] assms(2) by (simp add: finds_def)
  then have "set secs = listed secret_kind (sv s) ns ls" using r secs by (auto dest: wpD)
  moreover have "sec \<in> listed secret_kind (sv s) ns ls" using assms(4-6) by (auto simp: listed_def secret_kind_def intro: ranI)
  ultimately show thesis using that r secs by simp
qed

text \<open>What is stored after the creation of a token.\<close>

definition stores :: "('s \<Rightarrow> nn \<rightharpoonup> secret) \<Rightarrow> string \<Rightarrow> string gomap \<Rightarrow> string \<Rightarrow> 's \<Rightarrow> bool" where
  "stores sv ns ls hash s \<longleftrightarrow> (\<exists>k sec. sv s k = Some sec \<and> Sec_Namespace sec = ns \<and> has_labels ls (Sec_Labels sec) \<and>
     lookup_str (Sec_Data sec) ''token-hash'' = hash)"

lemma same_token_secret:
  "kd_same secret_kind sec sec1 \<Longrightarrow> Sec_Namespace sec1 = Sec_Namespace sec \<and> Sec_Labels sec1 = Sec_Labels sec \<and> Sec_Data sec1 = Sec_Data sec"
  by (cases sec; cases sec1) (simp add: secret_kind_def)

lemma token_stored:
  assumes env: "deploys_env S ok may pv av sv" and "at ok pv av sv (pv s) (av s) (sv s) s2"
    and "has_labels ls labels" "lookup_str d ''token-hash'' = hash"
  shows "wp (andthen (on_err Fault (r_Create (sv_Secrets S) (token_secret ns name labels d))) (\<lambda>_.
      andthen (recordActivity S rq pn x1 x2 x3 x4 x5) (\<lambda>_. give y)))
    (\<lambda>r s1. \<forall>x. r = Inr x \<longrightarrow> x = y \<and> ok s1 \<and> stores sv ns ls hash s1) s2"
  unfolding wp_andthen [where m = "on_err f m" for f m] wp_on_err
proof (rule quiet_create [OF env_quiet(3) [OF env, of "pv s" "av s"]], goal_cases)
  case (3 sec s3)
  have stored: "stores sv ns ls hash s3"
    unfolding stores_def using 3(4) same_token_secret [OF 3(3)] assms(3,4) by (intro exI [of _ "kd_key secret_kind (token_secret ns name labels d)"])
      (simp add: token_secret_def)
  have "wp (andthen (recordActivity S rq pn x1 x2 x3 x4 x5) (\<lambda>_. give y))
    (\<lambda>r s1. \<forall>x. r = Inr x \<longrightarrow> x = y \<and> ok s1 \<and> stores sv ns ls hash s1) s3"
    by (rule wp_keep [OF env_activity [OF env, of "pv s" "av s" "sv s3"]])
      (use 3(1) stored in \<open>auto simp: wp_simps stores_def\<close>)
  then show ?case by (simp add: on_value_def)
qed (use assms(2) in \<open>simp_all add: on_value_def\<close>)

lemma token_request_checked:
  assumes env: "deploys_env S ok may pv av sv"
  shows "finds (at ok pv av sv p a b) (check_token_request S rq pp appName body) (\<lambda>(prj, req). p pp = Some prj \<and> ctr_Environment req \<noteq> [])"
  unfolding check_token_request_def valid_or_400_def declares_or_400_def
  by (rule finds_andthen [OF env_lookup(1) [OF env]], rule finds_andthen [OF env_authorize [OF env]],
      rule finds_andthen [OF finds_any [where m = "decoded body"]], simp add: decoded_def keeps_intros split: sum.split,
      (rule finds_andthen [OF finds_plain(3)])+, rule finds_andthen [OF finds_any], intro keeps_on_err finds_keeps [OF env_reads(2) [OF env]],
      rule finds_andthen [OF finds_plain(3)], rule finds_plain(1)) simp

lemma random_hex_finds:
  "keeps P (rand n) \<Longrightarrow> finds P (random_hex rand n) (\<lambda>x. \<exists>raw. x = hex_encode raw)"
  unfolding random_hex_def
  by (rule finds_andthen [OF finds_any]) (auto intro!: keeps_on_err finds_plain)

definition app_token_selector :: "string \<Rightarrow> string \<Rightarrow> string gomap" where
  "app_token_selector appName env = [(''mortise.dev/deploy-token'', ''true''), (''mortise.dev/app'', appName), (''mortise.dev/environment'', env)]"

lemma CreateToken_stores:
  assumes env: "deploys_env S ok may pv av sv" and rand: "\<And>p a b n. keeps (at ok pv av sv p a b) (rand n)" and "ok s"
  shows "wp (CreateToken S rand rq pp appName body) (\<lambda>r s1. \<forall>st tr. r = Inr (Reply st tr) \<longrightarrow> ok s1 \<and> (\<exists>prj raw. pv s pp = Some prj \<and>
      tr_Token tr = deployTokenPrefix @ hex_encode raw \<and> tr_Environment tr \<noteq> [] \<and>
      stores sv (projectNs prj) (app_token_selector appName (tr_Environment tr)) (token_hash S (tr_Token tr)) s1)) s"
    (is "wp _ ?Q s")
  unfolding CreateToken_def
proof (rule wp_finds [where P = "at ok pv av sv (pv s) (av s) (sv s)", OF token_request_checked [OF env]], goal_cases)
  case (2 x s2)
  then obtain prj req where x: "x = (prj, req)" "pv s pp = Some prj" "ctr_Environment req \<noteq> []" by (cases x) auto
  show ?case
    unfolding x(1) prod.case
  proof (rule wp_finds [where P = "at ok pv av sv (pv s) (av s) (sv s)", OF random_hex_finds [OF rand] 2(1)], goal_cases)
    case (1 raw s3)
    show ?case
      unfolding Let_def
    proof (rule wp_mono [OF token_stored [OF env 1(1), where ls = "app_token_selector appName (ctr_Environment req)"
          and hash = "token_hash S (deployTokenPrefix @ raw)"]], goal_cases)
      case (3 r s4)
      obtain bytes where "raw = hex_encode bytes" using 1(2) by blast
      with 3 x(2,3) show ?case by fastforce
    qed (simp_all add: app_token_labels_def app_token_selector_def has_labels_def lookup_str_def)
  qed simp
qed (use assms(3) in simp_all)

lemma validateDeployToken_finds:
  fixes S :: "'s server"
  assumes "r_List (sv_Secrets S) ns [(''mortise.dev/deploy-token'', ''true''), (''mortise.dev/app'', appName), (''mortise.dev/environment'', env)] s = (Inr secs, s1)"
    and "matching (\<lambda>sec. lookup_str (Sec_Data sec) ''token-hash'') (token_hash S token) secs = Some sec" "token = deployTokenPrefix @ raw"
  shows "(validateDeployToken S \<lparr>rq_Principal = None, rq_Authorization = ''Bearer '' @ token\<rparr> ns appName env :: ('s, 'b reply, string option) act) s =
    (Inr (Some (let name = lookup_str (Sec_Labels sec) ''mortise.dev/token-name'' in if name = [] then Sec_Name sec else name)), s1)"
proof -
  have "bearer_of (''Bearer '' @ token) deployTokenPrefix = Some token" unfolding assms(3) by (rule bearer_of_token)
  then show ?thesis
    unfolding validateDeployToken_def request.select_convs
    by (simp only: option.case outcome_def assms(1,2) prod.case sum.case give_def option.map)
qed

lemma app_token_authenticates:
  fixes S :: "'s server"
  assumes "(validateDeployToken S \<lparr>rq_Principal = None, rq_Authorization = ''Bearer '' @ token\<rparr> ns appName env :: ('s, 'b reply, string option) act) s
      = (Inr (Some name), s1)"
    and "has_prefix token deployTokenPrefix" "\<not> has_prefix token projectDeployTokenPrefix" "env \<noteq> []"
  shows "authenticate_deploy S \<lparr>rq_Principal = None, rq_Authorization = ''Bearer '' @ token\<rparr> ns pn appName env s =
    (Inr (''token:'' @ name) :: 'b reply + string, s1)"
  using assms
  by (simp only: authenticate_deploy_def authenticate_token_def Let_def trim_prefix_append request.select_convs if_False simp_thms)
     (simp only: andthen_def check_def give_def token_actor_def if_True if_False simp_thms prod.case sum.case option.case)

text \<open>
  C36: A deploy token works: when the creation of a token for an application and an environment was answered with 201, the bearer of the token
  it returned is authenticated for a deploy of this application to this environment, as long as its Secret is stored and Secrets can be listed.
\<close>

theorem created_token_authenticates:
  assumes "deploys_env S ok may pv av sv" "\<And>p a b n. keeps (at ok pv av sv p a b) (rand n)" "ok s"
    and "CreateToken S rand rq pp appName body s = (Inr (Reply st tr), s1)"
    and "ok s2" "sv s2 = sv s1" "\<And>ns ls e s3. r_List (sv_Secrets S) ns ls s2 \<noteq> (Inl e, s3)"
  shows "\<exists>prj name s3. pv s pp = Some prj \<and>
    authenticate_deploy S \<lparr>rq_Principal = None, rq_Authorization = ''Bearer '' @ tr_Token tr\<rparr> (projectNs prj) (prj_Name prj) appName
      (tr_Environment tr) s2 = (Inr (''token:'' @ name) :: (string \<times> string) reply + string, s3)"
proof -
  note env = assms(1)
  from wpD [OF CreateToken_stores [OF env assms(2,3)] assms(4)]
  obtain prj raw where prj: "pv s pp = Some prj" and token: "tr_Token tr = deployTokenPrefix @ hex_encode raw" "tr_Environment tr \<noteq> []"
    and stored: "stores sv (projectNs prj) (app_token_selector appName (tr_Environment tr)) (token_hash S (tr_Token tr)) s1" by blast
  from stored obtain k sec where sec: "sv s2 k = Some sec" "Sec_Namespace sec = projectNs prj" "has_labels (app_token_selector appName (tr_Environment tr)) (Sec_Labels sec)"
    "lookup_str (Sec_Data sec) ''token-hash'' = token_hash S (tr_Token tr)" unfolding stores_def assms(6) by blast
  obtain secs s3 where secs: "r_List (sv_Secrets S) (projectNs prj) (app_token_selector appName (tr_Environment tr)) s2 = (Inr secs, s3)" "sec \<in> set secs"
    by (rule list_finds [OF env assms(5,7) sec(1-3)])
  obtain found where "matching (\<lambda>sec. lookup_str (Sec_Data sec) ''token-hash'') (token_hash S (tr_Token tr)) secs = Some found"
    using find_some [of sec secs "\<lambda>sec. lookup_str (Sec_Data sec) ''token-hash'' = token_hash S (tr_Token tr)"] secs(2) sec(4)
    unfolding matching_def by blast
  note validateDeployToken_finds [OF secs(1) [unfolded app_token_selector_def] this token(1), where 'b = "string \<times> string"]
  from app_token_authenticates [OF this] have "authenticate_deploy S \<lparr>rq_Principal = None, rq_Authorization = ''Bearer '' @ tr_Token tr\<rparr> (projectNs prj) (prj_Name prj)
      appName (tr_Environment tr) s2 = (Inr (''token:'' @ (let name = lookup_str (Sec_Labels found) ''mortise.dev/token-name'' in if name = [] then Sec_Name found else name)) :: (string \<times> string) reply + string, s3)"
    using token app_token_is_no_project_token [of raw] by simp
  with prj show ?thesis by blast
qed

text \<open>The same for the token of a project: its name is found again before the random part, whatever characters it has.\<close>

lemma project_token_parsed:
  "pn \<noteq> [] \<Longrightarrow> before_last CHR ''_'' (trim_prefix (projectDeployTokenPrefix @ pn @ ''_'' @ hex_encode raw) projectDeployTokenPrefix) = Some pn"
  using before_last_append [of "CHR ''_''" "hex_encode raw" pn] by (simp add: hex_encode_plain)

definition project_token_selector :: "string gomap" where
  "project_token_selector = [(''mortise.dev/deploy-token'', ''true''), (''mortise.dev/project-token'', ''true'')]"

lemma CreateProjectToken_stores:
  assumes env: "deploys_env S ok may pv av sv" and rand: "\<And>p a b n. keeps (at ok pv av sv p a b) (rand n)" and "ok s"
  shows "wp (CreateProjectToken S rand rq pp body) (\<lambda>r s1. \<forall>st tr. r = Inr (Reply st tr) \<longrightarrow> ok s1 \<and> (\<exists>prj raw. pv s pp = Some prj \<and>
      tr_Token tr = projectDeployTokenPrefix @ prj_Name prj @ ''_'' @ hex_encode raw \<and>
      stores sv (projectNs prj) project_token_selector (token_hash S (tr_Token tr)) s1)) s"
    (is "wp _ ?Q s")
  unfolding CreateProjectToken_def
proof (rule wp_finds [where P = "at ok pv av sv (pv s) (av s) (sv s)", OF env_lookup(2) [OF env]], goal_cases)
  case (2 np s2)
  let ?P = "at ok pv av sv (pv s) (av s) (sv s)"
  obtain prj where prj: "pv s pp = Some prj" and np: "np = (projectNs prj, prj_Name prj)" using 2(2) by (cases np) auto
  have dec: "finds ?P (decoded body) (\<lambda>_. True)" by (rule finds_any) (simp add: decoded_def keeps_intros split: sum.split)
  show ?case
    unfolding np prod.case
  proof (rule wp_finds [where P = ?P, OF env_authorize [OF env] 2(1)], goal_cases)
    case (1 _ s3)
    show ?case
    proof (rule wp_finds [where P = ?P, OF dec 1(1)], goal_cases)
      case (1 description s4)
      show ?case
      proof (rule wp_finds [where P = ?P, OF random_hex_finds [OF rand] 1(1)], goal_cases)
        case (1 raw s5)
        obtain bytes where raw: "raw = hex_encode bytes" using 1(2) by blast
        show ?case
        proof (rule wp_finds [where P = ?P, OF random_hex_finds [OF rand] 1(1)], goal_cases)
          case (1 suffix s6)
          show ?case
            unfolding Let_def
          proof (rule wp_mono [OF token_stored [OF env 1(1), where ls = project_token_selector
                and hash = "token_hash S (projectDeployTokenPrefix @ prj_Name prj @ ''_'' @ raw)"]], goal_cases)
            case (3 r s4)
            with raw prj show ?case by fastforce
          qed (simp_all add: project_token_labels_def project_token_selector_def has_labels_def lookup_str_def)
        qed simp
      qed simp
    qed simp
  qed simp
qed (use assms(3) in simp_all)

lemma validateProjectDeployToken_finds:
  fixes S :: "'s server"
  assumes "r_List (sv_Secrets S) ns project_token_selector s = (Inr secs, s1)"
    and "matching project_token_hash (token_hash S token) secs = Some sec"
    and "token = projectDeployTokenPrefix @ pn @ ''_'' @ hex_encode raw" "pn \<noteq> []"
  shows "(validateProjectDeployToken S \<lparr>rq_Principal = None, rq_Authorization = ''Bearer '' @ token\<rparr> ns pn :: ('s, 'b reply, string option) act) s =
    (Inr (Some (Sec_Name sec)), s1)"
proof -
  have "bearer_of (''Bearer '' @ token) projectDeployTokenPrefix = Some token" unfolding assms(3) by (rule bearer_of_token)
  moreover have "before_last CHR ''_'' (trim_prefix token projectDeployTokenPrefix) = Some pn"
    unfolding assms(3) by (rule project_token_parsed [OF assms(4)])
  ultimately show ?thesis
    using assms(1) unfolding validateProjectDeployToken_def request.select_convs project_token_selector_def
    by (simp only: option.case outcome_def assms(2) prod.case sum.case give_def option.map if_False simp_thms)
qed

lemma project_token_authenticates:
  fixes S :: "'s server"
  assumes "(validateProjectDeployToken S \<lparr>rq_Principal = None, rq_Authorization = ''Bearer '' @ token\<rparr> ns pn :: ('s, 'b reply, string option) act) s
      = (Inr (Some name), s1)"
    and "has_prefix token deployTokenPrefix" "has_prefix token projectDeployTokenPrefix"
  shows "authenticate_deploy S \<lparr>rq_Principal = None, rq_Authorization = ''Bearer '' @ token\<rparr> ns pn appName env s =
    (Inr (''token:'' @ name) :: 'b reply + string, s1)"
  using assms
  by (simp only: authenticate_deploy_def authenticate_token_def Let_def trim_prefix_append request.select_convs if_False simp_thms)
     (simp only: andthen_def check_def give_def token_actor_def if_True if_False simp_thms prod.case sum.case option.case)

text \<open>
  The token of a project works for each of its applications and environments, the unnamed one included: when its creation was answered with
  201, its bearer is authenticated for every deploy in the project, as long as its Secret is stored, its hash is not empty and Secrets can be listed.
\<close>

theorem project_token_authenticates_all:
  assumes "deploys_env S ok may pv av sv" "\<And>p a b n. keeps (at ok pv av sv p a b) (rand n)" "ok s"
    and "CreateProjectToken S rand rq pp body s = (Inr (Reply st tr), s1)"
    and "ok s2" "sv s2 = sv s1" "\<And>ns ls e s3. r_List (sv_Secrets S) ns ls s2 \<noteq> (Inl e, s3)"
    and "\<And>p. pv s pp = Some p \<Longrightarrow> prj_Name p \<noteq> []" "\<And>t. sv_sha256 S t \<noteq> []"
  shows "\<exists>prj name s3. pv s pp = Some prj \<and>
    authenticate_deploy S \<lparr>rq_Principal = None, rq_Authorization = ''Bearer '' @ tr_Token tr\<rparr> (projectNs prj) (prj_Name prj) appName env s2 =
      (Inr (''token:'' @ name) :: (string \<times> string) reply + string, s3)"
proof -
  note env = assms(1)
  from wpD [OF CreateProjectToken_stores [OF env assms(2,3)] assms(4)]
  obtain prj raw where prj: "pv s pp = Some prj" and token: "tr_Token tr = projectDeployTokenPrefix @ prj_Name prj @ ''_'' @ hex_encode raw"
    and stored: "stores sv (projectNs prj) project_token_selector (token_hash S (tr_Token tr)) s1" by blast
  from stored obtain k sec where sec: "sv s2 k = Some sec" "Sec_Namespace sec = projectNs prj" "has_labels project_token_selector (Sec_Labels sec)"
    "lookup_str (Sec_Data sec) ''token-hash'' = token_hash S (tr_Token tr)" unfolding stores_def assms(6) by blast
  obtain secs s3 where secs: "r_List (sv_Secrets S) (projectNs prj) project_token_selector s2 = (Inr secs, s3)" "sec \<in> set secs"
    by (rule list_finds [OF env assms(5,7) sec(1-3)])
  have "token_hash S (tr_Token tr) \<noteq> []"
    using assms(9) [of "tr_Token tr"] unfolding token_hash_def by (cases "sv_sha256 S (tr_Token tr)") auto
  then have "project_token_hash sec = token_hash S (tr_Token tr)" using sec(4) by (simp add: project_token_hash_def Let_def)
  then obtain found where "matching project_token_hash (token_hash S (tr_Token tr)) secs = Some found"
    using find_some [of sec secs "\<lambda>sec. project_token_hash sec = token_hash S (tr_Token tr)"] secs(2) unfolding matching_def by blast
  note found = validateProjectDeployToken_finds [OF secs(1) this token assms(8) [OF prj], where 'b = "string \<times> string"]
  have pre: "has_prefix (tr_Token tr) deployTokenPrefix" "has_prefix (tr_Token tr) projectDeployTokenPrefix"
    unfolding token by (simp_all add: has_prefix_def projectDeployTokenPrefix_def deployTokenPrefix_def)
  from project_token_authenticates [OF found pre] prj show ?thesis by blast
qed

section \<open>Examples\<close>

definition mem_deploys :: "world server" where
  \<comment> \<open>the digest of a text is the text\<close>
  "mem_deploys = mem_server\<lparr>sv_sha256 := \<lambda>t. CHR ''#'' # t\<rparr>"

lemma mem_deploys_sel [simp]:
  "sv_Projects mem_deploys = mem_projects" "sv_Apps mem_deploys = mem_apps" "sv_Secrets mem_deploys = mem_secrets"
  "sv_Authorize mem_deploys = native_authorize mem_server" "sv_Activity mem_deploys = (\<lambda>e w. w\<lparr>w_Log := w_Log w @ [e]\<rparr>)"
  "sv_sha256 mem_deploys = (\<lambda>t. CHR ''#'' # t)"
  by (simp_all add: mem_deploys_def)

definition mem_deploys_ok :: "world \<Rightarrow> bool" where
  "mem_deploys_ok w \<longleftrightarrow> mem_keyed project_kind (w_Projects w) \<and> mem_keyed app_kind (w_Apps w) \<and> mem_keyed secret_kind (w_Secrets w)"

lemma mem_deploys_env:
  "deploys_env mem_deploys mem_deploys_ok (\<lambda>_ _ _. True) (\<lambda>w. map_of (w_Projects w)) (\<lambda>w. map_of (w_Apps w)) (\<lambda>w. map_of (w_Secrets w))"
proof -
  let ?pv = "\<lambda>w. map_of (w_Projects w)" and ?av = "\<lambda>w. map_of (w_Apps w)" and ?sv = "\<lambda>w. map_of (w_Secrets w)"
  let ?kp = "\<lambda>w. mem_keyed project_kind (w_Projects w)" and ?ka = "\<lambda>w. mem_keyed app_kind (w_Apps w)" and ?ks = "\<lambda>w. mem_keyed secret_kind (w_Secrets w)"
  have "leaves mem_projects (\<lambda>w. ?ka w \<and> ?ks w \<and> ?av w = a \<and> ?sv w = b)" "leaves mem_apps (\<lambda>w. ?kp w \<and> ?ks w \<and> ?pv w = p \<and> ?sv w = b)"
    "leaves mem_secrets (\<lambda>w. ?kp w \<and> ?ka w \<and> ?pv w = p \<and> ?av w = a)" for p a b
    unfolding mem_projects_def mem_apps_def mem_secrets_def by (rule mem_resource_leaves, simp)+
  note q = quiet_and [OF mem_world_quiet(1) this(1)] quiet_and [OF mem_world_quiet(3) this(2)] quiet_and [OF mem_world_quiet(4) this(3)]
  have 1: "quiet project_kind mem_projects (\<lambda>w. mem_deploys_ok w \<and> ?av w = a \<and> ?sv w = b) ?pv" for a b
    using q(1) unfolding mem_deploys_ok_def conj_assoc .
  have 2: "quiet app_kind mem_apps (\<lambda>w. mem_deploys_ok w \<and> ?pv w = p \<and> ?sv w = b) ?av" for p b
    using q(2) unfolding mem_deploys_ok_def conj_assoc by (simp only: conj_left_commute conj_assoc)
  have 3: "quiet secret_kind mem_secrets (\<lambda>w. mem_deploys_ok w \<and> ?pv w = p \<and> ?av w = a) ?sv" for p a
    using q(3) unfolding mem_deploys_ok_def by (simp only: conj_left_commute conj_assoc)
  have 4: "finds P (native_authorize mem_server pr res act) (\<lambda>_. True)" for P pr res act
    by (rule finds_any) (simp add: keeps_def native_authorize_def)
  show ?thesis
    unfolding deploys_env_def using 1 2 3 4 by (simp add: Let_def mem_deploys_ok_def)
qed

definition ex_deploy_world :: world where
  "ex_deploy_world = empty_world\<lparr>w_Projects := [(''web'', new_Project ''web'' [] [] [fresh_env ''production'' 0])],
     w_Apps := [((''pj-web'', ''api''), ex_app ''api'' ''acme/api'' [])],
     w_Secrets := [((''pj-web'', ''deploy-token-api-ci''), token_secret ''pj-web'' ''deploy-token-api-ci'' (app_token_labels ''api'' ''production'' ''ci'')
        [(''token-hash'', token_hash mem_deploys ''mrt_ab'')])]\<rparr>"

definition ex_bearer :: "string \<Rightarrow> request" where
  "ex_bearer token = \<lparr>rq_Principal = None, rq_Authorization = ''Bearer '' @ token\<rparr>"

definition ex_deployed :: world where
  "ex_deployed = snd (Deploy mem_deploys mem_retry (ex_bearer ''mrt_ab'') ''web'' ''api''
     (Inr \<lparr>dq_Environment = ''production'', dq_Image = ''acme/api:2''\<rparr>) ex_deploy_world)"

lemma ex_deploy_ok: "mem_deploys_ok ex_deploy_world"
  by (simp add: mem_deploys_ok_def ex_deploy_world_def mem_keyed_def empty_world_def project_kind_def app_kind_def secret_kind_def sec_key_def
      new_Project_def token_secret_def ex_app_def)

lemma ex_deployed_image:
  "map_option (\<lambda>app. map env_Image (spec_Environments (app_Spec app))) (map_of (w_Apps ex_deploy_world) (''pj-web'', ''api'')) \<noteq>
   map_option (\<lambda>app. map env_Image (spec_Environments (app_Spec app))) (map_of (w_Apps ex_deployed) (''pj-web'', ''api''))"
  by code_simp

theorem deploy_needs_credential_witness:
  "\<exists>prj cur new. map_of (w_Projects ex_deploy_world) ''web'' = Some prj \<and>
     may_deploy mem_deploys (\<lambda>_ _ _. True) (ex_bearer ''mrt_ab'') prj (map_of (w_Secrets ex_deploy_world)) ''api'' ''production'' cur \<and>
     kd_same app_kind (set_image ''production'' ''acme/api:2'' cur) new \<and>
     map_of (w_Apps ex_deployed) = (map_of (w_Apps ex_deploy_world))((projectNs prj, ''api'') \<mapsto> new)"
proof -
  have "map_of (w_Apps ex_deployed) \<noteq> map_of (w_Apps ex_deploy_world)" using ex_deployed_image by metis
  then show ?thesis
    using deploy_needs_credential [OF mem_deploys_env mem_retries ex_deploy_ok refl, of "ex_bearer ''mrt_ab''" "''web''" "''api''"
        "Inr \<lparr>dq_Environment = ''production'', dq_Image = ''acme/api:2''\<rparr>"
        "fst (Deploy mem_deploys mem_retry (ex_bearer ''mrt_ab'') ''web'' ''api'' (Inr \<lparr>dq_Environment = ''production'', dq_Image = ''acme/api:2''\<rparr>) ex_deploy_world)" ex_deployed]
    by (auto simp: ex_deployed_def)
qed

definition ex_run_status :: "string \<Rightarrow> string \<Rightarrow> EnvironmentStatus" where
  "ex_run_status env img = \<lparr>es_Name = env, es_JoinedAt = None, es_Phase = AppPhaseReady, es_Message = [], es_ReadyReplicas = 1,
     es_CurrentImage = img, es_CurrentDigest = [], es_DeployHistory = [], es_Domain = [], es_AutoDomain = [],
     es_LastProcessedRestartedAt = [], es_LastBuiltSHA = [], es_LastBuiltImage = [], es_CurrentBuildRunRef = None,
     es_LastSuccessfulBuildRunRef = None, es_PendingEnvHash = [], es_DeployedEnvHash = [], es_UnresolvedEnvKeys = [],
     es_OverriddenEnvKeys = [], es_RetainedEnvKeys = [], es_CertificateStatus = [], es_CertificateMessage = []\<rparr>"

definition ex_staged_app :: App where
  "ex_staged_app = (let app = ex_app ''api'' ''acme/api'' [] in app\<lparr>
     app_Spec := app_Spec app\<lparr>spec_Environments := [new_Environment ''production'']\<rparr>,
     app_Status := app_Status app\<lparr>st_Environments := [ex_run_status ''staging'' ''acme/api:2'']\<rparr>\<rparr>)"

definition ex_promote_world :: world where
  "ex_promote_world = ex_deploy_world\<lparr>w_Apps := [((''pj-web'', ''api''), ex_staged_app)]\<rparr>"

definition ex_admin_request :: request where
  "ex_admin_request = \<lparr>rq_Principal = Some \<lparr>p_ID = ''a'', p_Email = ''a'', p_Role = RoleAdmin, p_PasswordGen = 0\<rparr>, rq_Authorization = []\<rparr>"

definition ex_promoted :: world where
  "ex_promoted = snd (Promote mem_deploys mem_retry ex_admin_request ''web'' ''api'' (Inr (''staging'', ''production'')) ex_promote_world)"

lemma ex_promote_ok: "mem_deploys_ok ex_promote_world"
  by (simp add: mem_deploys_ok_def ex_promote_world_def ex_deploy_world_def mem_keyed_def empty_world_def project_kind_def app_kind_def
      secret_kind_def sec_key_def new_Project_def token_secret_def ex_staged_app_def ex_app_def Let_def)

lemma ex_promoted_image:
  "map_option (\<lambda>app. map env_Image (spec_Environments (app_Spec app))) (map_of (w_Apps ex_promote_world) (''pj-web'', ''api'')) = Some [[]]"
  "map_option (\<lambda>app. map env_Image (spec_Environments (app_Spec app))) (map_of (w_Apps ex_promoted) (''pj-web'', ''api'')) = Some [''acme/api:2'']"
  by code_simp+


definition ex_created :: "(tokenResponse reply + tokenResponse reply) \<times> world" where
  "ex_created = CreateToken mem_deploys (\<lambda>n. give (replicate n CHR ''k'')) ex_admin_request ''web'' ''api''
     (Inr \<lparr>ctr_Environment = ''production'', ctr_Name = ''cd''\<rparr>) ex_deploy_world"

definition ex_app_token :: string where "ex_app_token = ''mrt_'' @ hex_encode (replicate 32 CHR ''k'')"

lemma ex_created_reply: "fst ex_created = Inr (Reply 201 \<lparr>tr_Token = ex_app_token, tr_Name = ''cd'', tr_Environment = ''production''\<rparr>)"
  by code_simp

lemma mem_lists: "r_List mem_secrets ns ls w \<noteq> (Inl e, w1)"
  by (simp add: mem_secrets_def mem_resource_def)

lemma mem_deploys_ok_create:
  assumes "mem_deploys_ok s" "CreateToken mem_deploys rand rq pp app body s = (r, s1)" "\<And>p a b n.
    keeps (at mem_deploys_ok (\<lambda>w. map_of (w_Projects w)) (\<lambda>w. map_of (w_Apps w)) (\<lambda>w. map_of (w_Secrets w)) p a b) (rand n)" "r = Inr (Reply st tr)"
  shows "mem_deploys_ok s1"
  using wpD [OF CreateToken_stores [OF mem_deploys_env assms(3,1)] assms(2)] assms(4) by blast

theorem created_token_authenticates_witness:
  "\<exists>prj name s3. map_of (w_Projects ex_deploy_world) ''web'' = Some prj \<and>
    authenticate_deploy mem_deploys \<lparr>rq_Principal = None, rq_Authorization = ''Bearer '' @ ex_app_token\<rparr> (projectNs prj) (prj_Name prj) ''api''
      ''production'' (snd ex_created) = (Inr (''token:'' @ name) :: (string \<times> string) reply + string, s3)"
proof -
  have run: "CreateToken mem_deploys (\<lambda>n. give (replicate n CHR ''k'')) ex_admin_request ''web'' ''api''
     (Inr \<lparr>ctr_Environment = ''production'', ctr_Name = ''cd''\<rparr>) ex_deploy_world =
     (Inr (Reply 201 \<lparr>tr_Token = ex_app_token, tr_Name = ''cd'', tr_Environment = ''production''\<rparr>), snd ex_created)"
    using ex_created_reply by (simp add: ex_created_def prod_eq_iff)
  have "mem_deploys_ok (snd ex_created)" by (rule mem_deploys_ok_create [OF ex_deploy_ok run]) (simp_all add: keeps_plain)
  from created_token_authenticates [OF mem_deploys_env _ ex_deploy_ok run this refl] show ?thesis
    by (simp add: keeps_plain mem_lists)
qed

definition ex_project_created :: "(tokenResponse reply + tokenResponse reply) \<times> world" where
  "ex_project_created = CreateProjectToken mem_deploys (\<lambda>n. give (replicate n CHR ''k'')) ex_admin_request ''web'' (Inr ''ci'') ex_deploy_world"

definition ex_project_token :: string where "ex_project_token = ''mrt_pj_web_'' @ hex_encode (replicate 32 CHR ''k'')"

lemma ex_project_created_reply:
  "fst ex_project_created = Inr (Reply 201 \<lparr>tr_Token = ex_project_token, tr_Name = ''deploy-token-pj-6b6b6b6b'', tr_Environment = []\<rparr>)"
  by code_simp

theorem project_token_authenticates_all_witness:
  "\<exists>prj name s3. map_of (w_Projects ex_deploy_world) ''web'' = Some prj \<and>
    authenticate_deploy mem_deploys \<lparr>rq_Principal = None, rq_Authorization = ''Bearer '' @ ex_project_token\<rparr> (projectNs prj) (prj_Name prj) ''api''
      [] (snd ex_project_created) = (Inr (''token:'' @ name) :: (string \<times> string) reply + string, s3)"
proof -
  have run: "CreateProjectToken mem_deploys (\<lambda>n. give (replicate n CHR ''k'')) ex_admin_request ''web'' (Inr ''ci'') ex_deploy_world =
     (Inr (Reply 201 \<lparr>tr_Token = ex_project_token, tr_Name = ''deploy-token-pj-6b6b6b6b'', tr_Environment = []\<rparr>), snd ex_project_created)"
    using ex_project_created_reply by (simp add: ex_project_created_def prod_eq_iff)
  have rand: "keeps P (give (replicate n CHR ''k''))" for P :: "world \<Rightarrow> bool" and n by (rule keeps_plain)
  have "mem_deploys_ok (snd ex_project_created)"
    using wpD [OF CreateProjectToken_stores [OF mem_deploys_env rand ex_deploy_ok] run] by blast
  moreover have "prj_Name p \<noteq> []" if "map_of (w_Projects ex_deploy_world) ''web'' = Some p" for p
    using that by (auto simp: ex_deploy_world_def new_Project_def)
  ultimately show ?thesis
    using project_token_authenticates_all [OF mem_deploys_env rand ex_deploy_ok run _ refl] by (simp add: mem_lists)
qed

text \<open>
  The name of the Secret joins the names of application and token with a hyphen, and \<open>DeleteToken\<close> looks at the name and at the label of all
  deploy tokens only: revoking the token \<open>b-c\<close> of an application \<open>a\<close> takes the token \<open>c\<close> of the application \<open>a-b\<close>.
\<close>

lemma token_names_ambiguous: "tokenSecretName ''a'' ''b-c'' = tokenSecretName ''a-b'' ''c''"
  by (simp add: tokenSecretName_def)

definition ex_ambiguous_world :: world where
  "ex_ambiguous_world = ex_deploy_world\<lparr>w_Secrets := [((''pj-web'', ''deploy-token-a-b-c''), token_secret ''pj-web'' ''deploy-token-a-b-c''
     (app_token_labels ''a-b'' ''production'' ''c'') [(''token-hash'', ''x'')])]\<rparr>"

lemma foreign_token_revoked:
  "fst (DeleteToken mem_deploys ex_admin_request ''web'' ''a'' ''b-c'' ex_ambiguous_world) = Inr (Reply 200 ())"
  "w_Secrets (snd (DeleteToken mem_deploys ex_admin_request ''web'' ''a'' ''b-c'' ex_ambiguous_world)) = []"
  by code_simp+

end
