(* ===== verification/AppEnvs.thy ===== *)
theory AppEnvs
  imports ProjectEnvs Deploys
begin

text \<open>
  The environment variables of an application over HTTP (\<open>internal/api/env.go\<close>, \<open>env_delta.go\<close>, the query helpers of
  \<open>secrets.go\<close>): reading them, replacing them (PUT), patching them, importing a \<open>.env\<close> file, and the variables a project
  shares. The Secret is written by \<open>envstore.Apply\<close>; the callbacks that compute its new contents are pure functions here.

  A variable is the user's, or it is managed: its source is a binding, a generator or the like, or the application's
  specification declares it from a binding or a Secret. Only the user's may be edited.
\<close>

section \<open>Definitions\<close>

record envVarResponse =
  evr_Name :: string
  evr_Value :: string
  evr_Source :: string
  evr_Redacted :: bool
  evr_BindingRef :: string
  evr_BindingKey :: string
  evr_SecretRef :: string

definition queryEnv :: "string \<Rightarrow> string \<Rightarrow> string" where
  \<comment> \<open>of the query parameters \<open>env\<close> and \<open>environment\<close>\<close>
  "queryEnv env environment = (if env \<noteq> [] then env else environment)"

definition envFromQuery :: "string \<Rightarrow> string \<Rightarrow> string" where
  "envFromQuery env environment = (if queryEnv env environment \<noteq> [] then queryEnv env environment else ''production'')"

definition canAuthorize :: "'s server \<Rightarrow> request \<Rightarrow> Resource \<Rightarrow> Action \<Rightarrow> ('s, kerr, bool) act" where
  "canAuthorize S rq res act = (case rq_Principal rq of None \<Rightarrow> give False | Some p \<Rightarrow> sv_Authorize S p res act)"

definition resolveDefaultedAppEnv :: "'s server \<Rightarrow> string \<Rightarrow> string \<Rightarrow> string \<Rightarrow> ('s, 'b reply, App) act" where
  \<comment> \<open>\<open>env\<close> is \<open>envFromQuery(r)\<close>\<close>
  "resolveDefaultedAppEnv S projectParam appName env =
     andthen (lookupProject S projectParam) (\<lambda>project.
     andthen (declares_or_400 project env) (\<lambda>_.
     andthen (on_err Fault (r_Get (sv_Apps S) (projectNs project, appName))) (\<lambda>app.
     andthen (check (appParticipatesInEnv app env)
       (ErrorReply 404 (''environment '' @ quoted env @ '' is disabled for app '' @ quoted appName))) (\<lambda>_.
       give app))))"

subsection \<open>Declared variables\<close>

definition env_spec_vars :: "App \<Rightarrow> string \<Rightarrow> EnvVar list" where
  \<comment> \<open>of the first environment of the specification with the name\<close>
  "env_spec_vars app envName =
     (case find (\<lambda>env. env_Name env = envName) (spec_Environments (app_Spec app)) of None \<Rightarrow> [] | Some env \<Rightarrow> env_Env env)"

fun declared_source :: "EnvVar \<Rightarrow> (string \<times> string) list" where
  "declared_source ev = (case ev_ValueFrom ev of
       None \<Rightarrow> []
     | Some src \<Rightarrow> if evs_FromBinding src \<noteq> None then [(ev_Name ev, ''binding'')]
         else if evs_SecretRef src \<noteq> [] then [(ev_Name ev, ''secret reference'')] else [])"

definition declarativeEnvSources :: "App \<Rightarrow> string \<Rightarrow> string gomap" where
  "declarativeEnvSources app envName = put_all (concat (map declared_source (env_spec_vars app envName))) []"

definition fromBindingSpecs :: "EnvVar list \<Rightarrow> BindingVarSource gomap" where
  "fromBindingSpecs vars = put_all (concat (map (\<lambda>ev. case ev_ValueFrom ev of None \<Rightarrow> []
     | Some src \<Rightarrow> (case evs_FromBinding src of None \<Rightarrow> [] | Some fb \<Rightarrow> [(ev_Name ev, fb)])) vars)) []"

definition secretRefSpecs :: "EnvVar list \<Rightarrow> string gomap" where
  "secretRefSpecs vars = put_all (concat (map (\<lambda>ev. case ev_ValueFrom ev of None \<Rightarrow> []
     | Some src \<Rightarrow> if evs_SecretRef src \<noteq> [] then [(ev_Name ev, evs_SecretRef src)] else []) vars)) []"

subsection \<open>Reading\<close>

definition envResponseVar :: "Env \<Rightarrow> bool \<Rightarrow> envVarResponse" where
  "envResponseVar e plaintext =
     \<lparr>evr_Name = Env_Name e, evr_Value = (if plaintext then Env_Value e else []), evr_Source = Env_Source e,
      evr_Redacted = (\<not> plaintext), evr_BindingRef = [], evr_BindingKey = [], evr_SecretRef = []\<rparr>"

definition enrich :: "EnvVar list \<Rightarrow> envVarResponse \<Rightarrow> envVarResponse" where
  \<comment> \<open>the body of the last loop of \<open>GetEnv\<close>\<close>
  "enrich spec ev =
     (let ev1 = (case map_of (fromBindingSpecs spec) (evr_Name ev) of
                   None \<Rightarrow> ev | Some fb \<Rightarrow> ev\<lparr>evr_BindingRef := bvs_Ref fb, evr_BindingKey := bvs_Key fb\<rparr>)
      in case map_of (secretRefSpecs spec) (evr_Name ev) of None \<Rightarrow> ev1 | Some r \<Rightarrow> ev1\<lparr>evr_SecretRef := r\<rparr>)"

definition control_project :: "App \<Rightarrow> ('s, 'b reply, string) act" where
  \<comment> \<open>the project of the application, from its namespace\<close>
  "control_project app = (case ProjectFromControlNs (app_Namespace app) of (p, ok) \<Rightarrow>
     if ok then give p
     else stop (ErrorReply 500 (''app '' @ quoted (app_Name app) @ '' not in a control namespace ('' @ quoted (app_Namespace app) @ '')'')))"

definition envNamespace :: "App \<Rightarrow> string \<Rightarrow> ('s, 'b reply, string) act" where
  "envNamespace app envName = andthen (control_project app) (\<lambda>p. give (EnvNamespace p envName))"

definition may_see_plaintext :: "'s server \<Rightarrow> request \<Rightarrow> string \<Rightarrow> string \<Rightarrow> ('s, 'b reply, bool) act" where
  "may_see_plaintext S rq projectName env =
     on_err (\<lambda>_. ErrorReply 500 ''authorization check failed'') (canAuthorize S rq (on_env ''app'' [] projectName env) ActionUpdate)"

definition GetEnv :: "'s server \<Rightarrow> request \<Rightarrow> string \<Rightarrow> string \<Rightarrow> string \<Rightarrow> ('s, envVarResponse list) handler" where
  "GetEnv S rq projectName appName env =
     andthen (authorize S rq (on_env ''app'' [] projectName []) ActionRead) (\<lambda>_.
     andthen (resolveAppEnv S projectName appName env) (\<lambda>app.
     andthen (envNamespace app env) (\<lambda>envNs.
     andthen (on_err Fault (store_Get (client_of (sv_Secrets S)) envNs (app_Name app))) (\<lambda>envs.
     andthen (may_see_plaintext S rq projectName env) (\<lambda>plaintext.
       give (Reply 200 (map (\<lambda>e. enrich (env_spec_vars app env) (envResponseVar e plaintext)) envs)))))))"

subsection \<open>Editing a list of variables\<close>

definition managed :: "string \<Rightarrow> bool" where
  "managed source \<longleftrightarrow> source \<noteq> [] \<and> source \<noteq> ''user''"

definition conflict_error :: "string \<Rightarrow> string \<Rightarrow> string \<Rightarrow> string \<Rightarrow> gerr" where
  \<comment> \<open>an \<open>envConflictError\<close>\<close>
  "conflict_error verb name source past =
     Msg (''cannot '' @ verb @ '' '' @ quoted name @ '': managed by '' @ source @ '' (only user-set vars can be '' @ past @ '')'')"

fun writeEnvStoreError :: "gerr \<Rightarrow> 'b reply" where
  \<comment> \<open>\<open>errors.As\<close> finds an \<open>envConflictError\<close>: no other error of the store begins that way\<close>
  "writeEnvStoreError (Msg m) = (if has_prefix m ''cannot '' then ErrorReply 409 m else fault (Msg m))"
| "writeEnvStoreError e = fault e"

datatype verdict = Editable | Unchanged | Managed string

definition verdict :: "string gomap \<Rightarrow> (string \<rightharpoonup> Env) \<Rightarrow> string \<Rightarrow> string \<Rightarrow> verdict" where
  \<comment> \<open>the body of the loop that guards managed variables, the same in \<open>PutEnv\<close> and \<open>PatchEnv\<close>\<close>
  "verdict declared existing name value =
     (case map_of declared name of
        Some source \<Rightarrow>
          (case existing name of
             Some cur \<Rightarrow> if Env_Value cur = value then Unchanged else Managed source
           | None \<Rightarrow> Managed source)
      | None \<Rightarrow>
          (case existing name of
             Some cur \<Rightarrow>
               if managed (Env_Source cur) then if Env_Value cur = value then Unchanged else Managed (Env_Source cur)
               else Editable
           | None \<Rightarrow> Editable))"

fun tolerated_vars :: "string gomap \<Rightarrow> (string \<rightharpoonup> Env) \<Rightarrow> (string \<times> string) list \<Rightarrow> gerr + string list" where
  "tolerated_vars declared existing [] = Inr []"
| "tolerated_vars declared existing ((k, v) # vars) =
     (case verdict declared existing k v of
        Managed source \<Rightarrow> Inl (conflict_error ''overwrite'' k source ''modified'')
      | Unchanged \<Rightarrow> map_sum id ((#) k) (tolerated_vars declared existing vars)
      | Editable \<Rightarrow> tolerated_vars declared existing vars)"

definition vars_by_name :: "Env list \<Rightarrow> string \<rightharpoonup> Env" where
  \<comment> \<open>the maps \<open>existingSource\<close> and \<open>existingValue\<close>\<close>
  "vars_by_name vars = map_of (put_all (map (\<lambda>e. (Env_Name e, e)) vars) [])"

definition user_var :: "string \<times> string \<Rightarrow> Env" where
  "user_var kv = \<lparr>Env_Name = fst kv, Env_Value = snd kv, Env_Source = ''user''\<rparr>"

definition put_vars :: "string gomap \<Rightarrow> (string \<times> string) list \<Rightarrow> Env list \<Rightarrow> gerr + Env list" where
  \<comment> \<open>the callback of \<open>PutEnv\<close>, on the names and values of the request\<close>
  "put_vars declared vars existing =
     map_sum id (\<lambda>tolerated.
         filter (\<lambda>e. managed (Env_Source e) \<or> lookup_str declared (Env_Name e) \<noteq> []) existing @
         map user_var (filter (\<lambda>(k, _). k \<notin> set tolerated) vars))
       (tolerated_vars declared (vars_by_name existing) vars)"

definition put_delta :: "string gomap \<Rightarrow> (string \<times> string) list \<Rightarrow> Env list \<Rightarrow> string list \<times> string list" where
  \<comment> \<open>\<open>addedKeys\<close> and \<open>removedKeys\<close>\<close>
  "put_delta declared vars existing =
     (filter (\<lambda>k. k \<notin> Env_Name ` set existing) (map fst vars),
      map Env_Name (filter (\<lambda>e. \<not> managed (Env_Source e) \<and> lookup_str declared (Env_Name e) = [] \<and> Env_Name e \<notin> fst ` set vars) existing))"

definition check_unset :: "string gomap \<Rightarrow> string list \<Rightarrow> Env list \<Rightarrow> gerr option" where
  "check_unset declared unset existing =
     (case find (\<lambda>k. map_of declared k \<noteq> None) unset of
        Some k \<Rightarrow> Some (conflict_error ''unset'' k (lookup_str declared k) ''removed'')
      | None \<Rightarrow>
          map_option (\<lambda>e. conflict_error ''unset'' (Env_Name e) (Env_Source e) ''removed'')
            (find (\<lambda>e. Env_Name e \<in> set unset \<and> managed (Env_Source e)) existing))"

definition set_var :: "string \<times> string \<Rightarrow> Env list \<Rightarrow> Env list" where
  "set_var kv vars =
     (case position (\<lambda>e. Env_Name e = fst kv) vars of
        Some i \<Rightarrow> vars[i := (vars ! i)\<lparr>Env_Value := snd kv, Env_Source := ''user''\<rparr>]
      | None \<Rightarrow> vars @ [user_var kv])"

definition patch_vars :: "string gomap \<Rightarrow> string gomap \<Rightarrow> string list \<Rightarrow> Env list \<Rightarrow> gerr + Env list" where
  \<comment> \<open>the callback of \<open>PatchEnv\<close>\<close>
  "patch_vars declared sets unset existing =
     (case check_unset declared unset existing of
        Some e \<Rightarrow> Inl e
      | None \<Rightarrow>
          (let result = filter (\<lambda>e. Env_Name e \<notin> set unset) existing
           in map_sum id (\<lambda>tolerated. fold set_var (filter (\<lambda>(k, _). k \<notin> set tolerated) (entries sets)) result)
                (tolerated_vars declared (vars_by_name result) (entries sets))))"

definition envKeyDelta :: "string list \<Rightarrow> string list \<Rightarrow> string" where
  "envKeyDelta added removed =
     (if added = [] \<and> removed = [] then []
      else '' ('' @ join ((if added \<noteq> [] then [''added: '' @ join (sort added) '', ''] else []) @
             (if removed \<noteq> [] then [''removed: '' @ join (sort removed) '', ''] else [])) ''; '' @ '')'')"

subsection \<open>Writing\<close>

definition track :: "(Env list \<Rightarrow> 'v) \<Rightarrow> 's client \<Rightarrow> ('s \<times> 'v) client" where
  \<comment> \<open>the client, with a variable the callback assigns to on every attempt\<close>
  "track f C = \<lparr>
     kGet = (\<lambda>(s, v) k. case kGet C s k of
         (Inl e, s1) \<Rightarrow> (Inl e, s1, if e = NotFound then f [] else v) | (Inr sec, s1) \<Rightarrow> (Inr sec, s1, f (secretToEnvs sec))),
     kCreate = (\<lambda>(s, v) ob. case kCreate C s ob of (r, s1) \<Rightarrow> (r, s1, v)),
     kUpdate = (\<lambda>(s, v) ob. case kUpdate C s ob of (r, s1) \<Rightarrow> (r, s1, v))\<rparr>"

definition apply_vars ::
  "'s server \<Rightarrow> (('s \<times> 'v) call \<Rightarrow> ('s \<times> 'v) call) \<Rightarrow> string \<Rightarrow> string \<Rightarrow> string gomap \<Rightarrow> 'v \<Rightarrow> (Env list \<Rightarrow> 'v) \<Rightarrow>
   (Env list \<Rightarrow> gerr + Env list) \<Rightarrow> ('s, gerr, 'v) act" where
  \<comment> \<open>\<open>store.Apply\<close>; the value is that of the variable after the last attempt\<close>
  "apply_vars S retry ns appName labels v f mutate s =
     (case store_Apply (track f (client_of (sv_Secrets S))) retry ns appName labels mutate (s, v) of
        (Some e, s1, _) \<Rightarrow> (Inl e, s1) | (None, s1, v1) \<Rightarrow> (Inr v1, s1))"

definition app_env_labels :: "string \<Rightarrow> string \<Rightarrow> string \<Rightarrow> string gomap" where
  "app_env_labels project env appName = [(ProjectLabel, project), (EnvironmentLabel, env), (AppNameLabel, appName)]"

definition edit_target ::
  "'s server \<Rightarrow> request \<Rightarrow> string \<Rightarrow> string \<Rightarrow> string \<Rightarrow> ('s, 'b reply, 'q) act \<Rightarrow> ('s, 'b reply, App \<times> string \<times> 'q) act" where
  \<comment> \<open>how the handlers that edit variables begin; \<open>decode\<close> reads the body\<close>
  "edit_target S rq projectName appName env decode =
     andthen (authorize S rq (on_env ''app'' [] projectName env) ActionUpdate) (\<lambda>_.
     andthen (resolveAppEnv S projectName appName env) (\<lambda>app.
     andthen decode (\<lambda>req.
     andthen (control_project app) (\<lambda>project.
       give (app, project, req)))))"

definition edit_done :: "'s server \<Rightarrow> request \<Rightarrow> App \<Rightarrow> string \<Rightarrow> string \<Rightarrow> ('s, 'b reply, unit) act" where
  \<comment> \<open>and how they end\<close>
  "edit_done S rq app project msg =
     andthen (on_err fault (pokeAppForReconcile S app)) (\<lambda>_.
       recordActivity S rq project ''update'' ''app'' (app_Name app) msg [])"

definition PutEnv ::
  "'s server \<Rightarrow> (('s \<times> string list \<times> string list) call \<Rightarrow> ('s \<times> string list \<times> string list) call) \<Rightarrow> request \<Rightarrow>
   string \<Rightarrow> string \<Rightarrow> string \<Rightarrow> string + envVarResponse list \<Rightarrow> ('s, string) handler" where
  "PutEnv S retry rq projectName appName env body =
     andthen (edit_target S rq projectName appName env (decoded body)) (\<lambda>(app, project, req).
     let vars = map (\<lambda>v. (evr_Name v, evr_Value v)) req; declared = declarativeEnvSources app env
     in andthen (on_err writeEnvStoreError (apply_vars S retry (EnvNamespace project env) (app_Name app)
          (app_env_labels project env (app_Name app)) ([], []) (put_delta declared vars) (put_vars declared vars))) (\<lambda>(added, removed).
        andthen (edit_done S rq app project (''Updated env vars for '' @ app_Name app @ '' in '' @ env @ envKeyDelta added removed)) (\<lambda>_.
          give (Reply 200 ''updated''))))"

definition PatchEnv ::
  "'s server \<Rightarrow> (('s \<times> unit) call \<Rightarrow> ('s \<times> unit) call) \<Rightarrow> request \<Rightarrow> string \<Rightarrow> string \<Rightarrow> string \<Rightarrow>
   string + string gomap \<times> string list \<Rightarrow> ('s, string) handler" where
  \<comment> \<open>the body holds the variables to set and the names to unset\<close>
  "PatchEnv S retry rq projectName appName env body =
     andthen (edit_target S rq projectName appName env (decoded body)) (\<lambda>(app, project, sets, unset).
     andthen (on_err writeEnvStoreError (apply_vars S retry (EnvNamespace project env) (app_Name app)
       (app_env_labels project env (app_Name app)) () (\<lambda>_. ()) (patch_vars (declarativeEnvSources app env) sets unset))) (\<lambda>_.
     andthen (edit_done S rq app project (''Patched env vars for '' @ app_Name app @ '' in '' @ env)) (\<lambda>_.
       give (Reply 200 ''updated''))))"

subsection \<open>Importing\<close>

definition maxScanLine :: nat where
  \<comment> \<open>the longest line \<open>bufio.Scanner\<close> returns: \<open>MaxScanTokenSize\<close> less the byte that shows the line ends\<close>
  "maxScanLine = 65535"

definition scan_lines :: "string \<Rightarrow> string list" where
  \<comment> \<open>\<open>bufio.Scanner\<close>: without the line end, up to the first line that is too long\<close>
  "scan_lines content =
     map (\<lambda>l. if l \<noteq> [] \<and> List.last l = CHR 0x0D then butlast l else l)
       (takeWhile (\<lambda>l. length l \<le> maxScanLine) (split_on CHR 0x0A content))"

definition unquote :: "string \<Rightarrow> string" where
  "unquote val =
     (if length val \<ge> 2 \<and> (hd val = CHR 0x22 \<and> List.last val = CHR 0x22 \<or> hd val = CHR 0x27 \<and> List.last val = CHR 0x27)
      then butlast (tl val) else val)"

definition dotenv_line :: "string \<Rightarrow> (string \<times> string) list" where
  "dotenv_line raw =
     (let line = trim_space raw
      in if line = [] \<or> has_prefix line ''#'' then []
         else case position (\<lambda>c. c = CHR ''='') line of
                None \<Rightarrow> []
              | Some idx \<Rightarrow> if idx < 1 then [] else [(trim_space (take idx line), unquote (trim_space (drop (Suc idx) line)))])"

definition parseDotEnv :: "string \<Rightarrow> string gomap" where
  "parseDotEnv content = put_all (concat (map dotenv_line (scan_lines content))) []"

definition ImportEnv ::
  "'s server \<Rightarrow> ('s call \<Rightarrow> 's call) \<Rightarrow> request \<Rightarrow> string \<Rightarrow> string \<Rightarrow> string \<Rightarrow> string option \<Rightarrow> ('s, string) handler" where
  \<comment> \<open>the body is \<open>None\<close> when it cannot be read; the reply is the number of variables\<close>
  "ImportEnv S retry rq projectName appName env body =
     andthen (edit_target S rq projectName appName env
       (case body of None \<Rightarrow> stop (ErrorReply 400 ''failed to read body'') | Some content \<Rightarrow> give (parseDotEnv content))) (\<lambda>(app, project, parsed).
     andthen (on_err fault (of_call (store_Merge (client_of (sv_Secrets S)) retry (EnvNamespace project env) (app_Name app)
       (map user_var parsed) (app_env_labels project env (app_Name app))))) (\<lambda>_.
     andthen (edit_done S rq app project (''Imported env vars for '' @ app_Name app @ '' in '' @ env)) (\<lambda>_.
       give (Reply 200 (show_nat (length parsed))))))"

subsection \<open>Shared variables\<close>

definition GetSharedVars :: "'s server \<Rightarrow> request \<Rightarrow> string \<Rightarrow> ('s, envVarResponse list) handler" where
  "GetSharedVars S rq projectName =
     andthen (authorize S rq (on_env ''app'' [] projectName []) ActionRead) (\<lambda>_.
     andthen (lookupProject S projectName) (\<lambda>project.
     andthen (on_err Fault (store_GetSharedSource (client_of (sv_Secrets S)) (ControlNamespace (prj_Name project)))) (\<lambda>envs.
     andthen (may_see_plaintext S rq projectName []) (\<lambda>plaintext.
       give (Reply 200 (map (\<lambda>e. envResponseVar e plaintext) envs))))))"

definition shared_var :: "envVarResponse \<Rightarrow> Env" where
  "shared_var v = \<lparr>Env_Name = evr_Name v, Env_Value = evr_Value v, Env_Source = ''shared''\<rparr>"

definition PutSharedVars :: "'s server \<Rightarrow> ('s call \<Rightarrow> 's call) \<Rightarrow> request \<Rightarrow> string \<Rightarrow> string + envVarResponse list \<Rightarrow> ('s, string) handler" where
  "PutSharedVars S retry rq projectName body =
     andthen (authorize S rq (on_env ''app'' [] projectName []) ActionUpdate) (\<lambda>_.
     andthen (lookupProject S projectName) (\<lambda>project.
     andthen (decoded body) (\<lambda>vars.
     let controlNs = ControlNamespace (prj_Name project)
     in andthen (on_err fault (of_call (store_SetSharedSource (client_of (sv_Secrets S)) retry controlNs
          (map shared_var vars) [(ProjectLabel, prj_Name project)]))) (\<lambda>_.
        andthen (on_err fault (pokeProjectAppsForReconcile S controlNs)) (\<lambda>_.
        andthen (recordActivity S rq (prj_Name project) ''update'' ''project'' (prj_Name project) ''Updated shared variables'' []) (\<lambda>_.
          give (Reply 200 ''updated'')))))))"

section \<open>What an edit does to the variables\<close>

lemma by_name_eq: "distinct (map Env_Name vs) \<Longrightarrow> vars_by_name vs = map_of (map (\<lambda>e. (Env_Name e, e)) vs)"
  by (simp add: vars_by_name_def put_all_distinct_id o_def)

lemma by_name_Some: "distinct (map Env_Name vs) \<Longrightarrow> vars_by_name vs k = Some e \<longleftrightarrow> e \<in> set vs \<and> Env_Name e = k"
  by (auto simp: by_name_eq map_of_eq_Some_iff o_def)

lemma env_of_by_name:
  "distinct (map Env_Name vs) \<Longrightarrow> env_of vs k = map_option (\<lambda>e. (Env_Value e, Env_Source e)) (vars_by_name vs k)"
  by (simp add: by_name_eq env_of_def map_option_map_of_self)

definition protected_var :: "string gomap \<Rightarrow> (string \<rightharpoonup> string \<times> string) \<Rightarrow> string \<Rightarrow> bool" where
  \<comment> \<open>not the user's to edit\<close>
  "protected_var declared old k \<longleftrightarrow> map_of declared k \<noteq> None \<or> (\<exists>v src. old k = Some (v, src) \<and> managed src)"

definition replaced :: "string gomap \<Rightarrow> (string \<times> string) list \<Rightarrow> (string \<rightharpoonup> string \<times> string) \<Rightarrow> string \<rightharpoonup> string \<times> string" where
  \<comment> \<open>what PUT means: the variables of the request instead of the user's\<close>
  "replaced declared vars old k =
     (if protected_var declared old k then old k else map_option (\<lambda>v. (v, ''user'')) (map_of (rev vars) k))"

definition patched :: "string gomap \<Rightarrow> string gomap \<Rightarrow> string list \<Rightarrow> (string \<rightharpoonup> string \<times> string) \<Rightarrow> string \<rightharpoonup> string \<times> string" where
  \<comment> \<open>what PATCH means\<close>
  "patched declared sets unset old k =
     (if protected_var declared old k then old k
      else case map_of sets k of Some v \<Rightarrow> Some (v, ''user'') | None \<Rightarrow> if k \<in> set unset then None else old k)"

definition sources_named :: "string gomap \<Rightarrow> bool" where
  "sources_named declared \<longleftrightarrow> (\<forall>k. map_of declared k \<noteq> Some [])"

lemma declared_sources_named: "sources_named (declarativeEnvSources app envName)"
proof -
  let ?xs = "concat (map declared_source (env_spec_vars app envName))"
  have "(k, v) \<in> set ?xs \<Longrightarrow> v \<noteq> []" for k v by (auto split: option.splits if_splits)
  then have "map_of (rev ?xs) k \<noteq> Some []" for k by (metis map_of_SomeD set_rev)
  then show ?thesis by (simp add: sources_named_def declarativeEnvSources_def map_simps)
qed

lemma declared_lookup: "sources_named d \<Longrightarrow> lookup_str d k \<noteq> [] \<longleftrightarrow> map_of d k \<noteq> None"
  by (auto simp: sources_named_def lookup_str_def split: option.split)

lemma protected_by_name:
  assumes "distinct (map Env_Name vs)"
  shows "protected_var d (env_of vs) k \<longleftrightarrow> map_of d k \<noteq> None \<or> (\<exists>e. vars_by_name vs k = Some e \<and> managed (Env_Source e))"
  using env_of_by_name [OF assms] by (auto simp: protected_var_def)

lemma verdict_cases:
  assumes "distinct (map Env_Name vs)"
  shows "verdict d (vars_by_name vs) k v = Editable \<longleftrightarrow> \<not> protected_var d (env_of vs) k"
    and "verdict d (vars_by_name vs) k v = Unchanged \<longleftrightarrow>
      protected_var d (env_of vs) k \<and> (\<exists>e. vars_by_name vs k = Some e \<and> Env_Value e = v)"
  unfolding protected_by_name [OF assms] by (auto simp: verdict_def split: option.split)

lemma tolerated_vars_Inr:
  "tolerated_vars d ex vars = Inr tol \<Longrightarrow>
     set tol = {k. \<exists>v. (k, v) \<in> set vars \<and> verdict d ex k v = Unchanged} \<and>
     (\<forall>k v. (k, v) \<in> set vars \<longrightarrow> verdict d ex k v = Editable \<or> verdict d ex k v = Unchanged)"
proof (induction vars arbitrary: tol)
  case (Cons kv vars)
  obtain k v where kv: "kv = (k, v)" by (cases kv)
  from Cons.prems obtain tol' where tail: "tolerated_vars d ex vars = Inr tol'"
    by (cases "tolerated_vars d ex vars") (auto simp: kv split: verdict.splits)
  from Cons.prems show ?case
    using Cons.IH [OF tail] by (cases "verdict d ex k v") (auto simp: kv tail)
qed simp

lemma editable_vars:
  assumes dist: "distinct (map Env_Name vs)" and tol: "tolerated_vars d (vars_by_name vs) vars = Inr tol"
  shows "filter (\<lambda>(k, _). k \<notin> set tol) vars = filter (\<lambda>(k, _). \<not> protected_var d (env_of vs) k) vars"
    and "(k, v) \<in> set vars \<Longrightarrow> protected_var d (env_of vs) k \<Longrightarrow> \<exists>e. vars_by_name vs k = Some e \<and> Env_Value e = v"
proof -
  note T = tolerated_vars_Inr [OF tol] and V = verdict_cases [OF dist]
  show "(k, v) \<in> set vars \<Longrightarrow> protected_var d (env_of vs) k \<Longrightarrow> \<exists>e. vars_by_name vs k = Some e \<and> Env_Value e = v"
    using T V by blast
  have "k \<in> set tol \<longleftrightarrow> protected_var d (env_of vs) k" if "(k, v) \<in> set vars" for k v
    using T V that by blast
  then show "filter (\<lambda>(k, _). k \<notin> set tol) vars = filter (\<lambda>(k, _). \<not> protected_var d (env_of vs) k) vars"
    by (intro filter_cong) auto
qed

subsection \<open>What is stored\<close>

definition stored_source :: "Env list \<Rightarrow> string \<Rightarrow> string" where
  "stored_source vs k =
     (if k \<in> set (keys_with ''binding'' vs) then ''binding'' else if k \<in> set (keys_with ''generated'' vs) then ''generated''
      else if k \<in> set (keys_with ''shared'' vs) then ''shared'' else if k \<in> set (keys_with ''retained'' vs) then ''retained'' else ''user'')"

definition stored_view :: "Env list \<Rightarrow> string \<rightharpoonup> string \<times> string" where
  \<comment> \<open>what a Secret written from the list holds; the names may repeat\<close>
  "stored_view vs k =
     map_option (\<lambda>v. (v, stored_source vs k)) (map_of (rev (map (\<lambda>e. (Env_Name e, Env_Value e)) vs)) k)"

lemma annotation_of_keys:
  assumes "validateEnvVars vs = None"
  shows "parseKeySet (join (sort (keys_with src vs)) '','') = set (keys_with src vs)"
  using parseKeySet_join [of "sort (keys_with src vs)"] assms by (auto simp: validateEnvVars_None_iff keys_with_def)

lemma source_of_written:
  assumes "validateEnvVars vs = None"
  shows "source_of (buildSecret ns n vs ls) k = stored_source vs k"
proof -
  let ?at = "\<lambda>ann. parseKeySet (lookup_str (Sec_Annotations (buildSecret ns n vs ls)) ann)"
  have "parseKeySet [] = {}" by (simp add: parseKeySet_def)
  with annotation_of_keys [OF assms]
  have "?at AnnotationBindingKeys = set (keys_with ''binding'' vs)" "?at AnnotationGeneratedKeys = set (keys_with ''generated'' vs)"
    "?at AnnotationSharedKeys = set (keys_with ''shared'' vs)" "?at AnnotationRetainedKeys = set (keys_with ''retained'' vs)"
    by (simp_all add: buildSecret_def lookup_str_def key_annotation_def annotation_defs)
  then show ?thesis by (simp add: source_of_def stored_source_def)
qed

lemma env_of_written:
  assumes "validateEnvVars vs = None"
  shows "env_of (secretToEnvs (buildSecret ns n vs ls)) = stored_view vs"
    and "applyDesiredSecret old (buildSecret ns n vs ls) = (ch, new) \<Longrightarrow> env_of (secretToEnvs new) = stored_view vs"
proof -
  have data: "map_of (Sec_Data (buildSecret ns n vs ls)) = map_of (rev (map (\<lambda>e. (Env_Name e, Env_Value e)) vs))"
    by (simp add: buildSecret_def map_simps)
  show "env_of (secretToEnvs (buildSecret ns n vs ls)) = stored_view vs"
    by (rule ext) (simp add: env_of_secretToEnvs source_of_written [OF assms] stored_view_def data)
  show "env_of (secretToEnvs new) = stored_view vs" if "applyDesiredSecret old (buildSecret ns n vs ls) = (ch, new)"
    by (rule ext) (simp add: env_of_secretToEnvs applyDesiredSecret_source_of [OF that] applyDesiredSecret_fields(1) [OF that]
      source_of_written [OF assms] stored_view_def data)
qed

lemma stored_source_user: "stored_source (xs @ map user_var ys) k = stored_source xs k"
proof -
  have "src \<noteq> ''user'' \<Longrightarrow> keys_with src (map user_var ys) = []" for src
    by (induction ys) (auto simp: keys_with_def user_var_def)
  then show ?thesis by (simp add: stored_source_def keys_with_def)
qed

lemma stored_source_mem:
  "distinct (map Env_Name vs) \<Longrightarrow> e \<in> set vs \<Longrightarrow> stored_source vs (Env_Name e) = norm_source (Env_Source e)"
  by (simp add: stored_source_def keys_with_mem norm_source_def)

lemma stored_view_distinct:
  assumes "distinct (map Env_Name vs)"
  shows "stored_view vs = norm_view (env_of vs)"
proof
  fix k
  have "map_of (rev (map (\<lambda>e. (Env_Name e, Env_Value e)) vs)) = map_of (map (\<lambda>e. (Env_Name e, Env_Value e)) vs)"
    using assms by (intro map_of_distinct_rev) (simp add: o_def)
  moreover have "map_of (map (\<lambda>e. (Env_Name e, Env_Value e)) vs) k = map_option Env_Value (vars_by_name vs k)"
    unfolding by_name_eq [OF assms] by (rule map_option_map_of_self [symmetric])
  ultimately have "stored_view vs k = map_option (\<lambda>e. (Env_Value e, stored_source vs k)) (vars_by_name vs k)"
    by (simp add: stored_view_def option.map_comp o_def)
  moreover have "vars_by_name vs k = Some e \<Longrightarrow> stored_source vs k = norm_source (Env_Source e)" for e
    using assms by (auto simp: by_name_Some stored_source_mem)
  ultimately show "stored_view vs k = norm_view (env_of vs) k"
    using assms by (cases "vars_by_name vs k") (simp_all add: norm_view_def env_of_by_name)
qed

lemma stored_view_user:
  assumes "distinct (map Env_Name xs)" "Env_Name ` set xs \<inter> fst ` set ys = {}"
  shows "stored_view (xs @ map user_var ys) k =
    (case norm_view (env_of xs) k of Some r \<Rightarrow> Some r | None \<Rightarrow> map_option (\<lambda>v. (v, ''user'')) (map_of (rev ys) k))"
proof -
  have pairs: "map (\<lambda>e. (Env_Name e, Env_Value e)) (map user_var ys) = ys"
    by (simp add: user_var_def o_def)
  show ?thesis
  proof (cases "k \<in> Env_Name ` set xs")
    case True
    then have "map_of (rev ys) k = None" using assms(2) by (auto simp: map_of_eq_None_iff)
    then have "stored_view (xs @ map user_var ys) k = stored_view xs k"
      by (simp add: stored_view_def stored_source_user pairs [unfolded map_map] rev_map [symmetric] map_add_def)
    moreover obtain x where "vars_by_name xs k = Some x" using True assms(1) by (auto simp: by_name_Some)
    then have "norm_view (env_of xs) k = Some (Env_Value x, norm_source (Env_Source x))"
      using assms(1) by (simp add: norm_view_def env_of_by_name)
    ultimately show ?thesis using assms(1) by (simp add: stored_view_distinct)
  next
    case False
    then have "norm_view (env_of xs) k = None" "stored_source xs k = ''user''"
      "map_of (rev (map (\<lambda>e. (Env_Name e, Env_Value e)) xs)) k = None"
      by (auto simp: norm_view_def env_of_def stored_source_def keys_with_def map_of_eq_None_iff)
    then show ?thesis
      by (simp add: stored_view_def stored_source_user pairs [unfolded map_map] rev_map [symmetric] map_add_def split: option.split)
  qed
qed

subsection \<open>Replacing and patching\<close>

lemma env_of_filter:
  assumes "distinct (map Env_Name vs)"
  shows "env_of (filter (\<lambda>e. Q (Env_Name e)) vs) k = (if Q k then env_of vs k else None)"
  by (induction vs) (auto simp: env_of_def)

lemma put_vars_stored:
  assumes dist: "distinct (map Env_Name old)" and d: "sources_named d" and norm: "norm_view (env_of old) = env_of old"
    and put: "put_vars d vars old = Inr vs"
  shows "stored_view vs = replaced d vars (env_of old)"
proof -
  let ?prot = "protected_var d (env_of old)"
  obtain tol where tol: "tolerated_vars d (vars_by_name old) vars = Inr tol"
    and vs: "vs = filter (\<lambda>e. managed (Env_Source e) \<or> lookup_str d (Env_Name e) \<noteq> []) old @
      map user_var (filter (\<lambda>(k, _). k \<notin> set tol) vars)"
    using put by (auto simp: put_vars_def)
  have "managed (Env_Source e) \<or> lookup_str d (Env_Name e) \<noteq> [] \<longleftrightarrow> ?prot (Env_Name e)" if "e \<in> set old" for e
    using that dist declared_lookup [OF d] by (auto simp: protected_by_name by_name_Some distinct_map dest: inj_onD)
  then have kept: "filter (\<lambda>e. managed (Env_Source e) \<or> lookup_str d (Env_Name e) \<noteq> []) old = filter (\<lambda>e. ?prot (Env_Name e)) old"
    by (intro filter_cong) auto
  let ?xs = "filter (\<lambda>e. ?prot (Env_Name e)) old" and ?ys = "filter (\<lambda>(k, _). \<not> ?prot k) vars"
  have "distinct (map Env_Name ?xs)" using dist by (rule distinct_map_filter)
  moreover have "Env_Name ` set ?xs \<inter> fst ` set ?ys = {}" by auto
  ultimately have view: "stored_view (?xs @ map user_var ?ys) k =
      (case norm_view (env_of ?xs) k of Some r \<Rightarrow> Some r | None \<Rightarrow> map_option (\<lambda>v. (v, ''user'')) (map_of (rev ?ys) k))" for k
    by (rule stored_view_user)
  have xs: "norm_view (env_of ?xs) k = (if ?prot k then env_of old k else None)" for k
    using env_of_filter [OF dist, of ?prot] norm by (simp add: norm_view_def fun_eq_iff)
  have ys: "map_of (rev ?ys) k = (if ?prot k then None else map_of (rev vars) k)" for k
    by (simp add: rev_filter map_of_eq_None_iff) (induction vars rule: rev_induct, auto)
  have missing: "?prot k \<Longrightarrow> env_of old k = None \<Longrightarrow> map_of (rev vars) k = None" for k
    using editable_vars(2) [OF dist tol, of k] env_of_by_name [OF dist, of k] by (auto simp: map_of_eq_None_iff)
  show ?thesis
    by (rule ext) (simp add: vs kept editable_vars(1) [OF dist tol] view xs ys replaced_def split: option.split)
qed

lemma set_var_Cons:
  "set_var kv [] = [user_var kv]"
  "set_var kv (e # vs) = (if Env_Name e = fst kv then e\<lparr>Env_Value := snd kv, Env_Source := ''user''\<rparr> # vs else e # set_var kv vs)"
  by (simp_all add: set_var_def split: option.split)

lemma set_var_names:
  "map Env_Name (set_var kv vs) = map Env_Name vs @ (if fst kv \<in> Env_Name ` set vs then [] else [fst kv])"
  by (induction vs) (auto simp: set_var_Cons user_var_def)

lemma set_var_view: "env_of (set_var kv vs) = (env_of vs)(fst kv \<mapsto> (snd kv, ''user''))"
  by (induction vs) (auto simp: set_var_Cons user_var_def env_of_def fun_eq_iff)

lemma set_vars_view:
  "distinct (map Env_Name vs) \<Longrightarrow> distinct (map Env_Name (fold set_var kvs vs)) \<and>
     env_of (fold set_var kvs vs) = env_of vs ++ map_of (rev (map (\<lambda>(k, v). (k, (v, ''user''))) kvs))"
proof (induction kvs arbitrary: vs)
  case (Cons kv kvs)
  have "distinct (map Env_Name (set_var kv vs))" using Cons.prems by (simp add: set_var_names)
  from Cons.IH [OF this] show ?case
    by (auto simp: set_var_view fun_eq_iff map_add_def split: option.split prod.split)
qed simp

lemma patch_vars_stored:
  assumes dist: "distinct (map Env_Name old)" and norm: "norm_view (env_of old) = env_of old"
    and patch: "patch_vars d sets unset old = Inr vs"
  shows "stored_view vs = patched d sets unset (env_of old)"
proof -
  let ?res = "filter (\<lambda>e. Env_Name e \<notin> set unset) old" and ?prot = "protected_var d (env_of old)"
  obtain tol where unset: "check_unset d unset old = None" and tol: "tolerated_vars d (vars_by_name ?res) (entries sets) = Inr tol"
    and vs: "vs = fold set_var (filter (\<lambda>(k, _). k \<notin> set tol) (entries sets)) ?res"
    using patch by (auto simp: patch_vars_def Let_def split: option.splits)
  have res: "distinct (map Env_Name ?res)" using dist by (simp add: distinct_map inj_on_def)
  have view: "env_of ?res k = (if k \<in> set unset then None else env_of old k)" for k
    using env_of_filter [OF dist, of "\<lambda>k. k \<notin> set unset"] by simp
  have free: "k \<notin> set unset" if "?prot k" for k
  proof
    assume k: "k \<in> set unset"
    have "map_of d k = None" using unset k by (auto simp: check_unset_def find_None_iff split: option.splits)
    with that obtain e where "e \<in> set old" "Env_Name e = k" "managed (Env_Source e)"
      using dist by (auto simp: protected_by_name by_name_Some)
    with unset k show False by (auto simp: check_unset_def find_None_iff split: option.splits)
  qed
  have prot: "protected_var d (env_of ?res) k = ?prot k" for k
    using free [of k] by (auto simp: protected_var_def view)
  have sel: "filter (\<lambda>(k, _). k \<notin> set tol) (entries sets) = filter (\<lambda>(k, _). \<not> ?prot k) (entries sets)"
    using editable_vars(1) [OF res tol] by (simp add: prot)
  let ?us = "map (\<lambda>(k, v). (k, (v, ''user''))) (filter (\<lambda>(k, _). \<not> ?prot k) (entries sets))"
  have "distinct (map fst (filter (\<lambda>(k, _). \<not> ?prot k) (entries sets)))"
    by (simp add: distinct_clearjunk distinct_map_filter)
  then have "distinct (map fst ?us)" by (simp add: case_prod_beta o_def)
  then have us: "map_of (rev ?us) k = (if ?prot k then None else map_option (\<lambda>v. (v, ''user'')) (map_of sets k))" for k
    using map_of_filter_distinct [OF distinct_clearjunk [of sets], of "\<lambda>k _. \<not> ?prot k" k]
    by (simp add: map_of_distinct_rev map_of_map map_of_clearjunk split: option.split)
  have "stored_view vs k = patched d sets unset (env_of old) k" for k
    using set_vars_view [OF res, of "filter (\<lambda>(k, _). \<not> ?prot k) (entries sets)"] free [of k] norm
    by (auto simp: vs sel stored_view_distinct norm_view_add us view patched_def map_add_def norm_view_def norm_source_def fun_eq_iff split: option.split)
  then show ?thesis by blast
qed

lemma put_own_vars:
  assumes dist: "distinct (map Env_Name old)" and norm: "norm_view (env_of old) = env_of old" and d: "sources_named d"
  shows "\<exists>vs. put_vars d (map (\<lambda>e. (Env_Name e, Env_Value e)) old) old = Inr vs"
    and "replaced d (map (\<lambda>e. (Env_Name e, Env_Value e)) old) (env_of old) = env_of old"
    and "put_delta d (map (\<lambda>e. (Env_Name e, Env_Value e)) old) old = ([], [])"
proof -
  let ?vars = "map (\<lambda>e. (Env_Name e, Env_Value e)) old"
  have same: "vars_by_name old k = Some e \<Longrightarrow> Env_Value e = v" if "(k, v) \<in> set ?vars" for k v e
    using that dist by (auto simp: by_name_Some distinct_map dest: inj_onD)
  have there: "vars_by_name old k \<noteq> None" if "(k, v) \<in> set ?vars" for k v
    using that dist by_name_Some [OF dist] by auto
  have "\<exists>tol. tolerated_vars d (vars_by_name old) xs = Inr tol" if "set xs \<subseteq> set ?vars" for xs
    using that
  proof (induction xs)
    case (Cons kv xs)
    obtain k v where kv: "kv = (k, v)" by (cases kv)
    with Cons.prems have mem: "(k, v) \<in> set ?vars" by simp
    have "verdict d (vars_by_name old) k v = Editable \<or> verdict d (vars_by_name old) k v = Unchanged"
      using there [OF mem] same [OF mem] by (auto simp: verdict_def split: option.split)
    with Cons show ?case by (auto simp: kv)
  qed simp
  then show "\<exists>vs. put_vars d ?vars old = Inr vs" by (force simp: put_vars_def)
  have "map_of (rev ?vars) = map_of ?vars" using dist by (intro map_of_distinct_rev) (simp add: o_def)
  then have "map_of (rev ?vars) k = map_option Env_Value (vars_by_name old k)" for k
    by (simp add: by_name_eq [OF dist] map_option_map_of_self)
  then have "replaced d ?vars (env_of old) k = env_of old k" for k
    using fun_cong [OF norm, of k] env_of_by_name [OF dist, of k]
    by (cases "vars_by_name old k")
       (auto simp: replaced_def protected_var_def managed_def norm_view_def norm_source_def split: if_splits)
  then show "replaced d ?vars (env_of old) = env_of old" by blast
  show "put_delta d ?vars old = ([], [])" by (auto simp: put_delta_def filter_empty_conv image_iff)
qed

section \<open>What a write does to the Secrets\<close>

definition spurious :: "('s, nn, secret) resource \<Rightarrow> ('s \<Rightarrow> bool) \<Rightarrow> ('s \<Rightarrow> nn \<rightharpoonup> secret) \<Rightarrow> (nn \<rightharpoonup> secret) \<Rightarrow> nn \<Rightarrow> bool" where
  \<comment> \<open>a read may miss the stored object\<close>
  "spurious R ok sv b k \<longleftrightarrow> (\<exists>s s1. ok s \<and> sv s = b \<and> r_Get R k s = (Inl NotFound, s1) \<and> b k \<noteq> None)"

definition failed_write ::
  "('s, nn, secret) resource \<Rightarrow> ('s \<Rightarrow> bool) \<Rightarrow> ('s \<Rightarrow> nn \<rightharpoonup> secret) \<Rightarrow> (nn \<rightharpoonup> secret) \<Rightarrow> nn \<Rightarrow> (Env list \<Rightarrow> gerr + Env list) \<Rightarrow> gerr \<Rightarrow> bool" where
  \<comment> \<open>the errors of a write: the API's, the callback's, or a name that is not valid\<close>
  "failed_write R ok sv b k mutate e \<longleftrightarrow> (\<exists>x err. e = Api x err) \<or> mutate (vars_of (b k)) = Inl e \<or>
     spurious R ok sv b k \<and> mutate [] = Inl e \<or> (\<exists>vs. validateEnvVars vs = Some e)"

definition written ::
  "('s \<Rightarrow> nn \<rightharpoonup> secret) \<Rightarrow> (nn \<rightharpoonup> secret) \<Rightarrow> nn \<Rightarrow> (Env list \<Rightarrow> gerr + Env list) \<Rightarrow> 's \<Rightarrow> bool" where
  \<comment> \<open>exactly the Secret at \<open>k\<close> is replaced, by what the callback computes from it\<close>
  "written sv b k mutate s1 \<longleftrightarrow> (\<exists>vs new. mutate (vars_of (b k)) = Inr vs \<and> sv s1 = b(k \<mapsto> new) \<and>
     env_of (secretToEnvs new) = stored_view vs)"

lemma quiet_runs:
  assumes "quiet secret_kind R ok sv" "ok s"
  shows "r_Get R k s = (x, s1) \<Longrightarrow> ok s1 \<and> sv s1 = sv s \<and> (\<forall>ob. x = Inr ob \<longrightarrow> sv s k = Some ob)"
    and "r_Create R ob s = (y, s1) \<Longrightarrow> ok s1 \<and> (case y of Inl _ \<Rightarrow> sv s1 = sv s
      | Inr ob1 \<Rightarrow> sv s (sec_key ob) = None \<and> ob1\<lparr>Sec_RV := Sec_RV ob\<rparr> = ob \<and> sv s1 = (sv s)(sec_key ob \<mapsto> ob1))"
    and "r_Update R ob s = (y, s1) \<Longrightarrow> ok s1 \<and> (case y of Inl _ \<Rightarrow> sv s1 = sv s
      | Inr ob1 \<Rightarrow> ob1\<lparr>Sec_RV := Sec_RV ob\<rparr> = ob \<and> sv s1 = (sv s)(sec_key ob \<mapsto> ob1))"
proof -
  note q = assms
  show "ok s1 \<and> sv s1 = sv s \<and> (\<forall>ob. x = Inr ob \<longrightarrow> sv s k = Some ob)" if "r_Get R k s = (x, s1)"
    using that by (rule wpD [rotated]) (rule quiet_get [OF q]; simp)
  show "ok s1 \<and> (case y of Inl _ \<Rightarrow> sv s1 = sv s
      | Inr ob1 \<Rightarrow> sv s (sec_key ob) = None \<and> ob1\<lparr>Sec_RV := Sec_RV ob\<rparr> = ob \<and> sv s1 = (sv s)(sec_key ob \<mapsto> ob1))"
    if "r_Create R ob s = (y, s1)"
    using that by (rule wpD [rotated]) (rule quiet_create [OF q]; simp add: secret_kind_def)
  show "ok s1 \<and> (case y of Inl _ \<Rightarrow> sv s1 = sv s
      | Inr ob1 \<Rightarrow> ob1\<lparr>Sec_RV := Sec_RV ob\<rparr> = ob \<and> sv s1 = (sv s)(sec_key ob \<mapsto> ob1))"
    if "r_Update R ob s = (y, s1)"
    using that by (rule wpD [rotated]) (rule quiet_update [OF q]; simp add: secret_kind_def)
qed

lemma same_but_version: "o2\<lparr>Sec_RV := v\<rparr> = o1 \<Longrightarrow> secretToEnvs o2 = secretToEnvs o1"
  by (metis secretToEnvs_RV)

lemma write_on_quiet:
  assumes q: "quiet secret_kind R ok sv" and ok: "ok s" and valid: "validateEnvVars vs = None"
    and ex: "existing = None \<or> existing = sv s (ns, name)"
    and run: "write_desired (track f (client_of R)) ns name labels existing vs (s, v) = (r, s1, v1)"
  shows "ok s1 \<and> v1 = v \<and> (case r of Some e \<Rightarrow> sv s1 = sv s \<and> (\<exists>x err. e = Api x err)
    | None \<Rightarrow> existing = sv s (ns, name) \<and> (\<exists>new. sv s1 = (sv s)((ns, name) \<mapsto> new) \<and> env_of (secretToEnvs new) = stored_view vs))"
proof (cases existing)
  case None
  let ?ob = "buildSecret ns name vs labels"
  obtain y s3 where cr: "r_Create R ?ob s = (y, s3)" by (cases "r_Create R ?ob s")
  from run None cr have out: "s1 = s3" "v1 = v"
    "r = (case y of Inr _ \<Rightarrow> None | Inl e \<Rightarrow> Some (if e = AlreadyExists then Api name Conflict
       else Api (''create env secret '' @ ns @ ''/'' @ name) e))"
    by (auto simp: write_desired_def Let_def track_def client_of_def split: sum.splits if_splits)
  with quiet_runs(2) [OF q ok cr] None show ?thesis
    by (cases y) (auto simp: env_of_written(1) [OF valid] dest!: same_but_version)
next
  case (Some old)
  with ex have stored: "sv s (ns, name) = Some old" by simp
  have key: "sec_key old = (ns, name)" using quiet_key [OF q ok stored] by (simp add: secret_kind_def)
  obtain ch new where ap: "applyDesiredSecret old (buildSecret ns name vs labels) = (ch, new)"
    by (cases "applyDesiredSecret old (buildSecret ns name vs labels)")
  note view = env_of_written(2) [OF valid ap]
  show ?thesis
  proof (cases ch)
    case False
    with ap have "new = old" by (auto dest: applyDesiredSecret_unchanged)
    moreover have "r = None" "s1 = s" "v1 = v" using run Some ap False by (simp_all add: write_desired_def)
    moreover have "sv s = (sv s)((ns, name) \<mapsto> old)" using stored by auto
    ultimately show ?thesis using ok Some stored view by auto
  next
    case True
    obtain y s3 where up: "r_Update R new s = (y, s3)" by (cases "r_Update R new s")
    from run Some ap True up have out: "s1 = s3" "v1 = v" "r = (case y of Inr _ \<Rightarrow> None | Inl e \<Rightarrow> Some (Api [] e))"
      by (auto simp: write_desired_def track_def client_of_def split: sum.splits)
    moreover have "sec_key new = (ns, name)" using applyDesiredSecret_key [OF ap] key by simp
    ultimately show ?thesis
      using quiet_runs(3) [OF q ok up] Some stored view by (cases y) (auto dest!: same_but_version)
  qed
qed

lemma attempt_on_quiet:
  assumes q: "quiet secret_kind R ok sv" and ok: "ok s" and noskip: "\<And>vs. mutate vs \<noteq> Inl ErrSkip"
    and run: "apply_attempt (track f (client_of R)) ns name labels mutate (s, v) = (r, s1, v1)"
  shows "ok s1 \<and> (case r of Some e \<Rightarrow> sv s1 = sv s \<and> failed_write R ok sv (sv s) (ns, name) mutate e
    | None \<Rightarrow> written sv (sv s) (ns, name) mutate s1 \<and> v1 = f (vars_of (sv s (ns, name))))"
proof -
  let ?C = "track f (client_of R)" and ?b = "sv s"
  obtain x s2 where get: "r_Get R (ns, name) s = (x, s2)" by (cases "r_Get R (ns, name) s")
  have s2: "ok s2" "sv s2 = ?b" and hit: "x = Inr ob \<Longrightarrow> ?b (ns, name) = Some ob" for ob
    using quiet_runs(1) [OF q ok get] by auto
  have vars: "vars_of None = []" "vars_of (Some ob) = secretToEnvs ob" for ob by (simp_all add: vars_of_def)
  have got: "kGet ?C (s, v) (ns, name) =
      (x, s2, case x of Inl e \<Rightarrow> if e = NotFound then f [] else v | Inr ob \<Rightarrow> f (secretToEnvs ob))"
    using get by (simp add: track_def client_of_def split: sum.split)
  have rest: "ok s1 \<and> (case r of Some e \<Rightarrow> sv s1 = ?b \<and> failed_write R ok sv ?b (ns, name) mutate e
      | None \<Rightarrow> written sv ?b (ns, name) mutate s1 \<and> v1 = f (vars_of (?b (ns, name))))"
    if found: "existing = ?b (ns, name) \<or> existing = None \<and> spurious R ok sv ?b (ns, name)"
      and run: "(case mutate (vars_of existing) of Inl e \<Rightarrow> (if e = ErrSkip then (None, s2, f (vars_of existing)) else (Some e, s2, f (vars_of existing)))
         | Inr vars \<Rightarrow> (case validateEnvVars vars of Some e \<Rightarrow> (Some e, s2, f (vars_of existing))
             | None \<Rightarrow> write_desired ?C ns name labels existing vars (s2, f (vars_of existing)))) = (r, s1, v1)" for existing
  proof (cases "mutate (vars_of existing)")
    case (Inl e)
    with run noskip [of "vars_of existing"] have "r = Some e" "s1 = s2" by (auto split: if_splits)
    with s2 Inl found show ?thesis by (auto simp: failed_write_def vars_of_def)
  next
    case m: (Inr vs)
    show ?thesis
    proof (cases "validateEnvVars vs")
      case (Some e)
      with run m have "r = Some e" "s1 = s2" by auto
      with s2 Some show ?thesis by (auto simp: failed_write_def)
    next
      case None
      with run m have "write_desired ?C ns name labels existing vs (s2, f (vars_of existing)) = (r, s1, v1)" by simp
      from write_on_quiet [OF q s2(1) None _ this] found s2(2) m show ?thesis
        by (auto simp: failed_write_def written_def split: option.splits)
    qed
  qed
  show ?thesis
  proof (cases x)
    case (Inr ob)
    with run hit [of ob] show ?thesis
      by (intro rest [of "Some ob"]; (unfold vars)?) (simp_all add: apply_attempt_def got)
  next
    case (Inl e)
    show ?thesis
    proof (cases "e = NotFound")
      case True
      then have "?b (ns, name) = None \<or> spurious R ok sv ?b (ns, name)"
        using get ok Inl unfolding spurious_def by blast
      with True run Inl show ?thesis
        by (intro rest [of None]; (unfold vars)?) (auto simp: apply_attempt_def got)
    next
      case False
      with run Inl s2 show ?thesis by (auto simp: apply_attempt_def got failed_write_def)
    qed
  qed
qed

lemma wp_apply_vars:
  fixes sv :: "'s \<Rightarrow> nn \<rightharpoonup> secret"
  assumes q: "quiet secret_kind (sv_Secrets S) ok sv" and re: "retries retry" and ok: "ok s"
    and noskip: "\<And>vs. mutate vs \<noteq> Inl ErrSkip"
    and err: "\<And>e s1. ok s1 \<Longrightarrow> sv s1 = sv s \<Longrightarrow>
      failed_write (sv_Secrets S) ok sv (sv s) (ns, AppEnvSecretName appName) mutate e \<Longrightarrow> Q (Inl e) s1"
    and val: "\<And>s1. ok s1 \<Longrightarrow> written sv (sv s) (ns, AppEnvSecretName appName) mutate s1 \<Longrightarrow>
      Q (Inr (f (vars_of (sv s (ns, AppEnvSecretName appName))))) s1"
  shows "wp (apply_vars S retry ns appName labels v f mutate) Q s"
proof (rule wpI)
  fix r s1 assume run: "apply_vars S retry ns appName labels v f mutate s = (r, s1)"
  let ?name = "AppEnvSecretName appName"
  let ?att = "apply_attempt (track f (client_of (sv_Secrets S))) ns ?name labels mutate"
  obtain r1 s2 v2 where call: "retry ?att (s, v) = (r1, s2, v2)" by (metis surj_pair)
  then have "retry_run ?att (s, v) r1 (s2, v2)" using re by (auto simp: retries_def)
  moreover have "case y of (s2, _) \<Rightarrow> ok s2 \<and> sv s2 = sv s"
    if "case x of (s1, _) \<Rightarrow> ok s1 \<and> sv s1 = sv s" "?att x = (Some e, y)" for x e y
    using that attempt_on_quiet [OF q, where mutate = mutate and s = "fst x" and v = "snd x" and f = f and ns = ns and name = ?name and labels = labels and r = "Some e"] noskip by (auto split: prod.splits)
  ultimately obtain s0 v0 where last: "ok s0" "sv s0 = sv s" "?att (s0, v0) = (r1, s2, v2)"
    using retry_run_last [where P = "\<lambda>(s1, _). ok s1 \<and> sv s1 = sv s", of ?att "(s, v)" r1 "(s2, v2)"] ok
    by (auto split: prod.splits)
  from attempt_on_quiet [OF q last(1) noskip last(3)] last(2) run call show "Q r s1"
    by (auto simp: apply_vars_def store_Apply_def applySecret_def intro: err val split: option.splits)
qed

section \<open>On a server without other writers\<close>

definition replaces_vars ::
  "nn \<Rightarrow> ((string \<rightharpoonup> string \<times> string) \<Rightarrow> string \<rightharpoonup> string \<times> string) \<Rightarrow> (nn \<rightharpoonup> secret) \<Rightarrow> (nn \<rightharpoonup> secret) \<Rightarrow> bool" where
  \<comment> \<open>only the Secret at \<open>k\<close> changed, its variables by \<open>f\<close>\<close>
  "replaces_vars k f b b1 \<longleftrightarrow> (\<exists>new. b1 = b(k \<mapsto> new) \<and> env_of (secretToEnvs new) = f (env_of (vars_of (b k))))"

lemma quiet_leaves_ok: "quiet K R P view \<Longrightarrow> leaves R P"
  unfolding leaves_def
  by (intro conjI allI keepsI_wp)
     (rule quiet_get quiet_list quiet_create quiet_update quiet_status quiet_delete, assumption, assumption; simp)+

abbreviation apps_at where "apps_at ok pv av p a \<equiv> \<lambda>s. ok s \<and> pv s = p \<and> av s = a"
abbreviation secrets_at where "secrets_at ok pv sv p b \<equiv> \<lambda>s. ok s \<and> pv s = p \<and> sv s = b"

lemma edit_done_keeps:
  assumes env: "deploys_env S ok may pv av sv"
  shows "keeps (secrets_at ok pv sv p b) (edit_done S rq app project msg)"
proof -
  have apps: "leaves (sv_Apps S) (secrets_at ok pv sv p b)" by (rule quiet_leaves_ok [OF env_quiet(2) [OF env]])
  have "keeps (secrets_at ok pv sv p b) (recordActivity S rq project action kind n t actor)" for action kind n t actor
    unfolding keeps_def by (intro allI impI) (use env_activity [OF env, unfolded keeps_def] in metis)
  then show ?thesis
    unfolding edit_done_def pokeAppForReconcile_def by (intro keeps_intros apps) auto
qed

lemma control_project_finds:
  "finds P (control_project app) (\<lambda>project. app_Namespace app = ControlNamespace project \<and> project \<noteq> [])"
  by (auto simp: control_project_def finds_plain ProjectFromControlNs_inverse split: prod.split)

definition edit_request ::
  "(Principal \<Rightarrow> Resource \<Rightarrow> Action \<Rightarrow> bool) \<Rightarrow> (string \<rightharpoonup> Project) \<Rightarrow> (nn \<rightharpoonup> App) \<Rightarrow> request \<Rightarrow> string \<Rightarrow> string \<Rightarrow> string \<Rightarrow> App \<Rightarrow> string \<Rightarrow> bool" where
  \<comment> \<open>the request names the application of a project and may update it in the environment\<close>
  "edit_request may p a rq projectName appName env app project \<longleftrightarrow>
     (\<exists>prj pr. p projectName = Some prj \<and> indexOfEnv prj env \<noteq> None \<and> a (projectNs prj, appName) = Some app \<and>
        rq_Principal rq = Some pr \<and> may pr (on_env ''app'' [] projectName env) ActionUpdate) \<and>
     app_Namespace app = ControlNamespace project \<and> project \<noteq> []"

lemma resolve_finds:
  assumes "deploys_env S ok may pv av sv"
  shows "finds (at ok pv av sv p a b) (resolveAppEnv S n appName env)
    (\<lambda>app. \<exists>prj. p n = Some prj \<and> indexOfEnv prj env \<noteq> None \<and> a (projectNs prj, appName) = Some app)"
  unfolding resolveAppEnv_def declares_or_400_def
  by (rule finds_andthen [OF env_lookup(1) [OF assms]], rule finds_andthen [OF finds_plain(3)], rule finds_andthen [OF finds_plain(3)],
    unfold finds_on_err, rule finds_mono [OF env_reads(2) [OF assms]]) blast

lemma edit_target_finds:
  assumes env: "deploys_env S ok may pv av sv" and dec: "finds (at ok pv av sv p a b) decode V"
  shows "finds (at ok pv av sv p a b) (edit_target S rq n appName env decode)
    (\<lambda>(app, project, req). edit_request may p a rq n appName env app project \<and> V req)"
  unfolding edit_target_def
  by (rule finds_andthen [OF env_authorize [OF env]], rule finds_andthen [OF resolve_finds [OF env]], rule finds_andthen [OF dec],
    rule finds_andthen [OF control_project_finds], rule finds_plain(1)) (auto simp: edit_request_def)

lemma app_key:
  assumes "deploys_env S ok may pv av sv" "at ok pv av sv p a b s" "a (ns, appName) = Some app"
  shows "app_Name app = appName"
  using quiet_key [OF env_quiet(2) [OF assms(1), of p b], of s "(ns, appName)" app] assms(2,3) by (simp add: app_kind_def)

text \<open>The callbacks never ask to skip, and what they compute is what PUT and PATCH mean.\<close>

lemma tolerated_vars_error: "tolerated_vars d ex vars = Inl e \<Longrightarrow> \<exists>k src. e = conflict_error ''overwrite'' k src ''modified''"
  by (induction vars) (auto split: verdict.splits, (rule exI)+, rule refl)

lemma put_vars_error: "put_vars d vars old = Inl e \<Longrightarrow> \<exists>k src. e = conflict_error ''overwrite'' k src ''modified''"
  by (auto simp: put_vars_def dest: tolerated_vars_error)

lemma callbacks_never_skip: "put_vars d vars old \<noteq> Inl ErrSkip" "patch_vars d sets unset old \<noteq> Inl ErrSkip"
  by (auto simp: patch_vars_def check_unset_def conflict_error_def Let_def dest!: put_vars_error tolerated_vars_error split: option.splits)

lemma stored_vars:
  "distinct (map Env_Name (vars_of ob))" "norm_view (env_of (vars_of ob)) = env_of (vars_of ob)"
  by (rule vars_of_distinct, rule vars_of_norm)

text \<open>
  What \<open>Apply\<close> is given, as an interface: a callback that never abandons the write and computes, from the variables stored now, a
  list that is stored as \<open>F\<close> of them. PUT and PATCH are the two callbacks.
\<close>

locale env_edit =
  fixes mutate :: "Env list \<Rightarrow> gerr + Env list" and F :: "(string \<rightharpoonup> string \<times> string) \<Rightarrow> string \<rightharpoonup> string \<times> string"
  assumes never_skips: "mutate vs \<noteq> Inl ErrSkip"
    and stores: "distinct (map Env_Name old) \<Longrightarrow> norm_view (env_of old) = env_of old \<Longrightarrow> mutate old = Inr vs \<Longrightarrow>
      stored_view vs = F (env_of old)"
begin

text \<open>The write in the middle of an edit, whatever follows.\<close>

lemma wp_edit:
  assumes env: "deploys_env S ok may pv av sv" and re: "retries retry" and at: "at ok pv av sv p a b s"
    and tail: "\<And>v b1. keeps (secrets_at ok pv sv p b1) (k v)"
    and err: "\<And>e s1. failed_write (sv_Secrets S) (apps_at ok pv av p a) sv b (ns, AppEnvSecretName appName) mutate e \<Longrightarrow>
      pv s1 = p \<Longrightarrow> sv s1 = b \<Longrightarrow> Q (Inl (writeEnvStoreError e)) s1"
    and val: "\<And>r s1. pv s1 = p \<Longrightarrow> replaces_vars (ns, AppEnvSecretName appName) F b (sv s1) \<Longrightarrow> Q r s1"
  shows "wp (andthen (on_err writeEnvStoreError (apply_vars S retry ns appName labels v f mutate)) k) Q s"
proof -
  note q = env_quiet(3) [OF env, of p a]
  let ?Q = "\<lambda>r s1. on_value (\<lambda>x. wp (k x) Q) Q (map_sum writeEnvStoreError id r) s1"
  have "wp (apply_vars S retry ns appName labels v f mutate) ?Q s"
  proof (rule wp_apply_vars [OF q re _ never_skips], goal_cases)
    case 1
    then show ?case using at by simp
  next
    case (2 e s1)
    then show ?case using err at by (simp add: on_value_simps)
  next
    case (3 s1)
    let ?k = "(ns, AppEnvSecretName appName)"
    from 3 obtain vs new where w: "mutate (vars_of (b ?k)) = Inr vs" "sv s1 = b(?k \<mapsto> new)" "env_of (secretToEnvs new) = stored_view vs"
      using at unfolding written_def by auto
    with stores [OF stored_vars w(1)] have repl: "replaces_vars ?k F b (sv s1)" unfolding replaces_vars_def by auto
    have "secrets_at ok pv sv p (sv s1) s1" using 3 by simp
    from keeps_wp [OF tail this] have "wp (k x) Q s1" for x
      by (rule wp_mono) (use repl in \<open>auto intro: val\<close>)
    then show ?case by (simp add: on_value_simps)
  qed
  then show ?thesis by (simp add: wp_andthen wp_on_err)
qed

end

interpretation put_edit: env_edit "put_vars (declarativeEnvSources app env) vars" "replaced (declarativeEnvSources app env) vars" for app env vars
  by unfold_locales (rule callbacks_never_skip, rule put_vars_stored [OF _ declared_sources_named])

interpretation patch_edit: env_edit "patch_vars d sets unset" "patched d sets unset" for d sets unset
  by unfold_locales (rule callbacks_never_skip, rule patch_vars_stored)

text \<open>Reading.\<close>

lemma store_Get_finds:
  assumes env: "deploys_env S ok may pv av sv"
  shows "finds (at ok pv av sv p a b) (store_Get (client_of (sv_Secrets S)) ns appName)
    (\<lambda>old. old = vars_of (b (ns, AppEnvSecretName appName)) \<or>
       old = [] \<and> spurious (sv_Secrets S) (apps_at ok pv av p a) sv b (ns, AppEnvSecretName appName))"
proof (rule findsI, rule wpI)
  fix s r s1 assume at: "at ok pv av sv p a b s" and run: "store_Get (client_of (sv_Secrets S)) ns appName s = (r, s1)"
  let ?k = "(ns, AppEnvSecretName appName)"
  obtain x where get: "r_Get (sv_Secrets S) ?k s = (x, s1)"
    and r: "r = (case x of Inl e \<Rightarrow> if e = NotFound then Inr [] else Inl e | Inr sec \<Rightarrow> Inr (secretToEnvs sec))"
    using run by (auto simp: store_Get_def getSecret_def client_of_def split: prod.splits sum.splits)
  have "apps_at ok pv av p a s1 \<and> sv s1 = sv s \<and> (\<forall>ob. x = Inr ob \<longrightarrow> sv s ?k = Some ob)"
    by (rule quiet_runs(1) [OF env_quiet(3) [OF env] _ get]) (use at in simp)
  moreover have "b ?k = None \<or> spurious (sv_Secrets S) (apps_at ok pv av p a) sv b ?k" if "x = Inl NotFound"
    using get at that unfolding spurious_def by blast
  ultimately show "at ok pv av sv p a b s1 \<and> (\<forall>old. r = Inr old \<longrightarrow> old = vars_of (b ?k) \<or>
      old = [] \<and> spurious (sv_Secrets S) (apps_at ok pv av p a) sv b ?k)"
    using at by (cases x) (auto simp: r vars_of_def)
qed

lemma may_see_plaintext_finds:
  assumes "deploys_env S ok may pv av sv"
  shows "finds (at ok pv av sv p a b) (may_see_plaintext S rq n env)
    (\<lambda>plaintext. plaintext \<longrightarrow> (\<exists>pr. rq_Principal rq = Some pr \<and> may pr (on_env ''app'' [] n env) ActionUpdate))"
proof (cases "rq_Principal rq")
  case None
  then show ?thesis by (simp add: may_see_plaintext_def canAuthorize_def finds_plain)
next
  case (Some pr)
  have "finds (at ok pv av sv p a b) (sv_Authorize S pr (on_env ''app'' [] n env) ActionUpdate)
      (\<lambda>x. x \<longrightarrow> may pr (on_env ''app'' [] n env) ActionUpdate)"
    using assms by (simp add: deploys_env_def Let_def)
  with Some show ?thesis by (simp add: may_see_plaintext_def canAuthorize_def)
qed

definition shown :: "(nn \<rightharpoonup> secret) \<Rightarrow> ('s, nn, secret) resource \<Rightarrow> ('s \<Rightarrow> bool) \<Rightarrow> ('s \<Rightarrow> nn \<rightharpoonup> secret) \<Rightarrow> App \<Rightarrow> string \<Rightarrow> string \<Rightarrow> bool \<Rightarrow> envVarResponse list \<Rightarrow> bool" where
  \<comment> \<open>the reply lists the stored variables, or the read missed the Secret\<close>
  "shown b R ok sv app project env plaintext vars \<longleftrightarrow> (\<exists>old.
     (old = vars_of (b (EnvNamespace project env, AppEnvSecretName (app_Name app))) \<or>
      old = [] \<and> spurious R ok sv b (EnvNamespace project env, AppEnvSecretName (app_Name app))) \<and>
     vars = map (\<lambda>e. enrich (env_spec_vars app env) (envResponseVar e plaintext)) old)"

lemma GetEnv_finds:
  assumes env: "deploys_env S ok may pv av sv"
  shows "finds (at ok pv av sv p a b) (GetEnv S rq n appName env) (\<lambda>reply. \<exists>prj app project pr plaintext vars. reply = Reply 200 vars \<and>
    p n = Some prj \<and> a (projectNs prj, appName) = Some app \<and> app_Namespace app = ControlNamespace project \<and> project \<noteq> [] \<and>
    rq_Principal rq = Some pr \<and> may pr (on_env ''app'' [] n []) ActionRead \<and>
    (plaintext \<longrightarrow> may pr (on_env ''app'' [] n env) ActionUpdate) \<and>
    shown b (sv_Secrets S) (apps_at ok pv av p a) sv app project env plaintext vars)"
proof -
  have ns: "finds (at ok pv av sv p a b) (envNamespace app env)
      (\<lambda>ns. \<exists>project. ns = EnvNamespace project env \<and> app_Namespace app = ControlNamespace project \<and> project \<noteq> [])" for app
    unfolding envNamespace_def by (rule finds_andthen [OF control_project_finds], rule finds_plain(1)) blast
  have get: "finds (at ok pv av sv p a b) (on_err Fault (store_Get (client_of (sv_Secrets S)) ns x))
    (\<lambda>old. old = vars_of (b (ns, AppEnvSecretName x)) \<or> old = [] \<and> spurious (sv_Secrets S) (apps_at ok pv av p a) sv b (ns, AppEnvSecretName x))" for ns x
    unfolding finds_on_err by (rule store_Get_finds [OF env])
  show ?thesis
    unfolding GetEnv_def
  proof (rule finds_andthen [OF env_authorize [OF env]], rule finds_andthen [OF resolve_finds [OF env]], rule finds_andthen [OF ns],
      rule finds_andthen [OF get], rule finds_andthen [OF may_see_plaintext_finds [OF env]], rule finds_plain(1), goal_cases)
    case (1 _ app envNs old plaintext)
    from 1(3) obtain project where project: "envNs = EnvNamespace project env" "app_Namespace app = ControlNamespace project" "project \<noteq> []"
      by blast
    have "shown b (sv_Secrets S) (apps_at ok pv av p a) sv app project env plaintext
        (map (\<lambda>e. enrich (env_spec_vars app env) (envResponseVar e plaintext)) old)"
      unfolding shown_def using 1(4) by (intro exI [of _ old]) (simp add: project)
    moreover from 1(1) obtain pr where pr: "rq_Principal rq = Some pr" "may pr (on_env ''app'' [] n []) ActionRead" by blast
    moreover have "plaintext \<longrightarrow> may pr (on_env ''app'' [] n env) ActionUpdate" using 1(5) pr(1) by simp
    moreover from 1(2) obtain prj where "p n = Some prj" "a (projectNs prj, appName) = Some app" by blast
    ultimately show ?case using project(2,3) by blast
  qed
qed

lemma enrich_keeps [simp]:
  "evr_Name (enrich spec v) = evr_Name v" "evr_Value (enrich spec v) = evr_Value v" "evr_Redacted (enrich spec v) = evr_Redacted v"
  by (simp_all add: enrich_def Let_def split: option.split)

lemma findsD:
  assumes "finds P m V" "P s" "m s = (Inr x, s1)"
  shows "P s1" "V x"
  using assms by (auto simp: finds_def wp_def)

lemma get_env_reply:
  assumes env: "deploys_env S ok may pv av sv" and "ok s" "GetEnv S rq n appName env s = (Inr (Reply st vars), s1)"
  obtains prj app project pr plaintext where "at ok pv av sv (pv s) (av s) (sv s) s1"
    and "pv s n = Some prj" "av s (projectNs prj, appName) = Some app" "app_Namespace app = ControlNamespace project" "project \<noteq> []"
    and "rq_Principal rq = Some pr" "may pr (on_env ''app'' [] n []) ActionRead" "plaintext \<longrightarrow> may pr (on_env ''app'' [] n env) ActionUpdate"
    and "shown (sv s) (sv_Secrets S) (apps_at ok pv av (pv s) (av s)) sv app project env plaintext vars"
proof -
  note F = findsD [OF GetEnv_finds [OF env, of "pv s" "av s" "sv s"] _ assms(3)]
  have "at ok pv av sv (pv s) (av s) (sv s) s" using assms(2) by simp
  from F(1) [OF this] F(2) [OF this] have at: "at ok pv av sv (pv s) (av s) (sv s) s1" and ex: "\<exists>prj app project pr plaintext vars'. Reply st vars = Reply 200 vars' \<and>
      pv s n = Some prj \<and> av s (projectNs prj, appName) = Some app \<and> app_Namespace app = ControlNamespace project \<and> project \<noteq> [] \<and>
      rq_Principal rq = Some pr \<and> may pr (on_env ''app'' [] n []) ActionRead \<and> (plaintext \<longrightarrow> may pr (on_env ''app'' [] n env) ActionUpdate) \<and>
      shown (sv s) (sv_Secrets S) (apps_at ok pv av (pv s) (av s)) sv app project env plaintext vars'"
    by - assumption+
  from ex show thesis
    by (elim exE conjE) (rule that [OF at], assumption+, simp only: reply.inject)
qed

section \<open>Which handlers refuse a change\<close>

fun refusal :: "'b reply \<Rightarrow> bool" where
  \<comment> \<open>409, and not for a conflict the API reports\<close>
  "refusal (ErrorReply n _) = (n = 409)"
| "refusal _ = False"

definition never_refuses :: "('s, 'b reply, 'a) act \<Rightarrow> bool" where
  "never_refuses m \<longleftrightarrow> (\<forall>s e s1. m s = (Inl e, s1) \<longrightarrow> \<not> refusal e)"

named_theorems never_intros \<open>statement forms that refuse nothing when their parts do not\<close>

lemma never_plain [never_intros]:
  "never_refuses (give a)" "never_refuses (effect f)" "n \<noteq> 409 \<Longrightarrow> never_refuses (stop (ErrorReply n m))"
  "n \<noteq> 409 \<Longrightarrow> never_refuses (check c (ErrorReply n m))"
  by (auto simp: never_refuses_def give_def stop_def check_def effect_def)

lemma never_andthen [never_intros]: "never_refuses m \<Longrightarrow> (\<And>a. never_refuses (k a)) \<Longrightarrow> never_refuses (andthen m k)"
  by (auto simp: never_refuses_def andthen_def split: prod.splits sum.splits)

lemma never_outcome [never_intros]: "(\<And>r. never_refuses (k r)) \<Longrightarrow> never_refuses (outcome m k)"
  by (auto simp: never_refuses_def outcome_def split: prod.splits)

lemma never_on_err [never_intros]: "(\<And>e. \<not> refusal (f e)) \<Longrightarrow> never_refuses (on_err f m)"
  by (auto simp: never_refuses_def on_err_def split: prod.splits sum.splits)

lemma never_authorize [never_intros]: "never_refuses (authorize S rq res act)"
  by (auto simp: authorize_def intro!: never_intros split: option.split sum.split)

lemma never_resolve [never_intros]: "never_refuses (resolveAppEnv S n appName env)"
  by (auto simp: resolveAppEnv_def lookupProject_def declares_or_400_def intro!: never_intros split: if_splits)

lemma never_edit_target [never_intros]: "never_refuses (edit_target S rq n appName env (decoded body))"
  by (auto simp: edit_target_def decoded_def control_project_def intro!: never_intros split: sum.split prod.split)

lemma never_edit_done [never_intros]: "never_refuses (edit_done S rq app project msg)"
  by (auto simp: edit_done_def fault_def recordActivity_def intro!: never_intros)

definition pairs_of :: "envVarResponse list \<Rightarrow> (string \<times> string) list" where
  "pairs_of req = map (\<lambda>v. (evr_Name v, evr_Value v)) req"

lemma decoded_finds: "finds P (decoded body) (\<lambda>req. body = Inr req)"
  by (cases body) (auto simp: decoded_def finds_plain)

lemma andthen_run: "m s = (Inr x, s1) \<Longrightarrow> andthen m k s = k x s1"
  by (simp add: andthen_def)

lemma put_refused:
  fixes S :: "'s server"
  assumes env: "deploys_env S ok may pv av sv" and re: "retries retry" and at: "at ok pv av sv p a b s"
    and run: "PutEnv S retry rq n appName env (Inr req) s = (Inl (ErrorReply 409 m), s1)"
  shows "\<exists>app project e. edit_request may p a rq n appName env app project \<and> writeEnvStoreError e = (ErrorReply 409 m :: string reply) \<and>
    failed_write (sv_Secrets S) (apps_at ok pv av p a) sv b (EnvNamespace project env, AppEnvSecretName appName)
      (put_vars (declarativeEnvSources app env) (pairs_of req)) e"
proof -
  let ?tgt = "edit_target S rq n appName env (decoded (Inr req)) :: ('s, string reply, App \<times> string \<times> envVarResponse list) act"
  obtain r3 s3 where tgt: "?tgt s = (r3, s3)" by (cases "?tgt s")
  show ?thesis
  proof (cases r3)
    case (Inl e)
    with run tgt have "?tgt s = (Inl (ErrorReply 409 m), s3)" by (simp add: PutEnv_def andthen_def)
    then show ?thesis using never_edit_target [of S rq n appName env "Inr req"] unfolding never_refuses_def by fastforce
  next
    case (Inr x)
    from findsD [OF edit_target_finds [OF env decoded_finds] at tgt [unfolded Inr]] obtain app project
      where x: "x = (app, project, req)" and edit: "edit_request may p a rq n appName env app project" and s3: "at ok pv av sv p a b s3"
      by (cases x) auto
    have name: "app_Name app = appName" using app_key [OF env s3] edit by (auto simp: edit_request_def)
    let ?mut = "put_vars (declarativeEnvSources app env) (pairs_of req)"
    let ?ap = "apply_vars S retry (EnvNamespace project env) appName (app_env_labels project env appName) ([], [])
      (put_delta (declarativeEnvSources app env) (pairs_of req)) ?mut"
    obtain r4 s4 where ap: "?ap s3 = (r4, s4)" by (cases "?ap s3")
    let ?tail = "(\<lambda>(added, removed). andthen (edit_done S rq app project (''Updated env vars for '' @ appName @ '' in '' @ env
        @ envKeyDelta added removed)) (\<lambda>_. give (Reply 200 ''updated''))) :: string list \<times> string list \<Rightarrow> ('s, string reply, string reply) act"
    have "andthen (on_err writeEnvStoreError ?ap) ?tail s3 = (Inl (ErrorReply 409 m), s1)"
      using run unfolding PutEnv_def andthen_run [where m = ?tgt, OF tgt [unfolded Inr]] by (simp only: x prod.case Let_def pairs_of_def [symmetric] name)
    moreover have "andthen (on_err writeEnvStoreError ?ap) ?tail s3 = (case r4 of Inl e \<Rightarrow> (Inl (writeEnvStoreError e), s4) | Inr v \<Rightarrow> ?tail v s4)"
      unfolding andthen_def on_err_def ap by (cases r4) simp_all
    ultimately have out: "(case r4 of Inl e \<Rightarrow> (Inl (writeEnvStoreError e), s4) | Inr v \<Rightarrow> ?tail v s4) = (Inl (ErrorReply 409 m), s1)"
      by simp
    have "never_refuses (?tail v)" for v by (cases v) (auto intro!: never_intros)
    then have "?tail v s4 \<noteq> (Inl (ErrorReply 409 m), s1)" for v unfolding never_refuses_def by fastforce
    with out obtain e where e: "r4 = Inl e" "writeEnvStoreError e = (ErrorReply 409 m :: string reply)" by (cases r4) auto
    have "wp ?ap (\<lambda>r _. \<forall>e. r = Inl e \<longrightarrow> failed_write (sv_Secrets S) (apps_at ok pv av p a) sv b
        (EnvNamespace project env, AppEnvSecretName appName) ?mut e) s3"
      by (rule wp_apply_vars [OF env_quiet(3) [OF env, of p a] re]) (use s3 callbacks_never_skip in auto)
    from wpD [OF this ap] e(1) have "failed_write (sv_Secrets S) (apps_at ok pv av p a) sv b
        (EnvNamespace project env, AppEnvSecretName appName) ?mut e" by simp
    with e(2) edit show ?thesis by blast
  qed
qed

lemma name_error_no_refusal: "validateEnvVars vs = Some e \<Longrightarrow> \<not> refusal (writeEnvStoreError e)"
  by (induction vs) (auto simp: ValidateEnvVarName_def has_prefix_def fault_def split: if_splits)

definition exact_reads :: "('s, nn, secret) resource \<Rightarrow> ('s \<Rightarrow> bool) \<Rightarrow> ('s \<Rightarrow> nn \<rightharpoonup> secret) \<Rightarrow> bool" where
  \<comment> \<open>the API says an object is not found only when there is none\<close>
  "exact_reads R ok sv \<longleftrightarrow> (\<forall>k s s1. ok s \<and> r_Get R k s = (Inl NotFound, s1) \<longrightarrow> sv s k = None)"

lemma exact_not_spurious:
  assumes "exact_reads R ok sv"
  shows "\<not> spurious R (apps_at ok pv av p a) sv b k"
proof
  assume "spurious R (apps_at ok pv av p a) sv b k"
  then obtain s s1 where "ok s" "sv s = b" "r_Get R k s = (Inl NotFound, s1)" "b k \<noteq> None" unfolding spurious_def by blast
  with assms show False unfolding exact_reads_def by metis
qed

lemma replaces_same:
  assumes "replaces_vars k F b b1" "F (env_of (vars_of (b k))) = env_of (vars_of (b k))"
  shows "env_of (vars_of (b1 k')) = env_of (vars_of (b k'))"
  using assms by (auto simp: replaces_vars_def) (simp add: vars_of_def)

section \<open>Properties\<close>

text \<open>
  C37: Without other writers, a PUT of the variables of an application that returns normally replaces the user's variables of
  the one Secret by those of the request and keeps every managed one as it was; one that fails changes no Secret, or
  has done exactly that before a later step failed. The principal may update the environment, which the project declares.
\<close>

theorem put_env_exact:
  assumes "deploys_env S ok may pv av sv" "retries retry" "ok s" "PutEnv S retry rq n appName env body s = (r, s1)"
  shows "pv s1 = pv s \<and> (sv s1 = sv s \<and> (\<forall>x. r \<noteq> Inr x) \<or>
    (\<exists>app project req. body = Inr req \<and> edit_request may (pv s) (av s) rq n appName env app project \<and>
       replaces_vars (EnvNamespace project env, AppEnvSecretName appName) (replaced (declarativeEnvSources app env) (pairs_of req)) (sv s) (sv s1)))"
proof -
  note env = assms(1)
  let ?P = "at ok pv av sv (pv s) (av s) (sv s)"
  let ?Q = "\<lambda>r s1. pv s1 = pv s \<and> (sv s1 = sv s \<and> (\<forall>x. r \<noteq> Inr x) \<or>
    (\<exists>app project req. body = Inr req \<and> edit_request may (pv s) (av s) rq n appName env app project \<and>
       replaces_vars (EnvNamespace project env, AppEnvSecretName appName) (replaced (declarativeEnvSources app env) (pairs_of req)) (sv s) (sv s1)))"
  have "wp (PutEnv S retry rq n appName env body) ?Q s"
    unfolding PutEnv_def
  proof (rule wp_finds [where P = ?P, OF edit_target_finds [OF env decoded_finds]], goal_cases)
    case (2 x s2)
    then obtain app project req where x: "x = (app, project, req)" and edit: "edit_request may (pv s) (av s) rq n appName env app project"
      and body: "body = Inr req" by (cases x) auto
    then have name: "app_Name app = appName" using app_key [OF env 2(1)] by (auto simp: edit_request_def)
    show ?case
      unfolding x prod.case Let_def pairs_of_def [symmetric] name
      by (rule put_edit.wp_edit [OF env assms(2) 2(1)])
         (use edit body in \<open>auto intro!: keeps_intros edit_done_keeps [OF env] split: prod.split\<close>)
  qed (simp_all add: assms(3))
  with assms(4) show ?thesis by (auto dest: wpD)
qed

text \<open>
  The same of a PATCH: it sets the variables to set, removes those to unset, and touches no managed one.
\<close>

theorem patch_env_exact:
  assumes "deploys_env S ok may pv av sv" "retries retry" "ok s" "PatchEnv S retry rq n appName env body s = (r, s1)"
  shows "pv s1 = pv s \<and> (sv s1 = sv s \<and> (\<forall>x. r \<noteq> Inr x) \<or>
    (\<exists>app project sets unset. body = Inr (sets, unset) \<and> edit_request may (pv s) (av s) rq n appName env app project \<and>
       replaces_vars (EnvNamespace project env, AppEnvSecretName appName) (patched (declarativeEnvSources app env) sets unset) (sv s) (sv s1)))"
proof -
  note env = assms(1)
  let ?P = "at ok pv av sv (pv s) (av s) (sv s)"
  let ?Q = "\<lambda>r s1. pv s1 = pv s \<and> (sv s1 = sv s \<and> (\<forall>x. r \<noteq> Inr x) \<or>
    (\<exists>app project sets unset. body = Inr (sets, unset) \<and> edit_request may (pv s) (av s) rq n appName env app project \<and>
       replaces_vars (EnvNamespace project env, AppEnvSecretName appName) (patched (declarativeEnvSources app env) sets unset) (sv s) (sv s1)))"
  have "wp (PatchEnv S retry rq n appName env body) ?Q s"
    unfolding PatchEnv_def
  proof (rule wp_finds [where P = ?P, OF edit_target_finds [OF env decoded_finds]], goal_cases)
    case (2 x s2)
    then obtain app project sets unset where x: "x = (app, project, sets, unset)" and body: "body = Inr (sets, unset)"
      and edit: "edit_request may (pv s) (av s) rq n appName env app project" by (cases x) auto
    then have name: "app_Name app = appName" using app_key [OF env 2(1)] by (auto simp: edit_request_def)
    show ?case
      unfolding x prod.case name
      by (rule patch_edit.wp_edit [OF env assms(2) 2(1)])
         (use edit body in \<open>auto intro!: keeps_intros edit_done_keeps [OF env]\<close>)
  qed (simp_all add: assms(3))
  with assms(4) show ?thesis by (auto dest: wpD)
qed


text \<open>
  C38: A PUT of what a GET returned to someone who sees the values changes no variable and no source, and is never refused as a change
  of a managed variable (issue 560), though it sends the managed variables along.
\<close>

theorem put_of_get_changes_nothing:
  assumes "deploys_env S ok may pv av sv" "retries retry" "exact_reads (sv_Secrets S) ok sv" "ok s"
    and "GetEnv S rq n appName env s = (Inr (Reply st vars), s1)" "\<forall>v \<in> set vars. \<not> evr_Redacted v"
    and "PutEnv S retry rq' n appName env (Inr vars) s1 = (r, s2)"
  shows "pv s2 = pv s \<and> (\<forall>k. env_of (vars_of (sv s2 k)) = env_of (vars_of (sv s k))) \<and> (\<forall>m. r \<noteq> Inl (ErrorReply 409 m))"
proof -
  note env = assms(1)
  obtain prj app project pr plaintext where s1: "at ok pv av sv (pv s) (av s) (sv s) s1"
    and target: "pv s n = Some prj" "av s (projectNs prj, appName) = Some app" "app_Namespace app = ControlNamespace project" "project \<noteq> []"
    and shown: "shown (sv s) (sv_Secrets S) (apps_at ok pv av (pv s) (av s)) sv app project env plaintext vars"
    by (rule get_env_reply [OF env assms(4,5)])
  let ?k = "(EnvNamespace project env, AppEnvSecretName appName)"
  let ?old = "vars_of (sv s ?k)" and ?d = "declarativeEnvSources app env"
  have name: "app_Name app = appName" by (rule app_key [OF env s1 target(2)])
  with shown exact_not_spurious [OF assms(3)]
  have vars: "vars = map (\<lambda>e. enrich (env_spec_vars app env) (envResponseVar e plaintext)) ?old" unfolding shown_def name by metis
  have "e \<in> set ?old \<Longrightarrow> plaintext" for e using assms(6) by (auto simp: vars envResponseVar_def)
  then have pairs: "pairs_of vars = map (\<lambda>e. (Env_Name e, Env_Value e)) ?old"
    by (auto simp: pairs_of_def vars envResponseVar_def)
  note own = put_own_vars [OF stored_vars declared_sources_named [of app env], of "sv s ?k"]
  have same: "app' = app \<and> project' = project" if "edit_request may (pv s) (av s) rq' n appName env app' project'" for app' project'
    using that target by (auto simp: edit_request_def ControlNamespace_def)
  let ?Q = "\<lambda>r s2. pv s2 = pv s \<and> (\<forall>k. env_of (vars_of (sv s2 k)) = env_of (vars_of (sv s k)))"
  have "wp (PutEnv S retry rq' n appName env (Inr vars)) ?Q s1"
    unfolding PutEnv_def
  proof (rule wp_finds [OF edit_target_finds [OF env decoded_finds] s1], goal_cases)
    case (1 x s2)
    then have x: "x = (app, project, vars)" using same by (cases x) auto
    show ?case
      unfolding x prod.case Let_def pairs_of_def [symmetric] name
      by (rule put_edit.wp_edit [OF env assms(2) 1(1)])
         (auto simp: pairs replaces_same [where k = ?k and F = "replaced ?d (map (\<lambda>e. (Env_Name e, Env_Value e)) ?old)"] own(2) intro!: keeps_intros edit_done_keeps [OF env] split: prod.split)
  qed simp
  moreover have "r \<noteq> Inl (ErrorReply 409 m)" for m
  proof
    assume "r = Inl (ErrorReply 409 m)"
    with assms(7) put_refused [OF env assms(2) s1] obtain app' project' e
      where "edit_request may (pv s) (av s) rq' n appName env app' project'" and e: "writeEnvStoreError e = (ErrorReply 409 m :: string reply)"
        and failed: "failed_write (sv_Secrets S) (apps_at ok pv av (pv s) (av s)) sv (sv s) (EnvNamespace project' env, AppEnvSecretName appName)
          (put_vars (declarativeEnvSources app' env) (pairs_of vars)) e" by blast
    with same have "failed_write (sv_Secrets S) (apps_at ok pv av (pv s) (av s)) sv (sv s) ?k (put_vars ?d (pairs_of vars)) e" by blast
    moreover have "put_vars ?d (pairs_of vars) ?old \<noteq> Inl e" using own(1) by (auto simp: pairs)
    moreover have "\<not> spurious (sv_Secrets S) (apps_at ok pv av (pv s) (av s)) sv (sv s) ?k" by (rule exact_not_spurious [OF assms(3)])
    moreover have "validateEnvVars vs \<noteq> Some e" for vs using name_error_no_refusal [of vs e, where 'a = string] e by auto
    ultimately show False using e by (auto simp: failed_write_def fault_def)
  qed
  ultimately show ?thesis using assms(7) by (auto dest: wpD)
qed

section \<open>Files of variables\<close>

definition quoted_line :: "string \<times> string \<Rightarrow> string" where
  \<comment> \<open>\<open>KEY="value"\<close>\<close>
  "quoted_line kv = fst kv @ ''='' @ [CHR 0x22] @ snd kv @ [CHR 0x22]"

definition print_dotenv :: "(string \<times> string) list \<Rightarrow> string" where
  "print_dotenv kvs = concat (map (\<lambda>kv. quoted_line kv @ [CHR 0x0A]) kvs)"

lemma trim_space_ends: "s \<noteq> [] \<Longrightarrow> hd s \<notin> set white_space \<Longrightarrow> List.last s \<notin> set white_space \<Longrightarrow> trim_space s = s"
proof -
  assume "s \<noteq> []" "hd s \<notin> set white_space" "List.last s \<notin> set white_space"
  then have "dropWhile (\<lambda>c. c \<in> set white_space) s = s" "dropWhile (\<lambda>c. c \<in> set white_space) (rev s) = rev s"
    by (simp_all add: dropWhile_eq_self_iff hd_rev)
  then show ?thesis by (simp add: trim_space_def trim_def trim_left_def)
qed

lemma valid_name_start:
  assumes "validEnvVarName k"
  shows "k \<noteq> []" "hd k \<notin> set white_space" "hd k \<noteq> CHR ''#''" "CHR ''='' \<notin> set k" "CHR 0x0A \<notin> set k"
proof -
  show "k \<noteq> []" using assms by (rule validEnvVarName_not_Nil)
  then have "name_start (hd k)" using assms by (cases k) auto
  then show "hd k \<notin> set white_space" "hd k \<noteq> CHR ''#''" by (auto simp: name_start_def white_space_def)
  show "CHR ''='' \<notin> set k" "CHR 0x0A \<notin> set k"
    using assms validEnvVarName_chars name_char_cases by (fastforce simp: white_space_def)+
qed

lemma position_append: "(\<forall>x \<in> set xs. \<not> Q x) \<Longrightarrow> Q y \<Longrightarrow> position Q (xs @ y # ys) = Some (length xs)"
  by (induction xs) auto

lemma unquote_quoted: "unquote (CHR 0x22 # v @ [CHR 0x22]) = v"
  by (simp add: unquote_def)

lemma dotenv_quoted_line:
  assumes "validEnvVarName k"
  shows "dotenv_line (quoted_line (k, v)) = [(k, v)]"
proof -
  note K = valid_name_start [OF assms]
  have "trim_space (quoted_line (k, v)) = quoted_line (k, v)"
    using K(1,2) by (intro trim_space_ends) (auto simp: quoted_line_def white_space_def)
  moreover have "\<not> has_prefix (quoted_line (k, v)) ''#''" "quoted_line (k, v) \<noteq> []"
    using K(1,3) by (cases k; simp add: quoted_line_def has_prefix_def)+
  moreover have "position (\<lambda>c. c = CHR ''='') (quoted_line (k, v)) = Some (length k)"
    using K(4) by (simp add: quoted_line_def) (rule position_append; auto)
  moreover have "trim_space (CHR 0x22 # v @ [CHR 0x22]) = CHR 0x22 # v @ [CHR 0x22]"
    by (rule trim_space_ends) (auto simp: white_space_def)
  ultimately show ?thesis
    using K(1) assms by (simp add: dotenv_line_def Let_def) (simp add: quoted_line_def unquote_quoted)
qed

definition printable :: "(string \<times> string) list \<Rightarrow> bool" where
  "printable kvs \<longleftrightarrow> (\<forall>(k, v) \<in> set kvs. validEnvVarName k \<and> CHR 0x0A \<notin> set v \<and> length k + length v + 3 \<le> maxScanLine)"

lemma split_printed:
  assumes "printable kvs"
  shows "split_on CHR 0x0A (print_dotenv kvs @ rest) = map quoted_line kvs @ split_on CHR 0x0A rest"
  using assms
proof (induction kvs)
  case (Cons kv kvs)
  then have "CHR 0x0A \<notin> set (quoted_line kv)" using valid_name_start(5) by (auto simp: printable_def quoted_line_def)
  then show ?case using Cons by (simp add: printable_def print_dotenv_def split_on_append_sep)
qed (simp add: print_dotenv_def)

lemma scan_printed:
  assumes "printable kvs" "takeWhile (\<lambda>l. length l \<le> maxScanLine) (split_on CHR 0x0A rest) \<in> {[], [[]]}"
  shows "concat (map dotenv_line (scan_lines (print_dotenv kvs @ rest))) = kvs"
proof -
  let ?strip = "\<lambda>l. if l \<noteq> [] \<and> List.last l = CHR 0x0D then butlast l else l"
  have "\<forall>l \<in> set (map quoted_line kvs). length l \<le> maxScanLine" using assms(1) by (auto simp: printable_def quoted_line_def)
  then have "takeWhile (\<lambda>l. length l \<le> maxScanLine) (map quoted_line kvs @ split_on CHR 0x0A rest) =
      map quoted_line kvs @ takeWhile (\<lambda>l. length l \<le> maxScanLine) (split_on CHR 0x0A rest)"
    by (rule takeWhile_append2 [OF bspec])
  moreover have "?strip (quoted_line kv) = quoted_line kv" for kv by (simp add: quoted_line_def)
  then have "map ?strip (map quoted_line kvs) = map quoted_line kvs" by simp
  ultimately have "scan_lines (print_dotenv kvs @ rest) \<in> {map quoted_line kvs, map quoted_line kvs @ [[]]}"
    using assms(2) unfolding scan_lines_def split_printed [OF assms(1)] by auto
  moreover have "dotenv_line [] = []" by (simp add: dotenv_line_def Let_def trim_space_def trim_def trim_left_def)
  moreover have "concat (map dotenv_line (map quoted_line kvs)) = kvs"
    using assms(1) by (induction kvs) (auto simp: dotenv_quoted_line printable_def)
  ultimately show ?thesis by auto
qed

text \<open>
  C40: Importing what was written as quoted lines, \<open>KEY="value"\<close>, gives back the variables: any values without line breaks, white space
  and quotes included, as long as each line fits the scanner's buffer; of repeated names the last counts.
\<close>

theorem dotenv_roundtrip:
  assumes "printable kvs"
  shows "map_of (parseDotEnv (print_dotenv kvs)) = map_of (rev kvs)"
  using scan_printed [OF assms, of "[]"] by (simp add: parseDotEnv_def map_simps maxScanLine_def)

text \<open>The scanner's error is not looked at: a line that is too long and all that follows it are dropped without a word.\<close>

lemma long_line_truncates:
  assumes "printable kvs" "CHR 0x0A \<notin> set l" "length l > maxScanLine"
  shows "map_of (parseDotEnv (print_dotenv kvs @ l @ CHR 0x0A # rest)) = map_of (rev kvs)"
  using scan_printed [OF assms(1), of "l @ CHR 0x0A # rest"] assms(2,3) by (simp add: parseDotEnv_def map_simps split_on_append_sep)

text \<open>
  PUT and PATCH refuse to change a managed variable; an import does not look, so it takes the variable away from the binding or generator
  that owns it.
\<close>

lemma import_takes_managed:
  assumes "distinct (map Env_Name old)" "protected_var d (env_of old) k" "\<exists>w. env_of old k = Some w \<and> fst w \<noteq> v"
  shows "\<exists>e. put_vars d [(k, v)] old = Inl e" and "\<exists>e. patch_vars d [(k, v)] [] old = Inl e"
    and "env_of (mergeEnvs old (map user_var [(k, v)])) k = Some (v, ''user'')"
proof -
  have no: "tolerated_vars d (vars_by_name old) [(k, v)] \<noteq> Inr tol" for tol
    using editable_vars(2) [OF assms(1), of d "[(k, v)]" tol k v] assms(2,3) env_of_by_name [OF assms(1), of k] by auto
  then obtain e where e: "tolerated_vars d (vars_by_name old) [(k, v)] = Inl e" by (cases "tolerated_vars d (vars_by_name old) [(k, v)]") auto
  show "\<exists>e. put_vars d [(k, v)] old = Inl e" unfolding put_vars_def e by simp
  have "entries [(k, v)] = [(k, v)]" "find (\<lambda>e. False) old = None" by (simp_all add: find_None_iff)
  then show "\<exists>e. patch_vars d [(k, v)] [] old = Inl e" by (simp add: patch_vars_def check_unset_def e del: tolerated_vars.simps)
  show "env_of (mergeEnvs old (map user_var [(k, v)])) k = Some (v, ''user'')"
    unfolding env_of_mergeEnvs by (simp add: user_var_def env_of_def)
qed

section \<open>Examples\<close>

definition ex_env_world :: world where
  "ex_env_world = ex_deploy_world\<lparr>w_Secrets := [((''pj-web-production'', ''api-env''), buildSecret ''pj-web-production'' ''api-env'' ex_vars [])]\<rparr>"

lemma ex_env_ok: "mem_deploys_ok ex_env_world"
  by (simp add: mem_deploys_ok_def ex_env_world_def ex_deploy_world_def mem_keyed_def empty_world_def project_kind_def app_kind_def
      secret_kind_def new_Project_def ex_app_def)

definition sent_var :: "string \<Rightarrow> string \<Rightarrow> envVarResponse" where
  "sent_var k v = \<lparr>evr_Name = k, evr_Value = v, evr_Source = [], evr_Redacted = False, evr_BindingRef = [], evr_BindingKey = [], evr_SecretRef = []\<rparr>"

definition ex_put :: "(string reply + string reply) \<times> world" where
  "ex_put = PutEnv mem_deploys mem_retry ex_admin_request ''web'' ''api'' ''production''
     (Inr [sent_var ''C'' ''3'', sent_var ''B'' ''2'']) ex_env_world"

lemma ex_put_reply: "fst ex_put = Inr (Reply 200 ''updated'')"
  by code_simp

theorem put_env_exact_witness:
  "\<exists>app project. replaces_vars (EnvNamespace project ''production'', AppEnvSecretName ''api'')
     (replaced (declarativeEnvSources app ''production'') [(''C'', ''3''), (''B'', ''2'')])
     (map_of (w_Secrets ex_env_world)) (map_of (w_Secrets (snd ex_put)))"
proof -
  have "PutEnv mem_deploys mem_retry ex_admin_request ''web'' ''api'' ''production'' (Inr [sent_var ''C'' ''3'', sent_var ''B'' ''2'']) ex_env_world =
      (Inr (Reply 200 ''updated''), snd ex_put)"
    using ex_put_reply by (simp add: ex_put_def prod_eq_iff)
  from put_env_exact [OF mem_deploys_env mem_retries ex_env_ok this] show ?thesis
    by (auto simp: pairs_of_def sent_var_def)
qed

definition ex_patch :: "(string reply + string reply) \<times> world" where
  "ex_patch = PatchEnv mem_deploys mem_retry ex_admin_request ''web'' ''api'' ''production'' (Inr ([(''C'', ''3'')], [''A''])) ex_env_world"

lemma ex_patch_reply: "fst ex_patch = Inr (Reply 200 ''updated'')"
  by code_simp

theorem patch_env_exact_witness:
  "\<exists>app project. replaces_vars (EnvNamespace project ''production'', AppEnvSecretName ''api'')
     (patched (declarativeEnvSources app ''production'') [(''C'', ''3'')] [''A''])
     (map_of (w_Secrets ex_env_world)) (map_of (w_Secrets (snd ex_patch)))"
proof -
  have "PatchEnv mem_deploys mem_retry ex_admin_request ''web'' ''api'' ''production'' (Inr ([(''C'', ''3'')], [''A''])) ex_env_world =
      (Inr (Reply 200 ''updated''), snd ex_patch)"
    using ex_patch_reply by (simp add: ex_patch_def prod_eq_iff)
  from patch_env_exact [OF mem_deploys_env mem_retries ex_env_ok this] show ?thesis by auto
qed

text \<open>A policy engine that only grants reading.\<close>

definition reading_server :: "world server" where
  "reading_server = mem_deploys\<lparr>sv_Authorize := \<lambda>_ _ act. give (act = ActionRead)\<rparr>"

lemma reading_env:
  "deploys_env reading_server mem_deploys_ok (\<lambda>_ _ act. act = ActionRead) (\<lambda>w. map_of (w_Projects w)) (\<lambda>w. map_of (w_Apps w))
     (\<lambda>w. map_of (w_Secrets w))"
  using mem_deploys_env by (simp add: deploys_env_def reading_server_def Let_def finds_plain(1))

definition ex_read :: "(envVarResponse list reply + envVarResponse list reply) \<times> world" where
  "ex_read = GetEnv reading_server ex_admin_request ''web'' ''api'' ''production'' ex_env_world"

definition ex_hidden :: "envVarResponse list" where
  "ex_hidden = map (\<lambda>e. envResponseVar e False) (rev ex_vars)"

lemma ex_read_reply: "fst ex_read = Inr (Reply 200 ex_hidden)"
  by code_simp


definition ex_got :: "envVarResponse list" where
  "ex_got = map (\<lambda>e. envResponseVar e True) (rev ex_vars)"

definition ex_full :: "(envVarResponse list reply + envVarResponse list reply) \<times> world" where
  "ex_full = GetEnv mem_deploys ex_admin_request ''web'' ''api'' ''production'' ex_env_world"

lemma ex_full_reply: "fst ex_full = Inr (Reply 200 ex_got)"
  by code_simp

theorem put_of_get_changes_nothing_witness:
  "env_of (vars_of (map_of (w_Secrets (snd (PutEnv mem_deploys mem_retry ex_admin_request ''web'' ''api'' ''production'' (Inr ex_got) (snd ex_full))))
     (''pj-web-production'', ''api-env''))) = env_of ex_vars"
proof -
  have get: "GetEnv mem_deploys ex_admin_request ''web'' ''api'' ''production'' ex_env_world = (Inr (Reply 200 ex_got), snd ex_full)"
    using ex_full_reply by (simp add: ex_full_def prod_eq_iff)
  have reads: "exact_reads (sv_Secrets mem_deploys) mem_deploys_ok (\<lambda>w. map_of (w_Secrets w))"
    by (auto simp: exact_reads_def mem_secrets_def mem_resource_def split: option.splits)
  have shown: "\<forall>v \<in> set ex_got. \<not> evr_Redacted v" by (simp add: ex_got_def envResponseVar_def)
  have "secretToEnvs (buildSecret ''pj-web-production'' ''api-env'' ex_vars []) = sort_key Env_Name (map norm_env ex_vars)"
    by (rule secretToEnvs_buildSecret [OF wf_ex_vars])
  then have "env_of (vars_of (map_of (w_Secrets ex_env_world) (''pj-web-production'', ''api-env''))) = env_of ex_vars"
    by (simp add: ex_env_world_def vars_of_def ex_vars_def norm_env_def norm_source_def env_of_def fun_eq_iff)
  with put_of_get_changes_nothing [OF mem_deploys_env mem_retries reads ex_env_ok get shown surjective_pairing] show ?thesis by simp
qed

theorem dotenv_roundtrip_witness:
  "map_of (parseDotEnv (print_dotenv [(''A'', ''x y''), (''B'', [CHR 0x22])])) ''B'' = Some [CHR 0x22]"
  using dotenv_roundtrip [of "[(''A'', ''x y''), (''B'', [CHR 0x22])]"]
  by (simp add: printable_def maxScanLine_def name_start_def)

text \<open>A name the store does not accept is the client's mistake, but the answer is an internal error.\<close>

lemma invalid_name_is_internal_error:
  "map_sum reply_status id (fst (PutEnv mem_deploys mem_retry ex_admin_request ''web'' ''api'' ''production'' (Inr [sent_var ''a-b'' ''1'']) ex_env_world)) = Inl 500"
  by code_simp

end
