(* ===== verification/Spec2Isabelle.thy ===== *)
theory Spec2Isabelle
  imports EnvOps Constants Authz LoginLimit SseTokens BuildTracker Bindings EnvResolver AppGC EnvReconcile Activity PreviewSafety Members ProjectEnvs Users ProjectController Deploys AppEnvs
begin
text \<open>
  Mortise is a Kubernetes operator with an HTTP API: users describe projects, applications and environments, the API
  server (\<open>internal/api\<close>) checks and writes them as custom resources, controllers (\<open>internal/controller\<close>) bring the
  cluster in line with them, and webhooks of git forges (\<open>internal/webhook\<close>) start builds and previews. This
  development models the parts that decide something, one theory each, and proves what makes each of them correct.

  \<^bold>\<open>How code is modelled.\<close> A record stands for a struct, a datatype for an enumeration, an association list for a Go
  map (\<open>Prelude\<close>), a character list for a string. A function without effects is a HOL function. A function that calls the API
  server takes the client as a record of functions on an abstract state \<open>'s\<close>, and every call returns its error or
  its value with the next state; nothing is assumed of that state unless a hypothesis says so, so other writers may act
  at every call. \<open>Kube\<close> holds the errors, the older client record and what \<open>retry.RetryOnConflict\<close> promises (\<open>retries\<close>: it runs
  the closure again only after a conflict and returns what its last run returned). \<open>Cluster\<close> has the statements that
  handlers are composed of (early return is a value of a sum), their weakest preconditions and the typed
  resources of the client; \<open>quiet\<close> describes a server on which no other writer acts.

  \<^bold>\<open>Theories and sources.\<close>
  \<^item> \<open>Types\<close>, \<open>Constants\<close>: \<open>api/v1alpha1\<close>, \<open>internal/constants\<close>. Names of previews are DNS labels of bounded length.
  \<^item> \<open>EnvStore\<close>, \<open>EnvOps\<close>: \<open>internal/envstore\<close>, variables of an application in a Secret. Encoding and decoding are inverse; Apply and
    Merge never lose a concurrent update; the environment hash is a digest of what the container gets.
  \<^item> \<open>Authz\<close>: \<open>internal/authz\<close>, the policy engine. Who may write, and monotonicity in the role.
  \<^item> \<open>LoginLimit\<close>, \<open>SseTokens\<close>: \<open>internal/api/loginlimit.go\<close>, \<open>sse_tokens.go\<close>. Rate bound and lockout; tokens are redeemed once.
  \<^item> \<open>BuildTracker\<close>: \<open>internal/controller/build_tracker.go\<close>. The log buffer is the window of recent lines.
  \<^item> \<open>Bindings\<close>: \<open>internal/bindings/resolver.go\<close>. Exactly which variables a binding injects.
  \<^item> \<open>EnvResolver\<close>, \<open>AppGC\<close>, \<open>EnvReconcile\<close>: \<open>app_env_resolver.go\<close>, \<open>app_env_gc.go\<close> and the environment part of
    \<open>app_controller.go\<close>. Deletion removes exactly an application's objects; the merge of declared, shared, bound and changed
    variables is given by cases on their provenance.
  \<^item> \<open>Activity\<close>: \<open>internal/activity\<close>. Appending keeps the log ordered and bounded, paging shows every event once.
  \<^item> \<open>Forge\<close>, \<open>Webhook\<close>: \<open>internal/git\<close>, \<open>internal/webhook\<close>. Without the secret a delivery changes nothing; a push marks
    exactly the matching applications.
  \<^item> \<open>Preview\<close>, \<open>PreviewSafety\<close>: \<open>previewenvironment_controller.go\<close>. Convergence spares open pull requests, restricted
    environments are never cloned, a namespace is deleted only for its last preview.
  \<^item> \<open>NsRbac\<close>, \<open>Server\<close>, \<open>Members\<close>, \<open>ProjectEnvs\<close>: \<open>internal/nsrbac\<close> and the project handlers of \<open>internal/api\<close>. Members are changed by
    administrators and owners only, the last owner stays, environment names stay distinct.
  \<^item> \<open>ProjectController\<close>: \<open>project_controller.go\<close>. A reconcile that runs through leaves exactly the declared namespaces; one that
    works on a stale cache never deletes the namespace of a declared environment; the finalizer of a project goes last.
  \<^item> \<open>Deploys\<close>: \<open>api/tokens.go\<close>, \<open>deploy.go\<close>, \<open>rollback.go\<close>, \<open>build_args.go\<close>. A deploy needs a granted principal or a stored token and changes
    one image; created tokens are accepted; promotion copies what the source environment runs.
  \<^item> \<open>AppEnvs\<close>: \<open>api/env.go\<close>, \<open>env_delta.go\<close>. A PUT or PATCH of variables changes exactly the user's own, a PUT of what a GET
    returned changes nothing, values are shown to those who may change them, and printed \<open>.env\<close> files are read back.
  \<^item> \<open>Auth\<close>, \<open>Users\<close>: \<open>internal/auth\<close>, \<open>api/auth.go\<close>, \<open>users.go\<close>, \<open>middleware.go\<close>. The last administrator stays (\<open>Holders\<close> is the
    argument it shares with the last owner), a password change ends the sessions before it, and obtaining the signing key returns.
    \<open>signingKey\<close> calls itself, so it is a partial function and \<open>None\<close> is a call that never returns.

  \<^bold>\<open>Interfaces.\<close> Where a component relies on another or several operations share a contract, the contract is a locale,
  interpreted on the model's own definitions in the theory that provides them.

  \<^bold>\<open>Parameters.\<close> Code outside the repository: the API server and its client, \<open>retry.RetryOnConflict\<close>, the condition helpers,
  SHA-256 and HMAC, bcrypt and the token library, the JSON codec, \<open>url.Parse\<close>, clocks, random bytes, the forges' HTTP interfaces. What a theorem needs of them
  is a named hypothesis, and its witness runs on a concrete instance (\<open>mem_server\<close> and the like).

  \<^bold>\<open>Bounds and idealisations.\<close> Sequence numbers of the activity log and display orders are integers without bound, tokens of the login
  limiter are rational, and numbers in tokens are exact (the code reads them as 64-bit floats, exact up to $2^{53}$). Loops over lists are recursive functions on them; the loops of five attempts take the number of attempts
  as a natural number. There is no other fuel. A deleted namespace is gone
  at once in the examples; the theorems on the project controller speak of the live ones.

  \<^bold>\<open>Not modelled.\<close> Of the application controller, the reconciliation of workloads, ingress, volumes, images and status; the
  controllers of build runs, git providers and the platform; the build, registry and ingress back ends; streaming
  and metrics; the command line client, the observer and the user interface. They are mostly calls to
  libraries and other services.
\<close>
end
